(* ===== verification/Kub_Prelude.thy ===== *)
theory Kub_Prelude
  imports Main "HOL-Library.Word"
begin

text \<open>
  Shared vocabulary of the development: identifiers, fallible state
  transformers (the shape of every \<open>async fn\<close> that returns a \<open>Result\<close>),
  Rust string helpers used by several crates, and generic lemmas on tables
  represented as lists of rows.
\<close>

named_theorems op_simps \<open>equations that run a fallible state transformer\<close>
named_theorems frame_simps \<open>components an operation leaves alone\<close>

section \<open>Identifiers and machine integers\<close>

text \<open>
  A UUID is compared, stored and displayed, never computed with; it is
  represented by its 128-bit value, \<open>Uuid::nil()\<close> being 0.
\<close>

type_synonym uuid = nat
type_synonym timestamp = int

definition nil_uuid :: uuid where
  "nil_uuid = 0"

definition i64_max :: int where
  "i64_max = 9223372036854775807"

definition i64_min :: int where
  "i64_min = - 9223372036854775808"

definition u64_max :: nat where
  "u64_max = 18446744073709551615"

text \<open>\<open>i64::try_from(n).unwrap_or(i64::MAX)\<close> and
  \<open>u64::try_from(i).unwrap_or_default()\<close>.\<close>

definition i64_of_u64 :: "nat \<Rightarrow> int" where
  "i64_of_u64 n = (if int n \<le> i64_max then int n else i64_max)"

definition u64_of_i64 :: "int \<Rightarrow> nat" where
  "u64_of_i64 i = (if i < 0 then 0 else nat i)"

lemma u64_of_i64_of_u64: "int n \<le> i64_max \<Longrightarrow> u64_of_i64 (i64_of_u64 n) = n"
  by (simp add: u64_of_i64_def i64_of_u64_def)

lemma i64_of_u64_bounds: "0 \<le> i64_of_u64 n \<and> i64_of_u64 n \<le> i64_max"
  by (simp add: i64_of_u64_def i64_max_def)

section \<open>Fallible state transformers\<close>

type_synonym ('s, 'e, 'a) op = "'s \<Rightarrow> ('e + 'a) \<times> 's"

definition ret :: "'a \<Rightarrow> ('s, 'e, 'a) op" where
  "ret a s = (Inr a, s)"

definition fail :: "'e \<Rightarrow> ('s, 'e, 'a) op" where
  "fail e s = (Inl e, s)"

text \<open>\<open>m.await?\<close> followed by the rest of the function.\<close>

definition bindE :: "('s, 'e, 'a) op \<Rightarrow> ('a \<Rightarrow> ('s, 'e, 'b) op) \<Rightarrow> ('s, 'e, 'b) op" where
  "bindE m k s = (case m s of (Inl e, s') \<Rightarrow> (Inl e, s') | (Inr a, s') \<Rightarrow> k a s')"

text \<open>\<open>match m.await { Ok(a) => k a, Err(e) => h e }\<close>.\<close>

definition catchE :: "('s, 'e, 'a) op \<Rightarrow> ('e \<Rightarrow> ('s, 'f, 'b) op) \<Rightarrow> ('a \<Rightarrow> ('s, 'f, 'b) op)
    \<Rightarrow> ('s, 'f, 'b) op" where
  "catchE m h k s = (case m s of (Inl e, s') \<Rightarrow> h e s' | (Inr a, s') \<Rightarrow> k a s')"

text \<open>\<open>m.await.ok();\<close> or \<open>let _ = m.await;\<close>: the outcome is dropped.\<close>

definition ignoreE :: "('s, 'e, 'a) op \<Rightarrow> ('s, 'f, unit) op" where
  "ignoreE m s = (Inr (), snd (m s))"

text \<open>\<open>m.await.map_err(f)?\<close>, which is also what a \<open>#[from]\<close> conversion does.\<close>

definition map_err :: "('e \<Rightarrow> 'f) \<Rightarrow> ('s, 'e, 'a) op \<Rightarrow> ('s, 'f, 'a) op" where
  "map_err f m s = (case m s of (Inl e, s') \<Rightarrow> (Inl (f e), s') | (Inr a, s') \<Rightarrow> (Inr a, s'))"

definition liftS :: "('s \<Rightarrow> 's) \<Rightarrow> ('s, 'e, unit) op" where
  "liftS f s = (Inr (), f s)"

definition getS :: "('s \<Rightarrow> 'a) \<Rightarrow> ('s, 'e, 'a) op" where
  "getS f s = (Inr (f s), s)"

definition of_option :: "'e \<Rightarrow> 'a option \<Rightarrow> ('s, 'e, 'a) op" where
  "of_option e v s = (case v of None \<Rightarrow> (Inl e, s) | Some a \<Rightarrow> (Inr a, s))"

text \<open>\<open>r.map_err(f)?\<close> on a computed result.\<close>

definition of_sum :: "('e \<Rightarrow> 'f) \<Rightarrow> 'e + 'a \<Rightarrow> ('s, 'f, 'a) op" where
  "of_sum f x s = (case x of Inl e \<Rightarrow> (Inl (f e), s) | Inr a \<Rightarrow> (Inr a, s))"

text \<open>\<open>for x in xs { f(x).await?; }\<close> and the same loop pushing every result.\<close>

fun forE :: "('a \<Rightarrow> ('s, 'e, unit) op) \<Rightarrow> 'a list \<Rightarrow> ('s, 'e, unit) op" where
  "forE f [] s = (Inr (), s)"
| "forE f (x # xs) s = (case f x s of (Inl e, s') \<Rightarrow> (Inl e, s') | (Inr _, s') \<Rightarrow> forE f xs s')"

fun collectE :: "('a \<Rightarrow> ('s, 'e, 'b) op) \<Rightarrow> 'a list \<Rightarrow> ('s, 'e, 'b list) op" where
  "collectE f [] s = (Inr [], s)"
| "collectE f (x # xs) s =
     (case f x s of
        (Inl e, s') \<Rightarrow> (Inl e, s')
      | (Inr y, s') \<Rightarrow>
          (case collectE f xs s' of
             (Inl e, s'') \<Rightarrow> (Inl e, s'')
           | (Inr ys, s'') \<Rightarrow> (Inr (y # ys), s'')))"

lemmas op_defs = ret_def fail_def bindE_def catchE_def ignoreE_def map_err_def liftS_def
  getS_def of_option_def

lemma ret_run [op_simps]: "ret a s = (Inr a, s)"
  by (simp add: ret_def)

lemma fail_run [op_simps]: "fail e s = (Inl e, s)"
  by (simp add: fail_def)

lemma bindE_Inr [op_simps]: "m s = (Inr a, s') \<Longrightarrow> bindE m k s = k a s'"
  by (simp add: bindE_def)

lemma bindE_Inl [op_simps]: "m s = (Inl e, s') \<Longrightarrow> bindE m k s = (Inl e, s')"
  by (simp add: bindE_def)

lemma bindE_eq_Inr:
  "bindE m k s = (Inr b, t) \<longleftrightarrow> (\<exists>a s'. m s = (Inr a, s') \<and> k a s' = (Inr b, t))"
  by (auto simp: bindE_def split: prod.splits sum.splits)

lemma bindE_eq_Inl:
  "bindE m k s = (Inl e, t) \<longleftrightarrow>
     m s = (Inl e, t) \<or> (\<exists>a s'. m s = (Inr a, s') \<and> k a s' = (Inl e, t))"
  by (auto simp: bindE_def split: prod.splits sum.splits)

lemma of_sum_eq_Inr: "of_sum f x s = (Inr a, t) \<longleftrightarrow> x = Inr a \<and> t = s"
  by (auto simp: of_sum_def split: sum.splits)

lemma map_err_eq_Inr [simp]: "map_err f m s = (Inr a, t) \<longleftrightarrow> m s = (Inr a, t)"
  by (auto simp: map_err_def split: prod.splits sum.splits)

lemma map_err_eq_Inl: "map_err f m s = (Inl e, t) \<longleftrightarrow> (\<exists>e'. m s = (Inl e', t) \<and> e = f e')"
  by (auto simp: map_err_def split: prod.splits sum.splits)

text \<open>
  An invariant of the state that every operation keeps, whatever its outcome.
  It composes over the control-flow combinators, so that a handler inherits it
  from the operations it calls.
\<close>

definition keeps :: "('s \<Rightarrow> bool) \<Rightarrow> ('s, 'e, 'a) op \<Rightarrow> bool" where
  "keeps P m \<longleftrightarrow> (\<forall>s. P s \<longrightarrow> P (snd (m s)))"

named_theorems keeps_intros \<open>operations and combinators that keep an invariant\<close>

lemma keepsI: "(\<And>s. P s \<Longrightarrow> P (snd (m s))) \<Longrightarrow> keeps P m"
  by (simp add: keeps_def)

lemma keepsD: "keeps P m \<Longrightarrow> P s \<Longrightarrow> P (snd (m s))"
  by (simp add: keeps_def)

lemma keeps_run: "keeps P m \<Longrightarrow> P s \<Longrightarrow> m s = (r, t) \<Longrightarrow> P t"
  by (auto simp: keeps_def dest: spec [of _ s])

lemma keeps_ret [keeps_intros]: "keeps P (ret a)"
  by (simp add: keeps_def ret_def)

lemma keeps_fail [keeps_intros]: "keeps P (fail e)"
  by (simp add: keeps_def fail_def)

lemma keeps_getS [keeps_intros]: "keeps P (getS f)"
  by (simp add: keeps_def getS_def)

lemma keeps_of_option [keeps_intros]: "keeps P (of_option e v)"
  by (simp add: keeps_def of_option_def split: option.splits)

lemma keeps_of_sum: "keeps P (of_sum f v)"
  by (simp add: keeps_def of_sum_def split: sum.splits)

lemma keeps_bindE [keeps_intros]: "keeps P m \<Longrightarrow> (\<And>a. keeps P (k a)) \<Longrightarrow> keeps P (bindE m k)"
  by (auto simp: keeps_def bindE_def split: prod.splits sum.splits)

lemma keeps_catchE [keeps_intros]:
  "keeps P m \<Longrightarrow> (\<And>e. keeps P (h e)) \<Longrightarrow> (\<And>a. keeps P (k a)) \<Longrightarrow> keeps P (catchE m h k)"
  by (auto simp: keeps_def catchE_def split: prod.splits sum.splits)

lemma keeps_ignoreE [keeps_intros]: "keeps P m \<Longrightarrow> keeps P (ignoreE m)"
  by (simp add: keeps_def ignoreE_def)

lemma keeps_map_err [keeps_intros]: "keeps P m \<Longrightarrow> keeps P (map_err f m)"
  by (auto simp: keeps_def map_err_def split: prod.splits sum.splits)

lemma keeps_if [keeps_intros]: "keeps P m \<Longrightarrow> keeps P n \<Longrightarrow> keeps P (if b then m else n)"
  by simp

lemma keeps_forE [keeps_intros]:
  assumes "\<And>x. keeps P (f x)"
  shows "keeps P (forE f xs)"
proof (rule keepsI)
  fix s assume "P s"
  then show "P (snd (forE f xs s))"
  proof (induction xs arbitrary: s)
    case (Cons x xs)
    from keepsD [OF assms Cons.prems, of x] Cons.IH show ?case
      by (auto split: prod.splits sum.splits)
  qed simp
qed

lemma keeps_collectE [keeps_intros]:
  assumes "\<And>x. keeps P (f x)"
  shows "keeps P (collectE f xs)"
proof (rule keepsI)
  fix s assume "P s"
  then show "P (snd (collectE f xs s))"
  proof (induction xs arbitrary: s)
    case (Cons x xs)
    from keepsD [OF assms Cons.prems, of x] Cons.IH show ?case
      by (auto split: prod.splits sum.splits) (metis snd_conv)+
  qed simp
qed

lemma collectE_length: "collectE f xs s = (Inr ys, t) \<Longrightarrow> length ys = length xs"
  by (induction xs arbitrary: s ys) (auto split: prod.splits sum.splits)

section \<open>Tables as lists of rows\<close>

text \<open>
  \<open>UPDATE .. WHERE p\<close> rewrites the rows that satisfy \<open>p\<close>; \<open>rows_affected\<close>
  counts them.
\<close>

definition sql_update :: "('r \<Rightarrow> bool) \<Rightarrow> ('r \<Rightarrow> 'r) \<Rightarrow> 'r list \<Rightarrow> 'r list" where
  "sql_update p f rows = map (\<lambda>r. if p r then f r else r) rows"

definition sql_count :: "('r \<Rightarrow> bool) \<Rightarrow> 'r list \<Rightarrow> nat" where
  "sql_count p rows = length (filter p rows)"

lemma sql_count_zero: "sql_count p rows = 0 \<longleftrightarrow> (\<forall>r \<in> set rows. \<not> p r)"
  by (simp add: sql_count_def filter_empty_conv)

lemma sql_update_none: "(\<And>r. r \<in> set rows \<Longrightarrow> \<not> p r) \<Longrightarrow> sql_update p f rows = rows"
  by (simp add: sql_update_def map_idI)

lemma filter_sql_update_other:
  assumes "\<And>r. q r \<Longrightarrow> \<not> p r" and "\<And>r. p r \<Longrightarrow> \<not> q (f r)"
  shows "filter q (sql_update p f rows) = filter q rows"
  using assms by (induction rows) (auto simp: sql_update_def)

lemma filter_update_tenant:
  assumes "\<And>r. h r \<Longrightarrow> g r \<noteq> org" and "\<And>r. g (f r) = g r"
  shows "filter (\<lambda>r. g r = org) (sql_update h f rows) = filter (\<lambda>r. g r = org) rows"
  using assms by (induction rows) (auto simp: sql_update_def)

lemma map_sql_update_same:
  assumes "\<And>r. g (f r) = g r"
  shows "map g (sql_update p f rows) = map g rows"
  using assms by (induction rows) (auto simp: sql_update_def)

lemma set_sql_update: "set (sql_update p f rows) = (\<lambda>r. if p r then f r else r) ` set rows"
  by (simp add: sql_update_def)

lemma bex_sql_update:
  "(\<exists>x \<in> set (sql_update p f rows). P x) \<longleftrightarrow> (\<exists>r \<in> set rows. P (if p r then f r else r))"
  unfolding set_sql_update by blast

lemma ball_sql_update:
  "(\<forall>x \<in> set (sql_update p f rows). P x) \<longleftrightarrow> (\<forall>r \<in> set rows. P (if p r then f r else r))"
  unfolding set_sql_update by blast

lemma sql_update_append [simp]:
  "sql_update p f (xs @ ys) = sql_update p f xs @ sql_update p f ys"
  by (simp add: sql_update_def)

lemma sql_update_Nil [simp]: "sql_update p f [] = []"
  by (simp add: sql_update_def)

lemma sql_update_Cons [simp]:
  "sql_update p f (x # xs) = (if p x then f x else x) # sql_update p f xs"
  by (simp add: sql_update_def)

lemma length_sql_update [simp]: "length (sql_update p f xs) = length xs"
  by (simp add: sql_update_def)

lemma find_Some_iff2: "find p xs = Some x \<Longrightarrow> p x \<and> x \<in> set xs"
  by (induction xs) (auto split: if_splits)

lemma find_None_iff_all: "find p xs = None \<longleftrightarrow> (\<forall>x \<in> set xs. \<not> p x)"
  by (induction xs) auto

lemma find_unique:
  assumes "r \<in> set xs" and "p r" and "\<And>x. x \<in> set xs \<Longrightarrow> p x \<Longrightarrow> x = r"
  shows "find p xs = Some r"
proof (cases "find p xs")
  case None
  with assms(1,2) show ?thesis by (simp add: find_None_iff_all)
next
  case (Some y)
  with assms(3) [of y] show ?thesis by (auto dest: find_Some_iff2)
qed

lemma find_append: "find p (xs @ ys) = (case find p xs of None \<Rightarrow> find p ys | Some x \<Rightarrow> Some x)"
  by (induction xs) auto

lemma find_cong_set: "(\<And>x. x \<in> set xs \<Longrightarrow> p x = q x) \<Longrightarrow> find p xs = find q xs"
  by (induction xs) auto

section \<open>Rust strings\<close>

text \<open>
  A Rust \<open>String\<close> is its list of ASCII characters. The helpers follow the
  standard library on ASCII text.
\<close>

definition is_ws :: "char \<Rightarrow> bool" where
  "is_ws c \<longleftrightarrow> (let n = of_char c :: nat in n = 32 \<or> (9 \<le> n \<and> n \<le> 13))"

definition trim :: "string \<Rightarrow> string" where
  "trim s = rev (dropWhile is_ws (rev (dropWhile is_ws s)))"

definition starts_with :: "string \<Rightarrow> string \<Rightarrow> bool" where
  "starts_with s p \<longleftrightarrow> take (length p) s = p"

fun contains_str :: "string \<Rightarrow> string \<Rightarrow> bool" where
  "contains_str [] p = (p = [])"
| "contains_str (c # s) p = (starts_with (c # s) p \<or> contains_str s p)"

definition lower_char :: "char \<Rightarrow> char" where
  "lower_char c = (let n = of_char c :: nat in if 65 \<le> n \<and> n \<le> 90 then char_of (n + 32) else c)"

definition upper_char :: "char \<Rightarrow> char" where
  "upper_char c = (let n = of_char c :: nat in if 97 \<le> n \<and> n \<le> 122 then char_of (n - 32) else c)"

definition to_ascii_lowercase :: "string \<Rightarrow> string" where
  "to_ascii_lowercase s = map lower_char s"

definition eq_ignore_ascii_case :: "string \<Rightarrow> string \<Rightarrow> bool" where
  "eq_ignore_ascii_case a b \<longleftrightarrow> to_ascii_lowercase a = to_ascii_lowercase b"

text \<open>Decimal rendering of an unsigned integer (\<open>{}\<close>) and zero-padded to two
  digits (\<open>{:02}\<close>).\<close>

definition digit_char :: "nat \<Rightarrow> char" where
  "digit_char d = char_of (48 + d)"

fun show_nat :: "nat \<Rightarrow> string" where
  "show_nat n = (if n < 10 then [digit_char n] else show_nat (n div 10) @ [digit_char (n mod 10)])"

declare show_nat.simps [simp del]

definition show_int :: "int \<Rightarrow> string" where
  "show_int i = (if i < 0 then CHR ''-'' # show_nat (nat (- i)) else show_nat (nat i))"

definition show_pad2 :: "nat \<Rightarrow> string" where
  "show_pad2 n = (if n < 10 then CHR ''0'' # show_nat n else show_nat n)"

definition is_digit :: "char \<Rightarrow> bool" where
  "is_digit c \<longleftrightarrow> (48 :: nat) \<le> of_char c \<and> (of_char c :: nat) \<le> 57"

fun parse_digits :: "nat \<Rightarrow> string \<Rightarrow> nat option" where
  "parse_digits acc [] = Some acc"
| "parse_digits acc (c # s) =
     (if is_digit c then parse_digits (10 * acc + (of_char c - 48)) s else None)"

definition parse_nat :: "string \<Rightarrow> nat option" where
  "parse_nat s = (if s = [] then None else parse_digits 0 s)"

lemma of_char_digit: "d < 10 \<Longrightarrow> (of_char (digit_char d) :: nat) = 48 + d"
  by (simp add: digit_char_def)

lemma is_digit_digit_char: "d < 10 \<Longrightarrow> is_digit (digit_char d)"
  by (simp add: is_digit_def of_char_digit)

lemma parse_digits_append:
  "parse_digits acc (xs @ ys) =
     (case parse_digits acc xs of None \<Rightarrow> None | Some a \<Rightarrow> parse_digits a ys)"
  by (induction acc xs rule: parse_digits.induct) auto

lemma show_nat_nonempty: "show_nat n \<noteq> []"
  by (subst show_nat.simps) simp

lemma parse_digits_show_nat: "parse_digits 0 (show_nat n) = Some n"
proof (induction n rule: show_nat.induct)
  case (1 n)
  show ?case
  proof (cases "n < 10")
    case True
    then show ?thesis
      by (subst show_nat.simps) (simp add: is_digit_digit_char of_char_digit)
  next
    case False
    then have "parse_digits 0 (show_nat (n div 10)) = Some (n div 10)"
      by (rule "1.IH")
    with False show ?thesis
      by (subst show_nat.simps) (simp add: parse_digits_append is_digit_digit_char of_char_digit)
  qed
qed

lemma parse_show_nat: "parse_nat (show_nat n) = Some n"
  by (simp add: parse_nat_def parse_digits_show_nat show_nat_nonempty)

lemma show_nat_inj: "show_nat m = show_nat n \<longleftrightarrow> m = n"
  by (metis parse_digits_show_nat option.inject)

lemma parse_show_pad2: "parse_digits 0 (show_pad2 n) = Some n"
proof -
  have "is_digit (CHR ''0'')" and "(of_char (CHR ''0'') :: nat) = 48"
    by (simp_all add: is_digit_def)
  then show ?thesis
    by (simp add: show_pad2_def parse_digits_show_nat)
qed

lemma show_pad2_inj: "show_pad2 m = show_pad2 n \<longleftrightarrow> m = n"
  by (metis parse_show_pad2 option.inject)

lemma starts_with_append [simp]: "starts_with (p @ s) p"
  by (simp add: starts_with_def)

lemma contains_starts: "starts_with s p \<Longrightarrow> contains_str s p"
  by (cases s) (auto simp: starts_with_def)

end
