(* ===== verification/Pg_Model.thy ===== *)
theory Pg_Model
  imports Kub_Prelude "HOL-Library.Product_Lexorder"
begin

text \<open>
  The platform crate and the database below it: error types
  (\<open>platform/src/error.rs\<close>, \<open>platform/src/secrets.rs\<close>), tenant-scoped
  transactions and row-level security (\<open>platform/src/tenant.rs\<close> and the
  policies of the migrations), the audit context (\<open>platform/src/audit.rs\<close>) and
  the hash-chained audit log its triggers maintain.

  The state record \<open>pg\<close> is the part of the database every component shares;
  each component extends it with its own tables. What lies outside the
  repository is data of the state: the role of the pool, the clock, the
  outcome of the n-th database round trip, the UUID generator, the text form
  of a UUID and the SHA-256 digest.
\<close>

section \<open>Errors\<close>

datatype sqlx_error =
    SqlxConnection | SqlxUnique | SqlxRls | SqlxCheck | SqlxForeignKey | SqlxOther string

datatype secret_error =
    SecNotFound uuid
  | SecDecrypt
  | SecInvalidKek string
  | SecAuthFailed string
  | SecDatabase sqlx_error

datatype platform_error =
    NotFound string
  | Forbidden string
  | MfaRequired string
  | Invalid string
  | Conflict string
  | Database sqlx_error
  | Secret secret_error
  | Internal string

section \<open>Audit context and audit entries\<close>

record audit_ctx =
  actor_user_id :: "uuid option"
  request_id :: "string option"
  ip :: "string option"
  user_agent :: "string option"

record audit_entry =
  ae_id :: uuid
  ae_org :: uuid
  ae_actor :: "uuid option"
  ae_action :: string
  ae_resource_type :: string
  ae_resource_id :: string
  ae_decision :: string
  ae_request_id :: "string option"
  ae_ip :: "string option"
  ae_user_agent :: "string option"
  ae_metadata :: string
  ae_prev_hash :: "string option"
  ae_hash :: string
  ae_created_at :: timestamp

section \<open>The shared database state\<close>

record pg =
  pg_bypass :: bool
  pg_clock :: "nat \<Rightarrow> timestamp"
  pg_fault :: "nat \<Rightarrow> bool"
  pg_calls :: nat
  pg_uuid :: "nat \<Rightarrow> uuid"
  pg_uuid_ctr :: nat
  pg_uuid_text :: "uuid \<Rightarrow> string"
  pg_digest :: "string \<Rightarrow> string"
  pg_audit :: "audit_entry list"

definition now :: "'z pg_scheme \<Rightarrow> timestamp" where
  "now s = pg_clock s (pg_calls s)"

definition tick :: "'z pg_scheme \<Rightarrow> 'z pg_scheme" where
  "tick s = s\<lparr>pg_calls := Suc (pg_calls s)\<rparr>"

text \<open>\<open>Uuid::now_v7()\<close> (and \<open>gen_random_uuid()\<close> in SQL).\<close>

definition new_id :: "('z pg_scheme, 'e, uuid) op" where
  "new_id s = (Inr (pg_uuid s (pg_uuid_ctr s)), s\<lparr>pg_uuid_ctr := Suc (pg_uuid_ctr s)\<rparr>)"

text \<open>
  A transaction, or a single statement on the pool. The round trip may fail;
  an error inside the block drops the transaction, which rolls it back.
\<close>

definition tx :: "(sqlx_error \<Rightarrow> 'e) \<Rightarrow> ('z pg_scheme, 'e, 'a) op \<Rightarrow> ('z pg_scheme, 'e, 'a) op" where
  "tx dberr m s =
     (if pg_fault s (pg_calls s) then (Inl (dberr SqlxConnection), tick s)
      else case m s of
             (Inl e, s') \<Rightarrow> (Inl e, tick s)
           | (Inr a, s') \<Rightarrow> (Inr a, tick s'))"

text \<open>
  Row-level security. \<open>app_current_tenant_id()\<close> is the value of the last
  \<open>SET LOCAL app.current_tenant_id\<close>, or the nil UUID when a query runs outside
  a tenant-scoped transaction; a policy shows (and accepts) exactly the rows
  of that tenant, unless the role bypasses row-level security.
\<close>

definition app_current_tenant_id :: "uuid option \<Rightarrow> uuid" where
  "app_current_tenant_id guc = (case guc of None \<Rightarrow> nil_uuid | Some t \<Rightarrow> t)"

definition rls :: "'z pg_scheme \<Rightarrow> uuid option \<Rightarrow> uuid \<Rightarrow> bool" where
  "rls s guc org \<longleftrightarrow> pg_bypass s \<or> org = app_current_tenant_id guc"

lemma rls_app_role: "\<not> pg_bypass s \<Longrightarrow> rls s (Some t) org \<longleftrightarrow> org = t"
  by (simp add: rls_def app_current_tenant_id_def)

lemma rls_unscoped: "\<not> pg_bypass s \<Longrightarrow> rls s None org \<longleftrightarrow> org = nil_uuid"
  by (simp add: rls_def app_current_tenant_id_def)

section \<open>The hash-chained audit log\<close>

definition audit_log_hash_input ::
    "(uuid \<Rightarrow> string) \<Rightarrow> string option \<Rightarrow> uuid \<Rightarrow> string \<Rightarrow> string \<Rightarrow> string \<Rightarrow> string" where
  "audit_log_hash_input txt prev org action rtype rid =
     (case prev of None \<Rightarrow> [] | Some h \<Rightarrow> h) @ txt org @ ''|'' @ action @ ''|'' @ rtype @ ''|'' @ rid"

definition audit_key :: "audit_entry \<Rightarrow> timestamp \<times> uuid" where
  "audit_key e = (ae_created_at e, ae_id e)"

text \<open>\<open>WHERE organization_id = .. ORDER BY created_at ASC, id ASC\<close>.\<close>

definition audit_chain :: "uuid \<Rightarrow> audit_entry list \<Rightarrow> audit_entry list" where
  "audit_chain org es = sort_key audit_key (filter (\<lambda>e. ae_org e = org) es)"

definition audit_tail :: "uuid \<Rightarrow> audit_entry list \<Rightarrow> string option" where
  "audit_tail org es = (case rev (audit_chain org es) of [] \<Rightarrow> None | e # _ \<Rightarrow> Some (ae_hash e))"

definition audit_log_append_explicit ::
    "audit_ctx \<Rightarrow> uuid \<Rightarrow> string \<Rightarrow> string \<Rightarrow> string \<Rightarrow> string \<Rightarrow> string
      \<Rightarrow> 'z pg_scheme \<Rightarrow> 'z pg_scheme" where
  "audit_log_append_explicit ctx org action rtype rid decision meta s =
     (let prev = audit_tail org (pg_audit s);
          h = pg_digest s (audit_log_hash_input (pg_uuid_text s) prev org action rtype rid)
      in s\<lparr>pg_audit := pg_audit s @
             [\<lparr>ae_id = pg_uuid s (pg_uuid_ctr s), ae_org = org, ae_actor = actor_user_id ctx,
               ae_action = action, ae_resource_type = rtype, ae_resource_id = rid,
               ae_decision = decision, ae_request_id = request_id ctx, ae_ip = ip ctx,
               ae_user_agent = user_agent ctx, ae_metadata = meta, ae_prev_hash = prev,
               ae_hash = h, ae_created_at = now s\<rparr>],
           pg_uuid_ctr := Suc (pg_uuid_ctr s)\<rparr>)"

text \<open>\<open>audit_log_append_trigger\<close>: one entry per affected row.\<close>

definition audit_log_append_trigger ::
    "audit_ctx \<Rightarrow> string \<Rightarrow> string \<Rightarrow> uuid \<Rightarrow> uuid \<Rightarrow> 'z pg_scheme \<Rightarrow> 'z pg_scheme" where
  "audit_log_append_trigger ctx tbl verb org rid s =
     audit_log_append_explicit ctx org (tbl @ verb) tbl (pg_uuid_text s rid) ''allowed'' ''{}'' s"

definition audit_rows ::
    "audit_ctx \<Rightarrow> string \<Rightarrow> string \<Rightarrow> (uuid \<times> uuid) list \<Rightarrow> 'z pg_scheme \<Rightarrow> 'z pg_scheme" where
  "audit_rows ctx tbl verb rows s =
     fold (\<lambda>(org, rid) s. audit_log_append_trigger ctx tbl verb org rid s) rows s"

fun audit_verify_from :: "(string \<Rightarrow> string) \<Rightarrow> (uuid \<Rightarrow> string) \<Rightarrow> string option \<Rightarrow> audit_entry list
    \<Rightarrow> (uuid \<times> string) list" where
  "audit_verify_from dig txt prev [] = []"
| "audit_verify_from dig txt prev (r # rs) =
     (if ae_prev_hash r \<noteq> prev then [(ae_id r, ''prev_hash mismatch'')] else []) @
     (if ae_hash r \<noteq> dig (audit_log_hash_input txt prev (ae_org r) (ae_action r)
                            (ae_resource_type r) (ae_resource_id r))
      then [(ae_id r, ''hash mismatch'')] else []) @
     audit_verify_from dig txt (Some (ae_hash r)) rs"

definition audit_log_verify :: "uuid \<Rightarrow> 'z pg_scheme \<Rightarrow> (uuid \<times> string) list" where
  "audit_log_verify org s =
     audit_verify_from (pg_digest s) (pg_uuid_text s) None (audit_chain org (pg_audit s))"

text \<open>The two Rust wrappers of \<open>platform/src/audit.rs\<close>; the caller holds the
  connection, so neither opens a transaction of its own.\<close>

definition append_explicit ::
    "audit_ctx \<Rightarrow> uuid \<Rightarrow> string \<Rightarrow> string \<Rightarrow> string option \<Rightarrow> string \<Rightarrow> string
      \<Rightarrow> ('z pg_scheme, platform_error, uuid) op" where
  "append_explicit ctx org action rtype rid decision meta s =
     (Inr (pg_uuid s (pg_uuid_ctr s)),
      audit_log_append_explicit ctx org action rtype (case rid of None \<Rightarrow> [] | Some r \<Rightarrow> r)
        decision meta s)"

definition verify_chain :: "uuid \<Rightarrow> ('z pg_scheme, platform_error, (uuid \<times> string) list) op" where
  "verify_chain org s = (Inr (audit_log_verify org s), s)"

section \<open>What a transaction and an audit append leave alone\<close>

lemma tick_simps [simp]:
  "pg_bypass (tick s) = pg_bypass s" "pg_clock (tick s) = pg_clock s"
  "pg_fault (tick s) = pg_fault s" "pg_calls (tick s) = Suc (pg_calls s)"
  "pg_uuid (tick s) = pg_uuid s" "pg_uuid_ctr (tick s) = pg_uuid_ctr s"
  "pg_uuid_text (tick s) = pg_uuid_text s" "pg_digest (tick s) = pg_digest s"
  "pg_audit (tick s) = pg_audit s" "pg.more (tick s) = pg.more s"
  by (simp_all add: tick_def)

lemma audit_append_simps [simp]:
  "pg_bypass (audit_log_append_explicit c g a t r d m s) = pg_bypass s"
  "pg_clock (audit_log_append_explicit c g a t r d m s) = pg_clock s"
  "pg_fault (audit_log_append_explicit c g a t r d m s) = pg_fault s"
  "pg_calls (audit_log_append_explicit c g a t r d m s) = pg_calls s"
  "pg_uuid (audit_log_append_explicit c g a t r d m s) = pg_uuid s"
  "pg_uuid_text (audit_log_append_explicit c g a t r d m s) = pg_uuid_text s"
  "pg_digest (audit_log_append_explicit c g a t r d m s) = pg_digest s"
  "pg.more (audit_log_append_explicit c g a t r d m s) = pg.more s"
  by (simp_all add: audit_log_append_explicit_def Let_def)

lemma audit_trigger_simps [simp]:
  "pg_bypass (audit_log_append_trigger c tb v g r s) = pg_bypass s"
  "pg_clock (audit_log_append_trigger c tb v g r s) = pg_clock s"
  "pg_fault (audit_log_append_trigger c tb v g r s) = pg_fault s"
  "pg_calls (audit_log_append_trigger c tb v g r s) = pg_calls s"
  "pg_uuid (audit_log_append_trigger c tb v g r s) = pg_uuid s"
  "pg_uuid_text (audit_log_append_trigger c tb v g r s) = pg_uuid_text s"
  "pg_digest (audit_log_append_trigger c tb v g r s) = pg_digest s"
  "pg.more (audit_log_append_trigger c tb v g r s) = pg.more s"
  by (simp_all add: audit_log_append_trigger_def)

lemma audit_rows_Nil [simp]: "audit_rows c tb v [] s = s"
  by (simp add: audit_rows_def)

lemma audit_rows_Cons:
  "audit_rows c tb v ((g, r) # rows) s = audit_rows c tb v rows (audit_log_append_trigger c tb v g r s)"
  by (simp add: audit_rows_def)

lemma audit_rows_one [simp]:
  "audit_rows c tb v [(g, r)] s = audit_log_append_trigger c tb v g r s"
  by (simp add: audit_rows_def)

lemma audit_rows_simps [simp]:
  "pg_bypass (audit_rows c tb v rows s) = pg_bypass s"
  "pg_clock (audit_rows c tb v rows s) = pg_clock s"
  "pg_fault (audit_rows c tb v rows s) = pg_fault s"
  "pg_calls (audit_rows c tb v rows s) = pg_calls s"
  "pg_uuid (audit_rows c tb v rows s) = pg_uuid s"
  "pg_uuid_text (audit_rows c tb v rows s) = pg_uuid_text s"
  "pg_digest (audit_rows c tb v rows s) = pg_digest s"
  "pg.more (audit_rows c tb v rows s) = pg.more s"
  by (induction rows arbitrary: s) (auto simp: audit_rows_Cons)

lemma now_simps [simp]:
  "now (s\<lparr>pg_uuid_ctr := n\<rparr>) = now s" "now (s\<lparr>pg_audit := es\<rparr>) = now s"
  "now (audit_log_append_trigger c tb v g r s) = now s"
  "now (audit_log_append_explicit c g a t rid d m s) = now s"
  by (simp_all add: now_def)

lemma tx_cases:
  assumes "tx dberr m s = (r, t)"
  obtains (fault) "r = Inl (dberr SqlxConnection)" "t = tick s" "pg_fault s (pg_calls s)"
  | (error) e s' where "m s = (Inl e, s')" "r = Inl e" "t = tick s" "\<not> pg_fault s (pg_calls s)"
  | (ok) a s' where "m s = (Inr a, s')" "r = Inr a" "t = tick s'" "\<not> pg_fault s (pg_calls s)"
  using assms by (auto simp: tx_def split: if_splits prod.splits sum.splits)

lemma tx_no_fault:
  "\<not> pg_fault s (pg_calls s) \<Longrightarrow>
     tx dberr m s = (case m s of (Inl e, s') \<Rightarrow> (Inl e, tick s) | (Inr a, s') \<Rightarrow> (Inr a, tick s'))"
  by (simp add: tx_def)

lemma tx_eq_Inr:
  "tx dberr m s = (Inr a, t) \<longleftrightarrow>
     \<not> pg_fault s (pg_calls s) \<and> (\<exists>s'. m s = (Inr a, s') \<and> t = tick s')"
  by (auto simp: tx_def split: prod.splits sum.splits)

lemma tx_eq_Inl:
  "tx dberr m s = (Inl e, t) \<longleftrightarrow>
     t = tick s \<and> (pg_fault s (pg_calls s) \<and> e = dberr SqlxConnection
                  \<or> \<not> pg_fault s (pg_calls s) \<and> (\<exists>s'. m s = (Inl e, s')))"
  by (auto simp: tx_def split: prod.splits sum.splits)

lemma keeps_tx:
  assumes "\<And>s. P s \<Longrightarrow> P (tick s)" and "\<And>s a s'. P s \<Longrightarrow> m s = (Inr a, s') \<Longrightarrow> P s'"
  shows "keeps P (tx dberr m)"
  using assms by (auto simp: keeps_def tx_def split: prod.splits sum.splits)

section \<open>Tenant isolation as a contract\<close>

text \<open>
  A component acts for tenants: \<open>exec c\<close> is a mutating call made for
  \<open>tenant c\<close>, \<open>answer q\<close> the result of a query made for \<open>qtenant q\<close>, and
  \<open>view org\<close> the rows that belong to \<open>org\<close>. \<open>ready\<close> says that the database
  answers the next query.
\<close>

locale tenant_isolation =
  fixes exec :: "'c \<Rightarrow> 's \<Rightarrow> 's"
    and tenant :: "'c \<Rightarrow> uuid"
    and answer :: "'q \<Rightarrow> 's \<Rightarrow> 'a"
    and qtenant :: "'q \<Rightarrow> uuid"
    and view :: "uuid \<Rightarrow> 's \<Rightarrow> 'v"
    and app_role :: "'s \<Rightarrow> bool"
    and ready :: "'s \<Rightarrow> bool"
  assumes exec_role: "app_role s \<Longrightarrow> app_role (exec c s)"
    and exec_other: "app_role s \<Longrightarrow> tenant c \<noteq> org \<Longrightarrow> view org (exec c s) = view org s"
    and answer_own: "app_role s \<Longrightarrow> app_role t \<Longrightarrow> ready s \<Longrightarrow> ready t \<Longrightarrow>
          view (qtenant q) s = view (qtenant q) t \<Longrightarrow> answer q s = answer q t"
begin

lemma run_role: "app_role s \<Longrightarrow> app_role (fold exec cs s)"
  by (induction cs arbitrary: s) (auto simp: exec_role)

lemma run_other:
  "app_role s \<Longrightarrow> (\<And>c. c \<in> set cs \<Longrightarrow> tenant c \<noteq> org) \<Longrightarrow> view org (fold exec cs s) = view org s"
proof (induction cs arbitrary: s)
  case (Cons c cs)
  then have "view org (fold exec cs (exec c s)) = view org (exec c s)"
    by (intro Cons.IH) (auto simp: exec_role)
  with Cons.prems show ?case by (simp add: exec_other)
qed simp

lemma noninterference:
  assumes "app_role s" and "\<And>c. c \<in> set cs \<Longrightarrow> tenant c \<noteq> qtenant q"
    and "ready s" and "ready (fold exec cs s)"
  shows "answer q (fold exec cs s) = answer q s"
  using assms run_role run_other by (intro answer_own) auto

end

section \<open>Integrity of the audit chain\<close>

text \<open>
  The invariant of the log: entries lie in the past, in the order in which
  they were written, and the clock runs forward.
\<close>

definition audit_wf :: "'z pg_scheme \<Rightarrow> bool" where
  "audit_wf s \<longleftrightarrow> strict_mono (pg_clock s) \<and> sorted_wrt (\<lambda>a b. audit_key a < audit_key b) (pg_audit s)
     \<and> (\<forall>e \<in> set (pg_audit s). ae_created_at e < now s)"

lemma sorted_wrt_audit_chain:
  assumes "sorted_wrt (\<lambda>a b. audit_key a < audit_key b) es"
  shows "audit_chain org es = filter (\<lambda>e. ae_org e = org) es"
proof -
  have "sorted_wrt (\<lambda>a b. audit_key a < audit_key b) (filter (\<lambda>e. ae_org e = org) es)"
    using assms by (simp add: sorted_wrt_filter)
  then have "sorted (map audit_key (filter (\<lambda>e. ae_org e = org) es))"
    unfolding sorted_map by (rule sorted_wrt_mono_rel [rotated]) auto
  then show ?thesis
    by (simp add: audit_chain_def sorted_sort_id sort_key_id_if_sorted)
qed

lemma audit_verify_from_append:
  "audit_verify_from dig txt prev (xs @ ys) =
     audit_verify_from dig txt prev xs @
     audit_verify_from dig txt (if xs = [] then prev else Some (ae_hash (last xs))) ys"
  by (induction xs arbitrary: prev) auto


text \<open>A verified log: well formed, and every tenant's chain checks.\<close>

definition audit_ok :: "'z pg_scheme \<Rightarrow> bool" where
  "audit_ok s \<longleftrightarrow> audit_wf s \<and> (\<forall>org. audit_log_verify org s = [])"

lemma audit_wf_chain:
  "audit_wf s \<Longrightarrow> audit_chain org (pg_audit s) = filter (\<lambda>e. ae_org e = org) (pg_audit s)"
  by (simp add: audit_wf_def sorted_wrt_audit_chain)

lemma audit_wf_tail:
  assumes "audit_wf s"
  shows "audit_tail org (pg_audit s) =
    (let es = filter (\<lambda>e. ae_org e = org) (pg_audit s) in
     if es = [] then None else Some (ae_hash (last es)))"
  unfolding audit_tail_def audit_wf_chain [OF assms] Let_def
  by (cases "filter (\<lambda>e. ae_org e = org) (pg_audit s)" rule: rev_cases) auto

lemma audit_ok_chain:
  assumes "audit_ok s"
  shows "audit_verify_from (pg_digest s) (pg_uuid_text s) None
     (filter (\<lambda>e. ae_org e = org) (pg_audit s)) = []"
  using assms by (metis audit_ok_def audit_log_verify_def audit_wf_chain)

lemma now_less_tick: "strict_mono (pg_clock s) \<Longrightarrow> now s < now (tick s)"
  by (simp add: now_def strict_mono_Suc_iff)

lemma audit_wf_tick: "audit_wf s \<Longrightarrow> audit_wf (tick s)"
  using now_less_tick [of s] by (fastforce simp: audit_wf_def)

lemma audit_ok_tick: "audit_ok s \<Longrightarrow> audit_ok (tick s)"
  by (simp add: audit_ok_def audit_wf_tick audit_log_verify_def)

lemma audit_wf_append:
  assumes "audit_wf s"
  shows "audit_wf (tick (audit_log_append_explicit c g a t r d m s))"
proof -
  let ?s = "audit_log_append_explicit c g a t r d m s"
  have "sorted_wrt (\<lambda>a b. audit_key a < audit_key b) (pg_audit ?s)"
    using assms
    by (auto simp: audit_wf_def audit_log_append_explicit_def Let_def sorted_wrt_append audit_key_def)
  moreover have "\<forall>e \<in> set (pg_audit ?s). ae_created_at e < now (tick ?s)"
    using assms now_less_tick [of s]
    by (fastforce simp: audit_wf_def audit_log_append_explicit_def Let_def now_def)
  ultimately show ?thesis
    using assms by (simp add: audit_wf_def)
qed

lemma audit_ok_append:
  assumes ok: "audit_ok s"
  shows "audit_ok (tick (audit_log_append_explicit c g a t r d m s))"
proof -
  let ?s = "audit_log_append_explicit c g a t r d m s"
  let ?F = "\<lambda>org. filter (\<lambda>e. ae_org e = org) (pg_audit s)"
  from ok have wf: "audit_wf s" by (simp add: audit_ok_def)
  then have wf': "audit_wf (tick ?s)" by (rule audit_wf_append)
  obtain e where e: "pg_audit ?s = pg_audit s @ [e]" and org: "ae_org e = g"
    and prev: "ae_prev_hash e = audit_tail g (pg_audit s)"
    and hash: "ae_hash e = pg_digest s (audit_log_hash_input (pg_uuid_text s) (ae_prev_hash e)
                 (ae_org e) (ae_action e) (ae_resource_type e) (ae_resource_id e))"
    by (simp add: audit_log_append_explicit_def Let_def)
  have "audit_log_verify org (tick ?s) = []" for org
  proof -
    have ch: "audit_chain org (pg_audit (tick ?s)) = ?F org @ (if org = g then [e] else [])"
      using audit_wf_chain [OF wf', of org] by (simp add: e org)
    show ?thesis
    proof (cases "org = g")
      case True
      have "(if ?F g = [] then None else Some (ae_hash (last (?F g)))) = ae_prev_hash e"
        using audit_wf_tail [OF wf, of g] by (simp add: prev Let_def)
      then show ?thesis
        using True hash audit_ok_chain [OF ok, of g]
        unfolding audit_log_verify_def ch by (simp add: audit_verify_from_append)
    next
      case False
      then show ?thesis
        using audit_ok_chain [OF ok, of org] unfolding audit_log_verify_def ch by simp
    qed
  qed
  with wf' show ?thesis by (simp add: audit_ok_def)
qed

lemma audit_ok_trigger:
  "audit_ok s \<Longrightarrow> audit_ok (tick (audit_log_append_trigger c tb v g r s))"
  by (simp add: audit_log_append_trigger_def audit_ok_append)

text \<open>A statement on a table keyed by a primary key affects at most one row.\<close>

lemma audit_ok_rows:
  assumes "audit_ok s" and "length rows \<le> 1"
  shows "audit_ok (tick (audit_rows c tb v rows s))"
proof (cases rows)
  case Nil
  with assms(1) show ?thesis by (simp add: audit_ok_tick)
next
  case (Cons x xs)
  with assms(2) have "rows = [x]" by simp
  with assms(1) show ?thesis by (cases x) (simp add: audit_ok_trigger)
qed

lemma audit_ok_cong:
  assumes "pg_clock t = pg_clock s" "pg_calls t = pg_calls s" "pg_uuid_text t = pg_uuid_text s"
    "pg_digest t = pg_digest s" "pg_audit t = pg_audit s"
  shows "audit_ok t \<longleftrightarrow> audit_ok s"
  using assms by (simp add: audit_ok_def audit_wf_def audit_log_verify_def now_def)

text \<open>
  What the chain protects: when the digest has no collision among the inputs
  of two verified chains of the same length, and they end in the same hash,
  they agree on every hashed field sequence.
\<close>

definition audit_payload :: "(uuid \<Rightarrow> string) \<Rightarrow> audit_entry \<Rightarrow> string" where
  "audit_payload txt e =
     txt (ae_org e) @ ''|'' @ ae_action e @ ''|'' @ ae_resource_type e @ ''|'' @ ae_resource_id e"

lemma hash_input_payload:
  "audit_log_hash_input txt prev (ae_org e) (ae_action e) (ae_resource_type e) (ae_resource_id e) =
     (case prev of None \<Rightarrow> [] | Some h \<Rightarrow> h) @ audit_payload txt e"
  by (simp add: audit_log_hash_input_def audit_payload_def)

definition hashed_input :: "(uuid \<Rightarrow> string) \<Rightarrow> audit_entry \<Rightarrow> string" where
  "hashed_input txt e = (case ae_prev_hash e of None \<Rightarrow> [] | Some h \<Rightarrow> h) @ audit_payload txt e"

definition chain_inputs :: "(uuid \<Rightarrow> string) \<Rightarrow> audit_entry list \<Rightarrow> string set" where
  "chain_inputs txt es = set (map (hashed_input txt) es)"

lemma verify_snoc:
  "audit_verify_from dig txt prev (xs @ [x]) = [] \<longleftrightarrow>
     audit_verify_from dig txt prev xs = [] \<and>
     ae_prev_hash x = (if xs = [] then prev else Some (ae_hash (last xs))) \<and>
     ae_hash x = dig ((case ae_prev_hash x of None \<Rightarrow> [] | Some h \<Rightarrow> h) @ audit_payload txt x)"
  by (auto simp: audit_verify_from_append hash_input_payload)

lemma verified_hash_length:
  assumes "\<And>x. x \<in> chain_inputs txt es \<Longrightarrow> length (dig x) = n"
    and "audit_verify_from dig txt prev es = []" and "e \<in> set es"
  shows "length (ae_hash e) = n"
  using assms
proof (induction es arbitrary: prev)
  case (Cons x xs)
  have "ae_hash x = dig (hashed_input txt x)"
    using Cons.prems(2) by (auto simp: hash_input_payload hashed_input_def split: if_splits)
  moreover have "length (dig (hashed_input txt x)) = n"
    using Cons.prems(1) by (simp add: chain_inputs_def)
  moreover have "length (ae_hash e) = n" if "e \<in> set xs"
    using Cons.prems(1,2) that by (intro Cons.IH) (auto simp: chain_inputs_def split: if_splits)
  ultimately show ?case using Cons.prems(3) by auto
qed simp

lemma chain_determined_by_tail:
  assumes "inj_on dig (chain_inputs txt es \<union> chain_inputs txt fs)"
    and "\<And>x. x \<in> chain_inputs txt es \<union> chain_inputs txt fs \<Longrightarrow> length (dig x) = n"
    and "audit_verify_from dig txt None es = []" and "audit_verify_from dig txt None fs = []"
    and "length es = length fs"
    and "es \<noteq> [] \<Longrightarrow> ae_hash (last es) = ae_hash (last fs)"
  shows "map (audit_payload txt) es = map (audit_payload txt) fs"
  using assms
proof (induction es arbitrary: fs rule: rev_induct)
  case (snoc x xs)
  from snoc.prems(5) obtain ys y where fs: "fs = ys @ [y]"
    by (cases fs rule: rev_cases) auto
  have lens: "length xs = length ys" and eqh: "ae_hash x = ae_hash y"
    using snoc.prems(5,6) by (auto simp: fs)
  have xv: "audit_verify_from dig txt None xs = []" and yv: "audit_verify_from dig txt None ys = []"
    using snoc.prems(3,4) by (simp_all add: fs verify_snoc)
  have sub: "chain_inputs txt xs \<subseteq> chain_inputs txt (xs @ [x])" "chain_inputs txt ys \<subseteq> chain_inputs txt fs"
    by (auto simp: chain_inputs_def fs)
  have "dig (hashed_input txt x) = dig (hashed_input txt y)"
    using snoc.prems(3,4) eqh by (simp add: fs verify_snoc hashed_input_def)
  then have eq: "hashed_input txt x = hashed_input txt y"
    by (rule inj_onD [OF snoc.prems(1)]) (simp_all add: chain_inputs_def fs)
  let ?p = "\<lambda>e. case ae_prev_hash e of None \<Rightarrow> [] | Some h \<Rightarrow> h"
  have prevs: "ae_prev_hash x = (if xs = [] then None else Some (ae_hash (last xs)))"
    "ae_prev_hash y = (if ys = [] then None else Some (ae_hash (last ys)))"
    using snoc.prems(3,4) by (simp_all add: fs verify_snoc)
  have len: "\<And>z. z \<in> chain_inputs txt xs \<Longrightarrow> length (dig z) = n"
    "\<And>z. z \<in> chain_inputs txt ys \<Longrightarrow> length (dig z) = n"
    using snoc.prems(2) sub by blast+
  have "length (?p x) = length (?p y)"
    using lens verified_hash_length [OF len(1) xv] verified_hash_length [OF len(2) yv]
    by (cases "xs = []") (auto simp: prevs)
  with eq have pay: "audit_payload txt x = audit_payload txt y" and pp: "?p x = ?p y"
    by (auto simp: hashed_input_def)
  have "inj_on dig (chain_inputs txt xs \<union> chain_inputs txt ys)"
    using snoc.prems(1) sub by (auto intro: inj_on_subset)
  then have "map (audit_payload txt) xs = map (audit_payload txt) ys"
    using lens pp len by (intro snoc.IH xv yv) (auto simp: prevs)
  with pay show ?case by (simp add: fs)
qed simp

end
