(* ===== verification/Secrets_Store.thy ===== *)
theory Secrets_Store
  imports Pg_Model
begin

text \<open>
  Envelope-encrypted secrets (\<open>platform/src/secrets.rs\<close>): the \<open>SecretStore\<close>
  interface as a locale, \<open>PgcryptoStore\<close> and \<open>VaultStore\<close> as its two
  implementations, the in-memory and the HTTP transit clients. The pgcrypto
  functions and their randomness are parameters held in the state.
\<close>

section \<open>State\<close>

record secret_ref =
  sr_id :: uuid
  sr_org :: uuid

record secret_row =
  sec_id :: uuid
  sec_org :: uuid
  sec_ciphertext :: string
  sec_wrapped_dek :: string
  sec_algorithm :: string
  sec_created_at :: timestamp

text \<open>\<open>InMemoryVault\<close>: the key names, the map from (key name, ciphertext) to
  plaintext, the counter of synthetic ciphertext ids.\<close>

record in_memory_vault =
  vk_keys :: "string list"
  vk_ciphertexts :: "((string \<times> string) \<times> string) list"
  vk_counter :: nat

record secrets_db = pg +
  secrets :: "secret_row list"
  pgp_enc :: "nat \<Rightarrow> string \<Rightarrow> string \<Rightarrow> string"
  pgp_dec :: "string \<Rightarrow> string \<Rightarrow> string + string"
  dek_gen :: "nat \<Rightarrow> string"
  rnd_ctr :: nat
  vault :: in_memory_vault

lemma secrets_frame [simp]:
  "secrets (tick s) = secrets s" "pgp_enc (tick s) = pgp_enc s" "pgp_dec (tick s) = pgp_dec s"
  "dek_gen (tick s) = dek_gen s" "rnd_ctr (tick s) = rnd_ctr s" "vault (tick s) = vault s"
  by (simp_all add: tick_def)

lemma secrets_frame_audit [simp]:
  "secrets (audit_log_append_explicit c g a t r d m s) = secrets s"
  "pgp_enc (audit_log_append_explicit c g a t r d m s) = pgp_enc s"
  "pgp_dec (audit_log_append_explicit c g a t r d m s) = pgp_dec s"
  "dek_gen (audit_log_append_explicit c g a t r d m s) = dek_gen s"
  "rnd_ctr (audit_log_append_explicit c g a t r d m s) = rnd_ctr s"
  "vault (audit_log_append_explicit c g a t r d m s) = vault s"
  by (simp_all add: audit_log_append_explicit_def Let_def)

lemma secrets_frame_trigger [simp]:
  "secrets (audit_log_append_trigger c tb v g r s) = secrets s"
  "pgp_enc (audit_log_append_trigger c tb v g r s) = pgp_enc s"
  "pgp_dec (audit_log_append_trigger c tb v g r s) = pgp_dec s"
  "dek_gen (audit_log_append_trigger c tb v g r s) = dek_gen s"
  "rnd_ctr (audit_log_append_trigger c tb v g r s) = rnd_ctr s"
  "vault (audit_log_append_trigger c tb v g r s) = vault s"
  by (simp_all add: audit_log_append_trigger_def)

lemma secrets_frame_rows [simp]:
  "secrets (audit_rows c tb v rows s) = secrets s"
  "pgp_enc (audit_rows c tb v rows s) = pgp_enc s"
  "pgp_dec (audit_rows c tb v rows s) = pgp_dec s"
  "dek_gen (audit_rows c tb v rows s) = dek_gen s"
  "rnd_ctr (audit_rows c tb v rows s) = rnd_ctr s"
  "vault (audit_rows c tb v rows s) = vault s"
  by (induction rows arbitrary: s) (auto simp: audit_rows_Cons)

text \<open>The object a service holds as \<open>Arc<dyn SecretStore>\<close>.\<close>

record 's secret_ops =
  ss_put :: "uuid \<Rightarrow> string \<Rightarrow> ('s, secret_error, secret_ref) op"
  ss_get :: "secret_ref \<Rightarrow> ('s, secret_error, string) op"
  ss_delete :: "secret_ref \<Rightarrow> ('s, secret_error, unit) op"

section \<open>PgcryptoStore\<close>

text \<open>\<open>decode\<close> stands for the base64 decoder: an error text or the bytes.\<close>

definition pgcrypto_new :: "(string \<Rightarrow> string + nat list) \<Rightarrow> string \<Rightarrow> secret_error + string" where
  "pgcrypto_new decode kek =
     (case decode kek of
        Inl e \<Rightarrow> Inl (SecInvalidKek (''not valid base64: '' @ e))
      | Inr bs \<Rightarrow> if length bs \<noteq> 32
                  then Inl (SecInvalidKek (''expected 32 bytes, got '' @ show_nat (length bs)))
                  else Inr kek)"

definition pgcrypto_from_env ::
    "(string \<Rightarrow> string + nat list) \<Rightarrow> string option \<Rightarrow> secret_error + string" where
  "pgcrypto_from_env decode var =
     (case var of
        None \<Rightarrow> Inl (SecInvalidKek ''KUBINATE__KEK not set'')
      | Some kek \<Rightarrow> pgcrypto_new decode kek)"

definition secret_visible :: "'z secrets_db_scheme \<Rightarrow> secret_ref \<Rightarrow> secret_row \<Rightarrow> bool" where
  "secret_visible s h r \<longleftrightarrow> sec_id r = sr_id h \<and> rls s (Some (sr_org h)) (sec_org r)"

definition insert_secret :: "secret_row \<Rightarrow> ('z secrets_db_scheme, secret_error, unit) op" where
  "insert_secret row s =
     (if sec_id row \<in> set (map sec_id (secrets s)) then (Inl (SecDatabase SqlxUnique), s)
      else (Inr (), s\<lparr>secrets := secrets s @ [row]\<rparr>))"

definition pgcrypto_put ::
    "string \<Rightarrow> uuid \<Rightarrow> string \<Rightarrow> ('z secrets_db_scheme, secret_error, secret_ref) op" where
  "pgcrypto_put kek org plaintext =
     bindE new_id (\<lambda>rid.
     bindE (tx SecDatabase (\<lambda>s.
        let n = rnd_ctr s; dek = dek_gen s n in
        insert_secret
          \<lparr>sec_id = rid, sec_org = org,
           sec_ciphertext = pgp_enc s n plaintext dek,
           sec_wrapped_dek = pgp_enc s (Suc n) dek kek,
           sec_algorithm = ''pgp_sym_v1'', sec_created_at = now s\<rparr>
          (s\<lparr>rnd_ctr := n + 2\<rparr>))) (\<lambda>_.
     ret \<lparr>sr_id = rid, sr_org = org\<rparr>))"

definition decrypt_or_db :: "string \<Rightarrow> secret_error" where
  "decrypt_or_db err =
     (let text = to_ascii_lowercase err in
      if contains_str text ''wrong key'' \<or> contains_str text ''corrupt data'' then SecDecrypt
      else SecDatabase (SqlxOther err))"

definition pgp_open ::
    "'z secrets_db_scheme \<Rightarrow> string \<Rightarrow> secret_row \<Rightarrow> string + string" where
  "pgp_open s kek r =
     (case pgp_dec s (sec_wrapped_dek r) kek of
        Inl e \<Rightarrow> Inl e
      | Inr dek \<Rightarrow> pgp_dec s (sec_ciphertext r) dek)"

definition pgcrypto_get ::
    "string \<Rightarrow> secret_ref \<Rightarrow> ('z secrets_db_scheme, secret_error, string) op" where
  "pgcrypto_get kek h =
     bindE (tx SecDatabase (\<lambda>s.
        case find (secret_visible s h) (secrets s) of
          None \<Rightarrow> (Inr None, s)
        | Some r \<Rightarrow> (case pgp_open s kek r of
                       Inl e \<Rightarrow> (Inl (decrypt_or_db e), s)
                     | Inr p \<Rightarrow> (Inr (Some p), s)))) (\<lambda>row.
     case row of None \<Rightarrow> fail (SecNotFound (sr_id h)) | Some p \<Rightarrow> ret p)"

text \<open>
  \<open>delete\<close> blanks the row and then removes it, in one transaction. Two tables
  reference \<open>secrets\<close> with \<open>ON DELETE RESTRICT\<close>; \<open>refs\<close> yields the secret ids
  those tables hold, so a referenced row makes the \<open>DELETE\<close> fail.
\<close>

definition secret_delete ::
    "('z secrets_db_scheme \<Rightarrow> uuid list) \<Rightarrow> secret_ref
      \<Rightarrow> ('z secrets_db_scheme, secret_error, unit) op" where
  "secret_delete refs h =
     tx SecDatabase (\<lambda>s.
       let blanked = sql_update (secret_visible s h)
                       (\<lambda>r. r\<lparr>sec_ciphertext := [], sec_wrapped_dek := []\<rparr>) (secrets s) in
       if (\<exists>r \<in> set blanked. secret_visible s h r \<and> sec_id r \<in> set (refs s))
       then (Inl (SecDatabase SqlxForeignKey), s)
       else (Inr (), s\<lparr>secrets := filter (\<lambda>r. \<not> secret_visible s h r) blanked\<rparr>))"

definition pgcrypto_store ::
    "('z secrets_db_scheme \<Rightarrow> uuid list) \<Rightarrow> string \<Rightarrow> 'z secrets_db_scheme secret_ops" where
  "pgcrypto_store refs kek =
     \<lparr>ss_put = pgcrypto_put kek, ss_get = pgcrypto_get kek, ss_delete = secret_delete refs\<rparr>"

section \<open>Vault transit\<close>

record 's vault_transit =
  vt_ensure_key :: "string \<Rightarrow> ('s, secret_error, unit) op"
  vt_encrypt :: "string \<Rightarrow> string \<Rightarrow> ('s, secret_error, string) op"
  vt_decrypt :: "string \<Rightarrow> string \<Rightarrow> ('s, secret_error, string) op"

definition VAULT_ALGORITHM_TAG :: string where
  "VAULT_ALGORITHM_TAG = ''vault_transit_v1''"

definition vault_key_name :: "(uuid \<Rightarrow> string) \<Rightarrow> string \<Rightarrow> uuid \<Rightarrow> string" where
  "vault_key_name txt prefix org = prefix @ ''/'' @ txt org"

subsection \<open>The in-memory transit\<close>

definition hex_char :: "nat \<Rightarrow> char" where
  "hex_char d = (if d < 10 then char_of (48 + d) else char_of (87 + d))"

fun show_hex :: "nat \<Rightarrow> string" where
  "show_hex n = (if n < 16 then [hex_char n] else show_hex (n div 16) @ [hex_char (n mod 16)])"

declare show_hex.simps [simp del]

definition show_hex16 :: "nat \<Rightarrow> string" where
  "show_hex16 n = replicate (16 - length (show_hex n)) (CHR ''0'') @ show_hex n"

definition im_ensure_key :: "string \<Rightarrow> ('z secrets_db_scheme, secret_error, unit) op" where
  "im_ensure_key k s =
     (Inr (), s\<lparr>vault := (vault s)\<lparr>vk_keys := List.insert k (vk_keys (vault s))\<rparr>\<rparr>)"

definition im_encrypt :: "string \<Rightarrow> string \<Rightarrow> ('z secrets_db_scheme, secret_error, string) op" where
  "im_encrypt k plaintext s =
     (let v = vault s in
      if k \<notin> set (vk_keys v)
      then (Inl (SecInvalidKek (''no transit key named '' @ [CHR 0x27] @ k @ [CHR 0x27])), s)
      else let c = Suc (vk_counter v); ct = ''vault:test:'' @ show_hex16 c in
           (Inr ct, s\<lparr>vault := v\<lparr>vk_counter := c,
              vk_ciphertexts := ((k, ct), plaintext) # vk_ciphertexts v\<rparr>\<rparr>))"

definition im_decrypt :: "string \<Rightarrow> string \<Rightarrow> ('z secrets_db_scheme, secret_error, string) op" where
  "im_decrypt k ct s =
     (let v = vault s in
      if k \<notin> set (vk_keys v)
      then (Inl (SecInvalidKek (''no transit key named '' @ [CHR 0x27] @ k @ [CHR 0x27])), s)
      else case map_of (vk_ciphertexts v) (k, ct) of
             None \<Rightarrow> (Inl SecDecrypt, s)
           | Some p \<Rightarrow> (Inr p, s))"

definition in_memory_transit :: "'z secrets_db_scheme vault_transit" where
  "in_memory_transit =
     \<lparr>vt_ensure_key = im_ensure_key, vt_encrypt = im_encrypt, vt_decrypt = im_decrypt\<rparr>"

section \<open>VaultStore\<close>

definition vault_put ::
    "'z secrets_db_scheme vault_transit \<Rightarrow> string \<Rightarrow> uuid \<Rightarrow> string
      \<Rightarrow> ('z secrets_db_scheme, secret_error, secret_ref) op" where
  "vault_put transit prefix org plaintext =
     bindE (getS (\<lambda>s. vault_key_name (pg_uuid_text s) prefix org)) (\<lambda>key_name.
     bindE (vt_ensure_key transit key_name) (\<lambda>_.
     bindE (vt_encrypt transit key_name plaintext) (\<lambda>ct.
     bindE new_id (\<lambda>rid.
     bindE (tx SecDatabase (\<lambda>s.
        insert_secret
          \<lparr>sec_id = rid, sec_org = org, sec_ciphertext = ct, sec_wrapped_dek = [],
           sec_algorithm = VAULT_ALGORITHM_TAG, sec_created_at = now s\<rparr> s)) (\<lambda>_.
     ret \<lparr>sr_id = rid, sr_org = org\<rparr>)))))"

definition vault_get ::
    "'z secrets_db_scheme vault_transit \<Rightarrow> string \<Rightarrow> secret_ref
      \<Rightarrow> ('z secrets_db_scheme, secret_error, string) op" where
  "vault_get transit prefix h =
     bindE (tx SecDatabase (\<lambda>s. (Inr (find (secret_visible s h) (secrets s)), s))) (\<lambda>row.
     case row of
       None \<Rightarrow> fail (SecNotFound (sr_id h))
     | Some r \<Rightarrow>
         if sec_algorithm r \<noteq> VAULT_ALGORITHM_TAG then fail SecDecrypt
         else bindE (getS (\<lambda>s. vault_key_name (pg_uuid_text s) prefix (sr_org h))) (\<lambda>key_name.
              vt_decrypt transit key_name (sec_ciphertext r)))"

definition vault_store ::
    "('z secrets_db_scheme \<Rightarrow> uuid list) \<Rightarrow> 'z secrets_db_scheme vault_transit \<Rightarrow> string
      \<Rightarrow> 'z secrets_db_scheme secret_ops" where
  "vault_store refs transit prefix =
     \<lparr>ss_put = vault_put transit prefix, ss_get = vault_get transit prefix,
      ss_delete = secret_delete refs\<rparr>"

subsection \<open>The HTTP transit client\<close>

text \<open>
  The three calls of \<open>HttpVaultTransit\<close> as functions of what the HTTP exchange
  returned: no answer, or a status with a body. \<open>parse\<close> stands for the JSON
  decoder of the response body, \<open>b64dec\<close> for base64 followed by UTF-8 and
  \<open>reason\<close> for the phrase that belongs to a status.
\<close>

datatype http_outcome = HttpTransport | HttpStatus nat string

definition is_success :: "nat \<Rightarrow> bool" where
  "is_success st \<longleftrightarrow> 200 \<le> st \<and> st < 300"

definition vault_status_to_error :: "(nat \<Rightarrow> string) \<Rightarrow> nat \<Rightarrow> string \<Rightarrow> secret_error" where
  "vault_status_to_error reason st opn =
     (let text = ''vault '' @ opn @ '' '' @ show_nat st @ '' '' @ reason st in
      if st \<in> {401, 403, 404} then SecAuthFailed text else SecInvalidKek text)"

definition http_ensure_key :: "(nat \<Rightarrow> string) \<Rightarrow> http_outcome \<Rightarrow> secret_error + unit" where
  "http_ensure_key reason out =
     (case out of
        HttpTransport \<Rightarrow> Inl (SecInvalidKek ''vault ensure_key transport'')
      | HttpStatus st body \<Rightarrow>
          if is_success st then Inr ()
          else if contains_str (to_ascii_lowercase body) ''already exists'' then Inr ()
          else Inl (vault_status_to_error reason st ''ensure_key''))"

definition http_encrypt :: "(nat \<Rightarrow> string) \<Rightarrow> (string \<Rightarrow> string option) \<Rightarrow> http_outcome \<Rightarrow> secret_error + string" where
  "http_encrypt reason parse out =
     (case out of
        HttpTransport \<Rightarrow> Inl (SecInvalidKek ''vault encrypt transport'')
      | HttpStatus st body \<Rightarrow>
          if \<not> is_success st then Inl (vault_status_to_error reason st ''encrypt'')
          else case parse body of
                 None \<Rightarrow> Inl (SecInvalidKek ''vault encrypt response parse'')
               | Some ct \<Rightarrow> Inr ct)"

definition http_decrypt ::
    "(nat \<Rightarrow> string) \<Rightarrow> (string \<Rightarrow> string option) \<Rightarrow> (string \<Rightarrow> string option) \<Rightarrow> http_outcome \<Rightarrow> secret_error + string" where
  "http_decrypt reason parse b64dec out =
     (case out of
        HttpTransport \<Rightarrow> Inl (SecInvalidKek ''vault decrypt transport'')
      | HttpStatus st body \<Rightarrow>
          if \<not> is_success st then
            (if contains_str (to_ascii_lowercase body) ''could not be decrypted'' then Inl SecDecrypt
             else Inl (vault_status_to_error reason st ''decrypt''))
          else case parse body of
                 None \<Rightarrow> Inl SecDecrypt
               | Some b \<Rightarrow> (case b64dec b of None \<Rightarrow> Inl SecDecrypt | Some p \<Rightarrow> Inr p))"


section \<open>The contract of a secret store\<close>

text \<open>
  A store is a partial map from handles to plaintexts: \<open>put\<close> adds a fresh
  handle, \<open>get\<close> reads it, \<open>delete\<close> removes it unless a foreign key still
  points at it. \<open>faulty s\<close> says that the next round trip to the database
  fails; every operation may then fail, without an effect on the map.
\<close>

locale secret_store =
  fixes ops :: "'s secret_ops"
    and inv :: "'s \<Rightarrow> bool"
    and live :: "'s \<Rightarrow> secret_ref \<Rightarrow> string option"
    and refd :: "'s \<Rightarrow> uuid \<Rightarrow> bool"
    and faulty :: "'s \<Rightarrow> bool"
  assumes put_ok: "inv s \<Longrightarrow> ss_put ops org p s = (Inr h, t) \<Longrightarrow>
        inv t \<and> sr_org h = org \<and> live s h = None \<and> live t = (live s)(h \<mapsto> p)"
    and put_err: "inv s \<Longrightarrow> ss_put ops org p s = (Inl e, t) \<Longrightarrow> inv t \<and> live t = live s"
    and put_run: "inv s \<Longrightarrow> \<not> faulty s \<Longrightarrow> \<exists>h t. ss_put ops org p s = (Inr h, t)"
    and get_keeps: "inv s \<Longrightarrow> ss_get ops h s = (r, t) \<Longrightarrow> inv t \<and> live t = live s"
    and get_ok: "inv s \<Longrightarrow> ss_get ops h s = (Inr p, t) \<Longrightarrow> live s h = Some p"
    and get_run: "inv s \<Longrightarrow> \<not> faulty s \<Longrightarrow> live s h = Some p \<Longrightarrow> \<exists>t. ss_get ops h s = (Inr p, t)"
    and del_ok: "inv s \<Longrightarrow> ss_delete ops h s = (Inr u, t) \<Longrightarrow> inv t \<and> live t = (live s)(h := None)"
    and del_err: "inv s \<Longrightarrow> ss_delete ops h s = (Inl e, t) \<Longrightarrow> inv t \<and> live t = live s"
    and del_run: "inv s \<Longrightarrow> \<not> faulty s \<Longrightarrow> \<not> refd s (sr_id h) \<Longrightarrow> \<exists>t. ss_delete ops h s = (Inr (), t)"
    and del_refd: "inv s \<Longrightarrow> live s h \<noteq> None \<Longrightarrow> refd s (sr_id h) \<Longrightarrow>
        \<exists>e t. ss_delete ops h s = (Inl e, t)"
    and one_tenant: "inv s \<Longrightarrow> live s h \<noteq> None \<Longrightarrow> sr_id g = sr_id h \<Longrightarrow> sr_org g \<noteq> sr_org h
        \<Longrightarrow> live s g = None"
begin

lemma put_get:
  assumes "inv s" and "ss_put ops org p s = (Inr h, t)" and "\<not> faulty t"
  shows "\<exists>u. ss_get ops h t = (Inr p, u)"
  using put_ok [OF assms(1,2)] assms(3) by (intro get_run) auto

lemma put_keeps_others:
  assumes "inv s" and "ss_put ops org p s = (Inr h, t)" and "live s g = Some q"
  shows "live t g = Some q"
  using put_ok [OF assms(1,2)] assms(3) by auto

lemma put_delete_restores:
  assumes "inv s" and "ss_put ops org p s = (Inr h, t)" and "ss_delete ops h t = (Inr x, u)"
  shows "inv u \<and> live u = live s"
  using put_ok [OF assms(1,2)] del_ok [of t h x u] assms(3) by (auto simp: fun_upd_idem)

lemma cross_tenant_get:
  assumes "inv s" and "live s h = Some p" and "sr_id g = sr_id h" and "sr_org g \<noteq> sr_org h"
  shows "\<nexists>q t. ss_get ops g s = (Inr q, t)"
  using one_tenant [of s h g] get_ok [of s g] assms by fastforce

lemma deleted_not_readable:
  assumes "inv s" and "ss_delete ops h s = (Inr u, t)"
  shows "\<nexists>q v. ss_get ops h t = (Inr q, v)"
proof -
  have "inv t" and "live t h = None"
    using del_ok [OF assms] by auto
  then show ?thesis using get_ok [of t h] by fastforce
qed

lemma referenced_delete_keeps:
  assumes "inv s" and "live s h = Some p" and "refd s (sr_id h)" and "ss_delete ops h s = (r, t)"
  shows "live t h = Some p \<and> (\<exists>e. r = Inl e)"
proof -
  obtain e t' where "ss_delete ops h s = (Inl e, t')"
    using del_refd [of s h] assms by auto
  with assms del_err [of s h e t'] show ?thesis by auto
qed

end

section \<open>Both implementations satisfy the contract\<close>

definition secret_inv :: "'z secrets_db_scheme \<Rightarrow> bool" where
  "secret_inv s \<longleftrightarrow> \<not> pg_bypass s \<and> inj (pg_uuid s) \<and> distinct (map sec_id (secrets s))
     \<and> (\<forall>r \<in> set (secrets s). \<forall>n \<ge> pg_uuid_ctr s. pg_uuid s n \<noteq> sec_id r)"

definition pgp_law :: "'z secrets_db_scheme \<Rightarrow> bool" where
  "pgp_law s \<longleftrightarrow> (\<forall>n d k. pgp_dec s (pgp_enc s n d k) k = Inr d)"

lemma find_visible_unique:
  assumes "distinct (map sec_id rows)" and "r \<in> set rows" and "secret_visible s h r"
  shows "find (secret_visible s h) rows = Some r"
  using assms
proof (induction rows)
  case (Cons x xs)
  show ?case
  proof (cases "secret_visible s h x")
    case True
    with Cons.prems have "sec_id x = sec_id r" by (simp add: secret_visible_def)
    with Cons.prems have "x = r" by (auto simp: image_iff)
    with True show ?thesis by simp
  next
    case False
    with Cons show ?thesis by auto
  qed
qed simp

lemma visible_app_role:
  "\<not> pg_bypass s \<Longrightarrow> secret_visible s h r \<longleftrightarrow> sec_id r = sr_id h \<and> sec_org r = sr_org h"
  by (simp add: secret_visible_def rls_app_role)

lemma fresh_secret_id:
  "secret_inv s \<Longrightarrow> pg_uuid s (pg_uuid_ctr s) \<notin> sec_id ` set (secrets s)"
  by (fastforce simp: secret_inv_def)

lemma secret_inv_insert:
  assumes "secret_inv s" and "sec_id row = pg_uuid s (pg_uuid_ctr s)"
    and "secrets t = secrets s @ [row]" and "pg_uuid_ctr t = Suc (pg_uuid_ctr s)"
    and "pg_uuid t = pg_uuid s" and "pg_bypass t = pg_bypass s"
  shows "secret_inv t"
  using assms fresh_secret_id [OF assms(1)] by (auto simp: secret_inv_def inj_eq)

lemma secret_inv_shrink:
  assumes "secret_inv s" and "map sec_id (secrets t) = map sec_id (filter P (secrets s))"
    and "pg_uuid_ctr s \<le> pg_uuid_ctr t" and "pg_uuid t = pg_uuid s" and "pg_bypass t = pg_bypass s"
  shows "secret_inv t"
proof -
  have sub: "sec_id ` set (secrets t) \<subseteq> sec_id ` set (secrets s)"
    using arg_cong [OF assms(2), of set] by auto
  have old: "pg_uuid s n \<notin> sec_id ` set (secrets s)" if "pg_uuid_ctr s \<le> n" for n
    using assms(1) that by (fastforce simp: secret_inv_def)
  have fresh: "pg_uuid t n \<noteq> sec_id r" if "r \<in> set (secrets t)" and "pg_uuid_ctr t \<le> n" for r n
    using old [of n] sub that assms(3,4) by auto
  have "distinct (map sec_id (secrets t))"
    unfolding assms(2) using assms(1) by (simp add: secret_inv_def distinct_map_filter)
  with fresh assms show ?thesis by (simp add: secret_inv_def)
qed

lemma secret_inv_tick [simp]: "secret_inv (tick s) = secret_inv s"
  by (simp add: secret_inv_def)

lemma rls_cong: "pg_bypass t = pg_bypass s \<Longrightarrow> rls t = rls s"
  by (simp add: rls_def fun_eq_iff)

lemma secret_visible_cong: "pg_bypass t = pg_bypass s \<Longrightarrow> secret_visible t = secret_visible s"
  by (simp add: secret_visible_def rls_def fun_eq_iff)

text \<open>What \<open>secret_delete\<close> does to the table.\<close>

lemma secret_delete_ok:
  assumes "secret_delete refs h s = (Inr u, t)"
  shows "secrets t = filter (\<lambda>r. \<not> secret_visible s h r) (secrets s)"
    and "pg_bypass t = pg_bypass s" "pg_uuid t = pg_uuid s" "pg_uuid_ctr t = pg_uuid_ctr s"
    and "pgp_enc t = pgp_enc s" "pgp_dec t = pgp_dec s" "vault t = vault s"
    and "pg_uuid_text t = pg_uuid_text s"
proof -
  let ?f = "\<lambda>r. r\<lparr>sec_ciphertext := [], sec_wrapped_dek := []\<rparr>"
  have *: "filter (\<lambda>r. \<not> secret_visible s h r) (sql_update (secret_visible s h) ?f rows) =
      filter (\<lambda>r. \<not> secret_visible s h r) rows" for rows :: "secret_row list"
    by (induction rows) (auto simp: secret_visible_def)
  show "secrets t = filter (\<lambda>r. \<not> secret_visible s h r) (secrets s)"
    "pg_bypass t = pg_bypass s" "pg_uuid t = pg_uuid s" "pg_uuid_ctr t = pg_uuid_ctr s"
    "pgp_enc t = pgp_enc s" "pgp_dec t = pgp_dec s" "vault t = vault s"
    "pg_uuid_text t = pg_uuid_text s"
    using assms
    by (auto simp: secret_delete_def tx_eq_Inr Let_def * split: if_splits)
qed

lemma secret_delete_err:
  "secret_delete refs h s = (Inl e, t) \<Longrightarrow> t = tick s"
  by (auto simp: secret_delete_def tx_eq_Inl)

lemma secret_delete_run:
  "\<not> pg_fault s (pg_calls s) \<Longrightarrow> sr_id h \<notin> set (refs s) \<Longrightarrow> \<exists>t. secret_delete refs h s = (Inr (), t)"
  by (auto simp: secret_delete_def tx_no_fault Let_def set_sql_update secret_visible_def)

lemma secret_delete_refd:
  assumes "r \<in> set (secrets s)" and "secret_visible s h r" and "sr_id h \<in> set (refs s)"
  shows "\<exists>e. secret_delete refs h s = (Inl e, tick s)"
proof -
  let ?f = "\<lambda>r. r\<lparr>sec_ciphertext := [], sec_wrapped_dek := []\<rparr>"
  have "?f r \<in> set (sql_update (secret_visible s h) ?f (secrets s))"
    using assms(1,2) by (auto simp: set_sql_update image_iff intro!: bexI [of _ r])
  moreover have "secret_visible s h (?f r) \<and> sec_id (?f r) \<in> set (refs s)"
    using assms(2,3) by (simp add: secret_visible_def)
  ultimately have "\<exists>x \<in> set (sql_update (secret_visible s h) ?f (secrets s)).
          secret_visible s h x \<and> sec_id x \<in> set (refs s)"
    by blast
  then show ?thesis
    by (auto simp: secret_delete_def tx_def Let_def)
qed

lemma find_filter_out:
  assumes "\<not> pg_bypass s"
  shows "find (secret_visible s g) (filter (\<lambda>r. \<not> secret_visible s h r) rows) =
     (if g = h then None else find (secret_visible s g) rows)"
proof (cases "g = h")
  case True
  then show ?thesis by (auto simp: find_None_iff_all)
next
  case False
  then have "secret_visible s g r \<Longrightarrow> \<not> secret_visible s h r" for r
    using assms by (auto simp: visible_app_role secret_ref.equality)
  with False show ?thesis by (induction rows) auto
qed

lemma other_tenant_invisible:
  assumes "secret_inv s" and "r \<in> set (secrets s)" and "secret_visible s h r"
    and "sr_id g = sr_id h" and "sr_org g \<noteq> sr_org h"
  shows "find (secret_visible s g) (secrets s) = None"
proof -
  have byp: "\<not> pg_bypass s" and dist: "distinct (map sec_id (secrets s))"
    using assms(1) by (auto simp: secret_inv_def)
  have "x = r" if "x \<in> set (secrets s)" "sec_id x = sr_id h" for x
    using dist assms(2,3) that by (auto simp: distinct_map inj_on_def secret_visible_def)
  then show ?thesis
    using assms byp by (fastforce simp: find_None_iff_all visible_app_role)
qed

subsection \<open>PgcryptoStore\<close>

definition pgcrypto_inv :: "'z secrets_db_scheme \<Rightarrow> bool" where
  "pgcrypto_inv s \<longleftrightarrow> secret_inv s \<and> pgp_law s"

definition pgcrypto_live :: "string \<Rightarrow> 'z secrets_db_scheme \<Rightarrow> secret_ref \<Rightarrow> string option" where
  "pgcrypto_live kek s h =
     (case find (secret_visible s h) (secrets s) of
        None \<Rightarrow> None
      | Some r \<Rightarrow> (case pgp_open s kek r of Inl _ \<Rightarrow> None | Inr p \<Rightarrow> Some p))"

definition db_faulty :: "'z pg_scheme \<Rightarrow> bool" where
  "db_faulty s \<longleftrightarrow> pg_fault s (pg_calls s)"

lemma pgp_open_cong: "pgp_dec t = pgp_dec s \<Longrightarrow> pgp_open t = pgp_open s"
  by (intro ext) (simp add: pgp_open_def split: sum.split)

lemma pgcrypto_live_cong:
  assumes "secrets t = secrets s" "pg_bypass t = pg_bypass s" "pgp_dec t = pgp_dec s"
  shows "pgcrypto_live kek t = pgcrypto_live kek s"
  by (intro ext)
    (simp only: pgcrypto_live_def assms(1) secret_visible_cong [OF assms(2)] pgp_open_cong [OF assms(3)])

lemma pgcrypto_inv_cong:
  assumes "secrets t = secrets s" "pg_bypass t = pg_bypass s" "pgp_dec t = pgp_dec s"
    "pgp_enc t = pgp_enc s" "pg_uuid t = pg_uuid s" "pg_uuid_ctr s \<le> pg_uuid_ctr t"
    and "pgcrypto_inv s"
  shows "pgcrypto_inv t"
  using assms secret_inv_shrink [of s t "\<lambda>_. True"] by (simp add: pgcrypto_inv_def pgp_law_def)

lemma pgcrypto_put_ok:
  assumes inv: "pgcrypto_inv s" and "pgcrypto_put kek org p s = (Inr h, t)"
  shows "\<exists>row. secrets t = secrets s @ [row] \<and> sec_id row = sr_id h \<and> sec_org row = org
     \<and> sr_org h = org \<and> sr_id h = pg_uuid s (pg_uuid_ctr s) \<and> pgp_open s kek row = Inr p
     \<and> pg_bypass t = pg_bypass s \<and> pg_uuid t = pg_uuid s \<and> pg_uuid_ctr t = Suc (pg_uuid_ctr s)
     \<and> pgp_enc t = pgp_enc s \<and> pgp_dec t = pgp_dec s"
  using assms
  by (auto simp: pgcrypto_put_def bindE_eq_Inr new_id_def tx_eq_Inr insert_secret_def Let_def
      ret_def pgp_open_def pgcrypto_inv_def pgp_law_def split: if_splits)

lemma live_after_insert:
  assumes "\<not> pg_bypass s" and "sr_id h \<notin> sec_id ` set rows" and "sec_id row = sr_id h"
    and "sec_org row = sr_org h"
  shows "find (secret_visible s g) (rows @ [row]) =
     (if g = h then Some row else find (secret_visible s g) rows)"
proof (cases "g = h")
  case True
  have "find (secret_visible s h) rows = None"
    using assms by (auto simp: find_None_iff_all visible_app_role image_iff)
  with True assms show ?thesis by (simp add: find_append visible_app_role)
next
  case False
  then have "\<not> secret_visible s g row"
    using assms by (auto simp: visible_app_role secret_ref.equality)
  with False show ?thesis by (simp add: find_append split: option.splits)
qed

lemma pgcrypto_put_err:
  "pgcrypto_put kek org p s = (Inl e, t) \<Longrightarrow> t = tick (s\<lparr>pg_uuid_ctr := Suc (pg_uuid_ctr s)\<rparr>)"
  by (auto simp: pgcrypto_put_def bindE_eq_Inl new_id_def tx_eq_Inl ret_def Let_def)

lemma pgcrypto_get_state: "pgcrypto_get kek h s = (r, t) \<Longrightarrow> t = tick s"
  by (auto simp: pgcrypto_get_def bindE_def tx_def fail_def ret_def
      split: prod.splits sum.splits option.splits if_splits)

interpretation pgc: secret_store "pgcrypto_store refs kek" pgcrypto_inv "pgcrypto_live kek"
  "\<lambda>s i. i \<in> set (refs s)" db_faulty
  for refs :: "'z secrets_db_scheme \<Rightarrow> uuid list" and kek :: string
proof (unfold_locales, goal_cases)
  case (1 s org p h t)
  from 1(2) have put: "pgcrypto_put kek org p s = (Inr h, t)" by (simp add: pgcrypto_store_def)
  from pgcrypto_put_ok [OF 1(1) put] obtain row where row:
    "secrets t = secrets s @ [row]" "sec_id row = sr_id h" "sec_org row = org" "sr_org h = org"
    "sr_id h = pg_uuid s (pg_uuid_ctr s)" "pgp_open s kek row = Inr p" "pg_bypass t = pg_bypass s"
    "pg_uuid t = pg_uuid s" "pg_uuid_ctr t = Suc (pg_uuid_ctr s)" "pgp_enc t = pgp_enc s"
    "pgp_dec t = pgp_dec s"
    by blast
  have sinv: "secret_inv s" and byp: "\<not> pg_bypass s"
    using 1(1) by (auto simp: pgcrypto_inv_def secret_inv_def)
  have fresh: "sr_id h \<notin> sec_id ` set (secrets s)"
    using fresh_secret_id [OF sinv] row(5) by simp
  have inv: "pgcrypto_inv t"
    using 1(1) secret_inv_insert [OF sinv, of row t] row by (simp add: pgcrypto_inv_def pgp_law_def)
  have none: "find (secret_visible s h) (secrets s) = None"
    using fresh by (auto simp: find_None_iff_all secret_visible_def image_iff)
  have "pgcrypto_live kek t g = ((pgcrypto_live kek s)(h \<mapsto> p)) g" for g
    using live_after_insert [OF byp fresh, of row g] row(2-4,6)
    by (simp add: pgcrypto_live_def row(1) secret_visible_cong [OF row(7)] pgp_open_cong [OF row(11)]
        cong: option.case_cong)
  then show ?case
    using inv none row(4) by (auto simp: pgcrypto_live_def)
next
  case (2 s org p e t)
  then have "t = tick (s\<lparr>pg_uuid_ctr := Suc (pg_uuid_ctr s)\<rparr>)"
    by (intro pgcrypto_put_err) (simp add: pgcrypto_store_def)
  with 2(1) show ?case
    by (auto intro: pgcrypto_inv_cong [of _ s] pgcrypto_live_cong)
next
  case (3 s org p)
  then have "pg_uuid s (pg_uuid_ctr s) \<notin> sec_id ` set (secrets s)"
    by (intro fresh_secret_id) (simp add: pgcrypto_inv_def)
  with 3(2) show ?case
    by (auto simp: pgcrypto_store_def pgcrypto_put_def bindE_def new_id_def tx_def db_faulty_def
        insert_secret_def Let_def ret_def)
next
  case (4 s h r t)
  then have "t = tick s"
    by (intro pgcrypto_get_state) (simp add: pgcrypto_store_def)
  with 4(1) show ?case
    by (auto intro: pgcrypto_inv_cong [of _ s] pgcrypto_live_cong)
next
  case (5 s h p t)
  then show ?case
    by (auto simp: pgcrypto_store_def pgcrypto_get_def bindE_eq_Inr tx_eq_Inr pgcrypto_live_def
        fail_def ret_def split: option.splits sum.splits)
next
  case (6 s h p)
  then obtain r where "find (secret_visible s h) (secrets s) = Some r" "pgp_open s kek r = Inr p"
    by (auto simp: pgcrypto_live_def split: option.splits sum.splits)
  with 6(2) show ?case
    by (simp add: pgcrypto_store_def pgcrypto_get_def bindE_def tx_def db_faulty_def ret_def)
next
  case (7 s h u t)
  then have del: "secret_delete refs h s = (Inr u, t)" by (simp add: pgcrypto_store_def)
  note d = secret_delete_ok [OF del]
  have "secret_inv t"
    using 7(1) secret_inv_shrink [of s t "\<lambda>r. \<not> secret_visible s h r"] d
    by (simp add: pgcrypto_inv_def)
  then have "pgcrypto_inv t" using 7(1) d by (simp add: pgcrypto_inv_def pgp_law_def)
  moreover have "pgcrypto_live kek t g = ((pgcrypto_live kek s)(h := None)) g" for g
    using 7(1) find_filter_out [of s g h]
    by (simp add: pgcrypto_live_def d(1) secret_visible_cong [OF d(2)] pgp_open_cong [OF d(6)]
        pgcrypto_inv_def secret_inv_def cong: option.case_cong)
  ultimately show ?case by blast
next
  case (8 s h e t)
  then have "t = tick s" by (intro secret_delete_err) (simp add: pgcrypto_store_def)
  with 8(1) show ?case by (auto intro: pgcrypto_inv_cong [of _ s] pgcrypto_live_cong)
next
  case (9 s h)
  then show ?case by (simp add: pgcrypto_store_def db_faulty_def secret_delete_run)
next
  case (10 s h)
  then obtain r where "r \<in> set (secrets s)" "secret_visible s h r"
    by (auto simp: pgcrypto_live_def split: option.splits dest!: find_Some_iff2)
  then show ?case
    using secret_delete_refd [of r s h refs] 10(3) by (auto simp: pgcrypto_store_def)
next
  case (11 s h g)
  then obtain r where r: "r \<in> set (secrets s)" "secret_visible s h r"
    by (auto simp: pgcrypto_live_def split: option.splits dest!: find_Some_iff2)
  then have "find (secret_visible s g) (secrets s) = None"
    using 11 by (intro other_tenant_invisible [of s r h g]) (auto simp: pgcrypto_inv_def)
  then show ?case by (simp add: pgcrypto_live_def)
qed


subsection \<open>VaultStore over the in-memory transit\<close>

text \<open>The synthetic ciphertexts are pairwise distinct: the padded hexadecimal
  rendering of the counter can be read back.\<close>

definition hex_value :: "char \<Rightarrow> nat" where
  "hex_value c = (let n = of_char c in if n < 58 then n - 48 else n - 87)"

definition parse_hex :: "string \<Rightarrow> nat" where
  "parse_hex cs = foldl (\<lambda>a c. 16 * a + hex_value c) 0 cs"

lemma hex_value_hex_char: "d < 16 \<Longrightarrow> hex_value (hex_char d) = d"
  by (simp add: hex_value_def hex_char_def Let_def)

lemma parse_hex_snoc: "parse_hex (cs @ [c]) = 16 * parse_hex cs + hex_value c"
  by (simp add: parse_hex_def)

lemma parse_show_hex: "parse_hex (show_hex n) = n"
proof (induction n rule: show_hex.induct)
  case (1 n)
  show ?case
  proof (cases "n < 16")
    case True
    then show ?thesis by (subst show_hex.simps) (simp add: parse_hex_def hex_value_hex_char)
  next
    case False
    with 1 show ?thesis
      by (subst show_hex.simps) (simp add: parse_hex_snoc hex_value_hex_char)
  qed
qed

lemma foldl_hex_zeros: "foldl (\<lambda>a c. 16 * a + hex_value c) 0 (replicate k (CHR ''0'')) = 0"
  by (induction k) (simp_all add: hex_value_def)

lemma show_hex16_inj: "show_hex16 m = show_hex16 n \<longleftrightarrow> m = n"
proof
  have "parse_hex (show_hex16 k) = parse_hex (show_hex k)" for k
    unfolding show_hex16_def parse_hex_def foldl_append foldl_hex_zeros ..
  then show "show_hex16 m = show_hex16 n \<Longrightarrow> m = n" by (metis parse_show_hex)
qed simp

definition vault_ct :: "nat \<Rightarrow> string" where
  "vault_ct j = ''vault:test:'' @ show_hex16 j"

lemma vault_ct_inj [simp]: "vault_ct i = vault_ct j \<longleftrightarrow> i = j"
  by (simp add: vault_ct_def show_hex16_inj)

definition issued :: "in_memory_vault \<Rightarrow> string \<Rightarrow> bool" where
  "issued v c \<longleftrightarrow> c \<in> vault_ct ` {..vk_counter v}"

definition vault_inv :: "'z secrets_db_scheme \<Rightarrow> bool" where
  "vault_inv s \<longleftrightarrow> secret_inv s
     \<and> (\<forall>((k, c), p) \<in> set (vk_ciphertexts (vault s)). k \<in> set (vk_keys (vault s)))
     \<and> (\<forall>r \<in> set (secrets s). sec_algorithm r = VAULT_ALGORITHM_TAG \<longrightarrow> issued (vault s) (sec_ciphertext r))"

definition vault_live :: "string \<Rightarrow> 'z secrets_db_scheme \<Rightarrow> secret_ref \<Rightarrow> string option" where
  "vault_live prefix s h =
     (case find (secret_visible s h) (secrets s) of
        None \<Rightarrow> None
      | Some r \<Rightarrow>
          if sec_algorithm r \<noteq> VAULT_ALGORITHM_TAG then None
          else map_of (vk_ciphertexts (vault s))
                 (vault_key_name (pg_uuid_text s) prefix (sr_org h), sec_ciphertext r))"

text \<open>The vault after \<open>ensure_key\<close> and \<open>encrypt\<close> under that key.\<close>

definition vault_step :: "string \<Rightarrow> string \<Rightarrow> in_memory_vault \<Rightarrow> in_memory_vault" where
  "vault_step k p v =
     v\<lparr>vk_keys := List.insert k (vk_keys v), vk_counter := Suc (vk_counter v),
       vk_ciphertexts := ((k, vault_ct (Suc (vk_counter v))), p) # vk_ciphertexts v\<rparr>"

lemma issued_step: "issued v c \<Longrightarrow> issued (vault_step k p v) c \<and> c \<noteq> vault_ct (Suc (vk_counter v))"
  by (auto simp: issued_def vault_step_def)

lemma vault_inv_step:
  assumes "vault_inv s" and "secrets t = secrets s" "vault t = vault_step k p (vault s)"
    "pg_uuid_ctr s \<le> pg_uuid_ctr t" "pg_uuid t = pg_uuid s" "pg_bypass t = pg_bypass s"
  shows "vault_inv t"
  using assms secret_inv_shrink [of s t "\<lambda>_. True"] issued_step
  by (auto simp: vault_inv_def) (auto simp: vault_step_def)

lemma vault_live_step:
  assumes "vault_inv s" and "secrets t = secrets s" "vault t = vault_step k p (vault s)"
    "pg_uuid_text t = pg_uuid_text s" "pg_bypass t = pg_bypass s"
  shows "vault_live prefix t = vault_live prefix s"
proof
  fix h
  have "sec_ciphertext r \<noteq> vault_ct (Suc (vk_counter (vault s)))"
    if "find (secret_visible s h) (secrets s) = Some r" "sec_algorithm r = VAULT_ALGORITHM_TAG" for r
    using assms(1) that issued_step by (fastforce simp: vault_inv_def dest!: find_Some_iff2)
  then show "vault_live prefix t h = vault_live prefix s h"
    unfolding vault_live_def assms(2-4) secret_visible_cong [OF assms(5)]
    by (auto simp: vault_step_def split: option.split)
qed

lemma vault_put_run:
  "vault_put in_memory_transit prefix org p s =
     (let k = vault_key_name (pg_uuid_text s) prefix org;
          s1 = s\<lparr>vault := vault_step k p (vault s), pg_uuid_ctr := Suc (pg_uuid_ctr s)\<rparr>;
          row = \<lparr>sec_id = pg_uuid s (pg_uuid_ctr s), sec_org = org,
                 sec_ciphertext = vault_ct (Suc (vk_counter (vault s))), sec_wrapped_dek = [],
                 sec_algorithm = VAULT_ALGORITHM_TAG, sec_created_at = now s\<rparr>
      in if pg_fault s (pg_calls s) then (Inl (SecDatabase SqlxConnection), tick s1)
         else if sec_id row \<in> set (map sec_id (secrets s)) then (Inl (SecDatabase SqlxUnique), tick s1)
         else (Inr \<lparr>sr_id = sec_id row, sr_org = org\<rparr>, tick (s1\<lparr>secrets := secrets s @ [row]\<rparr>)))"
  by (simp add: vault_put_def in_memory_transit_def im_ensure_key_def im_encrypt_def bindE_def
      getS_def new_id_def tx_def insert_secret_def ret_def Let_def vault_step_def vault_ct_def now_def)

lemma vault_put_ok:
  assumes inv: "vault_inv s" and "vault_put in_memory_transit prefix org p s = (Inr h, t)"
  shows "vault_inv t" and "sr_org h = org" and "vault_live prefix s h = None"
    and "vault_live prefix t = (vault_live prefix s)(h \<mapsto> p)"
proof -
  define k where "k = vault_key_name (pg_uuid_text s) prefix org"
  define s1 where "s1 = s\<lparr>vault := vault_step k p (vault s), pg_uuid_ctr := Suc (pg_uuid_ctr s)\<rparr>"
  define row where "row = \<lparr>sec_id = pg_uuid s (pg_uuid_ctr s), sec_org = org,
                 sec_ciphertext = vault_ct (Suc (vk_counter (vault s))), sec_wrapped_dek = [],
                 sec_algorithm = VAULT_ALGORITHM_TAG, sec_created_at = now s\<rparr>"
  have h: "h = \<lparr>sr_id = sec_id row, sr_org = org\<rparr>" and t: "t = tick (s1\<lparr>secrets := secrets s @ [row]\<rparr>)"
    using assms(2) unfolding vault_put_run Let_def s1_def k_def row_def by (simp_all split: if_splits)
  have row: "sec_id row = sr_id h" "sec_org row = org" "sr_org h = org"
      "sr_id h = pg_uuid s (pg_uuid_ctr s)" "sec_ciphertext row = vault_ct (Suc (vk_counter (vault s)))"
      "sec_algorithm row = VAULT_ALGORITHM_TAG"
    by (simp_all add: h row_def)
  have sinv: "secret_inv s" and byp: "\<not> pg_bypass s"
    using inv by (auto simp: vault_inv_def secret_inv_def)
  have fresh: "sr_id h \<notin> sec_id ` set (secrets s)"
    using fresh_secret_id [OF sinv] row(4) by simp
  have inv1: "vault_inv s1" and live1: "vault_live prefix s1 = vault_live prefix s"
    using vault_inv_step [OF inv, of s1 k p] vault_live_step [OF inv, of s1 k p]
    by (simp_all add: s1_def)
  have "secret_inv t"
    by (rule secret_inv_insert [OF sinv, of row]) (simp_all add: t s1_def row_def)
  then show "vault_inv t"
    using inv1 row(5) by (auto simp: vault_inv_def t s1_def vault_step_def issued_def)
  show "sr_org h = org" by (fact row)
  have "find (secret_visible s h) (secrets s) = None"
    using fresh by (auto simp: find_None_iff_all secret_visible_def image_iff)
  then show "vault_live prefix s h = None" by (simp add: vault_live_def)
  have vis: "secret_visible t = secret_visible s" "secret_visible s1 = secret_visible s"
    by (rule secret_visible_cong; simp add: t s1_def)+
  have comp: "secrets t = secrets s @ [row]" "secrets s1 = secrets s" "vault t = vault s1"
    "vk_ciphertexts (vault s1) = ((k, sec_ciphertext row), p) # vk_ciphertexts (vault s)"
    "pg_uuid_text t = pg_uuid_text s" "pg_uuid_text s1 = pg_uuid_text s"
    by (simp_all add: t s1_def vault_step_def row(5))
  have "vault_live prefix t g = ((vault_live prefix s1)(h \<mapsto> p)) g" for g
    using live_after_insert [OF byp fresh row(1), of g] row(2,3,6)
    by (simp add: vault_live_def vis comp k_def split: option.split)
  then show "vault_live prefix t = (vault_live prefix s)(h \<mapsto> p)" by (auto simp: live1)
qed

lemma vault_put_err:
  assumes "vault_inv s" and "vault_put in_memory_transit prefix org p s = (Inl e, t)"
  shows "vault_inv t" and "vault_live prefix t = vault_live prefix s"
proof -
  obtain k where t: "t = tick (s\<lparr>vault := vault_step k p (vault s), pg_uuid_ctr := Suc (pg_uuid_ctr s)\<rparr>)"
    using assms(2) by (auto simp: vault_put_run Let_def split: if_splits)
  show "vault_inv t" and "vault_live prefix t = vault_live prefix s"
    using vault_inv_step [OF assms(1), of t k p] vault_live_step [OF assms(1), of t k p]
    by (simp_all add: t)
qed

lemma vault_get_state: "vault_get in_memory_transit prefix h s = (r, t) \<Longrightarrow> t = tick s"
  by (auto simp: vault_get_def in_memory_transit_def im_decrypt_def bindE_def tx_def fail_def getS_def
      Let_def split: prod.splits sum.splits option.splits if_splits)

lemma vault_tick: "vault_inv (tick s) = vault_inv s" "vault_live prefix (tick s) = vault_live prefix s"
  by (simp_all add: vault_inv_def vault_live_def secret_visible_cong [of "tick s" s] fun_eq_iff
      split: option.split)

lemma vault_key_present:
  assumes "vault_inv s" and "map_of (vk_ciphertexts (vault s)) (k, c) = Some p"
  shows "k \<in> set (vk_keys (vault s))"
  using assms by (auto simp: vault_inv_def dest!: map_of_SomeD)

interpretation vlt: secret_store "vault_store refs in_memory_transit prefix" vault_inv
  "vault_live prefix" "\<lambda>s i. i \<in> set (refs s)" db_faulty
  for refs :: "'z secrets_db_scheme \<Rightarrow> uuid list" and prefix :: string
proof (unfold_locales, goal_cases)
  case (1 s org p h t)
  then show ?case using vault_put_ok [of s prefix org p h t] by (simp add: vault_store_def)
next
  case (2 s org p e t)
  then show ?case using vault_put_err [of s prefix org p e t] by (simp add: vault_store_def)
next
  case (3 s org p)
  then show ?case
    using fresh_secret_id [of s]
    by (auto simp: vault_store_def vault_put_run Let_def db_faulty_def vault_inv_def)
next
  case (4 s h r t)
  then have "t = tick s" by (intro vault_get_state) (simp add: vault_store_def)
  with 4(1) show ?case by (simp add: vault_tick)
next
  case (5 s h p t)
  then show ?case
    by (auto simp: vault_store_def vault_get_def bindE_eq_Inr tx_eq_Inr vault_live_def fail_def
        getS_def in_memory_transit_def im_decrypt_def Let_def split: option.splits if_splits)
next
  case (6 s h p)
  then obtain r where r: "find (secret_visible s h) (secrets s) = Some r"
      "sec_algorithm r = VAULT_ALGORITHM_TAG"
      "map_of (vk_ciphertexts (vault s))
         (vault_key_name (pg_uuid_text s) prefix (sr_org h), sec_ciphertext r) = Some p"
    by (auto simp: vault_live_def split: option.splits if_splits)
  with 6(2) vault_key_present [OF 6(1) r(3)] show ?case
    by (simp add: vault_store_def vault_get_def bindE_def tx_def db_faulty_def getS_def
        in_memory_transit_def im_decrypt_def)
next
  case (7 s h u t)
  then have del: "secret_delete refs h s = (Inr u, t)" by (simp add: vault_store_def)
  note d = secret_delete_ok [OF del]
  have "vault_inv t"
    using 7(1) secret_inv_shrink [of s t "\<lambda>r. \<not> secret_visible s h r"] d
    by (simp add: vault_inv_def)
  moreover have "vault_live prefix t g = ((vault_live prefix s)(h := None)) g" for g
    using 7(1) find_filter_out [of s g h]
    by (simp add: vault_live_def d secret_visible_cong [OF d(2)] vault_inv_def secret_inv_def
        split: option.split)
  ultimately show ?case by blast
next
  case (8 s h e t)
  then have "t = tick s" by (intro secret_delete_err) (simp add: vault_store_def)
  with 8(1) show ?case by (simp add: vault_tick)
next
  case (9 s h)
  then show ?case by (simp add: vault_store_def db_faulty_def secret_delete_run)
next
  case (10 s h)
  then obtain r where "r \<in> set (secrets s)" "secret_visible s h r"
    by (auto simp: vault_live_def split: option.splits dest!: find_Some_iff2)
  then show ?case
    using secret_delete_refd [of r s h refs] 10(3) by (auto simp: vault_store_def)
next
  case (11 s h g)
  then obtain r where r: "r \<in> set (secrets s)" "secret_visible s h r"
    by (auto simp: vault_live_def split: option.splits dest!: find_Some_iff2)
  then have "find (secret_visible s g) (secrets s) = None"
    using 11 by (intro other_tenant_invisible [of s r h g]) (auto simp: vault_inv_def)
  then show ?case by (simp add: vault_live_def)
qed

end
