(* ===== verification/Identity.thy ===== *)
theory Identity
  imports Secrets_Store
begin

text \<open>
  The identity crate: Hetzner credentials, memberships and invites
  (\<open>identity/src/model.rs\<close>, \<open>repository.rs\<close>, \<open>service.rs\<close>) over the tables
  they own. Each repository method is one tenant-scoped transaction; the
  services compose them exactly as the code does, so a failure between two
  transactions is visible.
\<close>

section \<open>Tables\<close>

text \<open>Instants are microseconds.\<close>

definition minutes :: "int \<Rightarrow> int" where
  "minutes n = n * 60000000"

definition days :: "int \<Rightarrow> int" where
  "days n = n * 86400000000"

datatype membership_role = Owner | Admin | Developer | Viewer

definition can_manage_members :: "membership_role \<Rightarrow> bool" where
  "can_manage_members r \<longleftrightarrow> r = Owner \<or> r = Admin"

datatype plan = Free | Starter | Pro

record organization_row =
  o_id :: uuid
  o_slug :: string
  o_display_name :: string
  o_plan :: plan
  o_stripe_customer_id :: "string option"
  o_created_at :: timestamp
  o_updated_at :: timestamp
  o_version :: int

record user_row =
  u_id :: uuid
  u_email :: string
  u_display_name :: string
  u_avatar_url :: "string option"
  u_primary_oidc_sub :: "string option"
  u_mfa_enrolled :: bool
  u_requires_mfa :: bool
  u_updated_at :: timestamp
  u_version :: int

record oidc_identity_row =
  oi_id :: uuid
  oi_user :: uuid
  oi_issuer :: string
  oi_subject :: string
  oi_email_at_link :: "string option"

record hetzner_credential_row =
  cr_id :: uuid
  cr_org :: uuid
  cr_alias :: string
  cr_secret_id :: uuid
  cr_created_at :: timestamp
  cr_updated_at :: timestamp
  cr_deleted_at :: "timestamp option"
  cr_version :: int

record membership_row =
  m_id :: uuid
  m_org :: uuid
  m_user :: uuid
  m_role :: membership_role
  m_created_at :: timestamp
  m_updated_at :: timestamp
  m_deleted_at :: "timestamp option"
  m_version :: int

record invite_row =
  i_id :: uuid
  i_org :: uuid
  i_email :: string
  i_role :: membership_role
  i_token_hash :: string
  i_token_prefix :: string
  i_invited_by :: uuid
  i_expires_at :: timestamp
  i_accepted_at :: "timestamp option"
  i_accepted_by :: "uuid option"
  i_revoked_at :: "timestamp option"
  i_created_at :: timestamp
  i_updated_at :: timestamp
  i_version :: int

record session_row =
  s_id :: uuid
  s_user :: uuid
  s_created_at :: timestamp
  s_last_used_at :: timestamp
  s_expires_at :: timestamp
  s_revoked_at :: "timestamp option"
  s_user_agent :: "string option"
  s_ip_address :: "string option"
  s_mfa_satisfied :: bool

record passkey =
  pk_id :: uuid
  pk_user :: uuid
  pk_credential_id :: string
  pk_credential :: string
  pk_sign_counter :: int
  pk_nickname :: string
  pk_registered_at :: timestamp
  pk_last_used_at :: "timestamp option"
  pk_revoked_at :: "timestamp option"

record mfa_recovery_code =
  rc_id :: uuid
  rc_user :: uuid
  rc_code_hash :: string
  rc_created_at :: timestamp
  rc_used_at :: "timestamp option"

record auth_state_row =
  as_state :: string
  as_nonce :: string
  as_code_verifier :: string
  as_provider :: string
  as_redirect_to :: "string option"
  as_created_at :: timestamp
  as_expires_at :: timestamp
  as_consumed_at :: "timestamp option"

datatype ceremony_kind = Registration | Assertion

record ceremony_row =
  ce_id :: uuid
  ce_user :: uuid
  ce_kind :: ceremony_kind
  ce_state :: string
  ce_expires_at :: timestamp

text \<open>\<open>rand_token\<close> yields the base64url form of 32 random bytes.\<close>

record identity_db = secrets_db +
  organizations :: "organization_row list"
  users :: "user_row list"
  oidc_identities :: "oidc_identity_row list"
  hetzner_credentials :: "hetzner_credential_row list"
  memberships :: "membership_row list"
  invites :: "invite_row list"
  sessions :: "session_row list"
  user_passkeys :: "passkey list"
  recovery_codes :: "mfa_recovery_code list"
  auth_states :: "auth_state_row list"
  webauthn_ceremonies :: "ceremony_row list"
  rand_token :: "nat \<Rightarrow> string"

lemma identity_frame_tick [simp]:
  "organizations (tick s) = organizations s"
  "users (tick s) = users s"
  "oidc_identities (tick s) = oidc_identities s"
  "hetzner_credentials (tick s) = hetzner_credentials s"
  "memberships (tick s) = memberships s"
  "invites (tick s) = invites s"
  "sessions (tick s) = sessions s"
  "user_passkeys (tick s) = user_passkeys s"
  "recovery_codes (tick s) = recovery_codes s"
  "auth_states (tick s) = auth_states s"
  "webauthn_ceremonies (tick s) = webauthn_ceremonies s"
  "rand_token (tick s) = rand_token s"
  by (simp_all add: tick_def)

lemma identity_frame_audit [simp]:
  "organizations (audit_log_append_explicit c g a t r d m s) = organizations s"
  "users (audit_log_append_explicit c g a t r d m s) = users s"
  "oidc_identities (audit_log_append_explicit c g a t r d m s) = oidc_identities s"
  "hetzner_credentials (audit_log_append_explicit c g a t r d m s) = hetzner_credentials s"
  "memberships (audit_log_append_explicit c g a t r d m s) = memberships s"
  "invites (audit_log_append_explicit c g a t r d m s) = invites s"
  "sessions (audit_log_append_explicit c g a t r d m s) = sessions s"
  "user_passkeys (audit_log_append_explicit c g a t r d m s) = user_passkeys s"
  "recovery_codes (audit_log_append_explicit c g a t r d m s) = recovery_codes s"
  "auth_states (audit_log_append_explicit c g a t r d m s) = auth_states s"
  "webauthn_ceremonies (audit_log_append_explicit c g a t r d m s) = webauthn_ceremonies s"
  "rand_token (audit_log_append_explicit c g a t r d m s) = rand_token s"
  by (simp_all add: audit_log_append_explicit_def Let_def)

lemma identity_frame_trigger [simp]:
  "organizations (audit_log_append_trigger c tb v g r s) = organizations s"
  "users (audit_log_append_trigger c tb v g r s) = users s"
  "oidc_identities (audit_log_append_trigger c tb v g r s) = oidc_identities s"
  "hetzner_credentials (audit_log_append_trigger c tb v g r s) = hetzner_credentials s"
  "memberships (audit_log_append_trigger c tb v g r s) = memberships s"
  "invites (audit_log_append_trigger c tb v g r s) = invites s"
  "sessions (audit_log_append_trigger c tb v g r s) = sessions s"
  "user_passkeys (audit_log_append_trigger c tb v g r s) = user_passkeys s"
  "recovery_codes (audit_log_append_trigger c tb v g r s) = recovery_codes s"
  "auth_states (audit_log_append_trigger c tb v g r s) = auth_states s"
  "webauthn_ceremonies (audit_log_append_trigger c tb v g r s) = webauthn_ceremonies s"
  "rand_token (audit_log_append_trigger c tb v g r s) = rand_token s"
  by (simp_all add: audit_log_append_trigger_def)

lemma identity_frame_rows [simp]:
  "organizations (audit_rows c tb v rows s) = organizations s"
  "users (audit_rows c tb v rows s) = users s"
  "oidc_identities (audit_rows c tb v rows s) = oidc_identities s"
  "hetzner_credentials (audit_rows c tb v rows s) = hetzner_credentials s"
  "memberships (audit_rows c tb v rows s) = memberships s"
  "invites (audit_rows c tb v rows s) = invites s"
  "sessions (audit_rows c tb v rows s) = sessions s"
  "user_passkeys (audit_rows c tb v rows s) = user_passkeys s"
  "recovery_codes (audit_rows c tb v rows s) = recovery_codes s"
  "auth_states (audit_rows c tb v rows s) = auth_states s"
  "webauthn_ceremonies (audit_rows c tb v rows s) = webauthn_ceremonies s"
  "rand_token (audit_rows c tb v rows s) = rand_token s"
  by (induction rows arbitrary: s) (auto simp: audit_rows_Cons)

text \<open>\<open>ORDER BY key DESC\<close>.\<close>

definition order_desc :: "('r \<Rightarrow> timestamp) \<Rightarrow> 'r list \<Rightarrow> 'r list" where
  "order_desc key rows = sort_key (\<lambda>r. - key r) rows"

section \<open>Hetzner credentials\<close>

record hetzner_credential =
  hc_id :: uuid
  hc_org :: uuid
  hc_alias :: string
  hc_secret_ref :: secret_ref
  hc_created_at :: timestamp
  hc_updated_at :: timestamp
  hc_version :: int

definition row_to_credential :: "hetzner_credential_row \<Rightarrow> hetzner_credential" where
  "row_to_credential r =
     \<lparr>hc_id = cr_id r, hc_org = cr_org r, hc_alias = cr_alias r,
      hc_secret_ref = \<lparr>sr_id = cr_secret_id r, sr_org = cr_org r\<rparr>,
      hc_created_at = cr_created_at r, hc_updated_at = cr_updated_at r, hc_version = cr_version r\<rparr>"

definition map_conflict :: "sqlx_error \<Rightarrow> platform_error" where
  "map_conflict e =
     (if e = SqlxUnique then Conflict ''a Hetzner credential with this alias already exists''
      else Database e)"

definition cred_visible :: "'z identity_db_scheme \<Rightarrow> uuid \<Rightarrow> hetzner_credential_row \<Rightarrow> bool" where
  "cred_visible s org r \<longleftrightarrow> rls s (Some org) (cr_org r)"

definition cred_insert ::
    "uuid \<Rightarrow> string \<Rightarrow> secret_ref \<Rightarrow> audit_ctx
      \<Rightarrow> ('z identity_db_scheme, platform_error, hetzner_credential) op" where
  "cred_insert org alias sref ctx =
     (if sr_org sref \<noteq> org
      then fail (Invalid ''secret_ref organization does not match credential organization'')
      else bindE new_id (\<lambda>i.
        tx Database (\<lambda>s.
          let row = \<lparr>cr_id = i, cr_org = org, cr_alias = alias, cr_secret_id = sr_id sref,
                     cr_created_at = now s, cr_updated_at = now s, cr_deleted_at = None,
                     cr_version = 1\<rparr> in
          if (\<exists>r \<in> set (hetzner_credentials s). cr_id r = i \<or>
                cr_org r = org \<and> cr_alias r = alias \<and> cr_deleted_at r = None)
          then (Inl (map_conflict SqlxUnique), s)
          else if sr_id sref \<notin> sec_id ` set (secrets s) then (Inl (map_conflict SqlxForeignKey), s)
          else (Inr (row_to_credential row),
                audit_rows ctx ''hetzner_credentials'' ''.created'' [(org, i)]
                  (s\<lparr>hetzner_credentials := hetzner_credentials s @ [row]\<rparr>)))))"

definition cred_list ::
    "uuid \<Rightarrow> ('z identity_db_scheme, platform_error, hetzner_credential list) op" where
  "cred_list org =
     tx Database (\<lambda>s.
       (Inr (map row_to_credential (order_desc cr_created_at
          (filter (\<lambda>r. cred_visible s org r \<and> cr_deleted_at r = None) (hetzner_credentials s)))), s))"

definition cred_get ::
    "uuid \<Rightarrow> uuid \<Rightarrow> ('z identity_db_scheme, platform_error, hetzner_credential) op" where
  "cred_get org i =
     bindE (tx Database (\<lambda>s.
       (Inr (find (\<lambda>r. cred_visible s org r \<and> cr_id r = i \<and> cr_deleted_at r = None)
          (hetzner_credentials s)), s))) (\<lambda>row s.
     case row of
       None \<Rightarrow> (Inl (NotFound (''hetzner_credential/'' @ pg_uuid_text s i)), s)
     | Some r \<Rightarrow> (Inr (row_to_credential r), s))"

definition cred_soft_delete ::
    "uuid \<Rightarrow> uuid \<Rightarrow> audit_ctx \<Rightarrow> ('z identity_db_scheme, platform_error, unit) op" where
  "cred_soft_delete org i ctx =
     bindE (tx Database (\<lambda>s.
       let hit = \<lambda>r. cred_visible s org r \<and> cr_id r = i \<and> cr_deleted_at r = None in
       (Inr (sql_count hit (hetzner_credentials s)),
        audit_rows ctx ''hetzner_credentials'' ''.updated''
          (map (\<lambda>r. (cr_org r, cr_id r)) (filter hit (hetzner_credentials s)))
          (s\<lparr>hetzner_credentials := sql_update hit
               (\<lambda>r. r\<lparr>cr_deleted_at := Some (now s), cr_updated_at := now s,
                       cr_version := cr_version r + 1\<rparr>) (hetzner_credentials s)\<rparr>)))) (\<lambda>affected s.
     if affected = 0 then (Inl (NotFound (''hetzner_credential/'' @ pg_uuid_text s i)), s)
     else (Inr (), s))"

text \<open>\<open>HetznerCredentialService\<close>.\<close>

definition hcs_create ::
    "'z identity_db_scheme secret_ops \<Rightarrow> uuid \<Rightarrow> string \<Rightarrow> string \<Rightarrow> audit_ctx
      \<Rightarrow> ('z identity_db_scheme, platform_error, hetzner_credential) op" where
  "hcs_create store org alias token ctx =
     bindE (map_err Secret (ss_put store org token)) (\<lambda>sref.
     catchE (cred_insert org alias sref ctx)
       (\<lambda>err. bindE (ignoreE (ss_delete store sref)) (\<lambda>_. fail err))
       ret)"

definition hcs_list ::
    "uuid \<Rightarrow> ('z identity_db_scheme, platform_error, hetzner_credential list) op" where
  "hcs_list org = cred_list org"

definition hcs_get ::
    "uuid \<Rightarrow> uuid \<Rightarrow> ('z identity_db_scheme, platform_error, hetzner_credential) op" where
  "hcs_get org i = cred_get org i"

definition hcs_delete ::
    "'z identity_db_scheme secret_ops \<Rightarrow> uuid \<Rightarrow> uuid \<Rightarrow> audit_ctx
      \<Rightarrow> ('z identity_db_scheme, platform_error, unit) op" where
  "hcs_delete store org i ctx =
     bindE (cred_get org i) (\<lambda>c.
     bindE (cred_soft_delete org i ctx) (\<lambda>_.
     ignoreE (ss_delete store (hc_secret_ref c))))"

section \<open>Memberships\<close>

record membership_view =
  mv_id :: uuid
  mv_user_id :: uuid
  mv_email :: string
  mv_display_name :: string
  mv_role :: membership_role
  mv_joined_at :: timestamp
  mv_last_active_at :: "timestamp option"

definition last_active :: "session_row list \<Rightarrow> uuid \<Rightarrow> timestamp option" where
  "last_active ss u =
     (case map s_last_used_at (filter (\<lambda>x. s_user x = u \<and> s_revoked_at x = None) ss) of
        [] \<Rightarrow> None | t # ts \<Rightarrow> Some (fold max ts t))"

text \<open>A row is visible to the query when the policy shows it and it matches
  \<open>organization_id = $1\<close>.\<close>

definition memb_visible :: "'z identity_db_scheme \<Rightarrow> uuid \<Rightarrow> membership_row \<Rightarrow> bool" where
  "memb_visible s org r \<longleftrightarrow> rls s (Some org) (m_org r) \<and> m_org r = org"

definition memb_live :: "'z identity_db_scheme \<Rightarrow> uuid \<Rightarrow> membership_row \<Rightarrow> bool" where
  "memb_live s org r \<longleftrightarrow> memb_visible s org r \<and> m_deleted_at r = None"

definition membership_list ::
    "uuid \<Rightarrow> ('z identity_db_scheme, platform_error, membership_view list) op" where
  "membership_list org =
     tx Database (\<lambda>s.
       (Inr (concat (map (\<lambda>m.
          map (\<lambda>u. \<lparr>mv_id = m_id m, mv_user_id = m_user m, mv_email = u_email u,
                    mv_display_name = u_display_name u, mv_role = m_role m,
                    mv_joined_at = m_created_at m,
                    mv_last_active_at = last_active (sessions s) (m_user m)\<rparr>)
              (filter (\<lambda>u. u_id u = m_user m) (users s)))
          (sort_key m_created_at (filter (memb_live s org) (memberships s))))), s))"

definition role_of ::
    "uuid \<Rightarrow> uuid \<Rightarrow> ('z identity_db_scheme, platform_error, membership_role option) op" where
  "role_of org u =
     tx Database (\<lambda>s.
       (Inr (map_option m_role (find (\<lambda>r. memb_live s org r \<and> m_user r = u) (memberships s))), s))"

text \<open>The trigger \<open>memberships_sync_requires_mfa\<close>: it runs with the rights of
  the caller, so its \<open>EXISTS\<close> sees the memberships the policy shows under the
  current tenant.\<close>

definition sync_user_requires_mfa ::
    "uuid option \<Rightarrow> uuid \<Rightarrow> 'z identity_db_scheme \<Rightarrow> 'z identity_db_scheme" where
  "sync_user_requires_mfa guc u s =
     (let computed = (\<exists>r \<in> set (memberships s). rls s guc (m_org r) \<and> m_user r = u
                        \<and> m_deleted_at r = None \<and> m_role r \<in> {Owner, Admin})
      in s\<lparr>users := sql_update (\<lambda>x. u_id x = u \<and> u_requires_mfa x \<noteq> computed)
             (\<lambda>x. x\<lparr>u_requires_mfa := computed, u_updated_at := now s, u_version := u_version x + 1\<rparr>)
             (users s)\<rparr>)"

text \<open>A write to the membership of \<open>(org, u)\<close>: the rows, then the audit trigger
  and the MFA trigger for the affected row.\<close>

definition memb_triggers ::
    "uuid \<Rightarrow> uuid \<Rightarrow> audit_ctx \<Rightarrow> string \<Rightarrow> membership_row list
      \<Rightarrow> 'z identity_db_scheme \<Rightarrow> 'z identity_db_scheme" where
  "memb_triggers org u ctx verb hits s =
     (let s' = audit_rows ctx ''memberships'' verb (map (\<lambda>r. (m_org r, m_id r)) hits) s
      in if hits = [] then s' else sync_user_requires_mfa (Some org) u s')"

definition membership_insert ::
    "uuid \<Rightarrow> uuid \<Rightarrow> membership_role \<Rightarrow> audit_ctx
      \<Rightarrow> ('z identity_db_scheme, platform_error, unit) op" where
  "membership_insert org u role ctx =
     bindE new_id (\<lambda>i.
     tx Database (\<lambda>s.
       let hit = \<lambda>r. m_org r = org \<and> m_user r = u in
       if (\<exists>r \<in> set (memberships s). hit r)
       then (Inr (), memb_triggers org u ctx ''.updated'' (filter hit (memberships s))
               (s\<lparr>memberships := sql_update hit
                    (\<lambda>r. r\<lparr>m_role := role, m_deleted_at := None, m_updated_at := now s,
                            m_version := m_version r + 1\<rparr>) (memberships s)\<rparr>))
       else if i \<in> m_id ` set (memberships s) then (Inl (Database SqlxUnique), s)
       else let row = \<lparr>m_id = i, m_org = org, m_user = u, m_role = role, m_created_at = now s,
                       m_updated_at = now s, m_deleted_at = None, m_version = 1\<rparr> in
            (Inr (), memb_triggers org u ctx ''.created'' [row]
               (s\<lparr>memberships := memberships s @ [row]\<rparr>))))"

definition membership_update_role ::
    "uuid \<Rightarrow> uuid \<Rightarrow> membership_role \<Rightarrow> audit_ctx
      \<Rightarrow> ('z identity_db_scheme, platform_error, unit) op" where
  "membership_update_role org u role ctx =
     bindE (tx Database (\<lambda>s.
       let hit = \<lambda>r. memb_live s org r \<and> m_user r = u in
       (Inr (sql_count hit (memberships s)),
        memb_triggers org u ctx ''.updated'' (filter hit (memberships s))
          (s\<lparr>memberships := sql_update hit
               (\<lambda>r. r\<lparr>m_role := role, m_updated_at := now s, m_version := m_version r + 1\<rparr>)
               (memberships s)\<rparr>)))) (\<lambda>affected s.
     if affected = 0
     then (Inl (NotFound (''membership user/'' @ pg_uuid_text s u @ '' in org/'' @ pg_uuid_text s org)), s)
     else (Inr (), s))"

definition membership_soft_delete ::
    "uuid \<Rightarrow> uuid \<Rightarrow> audit_ctx \<Rightarrow> ('z identity_db_scheme, platform_error, unit) op" where
  "membership_soft_delete org u ctx =
     tx Database (\<lambda>s.
       let hit = \<lambda>r. memb_live s org r \<and> m_user r = u in
       (Inr (),
        memb_triggers org u ctx ''.updated'' (filter hit (memberships s))
          (s\<lparr>memberships := sql_update hit
               (\<lambda>r. r\<lparr>m_deleted_at := Some (now s), m_updated_at := now s,
                       m_version := m_version r + 1\<rparr>) (memberships s)\<rparr>)))"

section \<open>Invites\<close>

record invite =
  inv_id :: uuid
  inv_org :: uuid
  inv_email :: string
  inv_role :: membership_role
  inv_token_prefix :: string
  inv_accepted_at :: "timestamp option"
  inv_revoked_at :: "timestamp option"
  inv_expires_at :: timestamp
  inv_created_at :: timestamp

definition row_to_invite :: "invite_row \<Rightarrow> invite" where
  "row_to_invite r =
     \<lparr>inv_id = i_id r, inv_org = i_org r, inv_email = i_email r, inv_role = i_role r,
      inv_token_prefix = i_token_prefix r, inv_accepted_at = i_accepted_at r,
      inv_revoked_at = i_revoked_at r, inv_expires_at = i_expires_at r,
      inv_created_at = i_created_at r\<rparr>"

definition invite_is_live :: "invite \<Rightarrow> timestamp \<Rightarrow> bool" where
  "invite_is_live v t \<longleftrightarrow> inv_accepted_at v = None \<and> inv_revoked_at v = None \<and> inv_expires_at v > t"

definition map_invite_conflict :: "sqlx_error \<Rightarrow> platform_error" where
  "map_invite_conflict e =
     (if e = SqlxUnique then Conflict ''an invite for this email is already pending''
      else Database e)"

definition invite_pending :: "invite_row \<Rightarrow> bool" where
  "invite_pending r \<longleftrightarrow> i_accepted_at r = None \<and> i_revoked_at r = None"

definition invite_insert ::
    "uuid \<Rightarrow> string \<Rightarrow> membership_role \<Rightarrow> string \<Rightarrow> string \<Rightarrow> uuid \<Rightarrow> timestamp \<Rightarrow> audit_ctx
      \<Rightarrow> ('z identity_db_scheme, platform_error, invite) op" where
  "invite_insert org email role thash tprefix by_user expires ctx =
     bindE new_id (\<lambda>i.
     tx Database (\<lambda>s.
       let row = \<lparr>i_id = i, i_org = org, i_email = email, i_role = role, i_token_hash = thash,
                  i_token_prefix = tprefix, i_invited_by = by_user, i_expires_at = expires,
                  i_accepted_at = None, i_accepted_by = None, i_revoked_at = None,
                  i_created_at = now s, i_updated_at = now s, i_version = 1\<rparr> in
       if (\<exists>r \<in> set (invites s). i_id r = i \<or> i_token_hash r = thash \<or>
             i_org r = org \<and> eq_ignore_ascii_case (i_email r) email \<and> invite_pending r)
       then (Inl (map_invite_conflict SqlxUnique), s)
       else (Inr (row_to_invite row),
             audit_rows ctx ''invites'' ''.created'' [(org, i)] (s\<lparr>invites := invites s @ [row]\<rparr>))))"

definition invite_list :: "uuid \<Rightarrow> ('z identity_db_scheme, platform_error, invite list) op" where
  "invite_list org =
     tx Database (\<lambda>s.
       (Inr (map row_to_invite (take 200 (order_desc i_created_at
          (filter (\<lambda>r. rls s (Some org) (i_org r) \<and> i_org r = org) (invites s))))), s))"

text \<open>Two queries run on the pool itself, outside a tenant-scoped transaction.\<close>

definition get_by_hash :: "string \<Rightarrow> ('z identity_db_scheme, platform_error, invite option) op" where
  "get_by_hash thash =
     tx Database (\<lambda>s.
       (Inr (map_option row_to_invite
          (find (\<lambda>r. rls s None (i_org r) \<and> i_token_hash r = thash) (invites s))), s))"

definition mark_accepted_tx ::
    "uuid \<Rightarrow> uuid \<Rightarrow> uuid \<Rightarrow> audit_ctx \<Rightarrow> ('z identity_db_scheme, platform_error, unit) op" where
  "mark_accepted_tx org i by_user ctx =
     bindE (tx Database (\<lambda>s.
       let hit = \<lambda>r. rls s (Some org) (i_org r) \<and> i_id r = i \<and> invite_pending r
                    \<and> i_expires_at r > now s in
       (Inr (sql_count hit (invites s)),
        audit_rows ctx ''invites'' ''.updated'' (map (\<lambda>r. (i_org r, i_id r)) (filter hit (invites s)))
          (s\<lparr>invites := sql_update hit
               (\<lambda>r. r\<lparr>i_accepted_at := Some (now s), i_accepted_by := Some by_user,
                       i_updated_at := now s, i_version := i_version r + 1\<rparr>) (invites s)\<rparr>))))
     (\<lambda>affected.
       if affected = 0 then fail (Forbidden ''invite is expired, revoked, or already accepted'')
       else ret ())"

definition mark_accepted ::
    "uuid \<Rightarrow> uuid \<Rightarrow> audit_ctx \<Rightarrow> ('z identity_db_scheme, platform_error, unit) op" where
  "mark_accepted i by_user ctx =
     bindE (tx Database (\<lambda>s.
        (Inr (map_option i_org (find (\<lambda>r. rls s None (i_org r) \<and> i_id r = i) (invites s))), s))) (\<lambda>found.
     case found of
       None \<Rightarrow> (\<lambda>s. (Inl (NotFound (''invite/'' @ pg_uuid_text s i)), s))
     | Some org \<Rightarrow> mark_accepted_tx org i by_user ctx)"

definition invite_revoke ::
    "uuid \<Rightarrow> uuid \<Rightarrow> audit_ctx \<Rightarrow> ('z identity_db_scheme, platform_error, unit) op" where
  "invite_revoke org i ctx =
     tx Database (\<lambda>s.
       let hit = \<lambda>r. rls s (Some org) (i_org r) \<and> i_id r = i \<and> invite_pending r in
       (Inr (),
        audit_rows ctx ''invites'' ''.updated'' (map (\<lambda>r. (i_org r, i_id r)) (filter hit (invites s)))
          (s\<lparr>invites := sql_update hit
               (\<lambda>r. r\<lparr>i_revoked_at := Some (now s), i_updated_at := now s, i_version := i_version r + 1\<rparr>)
               (invites s)\<rparr>)))"

section \<open>MembershipService\<close>

datatype invite_error = InvForbidden string | InvPlatform platform_error

definition invite_error_into :: "invite_error \<Rightarrow> platform_error" where
  "invite_error_into e = (case e of InvForbidden msg \<Rightarrow> Forbidden msg | InvPlatform p \<Rightarrow> p)"

definition INVITE_TTL :: int where
  "INVITE_TTL = days 7"

definition INVITE_TOKEN_PREFIX :: string where
  "INVITE_TOKEN_PREFIX = ''kinv_''"

record created_invite =
  ci_invite :: invite
  ci_token :: string

definition generate_token :: "('z identity_db_scheme, 'e, string) op" where
  "generate_token s =
     (Inr (INVITE_TOKEN_PREFIX @ rand_token s (rnd_ctr s)), s\<lparr>rnd_ctr := Suc (rnd_ctr s)\<rparr>)"

definition sha256_hex :: "'z pg_scheme \<Rightarrow> string \<Rightarrow> string" where
  "sha256_hex s input = pg_digest s input"

definition token_prefix :: "string \<Rightarrow> string" where
  "token_prefix t = take (min (length INVITE_TOKEN_PREFIX + 4) (length t)) t"

definition require_member_management ::
    "uuid \<Rightarrow> uuid \<Rightarrow> ('z identity_db_scheme, invite_error, membership_role) op" where
  "require_member_management org actor =
     bindE (map_err InvPlatform (role_of org actor)) (\<lambda>found.
     case found of
       None \<Rightarrow> fail (InvForbidden ''not a member of this organization'')
     | Some role \<Rightarrow>
         if \<not> can_manage_members role
         then fail (InvForbidden ''only owners and admins can manage members'')
         else ret role)"

definition create_invite ::
    "uuid \<Rightarrow> uuid \<Rightarrow> string \<Rightarrow> membership_role \<Rightarrow> audit_ctx
      \<Rightarrow> ('z identity_db_scheme, invite_error, created_invite) op" where
  "create_invite org actor email role ctx =
     bindE (require_member_management org actor) (\<lambda>_.
     bindE generate_token (\<lambda>token.
     bindE (getS (\<lambda>s. (sha256_hex s token, now s + INVITE_TTL))) (\<lambda>(thash, expires).
     bindE (map_err InvPlatform
        (invite_insert org (trim email) role thash (token_prefix token) actor expires ctx)) (\<lambda>v.
     ret \<lparr>ci_invite = v, ci_token = token\<rparr>))))"

definition list_invites ::
    "uuid \<Rightarrow> uuid \<Rightarrow> ('z identity_db_scheme, invite_error, invite list) op" where
  "list_invites org actor =
     bindE (require_member_management org actor) (\<lambda>_. map_err InvPlatform (invite_list org))"

definition revoke_invite ::
    "uuid \<Rightarrow> uuid \<Rightarrow> uuid \<Rightarrow> audit_ctx \<Rightarrow> ('z identity_db_scheme, invite_error, unit) op" where
  "revoke_invite org i actor ctx =
     bindE (require_member_management org actor) (\<lambda>_. map_err InvPlatform (invite_revoke org i ctx))"

definition accept_invite ::
    "string \<Rightarrow> uuid \<Rightarrow> string \<Rightarrow> audit_ctx \<Rightarrow> ('z identity_db_scheme, invite_error, invite) op" where
  "accept_invite token u user_email ctx =
     bindE (getS (\<lambda>s. sha256_hex s token)) (\<lambda>thash.
     bindE (map_err InvPlatform (get_by_hash thash)) (\<lambda>found.
     bindE (of_option (InvForbidden ''invite not found'') found) (\<lambda>v.
     bindE (getS now) (\<lambda>t.
     if \<not> invite_is_live v t
     then fail (InvForbidden ''invite is expired, revoked, or already accepted'')
     else if \<not> eq_ignore_ascii_case (inv_email v) user_email
     then fail (InvForbidden ''invite email does not match the logged-in user'')
     else
       bindE (map_err InvPlatform (mark_accepted (inv_id v) u ctx)) (\<lambda>_.
       bindE (map_err InvPlatform (membership_insert (inv_org v) u (inv_role v) ctx)) (\<lambda>_.
       ret v))))))"

definition list_members ::
    "uuid \<Rightarrow> uuid \<Rightarrow> ('z identity_db_scheme, invite_error, membership_view list) op" where
  "list_members org actor =
     bindE (map_err InvPlatform (role_of org actor)) (\<lambda>role.
     if role = None then fail (InvForbidden ''not a member of this organization'')
     else map_err InvPlatform (membership_list org))"

text \<open>The check \<open>update_role\<close> makes before it demotes an owner.\<close>

definition owner_guard ::
    "uuid \<Rightarrow> uuid \<Rightarrow> membership_role \<Rightarrow> ('z identity_db_scheme, invite_error, unit) op" where
  "owner_guard org target new_role =
     (if new_role = Owner then ret ()
      else bindE (map_err InvPlatform (role_of org target)) (\<lambda>current.
        if current \<noteq> Some Owner then ret ()
        else bindE (map_err InvPlatform (membership_list org)) (\<lambda>views.
          if length (filter (\<lambda>v. mv_role v = Owner) views) \<le> 1
          then fail (InvForbidden ''cannot demote the last owner of the organization'')
          else ret ())))"

definition update_role ::
    "uuid \<Rightarrow> uuid \<Rightarrow> membership_role \<Rightarrow> uuid \<Rightarrow> audit_ctx
      \<Rightarrow> ('z identity_db_scheme, invite_error, unit) op" where
  "update_role org target new_role actor ctx =
     bindE (require_member_management org actor) (\<lambda>_.
     bindE (owner_guard org target new_role) (\<lambda>_.
     map_err InvPlatform (membership_update_role org target new_role ctx)))"

definition remove_member ::
    "uuid \<Rightarrow> uuid \<Rightarrow> uuid \<Rightarrow> audit_ctx \<Rightarrow> ('z identity_db_scheme, invite_error, unit) op" where
  "remove_member org target actor ctx =
     bindE (require_member_management org actor) (\<lambda>_.
     if target = actor then fail (InvForbidden ''use the leave-org flow to remove yourself'')
     else map_err InvPlatform (membership_soft_delete org target ctx))"

section \<open>Well-formed tables\<close>

text \<open>The unique indexes and primary keys of the identity tables.\<close>

definition pending_key :: "invite_row \<Rightarrow> uuid \<times> string" where
  "pending_key r = (i_org r, to_ascii_lowercase (i_email r))"

definition identity_inv :: "'z identity_db_scheme \<Rightarrow> bool" where
  "identity_inv s \<longleftrightarrow>
     distinct (map u_id (users s))
   \<and> distinct (map cr_id (hetzner_credentials s))
   \<and> distinct (map (\<lambda>r. (cr_org r, cr_alias r)) (filter (\<lambda>r. cr_deleted_at r = None) (hetzner_credentials s)))
   \<and> distinct (map m_id (memberships s))
   \<and> distinct (map (\<lambda>r. (m_org r, m_user r)) (memberships s))
   \<and> distinct (map i_id (invites s))
   \<and> distinct (map i_token_hash (invites s))
   \<and> distinct (map pending_key (filter invite_pending (invites s)))"

lemma identity_inv_cong:
  assumes "users t = users s" "hetzner_credentials t = hetzner_credentials s"
    "memberships t = memberships s" "invites t = invites s"
  shows "identity_inv t = identity_inv s"
  using assms by (simp add: identity_inv_def)

lemma identity_inv_tick [simp]: "identity_inv (tick s) = identity_inv s"
  by (rule identity_inv_cong) simp_all

lemma identity_inv_audit [simp]: "identity_inv (audit_rows c tb v rows s) = identity_inv s"
  by (rule identity_inv_cong) simp_all

lemma identity_inv_upds [simp]:
  "identity_inv (s\<lparr>pg_uuid_ctr := n\<rparr>) = identity_inv s"
  "identity_inv (s\<lparr>rnd_ctr := n\<rparr>) = identity_inv s"
  "identity_inv (s\<lparr>secrets := rows\<rparr>) = identity_inv s"
  "identity_inv (s\<lparr>vault := v\<rparr>) = identity_inv s"
  by (simp_all add: identity_inv_def)

lemma sync_frame [simp]:
  "memberships (sync_user_requires_mfa g u s) = memberships s"
  "hetzner_credentials (sync_user_requires_mfa g u s) = hetzner_credentials s"
  "invites (sync_user_requires_mfa g u s) = invites s"
  "secrets (sync_user_requires_mfa g u s) = secrets s"
  "map u_id (users (sync_user_requires_mfa g u s)) = map u_id (users s)"
  "pg_bypass (sync_user_requires_mfa g u s) = pg_bypass s"
  "pg_audit (sync_user_requires_mfa g u s) = pg_audit s"
  "pg_digest (sync_user_requires_mfa g u s) = pg_digest s"
  by (simp_all add: sync_user_requires_mfa_def Let_def map_sql_update_same)

lemma memb_triggers_frame [simp]:
  "memberships (memb_triggers org u ctx verb hits s) = memberships s"
  "hetzner_credentials (memb_triggers org u ctx verb hits s) = hetzner_credentials s"
  "invites (memb_triggers org u ctx verb hits s) = invites s"
  "secrets (memb_triggers org u ctx verb hits s) = secrets s"
  "map u_id (users (memb_triggers org u ctx verb hits s)) = map u_id (users s)"
  "pg_bypass (memb_triggers org u ctx verb hits s) = pg_bypass s"
  "pg_digest (memb_triggers org u ctx verb hits s) = pg_digest s"
  by (simp_all add: memb_triggers_def Let_def)

lemma identity_inv_triggers [simp]:
  "identity_inv (memb_triggers org u ctx verb hits s) = identity_inv s"
  by (simp add: identity_inv_def)

lemma distinct_filter_update:
  assumes "distinct (map g (filter p rows))" and "\<And>r. g (f r) = g r" and "\<And>r. p (f r) \<Longrightarrow> p r"
  shows "distinct (map g (filter p (sql_update h f rows)))"
  using assms
proof (induction rows)
  case (Cons r rows)
  have "g ` set (filter p (sql_update h f rows)) \<subseteq> g ` set (filter p rows)"
    using Cons.prems(2,3) by (fastforce simp: set_sql_update split: if_splits)
  then have "g r \<notin> g ` set (filter p (sql_update h f rows))" if "p r"
    using Cons.prems(1) that by auto
  moreover have "distinct (map g (filter p (sql_update h f rows)))"
    using Cons by (auto split: if_splits)
  ultimately show ?case
    using Cons.prems(2,3) by auto
qed simp

lemma eq_ignore_ascii_case_key:
  "eq_ignore_ascii_case a b \<longleftrightarrow> to_ascii_lowercase a = to_ascii_lowercase b"
  by (simp add: eq_ignore_ascii_case_def)

text \<open>Every operation of the crate keeps the table invariant.\<close>

lemma keeps_new_id [keeps_intros]:
  "(\<And>s n. P s \<Longrightarrow> P (s\<lparr>pg_uuid_ctr := n\<rparr>)) \<Longrightarrow> keeps P new_id"
  by (simp add: keeps_def new_id_def)

lemma keeps_tx_read [keeps_intros]:
  "(\<And>s. P s \<Longrightarrow> P (tick s)) \<Longrightarrow> keeps P (tx e (\<lambda>s. (Inr (f s), s)))"
  by (simp add: keeps_def tx_def)

lemma keeps_state_fail [keeps_intros]:
  "keeps P (\<lambda>s. (Inl (f s), s))" "keeps P (\<lambda>s. if b then (Inl (f s), s) else (Inr x, s))"
  by (simp_all add: keeps_def)

lemma cred_insert_inv: "keeps identity_inv (cred_insert org alias sref ctx)"
  unfolding cred_insert_def
  by (intro keeps_intros keeps_tx)
    (auto simp: Let_def identity_inv_def split: if_splits)

lemma cred_soft_delete_inv: "keeps identity_inv (cred_soft_delete org i ctx)"
  unfolding cred_soft_delete_def
  by (intro keeps_intros keeps_tx)
    (auto simp: Let_def identity_inv_def map_sql_update_same intro!: distinct_filter_update)

lemma membership_insert_inv: "keeps identity_inv (membership_insert org u role ctx)"
  unfolding membership_insert_def
  by (intro keeps_intros keeps_tx)
    (auto simp: Let_def identity_inv_def map_sql_update_same split: if_splits)

lemma membership_update_role_inv: "keeps identity_inv (membership_update_role org u role ctx)"
  unfolding membership_update_role_def
  by (intro keeps_intros keeps_tx) (auto simp: Let_def identity_inv_def map_sql_update_same)

lemma membership_soft_delete_inv: "keeps identity_inv (membership_soft_delete org u ctx)"
  unfolding membership_soft_delete_def
  by (intro keeps_intros keeps_tx) (auto simp: Let_def identity_inv_def map_sql_update_same)

lemma invite_insert_inv: "keeps identity_inv (invite_insert org email role h p b x ctx)"
  unfolding invite_insert_def
  by (intro keeps_intros keeps_tx)
    (auto simp: Let_def identity_inv_def pending_key_def eq_ignore_ascii_case_key split: if_splits)

lemma invite_update_inv:
  assumes "identity_inv s" and "\<And>r. i_id (f r) = i_id r" "\<And>r. i_token_hash (f r) = i_token_hash r"
    "\<And>r. pending_key (f r) = pending_key r" "\<And>r. invite_pending (f r) \<Longrightarrow> invite_pending r"
  shows "identity_inv (s\<lparr>invites := sql_update h f (invites s)\<rparr>)"
  using assms by (simp add: identity_inv_def map_sql_update_same distinct_filter_update)

lemma mark_accepted_tx_inv: "keeps identity_inv (mark_accepted_tx org i u ctx)"
  unfolding mark_accepted_tx_def
  by (intro keeps_intros keeps_tx)
    (auto simp: Let_def pending_key_def invite_pending_def intro!: invite_update_inv)

lemma mark_accepted_inv: "keeps identity_inv (mark_accepted i u ctx)"
  unfolding mark_accepted_def
  by (intro keeps_intros) (auto intro!: keeps_intros mark_accepted_tx_inv split: option.split)

lemma invite_revoke_inv: "keeps identity_inv (invite_revoke org i ctx)"
  unfolding invite_revoke_def
  by (intro keeps_intros keeps_tx)
    (auto simp: Let_def pending_key_def invite_pending_def intro!: invite_update_inv)

section \<open>Tenant isolation\<close>

text \<open>What belongs to a tenant, and the two facts of the environment its
  answers mention.\<close>

definition identity_view :: "uuid \<Rightarrow> 'z identity_db_scheme \<Rightarrow> _" where
  "identity_view org s =
     (filter (\<lambda>r. sec_org r = org) (secrets s),
      filter (\<lambda>r. cr_org r = org) (hetzner_credentials s),
      filter (\<lambda>r. m_org r = org) (memberships s),
      filter (\<lambda>r. i_org r = org) (invites s),
      pg_uuid_text s)"

definition others_view :: "uuid \<Rightarrow> _ \<Rightarrow> 'z identity_db_scheme \<Rightarrow> bool" where
  "others_view org v s \<longleftrightarrow> \<not> pg_bypass s \<and> identity_view org s = v"

lemma identity_view_cong:
  assumes "secrets t = secrets s" "hetzner_credentials t = hetzner_credentials s"
    "memberships t = memberships s" "invites t = invites s" "pg_uuid_text t = pg_uuid_text s"
  shows "identity_view org t = identity_view org s"
  using assms by (simp add: identity_view_def)

lemma others_view_simps [simp]:
  "others_view org v (tick s) = others_view org v s"
  "others_view org v (s\<lparr>pg_uuid_ctr := n\<rparr>) = others_view org v s"
  "others_view org v (s\<lparr>rnd_ctr := n\<rparr>) = others_view org v s"
  "others_view org v (audit_rows c tb vb rows s) = others_view org v s"
  "others_view org v (audit_log_append_trigger c tb vb o1 i s) = others_view org v s"
  "others_view org v (sync_user_requires_mfa g u s) = others_view org v s"
  "others_view org v (memb_triggers o' u c vb hits s) = others_view org v s"
  by (simp_all add: others_view_def identity_view_def memb_triggers_def Let_def)
    (simp_all add: sync_user_requires_mfa_def Let_def)

text \<open>A statement whose rows all belong to another tenant leaves the view
  alone.\<close>

lemma other_creds:
  assumes "\<And>r. h r \<Longrightarrow> cr_org r \<noteq> org" and "\<And>r. cr_org (f r) = cr_org r"
  shows "others_view org v (s\<lparr>hetzner_credentials := sql_update h f (hetzner_credentials s)\<rparr>)
    = others_view org v s"
  using filter_update_tenant [of h cr_org org f, OF assms]
  by (simp add: others_view_def identity_view_def)

lemma other_memberships:
  assumes "\<And>r. h r \<Longrightarrow> m_org r \<noteq> org" and "\<And>r. m_org (f r) = m_org r"
  shows "others_view org v (s\<lparr>memberships := sql_update h f (memberships s)\<rparr>) = others_view org v s"
  using filter_update_tenant [of h m_org org f, OF assms]
  by (simp add: others_view_def identity_view_def)

lemma other_invites:
  assumes "\<And>r. h r \<Longrightarrow> i_org r \<noteq> org" and "\<And>r. i_org (f r) = i_org r"
  shows "others_view org v (s\<lparr>invites := sql_update h f (invites s)\<rparr>) = others_view org v s"
  using filter_update_tenant [of h i_org org f, OF assms]
  by (simp add: others_view_def identity_view_def)

lemma other_inserts:
  "cr_org c \<noteq> org \<Longrightarrow>
     others_view org v (s\<lparr>hetzner_credentials := hetzner_credentials s @ [c]\<rparr>) = others_view org v s"
  "m_org m \<noteq> org \<Longrightarrow> others_view org v (s\<lparr>memberships := memberships s @ [m]\<rparr>) = others_view org v s"
  "i_org i \<noteq> org \<Longrightarrow> others_view org v (s\<lparr>invites := invites s @ [i]\<rparr>) = others_view org v s"
  "sec_org x \<noteq> org \<Longrightarrow> others_view org v (s\<lparr>secrets := secrets s @ [x]\<rparr>) = others_view org v s"
  by (simp_all add: others_view_def identity_view_def)

lemma others_role: "others_view org v s \<Longrightarrow> \<not> pg_bypass s"
  by (simp add: others_view_def)

lemma cred_insert_other: "o' \<noteq> org \<Longrightarrow> keeps (others_view org v) (cred_insert o' a sref ctx)"
  unfolding cred_insert_def
  by (intro keeps_intros keeps_tx) (auto simp: Let_def other_inserts split: if_splits)

lemma cred_get_other: "keeps (others_view org v) (cred_get o' i)"
  unfolding cred_get_def by (intro keeps_intros) (auto simp: keeps_def split: option.split)

lemma cred_soft_delete_other: "o' \<noteq> org \<Longrightarrow> keeps (others_view org v) (cred_soft_delete o' i ctx)"
  unfolding cred_soft_delete_def
  by (intro keeps_intros keeps_tx)
    (auto simp: Let_def cred_visible_def rls_app_role others_role intro!: other_creds [THEN iffD2])

lemma membership_insert_other: "o' \<noteq> org \<Longrightarrow> keeps (others_view org v) (membership_insert o' u r ctx)"
  unfolding membership_insert_def
  by (intro keeps_intros keeps_tx)
    (auto simp: Let_def other_inserts split: if_splits intro!: other_memberships [THEN iffD2])

lemma membership_update_role_other:
  "o' \<noteq> org \<Longrightarrow> keeps (others_view org v) (membership_update_role o' u r ctx)"
  unfolding membership_update_role_def
  by (intro keeps_intros keeps_tx)
    (auto simp: Let_def memb_live_def memb_visible_def intro!: other_memberships [THEN iffD2])

lemma membership_soft_delete_other:
  "o' \<noteq> org \<Longrightarrow> keeps (others_view org v) (membership_soft_delete o' u ctx)"
  unfolding membership_soft_delete_def
  by (intro keeps_intros keeps_tx)
    (auto simp: Let_def memb_live_def memb_visible_def intro!: other_memberships [THEN iffD2])

lemma role_of_other: "keeps (others_view org v) (role_of o' u)"
  unfolding role_of_def by (intro keeps_intros) simp

lemma invite_insert_other: "o' \<noteq> org \<Longrightarrow> keeps (others_view org v) (invite_insert o' e r h p b x ctx)"
  unfolding invite_insert_def
  by (intro keeps_intros keeps_tx) (auto simp: Let_def other_inserts split: if_splits)

lemma invite_revoke_other: "o' \<noteq> org \<Longrightarrow> keeps (others_view org v) (invite_revoke o' i ctx)"
  unfolding invite_revoke_def
  by (intro keeps_intros keeps_tx)
    (auto simp: Let_def rls_app_role others_role intro!: other_invites [THEN iffD2])

lemma require_other: "keeps (others_view org v) (require_member_management o' a)"
  unfolding require_member_management_def
  by (intro keeps_intros role_of_other) (auto intro!: keeps_intros split: option.split)

lemma generate_token_other: "keeps (others_view org v) generate_token"
  by (simp add: keeps_def generate_token_def)

lemma create_invite_other: "o' \<noteq> org \<Longrightarrow> keeps (others_view org v) (create_invite o' a e r ctx)"
  unfolding create_invite_def
  by (intro keeps_intros require_other generate_token_other)
    (auto intro!: keeps_intros invite_insert_other split: prod.split)

lemma membership_list_other: "keeps (others_view org v) (membership_list o')"
  unfolding membership_list_def by (intro keeps_intros) simp

lemma update_role_other: "o' \<noteq> org \<Longrightarrow> keeps (others_view org v) (update_role o' u r a ctx)"
  unfolding update_role_def owner_guard_def
  by (intro keeps_intros require_other role_of_other membership_list_other membership_update_role_other)

lemma remove_member_other: "o' \<noteq> org \<Longrightarrow> keeps (others_view org v) (remove_member o' u a ctx)"
  unfolding remove_member_def
  by (intro keeps_intros require_other membership_soft_delete_other)

lemma revoke_invite_other: "o' \<noteq> org \<Longrightarrow> keeps (others_view org v) (revoke_invite o' i a ctx)"
  unfolding revoke_invite_def by (intro keeps_intros require_other invite_revoke_other)

lemma pgcrypto_put_other: "o' \<noteq> org \<Longrightarrow> keeps (others_view org v) (pgcrypto_put kek o' p)"
  unfolding pgcrypto_put_def
  by (intro keeps_intros keeps_tx)
    (auto simp: Let_def insert_secret_def others_view_def identity_view_def split: if_splits)

lemma filter_delete_tenant:
  assumes "\<And>r. h r \<Longrightarrow> g r \<noteq> org"
  shows "filter (\<lambda>r. g r = org) (filter (\<lambda>r. \<not> h r) rows) = filter (\<lambda>r. g r = org) rows"
  using assms by (induction rows) auto

lemma secret_delete_other:
  assumes "sr_org h \<noteq> org"
  shows "keeps (others_view org v) (secret_delete refs h)"
proof (rule keepsI)
  fix s :: "'a identity_db_scheme"
  assume s: "others_view org v s"
  let ?t = "snd (secret_delete refs h s)"
  show "others_view org v ?t"
  proof (cases "secret_delete refs h s")
    case (Pair r t)
    show ?thesis
    proof (cases r)
      case (Inl e)
      with Pair s secret_delete_err [of refs h s e t] show ?thesis by simp
    next
      case (Inr u)
      with Pair obtain x where t: "t = tick (s\<lparr>secrets := x\<rparr>)"
        by (auto simp: secret_delete_def tx_eq_Inr Let_def split: if_splits)
      have "x = filter (\<lambda>r. \<not> secret_visible s h r) (secrets s)"
        using secret_delete_ok(1) [of refs h s u t] Pair Inr by (simp add: t)
      moreover have "secret_visible s h r \<Longrightarrow> sec_org r \<noteq> org" for r
        using others_role [OF s] assms by (simp add: visible_app_role)
      ultimately show ?thesis
        using s Pair filter_delete_tenant [of "secret_visible s h" sec_org org "secrets s"]
        by (simp add: t others_view_def identity_view_def)
    qed
  qed
qed

lemma hcs_create_other:
  "o' \<noteq> org \<Longrightarrow> keeps (others_view org v) (hcs_create (pgcrypto_store refs kek) o' a tok ctx)"
proof (rule keepsI)
  fix s :: "'a identity_db_scheme"
  assume "o' \<noteq> org" and s: "others_view org v s"
  show "others_view org v (snd (hcs_create (pgcrypto_store refs kek) o' a tok ctx s))"
  proof (cases "pgcrypto_put kek o' tok s")
    case (Pair r t)
    have t: "others_view org v t"
      using keeps_run [OF pgcrypto_put_other [OF \<open>o' \<noteq> org\<close>] s Pair] .
    show ?thesis
    proof (cases r)
      case (Inl e)
      with Pair t show ?thesis by (simp add: hcs_create_def pgcrypto_store_def bindE_def map_err_def)
    next
      case (Inr h)
      with Pair have "sr_org h = o'"
        by (auto simp: pgcrypto_put_def bindE_eq_Inr ret_def)
      then have "keeps (others_view org v) (catchE (cred_insert o' a h ctx)
         (\<lambda>err. bindE (ignoreE (secret_delete refs h)) (\<lambda>_. fail err)) ret)"
        using \<open>o' \<noteq> org\<close> by (intro keeps_intros cred_insert_other secret_delete_other) auto
      from keepsD [OF this t] Pair Inr show ?thesis
        by (simp add: hcs_create_def pgcrypto_store_def bindE_def map_err_def)
    qed
  qed
qed

lemma cred_get_org:
  "\<not> pg_bypass s \<Longrightarrow> cred_get org i s = (Inr c, t) \<Longrightarrow> sr_org (hc_secret_ref c) = org"
  by (auto simp: cred_get_def bindE_eq_Inr tx_eq_Inr cred_visible_def rls_app_role
      row_to_credential_def split: option.splits dest!: find_Some_iff2)

lemma hcs_delete_other:
  assumes "o' \<noteq> org"
  shows "keeps (others_view org v) (hcs_delete (pgcrypto_store refs kek) o' i ctx)"
proof (rule keepsI)
  fix s :: "'a identity_db_scheme"
  assume s: "others_view org v s"
  show "others_view org v (snd (hcs_delete (pgcrypto_store refs kek) o' i ctx s))"
  proof (cases "cred_get o' i s")
    case (Pair r t)
    have t: "others_view org v t"
      using keeps_run [OF cred_get_other s Pair] .
    show ?thesis
    proof (cases r)
      case (Inl e)
      with Pair t show ?thesis by (simp add: hcs_delete_def bindE_def)
    next
      case (Inr c)
      with Pair have "sr_org (hc_secret_ref c) = o'"
        using cred_get_org others_role [OF s] by blast
      then have "keeps (others_view org v) (bindE (cred_soft_delete o' i ctx)
          (\<lambda>_. ignoreE (secret_delete refs (hc_secret_ref c))))"
        using assms by (intro keeps_intros cred_soft_delete_other secret_delete_other) auto
      from keepsD [OF this t] Pair Inr show ?thesis
        by (simp add: hcs_delete_def pgcrypto_store_def bindE_def)
    qed
  qed
qed

text \<open>The mutating calls a tenant can make, and the queries it can ask.\<close>

datatype identity_call =
    CallCreateCredential uuid string string audit_ctx
  | CallDeleteCredential uuid uuid audit_ctx
  | CallCreateInvite uuid uuid string membership_role audit_ctx
  | CallRevokeInvite uuid uuid uuid audit_ctx
  | CallUpdateRole uuid uuid membership_role uuid audit_ctx
  | CallRemoveMember uuid uuid uuid audit_ctx

fun call_tenant :: "identity_call \<Rightarrow> uuid" where
  "call_tenant (CallCreateCredential org _ _ _) = org"
| "call_tenant (CallDeleteCredential org _ _) = org"
| "call_tenant (CallCreateInvite org _ _ _ _) = org"
| "call_tenant (CallRevokeInvite org _ _ _) = org"
| "call_tenant (CallUpdateRole org _ _ _ _) = org"
| "call_tenant (CallRemoveMember org _ _ _) = org"

fun call_exec :: "'z identity_db_scheme secret_ops \<Rightarrow> identity_call
    \<Rightarrow> 'z identity_db_scheme \<Rightarrow> 'z identity_db_scheme" where
  "call_exec st (CallCreateCredential org a tok ctx) s = snd (hcs_create st org a tok ctx s)"
| "call_exec st (CallDeleteCredential org i ctx) s = snd (hcs_delete st org i ctx s)"
| "call_exec st (CallCreateInvite org a e r ctx) s = snd (create_invite org a e r ctx s)"
| "call_exec st (CallRevokeInvite org i a ctx) s = snd (revoke_invite org i a ctx s)"
| "call_exec st (CallUpdateRole org u r a ctx) s = snd (update_role org u r a ctx s)"
| "call_exec st (CallRemoveMember org u a ctx) s = snd (remove_member org u a ctx s)"

datatype identity_query =
    AskCredentials uuid | AskCredential uuid uuid | AskRole uuid uuid | AskInvites uuid

datatype identity_answer =
    Credentials "platform_error + hetzner_credential list"
  | Credential "platform_error + hetzner_credential"
  | Role "platform_error + membership_role option"
  | Invites "platform_error + invite list"

fun query_tenant :: "identity_query \<Rightarrow> uuid" where
  "query_tenant (AskCredentials org) = org"
| "query_tenant (AskCredential org _) = org"
| "query_tenant (AskRole org _) = org"
| "query_tenant (AskInvites org) = org"

fun query_answer :: "identity_query \<Rightarrow> 'z identity_db_scheme \<Rightarrow> identity_answer" where
  "query_answer (AskCredentials org) s = Credentials (fst (hcs_list org s))"
| "query_answer (AskCredential org i) s = Credential (fst (hcs_get org i s))"
| "query_answer (AskRole org u) s = Role (fst (role_of org u s))"
| "query_answer (AskInvites org) s = Invites (fst (invite_list org s))"

lemma call_exec_other:
  assumes "call_tenant c \<noteq> org"
  shows "others_view org v s \<Longrightarrow> others_view org v (call_exec (pgcrypto_store refs kek) c s)"
  using assms
  by (cases c)
    (simp_all add: keepsD hcs_create_other hcs_delete_other create_invite_other revoke_invite_other
      update_role_other remove_member_other)

lemma filter_own:
  "\<not> pg_bypass s \<Longrightarrow> filter (\<lambda>r. rls s (Some org) (g r) \<and> p r) rows = filter p (filter (\<lambda>r. g r = org) rows)"
  by (simp add: rls_app_role conj_commute)

lemma find_own:
  "\<not> pg_bypass s \<Longrightarrow> find (\<lambda>r. rls s (Some org) (g r) \<and> p r) rows = find p (filter (\<lambda>r. g r = org) rows)"
  by (induction rows) (auto simp: rls_app_role)

interpretation idt: tenant_isolation "call_exec (pgcrypto_store refs kek)" call_tenant query_answer
  query_tenant identity_view "\<lambda>s. \<not> pg_bypass s" "\<lambda>s. \<not> db_faulty s"
  for refs :: "'z identity_db_scheme \<Rightarrow> uuid list" and kek :: string
proof (unfold_locales, goal_cases)
  case (1 s c)
  then show ?case
    using call_exec_other [of c "Suc (call_tenant c)" "identity_view (Suc (call_tenant c)) s" s refs kek]
    by (simp add: others_view_def)
next
  case (2 s c org)
  then show ?case
    using call_exec_other [of c org "identity_view org s" s refs kek] by (simp add: others_view_def)
next
  case (3 s t q)
  then show ?case
    by (cases q)
      (auto simp: identity_view_def hcs_list_def cred_list_def hcs_get_def cred_get_def role_of_def
        invite_list_def tx_def db_faulty_def bindE_def cred_visible_def memb_live_def memb_visible_def
        filter_own find_own split: option.split)
qed

section \<open>Who may manage members\<close>

definition owners :: "uuid \<Rightarrow> 'z identity_db_scheme \<Rightarrow> membership_row list" where
  "owners org s = filter (\<lambda>r. m_org r = org \<and> m_deleted_at r = None \<and> m_role r = Owner) (memberships s)"

definition member_role :: "uuid \<Rightarrow> uuid \<Rightarrow> 'z identity_db_scheme \<Rightarrow> membership_role option" where
  "member_role org u s =
     map_option m_role (find (\<lambda>r. memb_live s org r \<and> m_user r = u) (memberships s))"

lemma memb_visible_iff: "memb_visible s org r \<longleftrightarrow> m_org r = org"
  by (auto simp: memb_visible_def rls_def app_current_tenant_id_def)

lemma memb_live_iff: "memb_live s org r \<longleftrightarrow> m_org r = org \<and> m_deleted_at r = None"
  by (simp add: memb_live_def memb_visible_iff)

lemma member_role_cong: "memberships t = memberships s \<Longrightarrow> member_role org u t = member_role org u s"
  by (simp add: member_role_def memb_live_iff)

lemma role_of_run:
  "role_of org u s = (if db_faulty s then Inl (Database SqlxConnection) else Inr (member_role org u s), tick s)"
  by (simp add: role_of_def tx_def db_faulty_def member_role_def)

lemma require_ok:
  assumes "require_member_management org actor s = (Inr r, t)"
  shows "t = tick s" and "member_role org actor s = Some r" and "can_manage_members r"
  using assms
  by (auto simp: require_member_management_def bindE_eq_Inr role_of_run fail_def ret_def
      split: option.splits if_splits)

lemma require_denied:
  assumes "\<not> (\<exists>r. member_role org actor s = Some r \<and> can_manage_members r)"
  shows "\<exists>e. require_member_management org actor s = (Inl e, tick s)"
  using assms
  by (auto simp: require_member_management_def bindE_def role_of_run map_err_def fail_def ret_def
      split: option.splits)

lemma length_filter_concat:
  assumes "\<And>x. length (f x) \<le> 1" and "\<And>x y. y \<in> set (f x) \<Longrightarrow> P y \<Longrightarrow> Q x"
  shows "length (filter P (concat (map f xs))) \<le> length (filter Q xs)"
proof (induction xs)
  case (Cons x xs)
  have "length (filter P (f x)) \<le> (if Q x then 1 else 0)"
  proof (cases "Q x")
    case True
    then show ?thesis using le_trans [OF length_filter_le [of P "f x"] assms(1) [of x]] by simp
  next
    case False
    then have "filter P (f x) = []" using assms(2) by (auto simp: filter_empty_conv)
    then show ?thesis by simp
  qed
  with Cons show ?case by (simp split: if_splits)
qed simp

lemma filter_one_of_distinct: "distinct (map k xs) \<Longrightarrow> length (filter (\<lambda>x. k x = c) xs) \<le> Suc 0"
proof (induction xs)
  case (Cons x xs)
  then have "k x = c \<Longrightarrow> filter (\<lambda>x. k x = c) xs = []"
    by (auto simp: filter_empty_conv image_iff)
  with Cons show ?case by auto
qed simp

lemma owner_views:
  assumes "identity_inv s" and "membership_list org s = (Inr views, t)"
  shows "length (filter (\<lambda>v. mv_role v = Owner) views) \<le> length (owners org s)" and "t = tick s"
proof -
  let ?f = "\<lambda>m. map (\<lambda>u. \<lparr>mv_id = m_id m, mv_user_id = m_user m, mv_email = u_email u,
                    mv_display_name = u_display_name u, mv_role = m_role m,
                    mv_joined_at = m_created_at m,
                    mv_last_active_at = last_active (sessions s) (m_user m)\<rparr>)
              (filter (\<lambda>u. u_id u = m_user m) (users s))"
  let ?ms = "sort_key m_created_at (filter (memb_live s org) (memberships s))"
  have views: "views = concat (map ?f ?ms)" and "t = tick s"
    using assms(2) by (auto simp: membership_list_def tx_eq_Inr)
  then show "t = tick s" by simp
  have "length (filter (\<lambda>v. mv_role v = Owner) views) \<le> length (filter (\<lambda>m. m_role m = Owner) ?ms)"
    unfolding views using assms(1)
    by (intro length_filter_concat) (auto simp: identity_inv_def filter_one_of_distinct [of u_id])
  also have "\<dots> = length (filter (\<lambda>m. m_role m = Owner) (filter (memb_live s org) (memberships s)))"
    by (simp add: filter_sort)
  finally show "length (filter (\<lambda>v. mv_role v = Owner) views) \<le> length (owners org s)"
    by (simp add: owners_def memb_live_iff conj_commute conj_left_commute)
qed

lemma owners_after_update:
  assumes "identity_inv s"
    and "memberships t = sql_update (\<lambda>r. memb_live s org r \<and> m_user r = u) f (memberships s)"
  shows "length (owners org s) \<le> Suc (length (owners org t))"
proof -
  let ?h = "\<lambda>r. memb_live s org r \<and> m_user r = u" and ?own = "\<lambda>r. m_org r = org \<and> m_deleted_at r = None \<and> m_role r = Owner"
  have le: "length (filter ?own rows) \<le>
      length (filter (\<lambda>r. (m_org r, m_user r) = (org, u)) rows) + length (filter ?own (sql_update ?h f rows))"
    for rows by (induction rows) (auto simp: memb_live_iff)
  have "length (filter (\<lambda>r. (m_org r, m_user r) = (org, u)) (memberships s)) \<le> Suc 0"
    using assms(1) by (intro filter_one_of_distinct) (simp add: identity_inv_def)
  with le [of "memberships s"] show ?thesis
    unfolding owners_def assms(2) by linarith
qed

lemma membership_update_role_ok:
  assumes "membership_update_role org u role ctx s = (Inr x, t)"
  shows "memberships t = sql_update (\<lambda>r. memb_live s org r \<and> m_user r = u)
     (\<lambda>r. r\<lparr>m_role := role, m_updated_at := now s, m_version := m_version r + 1\<rparr>) (memberships s)"
  using assms by (auto simp: membership_update_role_def bindE_eq_Inr tx_eq_Inr Let_def split: if_splits)

lemma owner_guard_ok:
  assumes "identity_inv s" and "owner_guard org target role s = (Inr x, t)"
  shows "memberships t = memberships s"
    and "role \<noteq> Owner \<Longrightarrow> member_role org target s = Some Owner \<Longrightarrow> 1 < length (owners org s)"
proof -
  have "memberships t = memberships s \<and>
    (role \<noteq> Owner \<longrightarrow> member_role org target s = Some Owner \<longrightarrow> 1 < length (owners org s))"
  proof (cases "role = Owner \<or> member_role org target s \<noteq> Some Owner")
    case True
    with assms(2) show ?thesis
      by (auto simp: owner_guard_def bindE_eq_Inr role_of_run ret_def split: if_splits)
  next
    case False
    with assms(2) obtain views u where views: "membership_list org (tick s) = (Inr views, u)"
      and "\<not> length (filter (\<lambda>v. mv_role v = Owner) views) \<le> 1" and "t = u"
      by (auto simp: owner_guard_def bindE_eq_Inr role_of_run ret_def fail_def split: if_splits)
    moreover have "owners org (tick s) = owners org s" by (simp add: owners_def)
    ultimately show ?thesis
      using owner_views [of "tick s" org views u] assms(1) by simp
  qed
  then show "memberships t = memberships s"
    and "role \<noteq> Owner \<Longrightarrow> member_role org target s = Some Owner \<Longrightarrow> 1 < length (owners org s)"
    by auto
qed

lemma owner_guard_inv: "keeps identity_inv (owner_guard org target role)"
  unfolding owner_guard_def role_of_def membership_list_def by (intro keeps_intros) simp_all

lemma owners_promote:
  assumes "memberships t = sql_update h f (memberships s)" and "\<And>r. m_role (f r) = Owner"
    and "\<And>r. m_org (f r) = m_org r" and "\<And>r. m_deleted_at (f r) = m_deleted_at r"
  shows "length (owners org s) \<le> length (owners org t)"
proof -
  have "length (filter (\<lambda>r. m_org r = org \<and> m_deleted_at r = None \<and> m_role r = Owner) rows) \<le>
     length (filter (\<lambda>r. m_org r = org \<and> m_deleted_at r = None \<and> m_role r = Owner) (sql_update h f rows))" for rows
    using assms(2-4) by (induction rows) auto
  then show ?thesis by (simp add: owners_def assms(1))
qed

lemma owners_not_hit:
  assumes "memberships t = sql_update (\<lambda>r. memb_live s org r \<and> m_user r = u) f (memberships s)"
    and "identity_inv s" and "member_role org u s \<noteq> Some Owner"
  shows "set (owners org s) \<subseteq> set (owners org t)"
proof
  fix r assume r: "r \<in> set (owners org s)"
  have "\<not> (memb_live s org r \<and> m_user r = u)"
  proof
    assume h: "memb_live s org r \<and> m_user r = u"
    have "x = r" if "x \<in> set (memberships s)" "memb_live s org x" "m_user x = u" for x
      using that h r assms(2)
      by (auto simp: owners_def memb_live_iff identity_inv_def distinct_map inj_on_def)
    then have "find (\<lambda>r. memb_live s org r \<and> m_user r = u) (memberships s) = Some r"
      using h r by (intro find_unique) (auto simp: owners_def)
    with r assms(3) show False by (simp add: member_role_def owners_def)
  qed
  with r show "r \<in> set (owners org t)"
    unfolding owners_def assms(1) set_filter set_sql_update by force
qed

lemma accept_invite_ok:
  assumes "accept_invite token u email ctx s = (Inr v, t)"
  shows "\<exists>r s1. r \<in> set (invites s) \<and> i_token_hash r = sha256_hex s token \<and> v = row_to_invite r
     \<and> eq_ignore_ascii_case (i_email r) email \<and> invite_is_live v (now (tick s))
     \<and> mark_accepted (i_id r) u ctx (tick s) = (Inr (), s1)
     \<and> membership_insert (i_org r) u (i_role r) ctx s1 = (Inr (), t)"
  using assms
  by (auto simp: accept_invite_def bindE_eq_Inr getS_def get_by_hash_def tx_eq_Inr of_option_def
      fail_def ret_def split: option.splits if_splits dest!: find_Some_iff2)
    (auto simp: row_to_invite_def)

lemma mark_accepted_ok:
  assumes "mark_accepted i u ctx s = (Inr x, t)" and "distinct (map i_id (invites s))"
    and "r \<in> set (invites s)" and "i_id r = i"
  shows "\<exists>r' \<in> set (invites t). i_token_hash r' = i_token_hash r \<and> i_accepted_at r' \<noteq> None"
    and "map i_token_hash (invites t) = map i_token_hash (invites s)"
    and "memberships t = memberships s" and "pg_digest t = pg_digest s"
proof -
  obtain org where acc: "mark_accepted_tx org i u ctx (tick s) = (Inr (), t)"
    using assms(1) by (auto simp: mark_accepted_def bindE_eq_Inr tx_eq_Inr split: option.splits)
  define hit where "hit r \<longleftrightarrow> rls (tick s) (Some org) (i_org r) \<and> i_id r = i \<and> invite_pending r
                        \<and> i_expires_at r > now (tick s)" for r
  define f where "f r = r\<lparr>i_accepted_at := Some (now (tick s)), i_accepted_by := Some u,
                           i_updated_at := now (tick s), i_version := i_version r + 1\<rparr>" for r :: invite_row
  have t: "invites t = sql_update hit f (invites s)" "sql_count hit (invites s) \<noteq> 0"
    "memberships t = memberships s" "pg_digest t = pg_digest s"
    using acc
    by (auto simp: mark_accepted_tx_def bindE_eq_Inr tx_eq_Inr Let_def fail_def ret_def
        hit_def [abs_def] f_def [abs_def] split: if_splits)
  then obtain y where y: "y \<in> set (invites s)" "hit y" by (auto simp: sql_count_zero)
  then have "y = r"
    using assms(2-4) by (auto simp: hit_def distinct_map inj_on_def)
  with y have "f r \<in> set (invites t)" unfolding t(1) set_sql_update by force
  then show "\<exists>r' \<in> set (invites t). i_token_hash r' = i_token_hash r \<and> i_accepted_at r' \<noteq> None"
    by (rule bexI [rotated]) (simp add: f_def)
  show "map i_token_hash (invites t) = map i_token_hash (invites s)"
    unfolding t(1) by (rule map_sql_update_same) (simp add: f_def)
  show "memberships t = memberships s" "pg_digest t = pg_digest s" by (fact t)+
qed

lemma membership_insert_ok:
  assumes "membership_insert org u role ctx s = (Inr x, t)"
    and "distinct (map (\<lambda>r. (m_org r, m_user r)) (memberships s))"
  shows "member_role org u t = Some role" and "invites t = invites s" and "pg_digest t = pg_digest s"
proof -
  let ?f = "\<lambda>r. r\<lparr>m_role := role, m_deleted_at := None, m_updated_at := now s, m_version := m_version r + 1\<rparr>"
  let ?hit = "\<lambda>r. m_org r = org \<and> m_user r = u"
  consider (upd) r where "memberships t = sql_update ?hit ?f (memberships s)"
        "r \<in> set (memberships s)" "m_org r = org" "m_user r = u" "invites t = invites s" "pg_digest t = pg_digest s"
    | (ins) row where "memberships t = memberships s @ [row]" "m_org row = org" "m_user row = u" "m_role row = role"
        "m_deleted_at row = None" "\<forall>r \<in> set (memberships s). \<not> (m_org r = org \<and> m_user r = u)"
        "invites t = invites s" "pg_digest t = pg_digest s"
  proof (cases "\<exists>r \<in> set (memberships s). ?hit r")
    case True
    with assms(1) obtain hits s' where st: "t = tick (memb_triggers org u ctx ''.updated'' hits s')"
      "s' = s\<lparr>pg_uuid_ctr := Suc (pg_uuid_ctr s), memberships := sql_update ?hit ?f (memberships s)\<rparr>"
      by (simp add: membership_insert_def bindE_eq_Inr new_id_def tx_eq_Inr Let_def)
    from True obtain r where "r \<in> set (memberships s)" "m_org r = org" "m_user r = u" by blast
    then show ?thesis by (intro upd [of r]) (simp_all add: st)
  next
    case False
    with assms(1) obtain row hits s' where st: "t = tick (memb_triggers org u ctx ''.created'' hits s')"
      "s' = s\<lparr>pg_uuid_ctr := Suc (pg_uuid_ctr s), memberships := memberships s @ [row]\<rparr>"
      "m_org row = org" "m_user row = u" "m_role row = role" "m_deleted_at row = None"
      by (auto simp: membership_insert_def bindE_eq_Inr new_id_def tx_eq_Inr Let_def split: if_splits)
    show ?thesis by (rule ins [of row]) (use False in \<open>simp_all add: st\<close>)
  qed
  then have "member_role org u t = Some role \<and> invites t = invites s \<and> pg_digest t = pg_digest s"
  proof cases
    case (upd r)
    have "?f r \<in> set (memberships t)" using upd by (auto simp: set_sql_update image_iff)
    moreover have "m_role x = role" if "x \<in> set (memberships t)" "m_org x = org" "m_user x = u" for x
    proof -
      from that(1) obtain y where "x = (if ?hit y then ?f y else y)"
        unfolding upd(1) set_sql_update by blast
      with that(2,3) show ?thesis by (cases "?hit y") simp_all
    qed
    ultimately show ?thesis
      using upd(3-6) by (cases "find (\<lambda>r. memb_live t org r \<and> m_user r = u) (memberships t)")
        (auto simp: member_role_def memb_live_iff find_None_iff_all dest!: find_Some_iff2)
  next
    case ins
    then have "find (\<lambda>r. memb_live t org r \<and> m_user r = u) (memberships s) = None"
      by (auto simp: find_None_iff_all memb_live_iff)
    with ins show ?thesis by (simp add: member_role_def find_append memb_live_iff)
  qed
  then show "member_role org u t = Some role" "invites t = invites s" "pg_digest t = pg_digest s"
    by auto
qed

lemma accepted_token_dead:
  assumes "identity_inv s" and "r \<in> set (invites s)" and "i_token_hash r = sha256_hex s token"
    and "i_accepted_at r \<noteq> None"
  shows "\<exists>e. accept_invite token u email ctx s = (Inl e, tick s)"
proof -
  have "x = r" if "x \<in> set (invites s)" "i_token_hash x = sha256_hex s token" for x
    using that assms(1-3) by (auto simp: identity_inv_def distinct_map inj_on_def)
  then have "find (\<lambda>x. rls s None (i_org x) \<and> i_token_hash x = sha256_hex s token) (invites s) \<in> {None, Some r}"
    by (cases "find (\<lambda>x. rls s None (i_org x) \<and> i_token_hash x = sha256_hex s token) (invites s)")
      (auto dest!: find_Some_iff2)
  with assms(4) show ?thesis
    by (auto simp: accept_invite_def bindE_def getS_def get_by_hash_def tx_def of_option_def map_err_def
        fail_def invite_is_live_def row_to_invite_def)
qed

section \<open>A concrete state\<close>

text \<open>One organization with an owner (user 10), an admin (11) and a developer
  (12), used to evaluate the properties.\<close>

definition demo_ctx :: audit_ctx where
  "demo_ctx = \<lparr>actor_user_id = Some 10, request_id = None, ip = None, user_agent = None\<rparr>"

definition demo_user :: "uuid \<Rightarrow> string \<Rightarrow> bool \<Rightarrow> user_row" where
  "demo_user i e mfa = \<lparr>u_id = i, u_email = e, u_display_name = e, u_avatar_url = None,
     u_primary_oidc_sub = None, u_mfa_enrolled = False, u_requires_mfa = mfa, u_updated_at = 0, u_version = 1\<rparr>"

definition demo_member :: "uuid \<Rightarrow> uuid \<Rightarrow> uuid \<Rightarrow> membership_role \<Rightarrow> membership_row" where
  "demo_member i org u r = \<lparr>m_id = i, m_org = org, m_user = u, m_role = r, m_created_at = 0,
     m_updated_at = 0, m_deleted_at = None, m_version = 1\<rparr>"

definition demo_db :: "bool \<Rightarrow> identity_db" where
  "demo_db bypass = \<lparr>pg_bypass = bypass, pg_clock = (\<lambda>n. int n * 1000), pg_fault = (\<lambda>_. False),
     pg_calls = 1, pg_uuid = (\<lambda>n. 100 + n), pg_uuid_ctr = 0, pg_uuid_text = show_nat,
     pg_digest = (\<lambda>x. x), pg_audit = [], secrets = [], pgp_enc = (\<lambda>n d k. k @ d),
     pgp_dec = (\<lambda>c k. if starts_with c k then Inr (drop (length k) c) else Inl ''Wrong key or corrupt data''),
     dek_gen = (\<lambda>n. ''dek''), rnd_ctr = 0,
     vault = \<lparr>vk_keys = [], vk_ciphertexts = [], vk_counter = 0\<rparr>,
     organizations = [], users = [demo_user 10 ''o@x'' True, demo_user 11 ''a@x'' True, demo_user 12 ''d@x'' False],
     oidc_identities = [], hetzner_credentials = [],
     memberships = [demo_member 1 1 10 Owner, demo_member 2 1 11 Admin, demo_member 3 1 12 Developer],
     invites = [], sessions = [], user_passkeys = [], recovery_codes = [], auth_states = [],
     webauthn_ceremonies = [], rand_token = (\<lambda>n. ''AAAA'' @ show_nat n)\<rparr>"

section \<open>Properties\<close>

text \<open>(C2) Changing a role never leaves an organization without an owner: when
  \<open>update_role\<close> succeeds on an organization that has an owner, the organization
  has one afterwards.\<close>

theorem update_role_keeps_an_owner:
  assumes "identity_inv s" and "owners org s \<noteq> []"
    and "update_role org target role actor ctx s = (Inr x, t)"
  shows "owners org t \<noteq> []"
proof -
  obtain r s1 s2 where req: "require_member_management org actor s = (Inr r, s1)"
    and guard: "owner_guard org target role s1 = (Inr (), s2)"
    and upd: "membership_update_role org target role ctx s2 = (Inr x, t)"
    using assms(3) by (auto simp: update_role_def bindE_eq_Inr)
  have s1: "s1 = tick s" using require_ok(1) [OF req] .
  then have inv1: "identity_inv s1" using assms(1) by simp
  note g = owner_guard_ok [OF inv1 guard]
  have own: "owners org s2 = owners org s" "owners org s1 = owners org s"
    by (simp_all add: owners_def g s1)
  have inv2: "identity_inv s2"
    using keeps_run [OF owner_guard_inv inv1 guard] .
  note mem = membership_update_role_ok [OF upd]
  show ?thesis
  proof (cases "role = Owner")
    case True
    then show ?thesis using owners_promote [OF mem, of org] assms(2) own by auto
  next
    case False
    show ?thesis
    proof (cases "member_role org target s1 = Some Owner")
      case True
      with g(2) False owners_after_update [OF inv2 mem] own show ?thesis by auto
    next
      case not_owner: False
      then have "member_role org target s2 \<noteq> Some Owner"
        using member_role_cong [OF g(1)] by simp
      with owners_not_hit [OF mem inv2] own assms(2) show ?thesis by fastforce
    qed
  qed
qed

theorem update_role_keeps_an_owner_witness:
  "owners 1 (snd (update_role 1 12 Admin 10 demo_ctx (demo_db False))) \<noteq> []"
proof -
  have run: "fst (update_role 1 12 Admin 10 demo_ctx (demo_db False)) = Inr ()" by code_simp
  have "identity_inv (demo_db False)" and "owners 1 (demo_db False) \<noteq> []" by code_simp+
  with run show ?thesis
    using update_role_keeps_an_owner [of "demo_db False" 1 12 Admin 10 demo_ctx "()"]
    by (metis prod.collapse)
qed

text \<open>Member management is refused to everyone but owners and admins: for
  any other actor each of the five management calls returns an error and leaves
  the whole database as it was.\<close>

theorem management_needs_owner_or_admin:
  assumes "\<nexists>r. member_role org actor s = Some r \<and> can_manage_members r"
  shows "(\<exists>e. create_invite org actor email role ctx s = (Inl e, tick s))
    \<and> (\<exists>e. list_invites org actor s = (Inl e, tick s))
    \<and> (\<exists>e. revoke_invite org i actor ctx s = (Inl e, tick s))
    \<and> (\<exists>e. update_role org target role actor ctx s = (Inl e, tick s))
    \<and> (\<exists>e. remove_member org target actor ctx s = (Inl e, tick s))"
  using require_denied [OF assms]
  by (auto simp: create_invite_def list_invites_def revoke_invite_def update_role_def
      remove_member_def bindE_def)

theorem management_needs_owner_or_admin_witness:
  "\<exists>e. update_role 1 12 Owner 12 demo_ctx (demo_db False) = (Inl e, tick (demo_db False))"
proof -
  have "member_role 1 12 (demo_db False) = Some Developer" by code_simp
  then show ?thesis
    using management_needs_owner_or_admin [of 1 12 "demo_db False" _ Owner demo_ctx _ 12]
    by (simp add: can_manage_members_def)
qed

text \<open>(C14) Accepting an invite: a success means that the token names a live
  invite addressed to the caller (up to ASCII case); afterwards the caller is a
  member with the role the invite grants, and the token is dead: whoever
  presents it next is refused and nothing changes.\<close>

theorem accept_invite_single_use:
  assumes "identity_inv s" and "accept_invite token u email ctx s = (Inr v, t)"
  shows "eq_ignore_ascii_case (inv_email v) email \<and> invite_is_live v (now (tick s))
    \<and> member_role (inv_org v) u t = Some (inv_role v)
    \<and> (\<exists>e. accept_invite token u' email' ctx' t = (Inl e, tick t))"
proof -
  obtain r s1 where r: "r \<in> set (invites s)" "i_token_hash r = sha256_hex s token" "v = row_to_invite r"
    and live: "eq_ignore_ascii_case (i_email r) email" "invite_is_live v (now (tick s))"
    and mark: "mark_accepted (i_id r) u ctx (tick s) = (Inr (), s1)"
    and ins: "membership_insert (i_org r) u (i_role r) ctx s1 = (Inr (), t)"
    using accept_invite_ok [OF assms(2)] by blast
  have inv1: "identity_inv s1"
    using keeps_run [OF mark_accepted_inv _ mark] assms(1) by simp
  have inv2: "identity_inv t" by (rule keeps_run [OF membership_insert_inv inv1 ins])
  have dist: "distinct (map i_id (invites (tick s)))" using assms(1) by (simp add: identity_inv_def)
  note m = mark_accepted_ok [OF mark dist, of r]
  have d1: "distinct (map (\<lambda>r. (m_org r, m_user r)) (memberships s1))"
    using inv1 by (simp add: identity_inv_def)
  note i = membership_insert_ok [OF ins d1]
  from m(1) r(1) obtain r' where "r' \<in> set (invites t)" "i_token_hash r' = i_token_hash r" "i_accepted_at r' \<noteq> None"
    by (auto simp: i)
  moreover have "sha256_hex t token = sha256_hex s token"
    using m(4) r(1) by (simp add: sha256_hex_def i)
  ultimately have "\<exists>e. accept_invite token u' email' ctx' t = (Inl e, tick t)"
    using accepted_token_dead [OF inv2] r(2) by metis
  with live i(1) show ?thesis by (simp add: r(3) row_to_invite_def)
qed

text \<open>A pool that bypasses row-level security, holding one pending invite.\<close>

definition demo_invited :: identity_db where
  "demo_invited = snd (create_invite 1 10 ''New@x'' Developer demo_ctx (demo_db True))"

theorem accept_invite_single_use_witness:
  "member_role 1 13 (snd (accept_invite ''kinv_AAAA0'' 13 ''new@x'' demo_ctx demo_invited)) = Some Developer"
proof -
  let ?r = "accept_invite ''kinv_AAAA0'' 13 ''new@x'' demo_ctx demo_invited"
  have "case fst ?r of Inr v \<Rightarrow> inv_org v = 1 \<and> inv_role v = Developer | Inl _ \<Rightarrow> False" by code_simp
  then obtain v where v: "fst ?r = Inr v" "inv_org v = 1" "inv_role v = Developer"
    by (auto split: sum.splits)
  have "identity_inv demo_invited" by code_simp
  then show ?thesis
    using accept_invite_single_use [of demo_invited "''kinv_AAAA0''" 13 "''new@x''" demo_ctx v "snd ?r"] v
    by (metis prod.collapse)
qed

text \<open>(C6) Noninterference between tenants: under the application role, whatever
  sequence of credential and member-management calls the other tenants make,
  the credentials, roles and invites a tenant reads are those it would have read
  before.\<close>

theorem identity_noninterference:
  assumes "\<not> pg_bypass s" and "\<forall>c \<in> set cs. call_tenant c \<noteq> query_tenant q"
    and "\<not> db_faulty s" and "\<not> db_faulty (fold (call_exec (pgcrypto_store refs kek)) cs s)"
  shows "query_answer q (fold (call_exec (pgcrypto_store refs kek)) cs s) = query_answer q s"
  using assms by (intro idt.noninterference) auto

theorem identity_noninterference_witness:
  "let cs = [CallCreateCredential 2 ''a'' ''tok'' demo_ctx, CallRemoveMember 2 12 10 demo_ctx];
       t = fold (call_exec (pgcrypto_store (\<lambda>_. []) ''kek'')) cs (demo_db False)
   in query_answer (AskRole 1 12) t = Role (Inr (Some Developer))
      \<and> length (hetzner_credentials t) = 1"
proof -
  let ?cs = "[CallCreateCredential 2 ''a'' ''tok'' demo_ctx, CallRemoveMember 2 12 10 demo_ctx]"
  let ?t = "fold (call_exec (pgcrypto_store (\<lambda>_. []) ''kek'')) ?cs (demo_db False)"
  have "\<not> pg_bypass (demo_db False)" "\<not> db_faulty (demo_db False)" "\<not> db_faulty ?t" by code_simp+
  then have "query_answer (AskRole 1 12) ?t = query_answer (AskRole 1 12) (demo_db False)"
    by (intro identity_noninterference) simp_all
  moreover have "query_answer (AskRole 1 12) (demo_db False) = Role (Inr (Some Developer))" by code_simp
  moreover have "length (hetzner_credentials ?t) = 1" by code_simp
  ultimately show ?thesis by (simp add: Let_def)
qed

text \<open>The policy bit: a user must pass MFA exactly when she is owner or admin
  somewhere.\<close>

definition privileged :: "uuid \<Rightarrow> 'z identity_db_scheme \<Rightarrow> bool" where
  "privileged u s \<longleftrightarrow> (\<exists>r \<in> set (memberships s). m_user r = u \<and> m_deleted_at r = None \<and> m_role r \<in> {Owner, Admin})"

definition mfa_policy :: "'z identity_db_scheme \<Rightarrow> bool" where
  "mfa_policy s \<longleftrightarrow> (\<forall>x \<in> set (users s). u_requires_mfa x = privileged (u_id x) s)"

lemma privileged_cong: "memberships t = memberships s \<Longrightarrow> privileged u t = privileged u s"
  by (simp add: privileged_def)

lemma mfa_policy_cong:
  "memberships t = memberships s \<Longrightarrow> users t = users s \<Longrightarrow> mfa_policy t = mfa_policy s"
  by (simp add: mfa_policy_def privileged_def)

lemma mfa_policy_simps [simp]:
  "mfa_policy (tick s) = mfa_policy s"
  "mfa_policy (s\<lparr>pg_uuid_ctr := n\<rparr>) = mfa_policy s"
  "mfa_policy (audit_rows c tb v rows s) = mfa_policy s"
  by (rule mfa_policy_cong; simp)+

lemma mfa_policy_sync:
  assumes "pg_bypass s" and "\<forall>x \<in> set (users s). u_id x \<noteq> u \<longrightarrow> u_requires_mfa x = privileged (u_id x) s"
  shows "mfa_policy (sync_user_requires_mfa g u s)"
proof -
  have c: "(\<exists>r \<in> set (memberships s). rls s g (m_org r) \<and> m_user r = u \<and> m_deleted_at r = None
      \<and> m_role r \<in> {Owner, Admin}) = privileged u s"
    using assms(1) by (auto simp: privileged_def rls_def)
  have "u_requires_mfa y = privileged (u_id y) (sync_user_requires_mfa g u s)"
    if "y \<in> set (users (sync_user_requires_mfa g u s))" for y
    using that assms(2) privileged_cong [of "sync_user_requires_mfa g u s" s]
    unfolding sync_user_requires_mfa_def Let_def c by (auto simp: set_sql_update split: if_splits)
  then show ?thesis by (simp add: mfa_policy_def)
qed

text \<open>A write that touches only the membership of one user.\<close>

lemma privileged_other:
  assumes "memberships t = sql_update h f (memberships s)" and "\<And>r. h r \<Longrightarrow> m_user r = u"
    and "\<And>r. m_user (f r) = m_user r" and "v \<noteq> u"
  shows "privileged v t = privileged v s"
  using assms(2-4) unfolding privileged_def assms(1) set_sql_update by fastforce

lemma mfa_policy_write:
  assumes "pg_bypass s" and "mfa_policy s" and "users t = users s" and "pg_bypass t = pg_bypass s"
    and "\<And>v. v \<noteq> u \<Longrightarrow> privileged v t = privileged v s"
    and "hits = [] \<Longrightarrow> memberships t = memberships s"
  shows "mfa_policy (memb_triggers org u ctx verb hits t)"
proof (cases "hits = []")
  case True
  with assms show ?thesis by (simp add: memb_triggers_def mfa_policy_cong [of t s])
next
  case False
  let ?t = "audit_rows ctx ''memberships'' verb (map (\<lambda>r. (m_org r, m_id r)) hits) t"
  have "privileged v ?t = privileged v s" if "v \<noteq> u" for v
    using assms(5) [OF that] by (simp add: privileged_def)
  then have "mfa_policy (sync_user_requires_mfa (Some org) u ?t)"
    using assms(1-4) by (intro mfa_policy_sync) (auto simp: mfa_policy_def)
  with False show ?thesis by (simp add: memb_triggers_def Let_def)
qed

definition mfa_ok :: "'z identity_db_scheme \<Rightarrow> bool" where
  "mfa_ok s \<longleftrightarrow> pg_bypass s \<and> mfa_policy s"

lemma mfa_ok_simps [simp]: "mfa_ok (tick s) = mfa_ok s" "mfa_ok (s\<lparr>pg_uuid_ctr := n\<rparr>) = mfa_ok s"
  by (simp_all add: mfa_ok_def)

lemma mfa_ok_update:
  assumes "mfa_ok s" and "\<And>r. h r \<Longrightarrow> m_user r = u" and "\<And>r. m_user (f r) = m_user r"
  shows "mfa_ok (memb_triggers org u ctx verb (filter h (memberships s))
     (s\<lparr>memberships := sql_update h f (memberships s)\<rparr>))"
proof -
  let ?t = "s\<lparr>memberships := sql_update h f (memberships s)\<rparr>"
  have "privileged v ?t = privileged v s" if "v \<noteq> u" for v
    by (rule privileged_other [of ?t h f s u]) (use assms that in auto)
  moreover have "memberships ?t = memberships s" if "filter h (memberships s) = []"
    using that by (simp add: filter_empty_conv sql_update_none)
  ultimately show ?thesis
    using assms(1) mfa_policy_write [of s ?t u "filter h (memberships s)" org ctx verb]
    by (simp add: mfa_ok_def)
qed

lemma membership_insert_mfa: "keeps mfa_ok (membership_insert org u role ctx)"
proof -
  have ins: "mfa_ok (memb_triggers org u ctx verb [row] (s\<lparr>memberships := memberships s @ [row]\<rparr>))"
    if "mfa_ok s" "m_user row = u" for s :: "'a identity_db_scheme" and row verb
    using that by (auto simp: mfa_ok_def privileged_def intro!: mfa_policy_write [of s])
  show ?thesis
    unfolding membership_insert_def
    by (intro keeps_intros keeps_tx)
      (auto simp: Let_def split: if_splits intro!: mfa_ok_update ins)
qed

lemma membership_update_role_mfa: "keeps mfa_ok (membership_update_role org u role ctx)"
  unfolding membership_update_role_def
  by (intro keeps_intros keeps_tx) (auto simp: Let_def intro!: mfa_ok_update)

lemma membership_soft_delete_mfa: "keeps mfa_ok (membership_soft_delete org u ctx)"
  unfolding membership_soft_delete_def
  by (intro keeps_intros keeps_tx) (auto simp: Let_def intro!: mfa_ok_update)

text \<open>(C33) With a pool that sees every tenant, the three membership writes keep
  the MFA policy bit equal to its definition for every user: owner or admin of
  some organization, whatever the organization the write was made for.\<close>

theorem requires_mfa_tracks_roles:
  assumes "pg_bypass s" and "mfa_policy s"
  shows "mfa_policy (snd (membership_insert org u role ctx s))
    \<and> mfa_policy (snd (membership_update_role org u role ctx s))
    \<and> mfa_policy (snd (membership_soft_delete org u ctx s))"
  using assms keepsD [OF membership_insert_mfa, of s org u role ctx]
    keepsD [OF membership_update_role_mfa, of s org u role ctx]
    keepsD [OF membership_soft_delete_mfa, of s org u ctx]
  by (simp add: mfa_ok_def)

theorem requires_mfa_tracks_roles_witness:
  "mfa_policy (snd (membership_update_role 1 11 Viewer demo_ctx (demo_db True)))
   \<and> map u_requires_mfa (users (snd (membership_update_role 1 11 Viewer demo_ctx (demo_db True)))) = [True, False, False]"
proof -
  have "pg_bypass (demo_db True)" "mfa_policy (demo_db True)" by code_simp+
  then have "mfa_policy (snd (membership_update_role 1 11 Viewer demo_ctx (demo_db True)))"
    using requires_mfa_tracks_roles by blast
  moreover have "map u_requires_mfa (users (snd (membership_update_role 1 11 Viewer demo_ctx (demo_db True))))
      = [True, False, False]" by code_simp
  ultimately show ?thesis ..
qed

text \<open>Under the application role the trigger sees one tenant only: demoting
  a user in one organization clears her MFA bit although she still owns another
  one. Whenever the demotion succeeds and she holds no other privileged role in
  that organization, the bit is off, whatever she is elsewhere.\<close>

theorem demotion_clears_mfa_across_tenants:
  assumes "\<not> pg_bypass s" and "identity_inv s" and "role \<notin> {Owner, Admin}"
    and "membership_update_role org u role ctx s = (Inr x, t)"
  shows "\<forall>y \<in> set (users t). u_id y = u \<longrightarrow> \<not> u_requires_mfa y"
proof -
  define hit where "hit r \<longleftrightarrow> memb_live s org r \<and> m_user r = u" for r
  define f where "f r = r\<lparr>m_role := role, m_updated_at := now s, m_version := m_version r + 1\<rparr>" for r :: membership_row
  define s1 where "s1 = audit_rows ctx ''memberships'' ''.updated''
      (map (\<lambda>r. (m_org r, m_id r)) (filter hit (memberships s))) (s\<lparr>memberships := sql_update hit f (memberships s)\<rparr>)"
  have t: "t = tick (sync_user_requires_mfa (Some org) u s1)"
    using assms(4)
    by (auto simp: membership_update_role_def bindE_eq_Inr tx_eq_Inr Let_def memb_triggers_def s1_def
        hit_def [abs_def] f_def [abs_def] sql_count_def split: if_splits)
  have none: "(\<exists>r \<in> set (memberships s1). rls s1 (Some org) (m_org r) \<and> m_user r = u
      \<and> m_deleted_at r = None \<and> m_role r \<in> {Owner, Admin}) = False"
  proof -
    have "m_role r \<notin> {Owner, Admin}" if "r \<in> set (sql_update hit f (memberships s))" "m_org r = org"
      "m_user r = u" "m_deleted_at r = None" for r
    proof -
      from that(1) obtain y where y: "r = (if hit y then f y else y)" unfolding set_sql_update by blast
      with that(2-4) have "hit y" by (cases "hit y") (auto simp: hit_def memb_live_iff)
      with y assms(3) show ?thesis by (simp add: f_def)
    qed
    then show ?thesis using assms(1) by (auto simp: s1_def rls_app_role)
  qed
  have ut: "users t = sql_update (\<lambda>x. u_id x = u \<and> u_requires_mfa x)
     (\<lambda>x. x\<lparr>u_requires_mfa := False, u_updated_at := now s1, u_version := u_version x + 1\<rparr>) (users s1)"
    unfolding t sync_user_requires_mfa_def none Let_def by simp
  have "\<not> u_requires_mfa y" if "y \<in> set (users t)" "u_id y = u" for y
  proof -
    from that(1) obtain x where "y = (if u_id x = u \<and> u_requires_mfa x
        then x\<lparr>u_requires_mfa := False, u_updated_at := now s1, u_version := u_version x + 1\<rparr> else x)"
      unfolding ut set_sql_update by blast
    with that(2) show ?thesis by (cases "u_id x = u \<and> u_requires_mfa x") auto
  qed
  then show ?thesis by blast
qed

definition demo_two_orgs :: identity_db where
  "demo_two_orgs = (demo_db False)\<lparr>memberships := [demo_member 1 1 10 Owner, demo_member 2 2 10 Owner]\<rparr>"

theorem demotion_clears_mfa_across_tenants_witness:
  "let t = snd (membership_update_role 1 10 Viewer demo_ctx demo_two_orgs)
   in (\<forall>y \<in> set (users t). u_id y = 10 \<longrightarrow> \<not> u_requires_mfa y) \<and> member_role 2 10 t = Some Owner"
proof -
  let ?r = "membership_update_role 1 10 Viewer demo_ctx demo_two_orgs"
  have "fst ?r = Inr ()" "\<not> pg_bypass demo_two_orgs" "identity_inv demo_two_orgs"
    "member_role 2 10 (snd ?r) = Some Owner" by code_simp+
  then show ?thesis
    using demotion_clears_mfa_across_tenants [of demo_two_orgs Viewer 1 10 demo_ctx "()" "snd ?r"]
    by (simp add: Let_def) (metis prod.collapse)
qed

text \<open>Removing a member has no such guard: an admin who removes the only
  owner leaves the organization with none.\<close>

theorem remove_member_can_remove_last_owner:
  assumes "member_role org actor s = Some Admin" and "owners org s = [row]" and "m_user row = target"
    and "target \<noteq> actor" and "\<not> db_faulty s" and "\<not> db_faulty (tick s)"
  shows "\<exists>t. remove_member org target actor ctx s = (Inr (), t) \<and> owners org t = []"
proof -
  let ?hit = "\<lambda>r. memb_live s org r \<and> m_user r = target"
  let ?f = "\<lambda>r. r\<lparr>m_deleted_at := Some (now (tick s)), m_updated_at := now (tick s), m_version := m_version r + 1\<rparr>"
  obtain t where t: "membership_soft_delete org target ctx (tick s) = (Inr (), t)"
    and mem: "memberships t = sql_update ?hit ?f (memberships s)"
    using assms(6) by (simp add: membership_soft_delete_def tx_def db_faulty_def Let_def memb_live_iff)
  have "remove_member org target actor ctx s = (Inr (), t)"
    using assms(1,4,5) t
    by (simp add: remove_member_def require_member_management_def bindE_def role_of_run map_err_def
        can_manage_members_def ret_def)
  moreover have "r \<notin> set (owners org t)" for r
  proof
    assume r: "r \<in> set (owners org t)"
    then obtain y where y: "y \<in> set (memberships s)" "r = (if ?hit y then ?f y else y)"
      unfolding owners_def mem set_filter set_sql_update by blast
    then have "y \<in> set (owners org s)" and "\<not> ?hit y"
      using r by (auto simp: owners_def split: if_splits)
    moreover from \<open>y \<in> set (owners org s)\<close> have "memb_live s org y" by (simp add: owners_def memb_live_iff)
    ultimately show False using assms(2,3) by auto
  qed
  then have "owners org t = []" by (cases "owners org t") auto
  ultimately show ?thesis by blast
qed

theorem remove_member_can_remove_last_owner_witness:
  "\<exists>t. remove_member 1 10 11 demo_ctx (demo_db False) = (Inr (), t) \<and> owners 1 t = []"
proof -
  have "member_role 1 11 (demo_db False) = Some Admin" "owners 1 (demo_db False) = [demo_member 1 1 10 Owner]"
    "m_user (demo_member 1 1 10 Owner) = 10" "\<not> db_faulty (demo_db False)" "\<not> db_faulty (tick (demo_db False))"
    by code_simp+
  then show ?thesis by (intro remove_member_can_remove_last_owner) auto
qed

text \<open>Under the application role no invite can be accepted: the lookup by
  token runs outside a tenant-scoped transaction, so the policy hides every row.
  The call fails and the memberships stay as they were.\<close>

theorem accept_invite_needs_bypass:
  assumes "\<not> pg_bypass s" and "\<forall>r \<in> set (invites s). i_org r \<noteq> nil_uuid"
  shows "\<exists>e. accept_invite token u email ctx s = (Inl e, tick s)"
proof -
  have "find (\<lambda>r. rls s None (i_org r) \<and> i_token_hash r = sha256_hex s token) (invites s) = None"
    using assms by (auto simp: find_None_iff_all rls_unscoped)
  then show ?thesis
    by (auto simp: accept_invite_def bindE_def getS_def get_by_hash_def tx_def of_option_def map_err_def)
qed

theorem accept_invite_needs_bypass_witness:
  "\<exists>e. accept_invite ''kinv_AAAA0'' 13 ''new@x'' demo_ctx (demo_invited\<lparr>pg_bypass := False\<rparr>)
     = (Inl e, tick (demo_invited\<lparr>pg_bypass := False\<rparr>))"
proof -
  have "\<forall>r \<in> set (invites (demo_invited\<lparr>pg_bypass := False\<rparr>)). i_org r \<noteq> nil_uuid"
    "\<not> pg_bypass (demo_invited\<lparr>pg_bypass := False\<rparr>)" by code_simp+
  then show ?thesis by (intro accept_invite_needs_bypass)
qed

end
