(* ===== verification/Sessions_Mfa.thy ===== *)
theory Sessions_Mfa
  imports Identity "HOL-Library.AList"
begin

text \<open>
  User-scoped authentication state of the identity crate: sessions
  (\<open>session.rs\<close>), passkeys and recovery codes (\<open>repository.rs\<close>,
  \<open>recovery_codes.rs\<close>), OAuth request states and identity linking
  (\<open>oidc.rs\<close>), and WebAuthn ceremonies (\<open>webauthn.rs\<close>). None of these tables is
  tenant-scoped. The \<open>webauthn-rs\<close> library is a parameter.
\<close>

section \<open>Sessions\<close>

record session =
  ses_id :: uuid
  ses_user_id :: uuid
  ses_created_at :: timestamp
  ses_expires_at :: timestamp
  ses_revoked_at :: "timestamp option"
  ses_mfa_satisfied :: bool

definition SESSION_TTL :: int where
  "SESSION_TTL = days 30"

text \<open>Both issue functions run on a connection of the caller, who owns the
  transaction.\<close>

definition session_insert ::
    "bool \<Rightarrow> uuid \<Rightarrow> string option \<Rightarrow> string option \<Rightarrow> ('z identity_db_scheme, platform_error, session) op" where
  "session_insert mfa u ua addr =
     bindE new_id (\<lambda>i s.
       let t = now s; expires = t + SESSION_TTL;
           row = \<lparr>s_id = i, s_user = u, s_created_at = t, s_last_used_at = t, s_expires_at = expires,
                  s_revoked_at = None, s_user_agent = ua, s_ip_address = addr, s_mfa_satisfied = mfa\<rparr> in
       if i \<in> s_id ` set (sessions s) then (Inl (Database SqlxUnique), s)
       else (Inr \<lparr>ses_id = i, ses_user_id = u, ses_created_at = t, ses_expires_at = expires,
                  ses_revoked_at = None, ses_mfa_satisfied = mfa\<rparr>,
             s\<lparr>sessions := sessions s @ [row]\<rparr>))"

definition issue ::
    "uuid \<Rightarrow> string option \<Rightarrow> string option \<Rightarrow> ('z identity_db_scheme, platform_error, session) op" where
  "issue u ua addr = session_insert True u ua addr"

definition issue_partial_mfa ::
    "uuid \<Rightarrow> string option \<Rightarrow> string option \<Rightarrow> ('z identity_db_scheme, platform_error, session) op" where
  "issue_partial_mfa u ua addr = session_insert False u ua addr"

definition user_requires_partial_session ::
    "uuid \<Rightarrow> ('z identity_db_scheme, platform_error, bool) op" where
  "user_requires_partial_session u =
     tx Database (\<lambda>s.
       (Inr (case find (\<lambda>x. u_id x = u) (users s) of
               None \<Rightarrow> False | Some x \<Rightarrow> u_requires_mfa x \<and> u_mfa_enrolled x), s))"

datatype mfa_state = NotRequired | MustEnrol | MustAssert | Enrolled

definition session_live :: "'z identity_db_scheme \<Rightarrow> session_row \<Rightarrow> bool" where
  "session_live s r \<longleftrightarrow> s_revoked_at r = None \<and> s_expires_at r > now s"

definition mfa_state_of ::
    "uuid \<Rightarrow> uuid \<Rightarrow> ('z identity_db_scheme, platform_error, mfa_state) op" where
  "mfa_state_of u sid =
     bindE (tx Database (\<lambda>s.
       (Inr (case find (\<lambda>x. u_id x = u) (users s) of
               None \<Rightarrow> (False, False) | Some x \<Rightarrow> (u_requires_mfa x, u_mfa_enrolled x)), s))) (\<lambda>(req, enr).
     if \<not> req then ret NotRequired
     else if \<not> enr then ret MustEnrol
     else if sid = nil_uuid then ret MustAssert
     else bindE (tx Database (\<lambda>s.
            (Inr (case find (\<lambda>r. s_id r = sid \<and> session_live s r) (sessions s) of
                    None \<Rightarrow> False | Some r \<Rightarrow> s_mfa_satisfied r), s))) (\<lambda>satisfied.
          ret (if satisfied then Enrolled else MustAssert)))"

definition mark_mfa_satisfied :: "uuid \<Rightarrow> ('z identity_db_scheme, platform_error, unit) op" where
  "mark_mfa_satisfied sid =
     tx Database (\<lambda>s. (Inr (), s\<lparr>sessions :=
       sql_update (\<lambda>r. s_id r = sid \<and> s_revoked_at r = None) (\<lambda>r. r\<lparr>s_mfa_satisfied := True\<rparr>) (sessions s)\<rparr>))"

definition session_revoke :: "uuid \<Rightarrow> ('z identity_db_scheme, platform_error, unit) op" where
  "session_revoke sid =
     tx Database (\<lambda>s. (Inr (), s\<lparr>sessions :=
       sql_update (\<lambda>r. s_id r = sid \<and> s_revoked_at r = None) (\<lambda>r. r\<lparr>s_revoked_at := Some (now s)\<rparr>) (sessions s)\<rparr>))"

definition bump_activity :: "uuid \<Rightarrow> ('z identity_db_scheme, platform_error, unit) op" where
  "bump_activity sid =
     tx Database (\<lambda>s. (Inr (), s\<lparr>sessions :=
       sql_update (\<lambda>r. s_id r = sid \<and> s_revoked_at r = None \<and> s_last_used_at r < now s - minutes 5)
         (\<lambda>r. r\<lparr>s_last_used_at := now s\<rparr>) (sessions s)\<rparr>))"

definition session_of_row :: "session_row \<Rightarrow> session" where
  "session_of_row r =
     \<lparr>ses_id = s_id r, ses_user_id = s_user r, ses_created_at = s_created_at r,
      ses_expires_at = s_expires_at r, ses_revoked_at = s_revoked_at r,
      ses_mfa_satisfied = s_mfa_satisfied r\<rparr>"

definition session_resolve :: "uuid \<Rightarrow> ('z identity_db_scheme, platform_error, session option) op" where
  "session_resolve sid =
     tx Database (\<lambda>s.
       (Inr (map_option session_of_row (find (\<lambda>r. s_id r = sid \<and> session_live s r) (sessions s))), s))"

section \<open>Passkeys\<close>

definition passkey_is_live :: "passkey \<Rightarrow> bool" where
  "passkey_is_live p \<longleftrightarrow> pk_revoked_at p = None"

definition set_mfa_enrolled :: "uuid \<Rightarrow> bool \<Rightarrow> 'z identity_db_scheme \<Rightarrow> 'z identity_db_scheme" where
  "set_mfa_enrolled u b s =
     s\<lparr>users := sql_update (\<lambda>x. u_id x = u)
        (\<lambda>x. x\<lparr>u_mfa_enrolled := b, u_updated_at := now s, u_version := u_version x + 1\<rparr>) (users s)\<rparr>"

definition passkey_insert ::
    "uuid \<Rightarrow> string \<Rightarrow> string \<Rightarrow> string \<Rightarrow> ('z identity_db_scheme, platform_error, passkey) op" where
  "passkey_insert u cid blob nick =
     bindE new_id (\<lambda>i.
     tx Database (\<lambda>s.
       let row = \<lparr>pk_id = i, pk_user = u, pk_credential_id = cid, pk_credential = blob,
                  pk_sign_counter = 0, pk_nickname = nick, pk_registered_at = now s,
                  pk_last_used_at = None, pk_revoked_at = None\<rparr> in
       if (\<exists>p \<in> set (user_passkeys s). pk_id p = i \<or> pk_credential_id p = cid \<and> pk_revoked_at p = None)
       then (Inl (Conflict ''this passkey is already registered''), s)
       else if u \<notin> u_id ` set (users s) then (Inl (Database SqlxForeignKey), s)
       else (Inr row, set_mfa_enrolled u True (s\<lparr>user_passkeys := user_passkeys s @ [row]\<rparr>))))"

definition passkey_list_live :: "uuid \<Rightarrow> ('z identity_db_scheme, platform_error, passkey list) op" where
  "passkey_list_live u =
     tx Database (\<lambda>s.
       (Inr (sort_key pk_registered_at
          (filter (\<lambda>p. pk_user p = u \<and> pk_revoked_at p = None) (user_passkeys s))), s))"

definition find_by_credential_id ::
    "string \<Rightarrow> ('z identity_db_scheme, platform_error, passkey option) op" where
  "find_by_credential_id cid =
     tx Database (\<lambda>s.
       (Inr (find (\<lambda>p. pk_credential_id p = cid \<and> pk_revoked_at p = None) (user_passkeys s)), s))"

definition record_use ::
    "uuid \<Rightarrow> int \<Rightarrow> string \<Rightarrow> ('z identity_db_scheme, platform_error, unit) op" where
  "record_use pid counter blob =
     bindE (tx Database (\<lambda>s.
       let hit = \<lambda>p. pk_id p = pid \<and> pk_revoked_at p = None
                   \<and> (counter > pk_sign_counter p \<or> pk_sign_counter p = 0) in
       (Inr (sql_count hit (user_passkeys s)),
        s\<lparr>user_passkeys := sql_update hit
            (\<lambda>p. p\<lparr>pk_sign_counter := counter, pk_credential := blob, pk_last_used_at := Some (now s)\<rparr>)
            (user_passkeys s)\<rparr>))) (\<lambda>affected.
     if affected \<noteq> 1 then fail (Conflict ''passkey was revoked or the assertion counter regressed'')
     else ret ())"

definition passkey_revoke :: "uuid \<Rightarrow> uuid \<Rightarrow> ('z identity_db_scheme, platform_error, unit) op" where
  "passkey_revoke u pid =
     tx Database (\<lambda>s.
       let hit = \<lambda>p. pk_id p = pid \<and> pk_user p = u \<and> pk_revoked_at p = None;
           s' = s\<lparr>user_passkeys := sql_update hit (\<lambda>p. p\<lparr>pk_revoked_at := Some (now s)\<rparr>) (user_passkeys s)\<rparr> in
       if sql_count hit (user_passkeys s) \<noteq> 1
       then (Inl (NotFound (''passkey/'' @ pg_uuid_text s pid)), s)
       else if sql_count (\<lambda>p. pk_user p = u \<and> pk_revoked_at p = None) (user_passkeys s') = 0
       then (Inr (), set_mfa_enrolled u False s')
       else (Inr (), s'))"

section \<open>Recovery codes\<close>

definition ALPHABET :: string where
  "ALPHABET = ''0123456789ABCDEFGHJKMNPQRSTVWXYZ''"

definition CODE_LEN :: nat where
  "CODE_LEN = 10"

definition BATCH_SIZE :: nat where
  "BATCH_SIZE = 10"

text \<open>\<open>draw i\<close> is the i-th result of \<open>rng.gen_range(0..32)\<close>.\<close>

fun generate_from :: "(nat \<Rightarrow> nat) \<Rightarrow> nat \<Rightarrow> nat \<Rightarrow> string" where
  "generate_from draw i 0 = []"
| "generate_from draw i (Suc n) =
     (ALPHABET ! draw i) # (if i = CODE_LEN div 2 - 1 then [CHR ''-''] else []) @ generate_from draw (Suc i) n"

definition generate_one :: "(nat \<Rightarrow> nat) \<Rightarrow> string" where
  "generate_one draw = generate_from draw 0 CODE_LEN"

definition generate_batch :: "(nat \<Rightarrow> nat) \<Rightarrow> string list" where
  "generate_batch draw = map (\<lambda>k. generate_one (\<lambda>i. draw (k * CODE_LEN + i))) [0..<BATCH_SIZE]"

definition canonical :: "string \<Rightarrow> string" where
  "canonical code = map upper_char (filter (\<lambda>c. \<not> is_ws c \<and> c \<noteq> CHR ''-'') code)"

definition code_hash :: "(string \<Rightarrow> string) \<Rightarrow> string \<Rightarrow> string" where
  "code_hash digest code = digest (canonical code)"

definition recovery_code_is_live :: "mfa_recovery_code \<Rightarrow> bool" where
  "recovery_code_is_live r \<longleftrightarrow> rc_used_at r = None"

definition insert_code ::
    "uuid \<Rightarrow> string \<Rightarrow> ('z identity_db_scheme, platform_error, mfa_recovery_code) op" where
  "insert_code u h =
     bindE new_id (\<lambda>i s.
       let row = \<lparr>rc_id = i, rc_user = u, rc_code_hash = h, rc_created_at = now s, rc_used_at = None\<rparr> in
       if (\<exists>r \<in> set (recovery_codes s). rc_id r = i \<or> rc_code_hash r = h \<and> rc_used_at r = None)
       then (Inl (Database SqlxUnique), s)
       else (Inr row, s\<lparr>recovery_codes := recovery_codes s @ [row]\<rparr>))"

definition rotate_batch ::
    "uuid \<Rightarrow> string list \<Rightarrow> ('z identity_db_scheme, platform_error, mfa_recovery_code list) op" where
  "rotate_batch u hashes =
     tx Database (\<lambda>s.
       collectE (insert_code u) hashes
         (s\<lparr>recovery_codes := filter (\<lambda>r. rc_user r \<noteq> u) (recovery_codes s)\<rparr>))"

definition try_consume :: "uuid \<Rightarrow> string \<Rightarrow> ('z identity_db_scheme, platform_error, bool) op" where
  "try_consume u h =
     tx Database (\<lambda>s.
       let hit = \<lambda>r. rc_user r = u \<and> rc_code_hash r = h \<and> rc_used_at r = None in
       (Inr (find hit (recovery_codes s) \<noteq> None),
        s\<lparr>recovery_codes := sql_update hit (\<lambda>r. r\<lparr>rc_used_at := Some (now s)\<rparr>) (recovery_codes s)\<rparr>))"

definition count_live :: "uuid \<Rightarrow> ('z identity_db_scheme, platform_error, nat) op" where
  "count_live u =
     tx Database (\<lambda>s.
       (Inr (let n = sql_count (\<lambda>r. rc_user r = u \<and> rc_used_at r = None) (recovery_codes s)
             in if n \<le> 4294967295 then n else 4294967295), s))"

section \<open>OAuth request states\<close>

record auth_state =
  au_state :: string
  au_nonce :: string
  au_code_verifier :: string
  au_provider :: string
  au_redirect_to :: "string option"
  au_expires_at :: timestamp

datatype auth_state_error = AuthNotFound | AuthExpired | AuthReplay | AuthDatabase sqlx_error

definition auth_state_error_into :: "auth_state_error \<Rightarrow> platform_error" where
  "auth_state_error_into e =
     (case e of
        AuthNotFound \<Rightarrow> Forbidden ''auth state not found or already consumed''
      | AuthExpired \<Rightarrow> Forbidden ''auth state expired''
      | AuthReplay \<Rightarrow> Forbidden ''auth state already consumed''
      | AuthDatabase x \<Rightarrow> Database x)"

definition AUTH_STATE_TTL :: int where
  "AUTH_STATE_TTL = minutes 10"

definition auth_store ::
    "string \<Rightarrow> string \<Rightarrow> string \<Rightarrow> string \<Rightarrow> string option
      \<Rightarrow> ('z identity_db_scheme, auth_state_error, unit) op" where
  "auth_store st nonce verifier provider redirect =
     tx AuthDatabase (\<lambda>s.
       if st \<in> as_state ` set (auth_states s) then (Inl (AuthDatabase SqlxUnique), s)
       else (Inr (), s\<lparr>auth_states := auth_states s @
              [\<lparr>as_state = st, as_nonce = nonce, as_code_verifier = verifier, as_provider = provider,
                as_redirect_to = redirect, as_created_at = now s,
                as_expires_at = now s + AUTH_STATE_TTL, as_consumed_at = None\<rparr>]\<rparr>))"

definition replay_or_missing ::
    "string \<Rightarrow> ('z identity_db_scheme, auth_state_error, auth_state_error) op" where
  "replay_or_missing st =
     tx AuthDatabase (\<lambda>s.
       (Inr (case find (\<lambda>r. as_state r = st) (auth_states s) of
               None \<Rightarrow> AuthNotFound
             | Some r \<Rightarrow> if as_consumed_at r \<noteq> None then AuthReplay else AuthExpired), s))"

definition auth_consume ::
    "string \<Rightarrow> ('z identity_db_scheme, auth_state_error, auth_state) op" where
  "auth_consume st =
     bindE (tx AuthDatabase (\<lambda>s.
       let hit = \<lambda>r. as_state r = st \<and> as_consumed_at r = None in
       (Inr (find hit (auth_states s)),
        s\<lparr>auth_states := sql_update hit (\<lambda>r. r\<lparr>as_consumed_at := Some (now s)\<rparr>) (auth_states s)\<rparr>))) (\<lambda>row.
     case row of
       None \<Rightarrow> bindE (replay_or_missing st) fail
     | Some r \<Rightarrow> (\<lambda>s.
         if as_expires_at r \<le> now s then (Inl AuthExpired, s)
         else (Inr \<lparr>au_state = as_state r, au_nonce = as_nonce r, au_code_verifier = as_code_verifier r,
                    au_provider = as_provider r, au_redirect_to = as_redirect_to r,
                    au_expires_at = as_expires_at r\<rparr>, s)))"

section \<open>Identity linking\<close>

record idp_user =
  idp_subject :: string
  idp_issuer :: string
  idp_email :: "string option"
  idp_display_name :: string
  idp_avatar_url :: "string option"

definition idp_login_email :: "idp_user \<Rightarrow> string" where
  "idp_login_email p =
     (case idp_email p of
        Some e \<Rightarrow> e
      | None \<Rightarrow> idp_subject p @ ''+'' @ idp_issuer p @ ''@placeholder.local'')"

text \<open>\<open>INSERT INTO users .. ON CONFLICT (email) DO UPDATE\<close>; the column is
  case-insensitive.\<close>

definition upsert_user ::
    "uuid \<Rightarrow> string \<Rightarrow> idp_user \<Rightarrow> ('z identity_db_scheme, platform_error, unit) op" where
  "upsert_user i email p s =
     (let hit = \<lambda>x. eq_ignore_ascii_case (u_email x) email in
      if (\<exists>x \<in> set (users s). hit x)
      then (Inr (), s\<lparr>users := sql_update hit
             (\<lambda>x. x\<lparr>u_display_name := idp_display_name p, u_avatar_url := idp_avatar_url p,
                     u_updated_at := now s, u_version := u_version x + 1\<rparr>) (users s)\<rparr>)
      else if i \<in> u_id ` set (users s) then (Inl (Database SqlxUnique), s)
      else (Inr (), s\<lparr>users := users s @
             [\<lparr>u_id = i, u_email = email, u_display_name = idp_display_name p,
               u_avatar_url = idp_avatar_url p,
               u_primary_oidc_sub = Some (idp_issuer p @ ''|'' @ idp_subject p),
               u_mfa_enrolled = False, u_requires_mfa = False, u_updated_at = now s, u_version = 1\<rparr>]\<rparr>))"

definition link_identity ::
    "uuid \<Rightarrow> uuid \<Rightarrow> idp_user \<Rightarrow> ('z identity_db_scheme, platform_error, unit) op" where
  "link_identity i u p s =
     (if (\<exists>r \<in> set (oidc_identities s). oi_issuer r = idp_issuer p \<and> oi_subject r = idp_subject p)
      then (Inr (), s)
      else if i \<in> oi_id ` set (oidc_identities s) then (Inl (Database SqlxUnique), s)
      else (Inr (), s\<lparr>oidc_identities := oidc_identities s @
             [\<lparr>oi_id = i, oi_user = u, oi_issuer = idp_issuer p, oi_subject = idp_subject p,
               oi_email_at_link = idp_email p\<rparr>]\<rparr>))"

text \<open>\<open>upsert_identity\<close> runs on the caller's connection.\<close>

definition upsert_identity :: "idp_user \<Rightarrow> ('z identity_db_scheme, platform_error, uuid) op" where
  "upsert_identity p =
     bindE (getS (\<lambda>s. find (\<lambda>r. oi_issuer r = idp_issuer p \<and> oi_subject r = idp_subject p)
                        (oidc_identities s))) (\<lambda>existing.
     case existing of
       Some r \<Rightarrow> ret (oi_user r)
     | None \<Rightarrow>
         bindE new_id (\<lambda>i.
         bindE (upsert_user i (idp_login_email p) p) (\<lambda>_.
         bindE (getS (\<lambda>s. find (\<lambda>x. eq_ignore_ascii_case (u_email x) (idp_login_email p)) (users s))) (\<lambda>found.
         case found of
           None \<Rightarrow> fail (Database (SqlxOther ''RowNotFound''))
         | Some x \<Rightarrow>
             bindE new_id (\<lambda>j.
             bindE (link_identity j (u_id x) p) (\<lambda>_.
             ret (u_id x)))))))"

section \<open>WebAuthn ceremonies\<close>

datatype webauthn_error =
    WaConfig string | WaRejected string | WaCeremonyMissing | WaStorage platform_error

definition ceremony_kind_str :: "ceremony_kind \<Rightarrow> string" where
  "ceremony_kind_str k = (case k of Registration \<Rightarrow> ''registration'' | Assertion \<Rightarrow> ''assertion'')"

definition parse_ceremony_kind :: "string \<Rightarrow> ceremony_kind" where
  "parse_ceremony_kind k = (if k = ''assertion'' then Assertion else Registration)"

text \<open>The configuration is read from three environment variables; \<open>parse_url\<close>
  stands for \<open>Url::parse\<close>.\<close>

record 'u webauthn_config =
  rp_id :: string
  rp_name :: string
  rp_origin :: 'u

definition webauthn_config_from_env ::
    "(string \<Rightarrow> string + 'u) \<Rightarrow> (string \<Rightarrow> string option) \<Rightarrow> webauthn_error + 'u webauthn_config" where
  "webauthn_config_from_env parse_url env =
     (case env ''KUBINATE__WEBAUTHN_RP_ID'' of
        None \<Rightarrow> Inl (WaConfig ''KUBINATE__WEBAUTHN_RP_ID is required'')
      | Some rid \<Rightarrow>
          if trim rid = [] then Inl (WaConfig ''KUBINATE__WEBAUTHN_RP_ID must not be empty'')
          else
            let nm = (case env ''KUBINATE__WEBAUTHN_RP_NAME'' of None \<Rightarrow> ''Kubinate'' | Some n \<Rightarrow> n) in
            (case env ''KUBINATE__WEBAUTHN_RP_ORIGIN'' of
               None \<Rightarrow> Inl (WaConfig ''KUBINATE__WEBAUTHN_RP_ORIGIN is required'')
             | Some o' \<Rightarrow>
                 (case parse_url o' of
                    Inl e \<Rightarrow> Inl (WaConfig (''KUBINATE__WEBAUTHN_RP_ORIGIN invalid url: '' @ e))
                  | Inr u \<Rightarrow> Inr \<lparr>rp_id = rid, rp_name = nm, rp_origin = u\<rparr>)))"

definition webauthn_config_from_env_optional ::
    "(string \<Rightarrow> string + 'u) \<Rightarrow> (string \<Rightarrow> string option) \<Rightarrow> webauthn_error + 'u webauthn_config option" where
  "webauthn_config_from_env_optional parse_url env =
     (if env ''KUBINATE__WEBAUTHN_RP_ID'' \<noteq> None \<and> env ''KUBINATE__WEBAUTHN_RP_ORIGIN'' \<noteq> None
      then map_sum id Some (webauthn_config_from_env parse_url env)
      else Inr None)"

text \<open>\<open>Arc<dyn CeremonyStore>\<close>.\<close>

record 's ceremony_ops =
  cs_put :: "ceremony_row \<Rightarrow> ('s, webauthn_error, unit) op"
  cs_take :: "uuid \<Rightarrow> ceremony_kind \<Rightarrow> ('s, webauthn_error, ceremony_row option) op"

definition pg_ceremony_put :: "ceremony_row \<Rightarrow> ('z identity_db_scheme, webauthn_error, unit) op" where
  "pg_ceremony_put row =
     map_err WaStorage (tx Database (\<lambda>s.
       if ce_id row \<in> ce_id ` set (webauthn_ceremonies s) then (Inl (Database SqlxUnique), s)
       else (Inr (), s\<lparr>webauthn_ceremonies := webauthn_ceremonies s @ [row]\<rparr>)))"

definition pg_ceremony_take ::
    "uuid \<Rightarrow> ceremony_kind \<Rightarrow> ('z identity_db_scheme, webauthn_error, ceremony_row option) op" where
  "pg_ceremony_take i k =
     map_err WaStorage (tx Database (\<lambda>s.
       let hit = \<lambda>r. ce_id r = i \<and> ceremony_kind_str (ce_kind r) = ceremony_kind_str k \<and> ce_expires_at r > now s in
       (Inr (map_option (\<lambda>r. r\<lparr>ce_kind := parse_ceremony_kind (ceremony_kind_str (ce_kind r))\<rparr>)
               (find hit (webauthn_ceremonies s))),
        s\<lparr>webauthn_ceremonies := filter (\<lambda>r. \<not> hit r) (webauthn_ceremonies s)\<rparr>)))"

definition pg_ceremony_store :: "'z identity_db_scheme ceremony_ops" where
  "pg_ceremony_store = \<lparr>cs_put = pg_ceremony_put, cs_take = pg_ceremony_take\<rparr>"

text \<open>\<open>InMemoryCeremonyStore\<close>: a hash map behind a mutex, and the clock.\<close>

record ceremony_memory =
  cm_map :: "(uuid \<times> ceremony_row) list"
  cm_now :: timestamp

definition mem_ceremony_put :: "ceremony_row \<Rightarrow> (ceremony_memory, webauthn_error, unit) op" where
  "mem_ceremony_put row s = (Inr (), s\<lparr>cm_map := AList.update (ce_id row) row (cm_map s)\<rparr>)"

definition mem_ceremony_take ::
    "uuid \<Rightarrow> ceremony_kind \<Rightarrow> (ceremony_memory, webauthn_error, ceremony_row option) op" where
  "mem_ceremony_take i k s =
     (let s' = s\<lparr>cm_map := AList.delete i (cm_map s)\<rparr> in
      case map_of (cm_map s) i of
        None \<Rightarrow> (Inr None, s')
      | Some row \<Rightarrow>
          if ce_kind row = k \<and> ce_expires_at row > cm_now s then (Inr (Some row), s')
          else (Inr None, s'))"

definition mem_ceremony_store :: "ceremony_memory ceremony_ops" where
  "mem_ceremony_store = \<lparr>cs_put = mem_ceremony_put, cs_take = mem_ceremony_take\<rparr>"

text \<open>The functions of \<open>webauthn-rs\<close> and \<open>serde_json\<close> the facade calls. Challenges,
  browser responses, ceremony states and credentials are opaque.\<close>

record ('ch, 'resp, 'st, 'pk, 'res) webauthn_lib =
  wa_start_registration :: "uuid \<Rightarrow> string \<Rightarrow> string \<Rightarrow> string list \<Rightarrow> string + ('ch \<times> 'st)"
  wa_finish_registration :: "'resp \<Rightarrow> 'st \<Rightarrow> string + 'pk"
  wa_start_authentication :: "'pk list \<Rightarrow> string + ('ch \<times> 'st)"
  wa_finish_authentication :: "'resp \<Rightarrow> 'st \<Rightarrow> string + 'res"
  wa_update_credential :: "'pk \<Rightarrow> 'res \<Rightarrow> 'pk"
  wa_counter :: "'res \<Rightarrow> nat"
  wa_cred_id :: "'pk \<Rightarrow> string"
  wa_ser_state :: "'st \<Rightarrow> string + string"
  wa_de_state :: "string \<Rightarrow> string + 'st"
  wa_ser_passkey :: "'pk \<Rightarrow> string + string"
  wa_b64url :: "string \<Rightarrow> string"

record completed_registration =
  creg_credential_id :: string
  creg_credential_blob :: string

record completed_assertion =
  casr_passkey_row_id :: uuid
  casr_new_sign_counter :: int
  casr_updated_credential_blob :: string

definition serde_error :: "string \<Rightarrow> webauthn_error" where
  "serde_error e = WaStorage (Internal e)"

definition start_registration ::
    "('ch, 'resp, 'st, 'pk, 'res) webauthn_lib \<Rightarrow> 'z identity_db_scheme ceremony_ops
      \<Rightarrow> uuid \<Rightarrow> string \<Rightarrow> string \<Rightarrow> string list
      \<Rightarrow> ('z identity_db_scheme, webauthn_error, uuid \<times> 'ch) op" where
  "start_registration lib store u email display excluded =
     bindE (of_sum (\<lambda>e. WaRejected (''start_passkey_registration: '' @ e))
        (wa_start_registration lib u email display excluded)) (\<lambda>(challenge, st).
     bindE (of_sum serde_error (wa_ser_state lib st)) (\<lambda>blob.
     bindE new_id (\<lambda>i.
     bindE (getS (\<lambda>s. now s + minutes 5)) (\<lambda>expires.
     bindE (cs_put store \<lparr>ce_id = i, ce_user = u, ce_kind = Registration, ce_state = blob,
                          ce_expires_at = expires\<rparr>) (\<lambda>_.
     ret (i, challenge))))))"

definition finish_registration ::
    "('ch, 'resp, 'st, 'pk, 'res) webauthn_lib \<Rightarrow> 'z identity_db_scheme ceremony_ops
      \<Rightarrow> uuid \<Rightarrow> 'resp \<Rightarrow> ('z identity_db_scheme, webauthn_error, completed_registration) op" where
  "finish_registration lib store i resp =
     bindE (cs_take store i Registration) (\<lambda>found.
     bindE (of_option WaCeremonyMissing found) (\<lambda>row.
     bindE (of_sum serde_error (wa_de_state lib (ce_state row))) (\<lambda>st.
     bindE (of_sum (\<lambda>e. WaRejected (''finish_passkey_registration: '' @ e))
        (wa_finish_registration lib resp st)) (\<lambda>pk.
     bindE (of_sum serde_error (wa_ser_passkey lib pk)) (\<lambda>blob.
     ret \<lparr>creg_credential_id = wa_b64url lib (wa_cred_id lib pk), creg_credential_blob = blob\<rparr>)))))"

definition start_assertion ::
    "('ch, 'resp, 'st, 'pk, 'res) webauthn_lib \<Rightarrow> 'z identity_db_scheme ceremony_ops
      \<Rightarrow> uuid \<Rightarrow> 'pk list \<Rightarrow> ('z identity_db_scheme, webauthn_error, uuid \<times> 'ch) op" where
  "start_assertion lib store u pks =
     (if pks = [] then fail (WaRejected ''user has no registered passkeys'')
      else
        bindE (of_sum (\<lambda>e. WaRejected (''start_passkey_authentication: '' @ e))
           (wa_start_authentication lib pks)) (\<lambda>(challenge, st).
        bindE (of_sum serde_error (wa_ser_state lib st)) (\<lambda>blob.
        bindE new_id (\<lambda>i.
        bindE (getS (\<lambda>s. now s + minutes 5)) (\<lambda>expires.
        bindE (cs_put store \<lparr>ce_id = i, ce_user = u, ce_kind = Assertion, ce_state = blob,
                             ce_expires_at = expires\<rparr>) (\<lambda>_.
        ret (i, challenge)))))))"

definition finish_assertion ::
    "('ch, 'resp, 'st, 'pk, 'res) webauthn_lib \<Rightarrow> 'z identity_db_scheme ceremony_ops
      \<Rightarrow> uuid \<Rightarrow> uuid \<Rightarrow> 'pk \<Rightarrow> 'resp
      \<Rightarrow> ('z identity_db_scheme, webauthn_error, completed_assertion) op" where
  "finish_assertion lib store i row_id pk resp =
     bindE (cs_take store i Assertion) (\<lambda>found.
     bindE (of_option WaCeremonyMissing found) (\<lambda>row.
     bindE (of_sum serde_error (wa_de_state lib (ce_state row))) (\<lambda>st.
     bindE (of_sum (\<lambda>e. WaRejected (''finish_passkey_authentication: '' @ e))
        (wa_finish_authentication lib resp st)) (\<lambda>res.
     bindE (of_sum serde_error (wa_ser_passkey lib (wa_update_credential lib pk res))) (\<lambda>blob.
     ret \<lparr>casr_passkey_row_id = row_id, casr_new_sign_counter = int (wa_counter lib res),
          casr_updated_credential_blob = blob\<rparr>)))))"

subsection \<open>The contract of a ceremony store\<close>

text \<open>A store maps ceremony ids to rows; \<open>clock\<close> is the time a \<open>take\<close> compares
  the expiry with.\<close>

locale ceremony_store =
  fixes ops :: "'s ceremony_ops"
    and inv :: "'s \<Rightarrow> bool"
    and held :: "'s \<Rightarrow> uuid \<Rightarrow> ceremony_row option"
    and clock :: "'s \<Rightarrow> timestamp"
  assumes held_id: "inv s \<Longrightarrow> held s i = Some r \<Longrightarrow> ce_id r = i"
    and put_ok: "inv s \<Longrightarrow> cs_put ops row s = (Inr u, t) \<Longrightarrow> inv t \<and> held t (ce_id row) = Some row"
    and put_others: "inv s \<Longrightarrow> cs_put ops row s = (res, t) \<Longrightarrow> i \<noteq> ce_id row \<Longrightarrow> inv t \<and> held t i = held s i"
    and take_inv: "inv s \<Longrightarrow> cs_take ops i k s = (tk, t) \<Longrightarrow> inv t"
    and take_some: "inv s \<Longrightarrow> cs_take ops i k s = (Inr (Some row), t) \<Longrightarrow>
          held s i = Some row \<and> ce_kind row = k \<and> clock s < ce_expires_at row \<and> held t i = None"
    and take_live: "inv s \<Longrightarrow> cs_take ops i k s = (Inr x, t) \<Longrightarrow> held s i = Some row \<Longrightarrow>
          ce_kind row = k \<Longrightarrow> clock s < ce_expires_at row \<Longrightarrow> x = Some row"
    and take_others: "inv s \<Longrightarrow> cs_take ops i k s = (tk, t) \<Longrightarrow> j \<noteq> i \<Longrightarrow> held t j = held s j"
begin

lemma take_once:
  assumes "inv s" and "cs_take ops i k s = (Inr (Some row), t)"
  shows "\<not> (\<exists>row' u. cs_take ops i k' t = (Inr (Some row'), u))"
  using assms take_some [of s i k row t] take_inv [of s i k _ t] take_some [of t i k'] by fastforce

lemma put_take:
  assumes "inv s" and "cs_put ops row s = (Inr u, t)" and "cs_take ops (ce_id row) (ce_kind row) t = (Inr x, v)"
    and "clock t < ce_expires_at row"
  shows "x = Some row"
  using assms put_ok [of s row u t] take_live [of t "ce_id row" "ce_kind row" x v row] by blast

lemma wrong_kind:
  assumes "inv s" and "held s i = Some row" and "ce_kind row \<noteq> k"
  shows "\<not> (\<exists>row' t. cs_take ops i k s = (Inr (Some row'), t))"
  using assms take_some [of s i k] by fastforce

end

definition ceremony_inv :: "'z identity_db_scheme \<Rightarrow> bool" where
  "ceremony_inv s \<longleftrightarrow> distinct (map ce_id (webauthn_ceremonies s))"

lemma ceremony_kind_str_inj [simp]: "ceremony_kind_str a = ceremony_kind_str b \<longleftrightarrow> a = b"
  by (cases a; cases b) (simp_all add: ceremony_kind_str_def)

lemma parse_ceremony_kind_str [simp]: "parse_ceremony_kind (ceremony_kind_str k) = k"
  by (cases k) (simp_all add: parse_ceremony_kind_def ceremony_kind_str_def)

definition pg_held :: "'z identity_db_scheme \<Rightarrow> uuid \<Rightarrow> ceremony_row option" where
  "pg_held s i = find (\<lambda>r. ce_id r = i) (webauthn_ceremonies s)"

lemma find_id_unique:
  assumes "distinct (map g xs)" and "find (\<lambda>r. g r = i \<and> p r) xs = Some r"
  shows "find (\<lambda>r. g r = i) xs = Some r"
  using assms find_Some_iff2 [OF assms(2)]
  by (intro find_unique) (auto simp: distinct_map inj_on_def)

lemma pg_take_run:
  assumes "pg_ceremony_take i k s = (Inr x, t)"
  shows "x = find (\<lambda>r. ce_id r = i \<and> ce_kind r = k \<and> ce_expires_at r > now s) (webauthn_ceremonies s)"
    and "webauthn_ceremonies t = filter (\<lambda>r. \<not> (ce_id r = i \<and> ce_kind r = k \<and> ce_expires_at r > now s))
           (webauthn_ceremonies s)"
  using assms by (auto simp: pg_ceremony_take_def tx_eq_Inr Let_def map_option_case split: option.splits)

lemma pg_take_err: "pg_ceremony_take i k s = (Inl e, t) \<Longrightarrow> t = tick s"
  by (auto simp: pg_ceremony_take_def map_err_eq_Inl tx_eq_Inl)

lemma find_filter_other: "(\<And>r. p r \<Longrightarrow> q r) \<Longrightarrow> find p (filter q xs) = find p xs"
  by (induction xs) auto

interpretation pgcer: ceremony_store pg_ceremony_store ceremony_inv pg_held now
proof (unfold_locales, goal_cases)
  case (1 s i r)
  then show ?case by (auto simp: pg_held_def dest: find_Some_iff2)
next
  case (2 s row u t)
  then have t: "ce_id row \<notin> ce_id ` set (webauthn_ceremonies s)"
      "webauthn_ceremonies t = webauthn_ceremonies s @ [row]"
    by (auto simp: pg_ceremony_store_def pg_ceremony_put_def tx_eq_Inr split: if_splits)
  then have "find (\<lambda>r. ce_id r = ce_id row) (webauthn_ceremonies s) = None"
    by (auto simp: find_None_iff_all image_iff)
  with t 2(1) show ?case by (simp add: ceremony_inv_def pg_held_def find_append)
next
  case (3 s row r t i)
  then show ?case
    by (cases r) (auto simp: pg_ceremony_store_def pg_ceremony_put_def map_err_eq_Inl tx_eq_Inl tx_eq_Inr
        ceremony_inv_def pg_held_def find_append split: if_splits option.splits)
next
  case (4 s i k r t)
  then show ?case
    by (cases r) (auto simp: pg_ceremony_store_def ceremony_inv_def distinct_map_filter
        dest!: pg_take_err pg_take_run(2))
next
  case (5 s i k row t)
  then have run: "pg_ceremony_take i k s = (Inr (Some row), t)" by (simp add: pg_ceremony_store_def)
  note t = pg_take_run [OF run]
  have row: "find (\<lambda>r. ce_id r = i) (webauthn_ceremonies s) = Some row" "ce_kind row = k" "now s < ce_expires_at row"
    using 5(1) t(1) find_id_unique [of ce_id "webauthn_ceremonies s" i "\<lambda>r. ce_kind r = k \<and> ce_expires_at r > now s" row]
      find_Some_iff2 [OF t(1) [symmetric]] by (auto simp: ceremony_inv_def)
  have "x = row" if "x \<in> set (webauthn_ceremonies s)" "ce_id x = i" for x
    using 5(1) row(1) that find_Some_iff2 [OF row(1)] by (auto simp: ceremony_inv_def distinct_map inj_on_def)
  with row have "pg_held t i = None"
    by (auto simp: pg_held_def t(2) find_None_iff_all)
  with row show ?case by (simp add: pg_held_def)
next
  case (6 s i k x t row)
  then have run: "pg_ceremony_take i k s = (Inr x, t)" by (simp add: pg_ceremony_store_def)
  from 6(3) have r: "row \<in> set (webauthn_ceremonies s)" "ce_id row = i"
    by (auto simp: pg_held_def dest: find_Some_iff2)
  have "find (\<lambda>r. ce_id r = i \<and> ce_kind r = k \<and> ce_expires_at r > now s) (webauthn_ceremonies s) = Some row"
    using 6(1,4,5) r by (intro find_unique) (auto simp: ceremony_inv_def distinct_map inj_on_def)
  with pg_take_run(1) [OF run] show ?case by simp
next
  case (7 s i k r t j)
  show ?case
  proof (cases r)
    case (Inl e)
    with 7(2) have "t = tick s" by (intro pg_take_err) (simp add: pg_ceremony_store_def)
    then show ?thesis by (simp add: pg_held_def)
  next
    case (Inr x)
    with 7(2) have "pg_ceremony_take i k s = (Inr x, t)" by (simp add: pg_ceremony_store_def)
    from pg_take_run(2) [OF this] 7(3) show ?thesis
      unfolding pg_held_def by (simp only:) (rule find_filter_other, auto)
  qed
qed

definition mem_inv :: "ceremony_memory \<Rightarrow> bool" where
  "mem_inv s \<longleftrightarrow> (\<forall>(i, r) \<in> set (cm_map s). ce_id r = i)"

definition mem_held :: "ceremony_memory \<Rightarrow> uuid \<Rightarrow> ceremony_row option" where
  "mem_held s i = map_of (cm_map s) i"

lemma set_alist_update: "p \<in> set (AList.update k v xs) \<Longrightarrow> p = (k, v) \<or> p \<in> set xs"
  by (induction xs) (auto split: if_splits)

lemma set_alist_delete: "p \<in> set (AList.delete k xs) \<Longrightarrow> p \<in> set xs"
  by (auto simp: AList.delete_eq)

interpretation memcer: ceremony_store mem_ceremony_store mem_inv mem_held cm_now
proof (unfold_locales, goal_cases)
  case (1 s i r)
  then show ?case by (auto simp: mem_inv_def mem_held_def dest!: map_of_SomeD)
next
  case (2 s row u t)
  then show ?case
    by (auto simp: mem_ceremony_store_def mem_ceremony_put_def mem_inv_def mem_held_def update_conv'
        dest!: set_alist_update)
next
  case (3 s row r t i)
  then show ?case
    by (auto simp: mem_ceremony_store_def mem_ceremony_put_def mem_inv_def mem_held_def update_conv'
        dest!: set_alist_update)
qed (auto simp: mem_ceremony_store_def mem_ceremony_take_def mem_inv_def mem_held_def Let_def delete_conv'
    split: option.splits if_splits dest!: set_alist_delete)

section \<open>Session facts\<close>

definition session_inv :: "'z identity_db_scheme \<Rightarrow> bool" where
  "session_inv s \<longleftrightarrow> distinct (map s_id (sessions s))"

text \<open>A session that exists and is revoked.\<close>

definition session_dead :: "uuid \<Rightarrow> 'z identity_db_scheme \<Rightarrow> bool" where
  "session_dead sid s \<longleftrightarrow> sid \<in> s_id ` set (sessions s) \<and> (\<forall>r \<in> set (sessions s). s_id r = sid \<longrightarrow> s_revoked_at r \<noteq> None)"

datatype session_call =
    CallIssue bool uuid "string option" "string option"
  | CallMarkMfa uuid
  | CallRevoke uuid
  | CallBump uuid

fun session_exec :: "session_call \<Rightarrow> 'z identity_db_scheme \<Rightarrow> 'z identity_db_scheme" where
  "session_exec (CallIssue True u ua addr) s = snd (tx Database (issue u ua addr) s)"
| "session_exec (CallIssue False u ua addr) s = snd (tx Database (issue_partial_mfa u ua addr) s)"
| "session_exec (CallMarkMfa sid) s = snd (mark_mfa_satisfied sid s)"
| "session_exec (CallRevoke sid) s = snd (session_revoke sid s)"
| "session_exec (CallBump sid) s = snd (bump_activity sid s)"

lemma session_dead_simps [simp]:
  "session_dead sid (tick s) = session_dead sid s" "session_dead sid (s\<lparr>pg_uuid_ctr := n\<rparr>) = session_dead sid s"
  by (simp_all add: session_dead_def)

lemma session_dead_update:
  assumes "session_dead sid s" and "\<And>r. s_id (f r) = s_id r" and "\<And>r. s_revoked_at r \<noteq> None \<Longrightarrow> s_revoked_at (f r) \<noteq> None"
  shows "session_dead sid (s\<lparr>sessions := sql_update h f (sessions s)\<rparr>)"
proof -
  have "map s_id (sql_update h f (sessions s)) = map s_id (sessions s)"
    using assms(2) by (rule map_sql_update_same)
  then have "s_id ` set (sql_update h f (sessions s)) = s_id ` set (sessions s)"
    by (metis list.set_map)
  then show ?thesis
    using assms by (auto simp: session_dead_def set_sql_update)
qed

lemma session_insert_dead: "keeps (session_dead sid) (session_insert b u ua addr)"
  by (auto simp: keeps_def session_insert_def bindE_def new_id_def Let_def session_dead_def)

lemma session_exec_dead: "session_dead sid s \<Longrightarrow> session_dead sid (session_exec c s)"
proof (induction c s rule: session_exec.induct)
  case (1 u ua addr s)
  have "keeps (session_dead sid) (tx Database (session_insert True u ua addr))"
    by (rule keeps_tx) (auto dest: keeps_run [OF session_insert_dead])
  from keepsD [OF this 1] show ?case by (simp add: issue_def)
next
  case (2 u ua addr s)
  have "keeps (session_dead sid) (tx Database (session_insert False u ua addr))"
    by (rule keeps_tx) (auto dest: keeps_run [OF session_insert_dead])
  from keepsD [OF this 2] show ?case by (simp add: issue_partial_mfa_def)
qed (simp_all add: mark_mfa_satisfied_def session_revoke_def bump_activity_def tx_def session_dead_update)

lemma session_resolve_dead: "session_dead sid s \<Longrightarrow> fst (session_resolve sid s) \<in> {Inr None, Inl (Database SqlxConnection)}"
  by (auto simp: session_resolve_def tx_def session_live_def session_dead_def find_None_iff_all)

lemma session_revoke_dead:
  assumes "session_revoke sid s = (Inr u, t)" and "sid \<in> s_id ` set (sessions s)"
  shows "session_dead sid t"
proof -
  let ?f = "\<lambda>r. r\<lparr>s_revoked_at := Some (now s)\<rparr>"
  let ?rows = "sql_update (\<lambda>r. s_id r = sid \<and> s_revoked_at r = None) ?f (sessions s)"
  have t: "sessions t = ?rows" using assms(1) by (auto simp: session_revoke_def tx_eq_Inr)
  have "map s_id ?rows = map s_id (sessions s)" by (rule map_sql_update_same) simp
  then have "s_id ` set ?rows = s_id ` set (sessions s)" by (metis list.set_map)
  with assms(2) show ?thesis by (auto simp: session_dead_def t set_sql_update)
qed

text \<open>A revoked session stays dead: after a successful \<open>revoke\<close> of an
  existing session, whatever session operations follow (issuing others, marking
  MFA satisfied, bumping activity, revoking again), the cookie resolves to no
  session.\<close>

theorem revoked_session_stays_dead:
  assumes "session_revoke sid s = (Inr u, t)" and "sid \<in> s_id ` set (sessions s)"
  shows "fst (session_resolve sid (fold session_exec cs t)) \<in> {Inr None, Inl (Database SqlxConnection)}"
proof -
  have "session_dead sid (fold session_exec cs t)" if "session_dead sid t" for t :: "'a identity_db_scheme"
    using that by (induction cs arbitrary: t) (simp_all add: session_exec_dead)
  from session_resolve_dead [OF this [OF session_revoke_dead [OF assms]]] show ?thesis .
qed

definition demo_sessions :: identity_db where
  "demo_sessions = snd (issue_partial_mfa 10 None None (snd (issue 10 None None (demo_db False))))"

theorem revoked_session_stays_dead_witness:
  "fst (session_resolve 100 (fold session_exec [CallMarkMfa 100, CallBump 100] (snd (session_revoke 100 demo_sessions))))
     \<in> {Inr None, Inl (Database SqlxConnection)}"
proof -
  have "fst (session_revoke 100 demo_sessions) = Inr ()" "100 \<in> s_id ` set (sessions demo_sessions)" by code_simp+
  then show ?thesis
    using revoked_session_stays_dead [of 100 demo_sessions "()" "snd (session_revoke 100 demo_sessions)"]
    by (metis prod.collapse)
qed

text \<open>Issue and resolve: the session just issued resolves to itself, with the
  MFA flag it was issued with, as long as it is neither revoked nor past its
  thirty days.\<close>

theorem issue_then_resolve:
  assumes "session_insert mfa u ua addr s = (Inr ses, t)" and "\<not> db_faulty t"
    and "now t < ses_expires_at ses"
  shows "session_resolve (ses_id ses) t = (Inr (Some ses), tick t)
    \<and> ses_user_id ses = u \<and> ses_mfa_satisfied ses = mfa \<and> ses_expires_at ses = now s + days 30"
proof -
  define row where "row = \<lparr>s_id = pg_uuid s (pg_uuid_ctr s), s_user = u, s_created_at = now s,
      s_last_used_at = now s, s_expires_at = now s + SESSION_TTL, s_revoked_at = None,
      s_user_agent = ua, s_ip_address = addr, s_mfa_satisfied = mfa\<rparr>"
  have t: "sessions t = sessions s @ [row]" "ses = session_of_row row" "s_id row \<notin> s_id ` set (sessions s)"
    using assms(1)
    by (auto simp: session_insert_def bindE_eq_Inr new_id_def Let_def row_def session_of_row_def split: if_splits)
  have "find (\<lambda>r. s_id r = s_id row \<and> session_live t r) (sessions s) = None"
    using t(3) by (auto simp: find_None_iff_all image_iff)
  moreover have "session_live t row"
    using assms(3) by (simp add: session_live_def t(2) session_of_row_def) (simp add: row_def)
  ultimately show ?thesis
    using assms(2) t(1)
    by (simp add: session_resolve_def tx_def db_faulty_def find_append t(2) session_of_row_def)
      (simp add: row_def SESSION_TTL_def)
qed

theorem issue_then_resolve_witness:
  "\<exists>ses. session_insert False 10 None None (demo_db False) = (Inr ses, snd (session_insert False 10 None None (demo_db False)))
     \<and> fst (session_resolve (ses_id ses) (snd (session_insert False 10 None None (demo_db False)))) = Inr (Some ses)"
proof -
  let ?r = "session_insert False 10 None None (demo_db False)"
  have "case fst ?r of Inr ses \<Rightarrow> now (snd ?r) < ses_expires_at ses | Inl _ \<Rightarrow> False" "\<not> db_faulty (snd ?r)"
    by code_simp+
  then obtain ses where "?r = (Inr ses, snd ?r)" "now (snd ?r) < ses_expires_at ses" "\<not> db_faulty (snd ?r)"
    by (cases ?r) (auto split: sum.splits)
  with issue_then_resolve [of False 10 None None "demo_db False" ses "snd ?r"] show ?thesis
    by (intro exI [of _ ses]) simp
qed

definition mfa_table :: "bool \<Rightarrow> bool \<Rightarrow> bool \<Rightarrow> mfa_state" where
  "mfa_table req enr sat =
     (if \<not> req then NotRequired else if \<not> enr then MustEnrol else if sat then Enrolled else MustAssert)"

definition session_satisfied :: "uuid \<Rightarrow> 'z identity_db_scheme \<Rightarrow> bool" where
  "session_satisfied sid s \<longleftrightarrow> sid \<noteq> nil_uuid \<and>
     (\<exists>r. find (\<lambda>r. s_id r = sid \<and> session_live s r) (sessions s) = Some r \<and> s_mfa_satisfied r)"

text \<open>\<open>mfa_state\<close> is the documented decision table over the policy bit, the
  enrolment bit and the MFA flag of the session, a missing or nil session
  counting as not satisfied.\<close>

theorem mfa_state_decision_table:
  assumes "\<not> db_faulty s" and "\<not> db_faulty (tick s)"
  shows "fst (mfa_state_of u sid s) = Inr
    (case find (\<lambda>x. u_id x = u) (users s) of
       None \<Rightarrow> NotRequired
     | Some x \<Rightarrow> mfa_table (u_requires_mfa x) (u_mfa_enrolled x) (session_satisfied sid (tick s)))"
  using assms
  by (auto simp: mfa_state_of_def bindE_def tx_def db_faulty_def ret_def mfa_table_def session_satisfied_def
      split: option.splits prod.splits)

definition demo_enrolled :: identity_db where
  "demo_enrolled = set_mfa_enrolled 10 True demo_sessions"

theorem mfa_state_decision_table_witness:
  "fst (mfa_state_of 10 101 demo_enrolled) = Inr MustAssert \<and> fst (mfa_state_of 10 100 demo_enrolled) = Inr Enrolled"
proof -
  have nf: "\<not> db_faulty demo_enrolled" "\<not> db_faulty (tick demo_enrolled)" by code_simp+
  have "(case find (\<lambda>x. u_id x = 10) (users demo_enrolled) of None \<Rightarrow> NotRequired
     | Some x \<Rightarrow> mfa_table (u_requires_mfa x) (u_mfa_enrolled x) False) = MustAssert"
    "(case find (\<lambda>x. u_id x = 10) (users demo_enrolled) of None \<Rightarrow> NotRequired
     | Some x \<Rightarrow> mfa_table (u_requires_mfa x) (u_mfa_enrolled x) True) = Enrolled"
    "map_option s_mfa_satisfied (find (\<lambda>r. s_id r = 101 \<and> session_live (tick demo_enrolled) r) (sessions (tick demo_enrolled))) = Some False"
    "map_option s_mfa_satisfied (find (\<lambda>r. s_id r = 100 \<and> session_live (tick demo_enrolled) r) (sessions (tick demo_enrolled))) = Some True"
    by code_simp+
  moreover from calculation(3,4) have "session_satisfied 101 (tick demo_enrolled) = False"
      "session_satisfied 100 (tick demo_enrolled) = True"
    by (auto simp: session_satisfied_def nil_uuid_def)
  ultimately show ?thesis
    using mfa_state_decision_table [OF nf, of 10 101] mfa_state_decision_table [OF nf, of 10 100]
    by (simp only: simp_thms)
qed

section \<open>Passkey facts\<close>

definition has_live_passkey :: "uuid \<Rightarrow> 'z identity_db_scheme \<Rightarrow> bool" where
  "has_live_passkey u s \<longleftrightarrow> (\<exists>p \<in> set (user_passkeys s). pk_user p = u \<and> pk_revoked_at p = None)"

text \<open>The state bit \<open>users.mfa_enrolled\<close>, the primary keys and the index on live
  credential ids.\<close>

definition passkey_inv :: "'z identity_db_scheme \<Rightarrow> bool" where
  "passkey_inv s \<longleftrightarrow> distinct (map pk_id (user_passkeys s))
     \<and> distinct (map pk_credential_id (filter passkey_is_live (user_passkeys s)))
     \<and> (\<forall>x \<in> set (users s). u_mfa_enrolled x = has_live_passkey (u_id x) s)"

lemma passkey_inv_simps [simp]:
  "passkey_inv (tick s) = passkey_inv s" "passkey_inv (s\<lparr>pg_uuid_ctr := n\<rparr>) = passkey_inv s"
  by (simp_all add: passkey_inv_def has_live_passkey_def)

lemma enrolled_after:
  assumes "\<forall>x \<in> set (users s). u_mfa_enrolled x = has_live_passkey (u_id x) s"
    and "users t = users s" and "b = has_live_passkey u t"
    and "\<And>v. v \<noteq> u \<Longrightarrow> has_live_passkey v t = has_live_passkey v s"
  shows "\<forall>x \<in> set (users (set_mfa_enrolled u b t)). u_mfa_enrolled x = has_live_passkey (u_id x) (set_mfa_enrolled u b t)"
proof
  fix x assume "x \<in> set (users (set_mfa_enrolled u b t))"
  then obtain y where y: "y \<in> set (users s)" "x = (if u_id y = u
      then y\<lparr>u_mfa_enrolled := b, u_updated_at := now t, u_version := u_version y + 1\<rparr> else y)"
    unfolding set_mfa_enrolled_def using assms(2) by (auto simp: set_sql_update)
  moreover have "has_live_passkey v (set_mfa_enrolled u b t) = has_live_passkey v t" for v
    by (simp add: has_live_passkey_def set_mfa_enrolled_def)
  ultimately show "u_mfa_enrolled x = has_live_passkey (u_id x) (set_mfa_enrolled u b t)"
    using assms(1,3,4) by (cases "u_id y = u") auto
qed

lemma passkey_insert_inv: "keeps passkey_inv (passkey_insert u cid blob nick)"
proof -
  have ins: "passkey_inv (set_mfa_enrolled u True (s\<lparr>user_passkeys := user_passkeys s @ [row]\<rparr>))"
    if s: "passkey_inv s" and row: "pk_user row = u" "pk_revoked_at row = None"
      and new: "\<forall>p \<in> set (user_passkeys s). pk_id p \<noteq> pk_id row
          \<and> (pk_credential_id p = pk_credential_id row \<longrightarrow> pk_revoked_at p \<noteq> None)"
    for s :: "'a identity_db_scheme" and row u
  proof -
    let ?t = "s\<lparr>user_passkeys := user_passkeys s @ [row]\<rparr>"
    have "\<forall>x \<in> set (users (set_mfa_enrolled u True ?t)). u_mfa_enrolled x = has_live_passkey (u_id x) (set_mfa_enrolled u True ?t)"
      using s row by (intro enrolled_after [of s]) (auto simp: passkey_inv_def has_live_passkey_def)
    moreover have "distinct (map pk_id (user_passkeys ?t))"
      "distinct (map pk_credential_id (filter passkey_is_live (user_passkeys ?t)))"
      using s row(2) new by (auto simp: passkey_inv_def passkey_is_live_def)
    ultimately show ?thesis by (simp add: passkey_inv_def set_mfa_enrolled_def)
  qed
  show ?thesis
    unfolding passkey_insert_def
    by (intro keeps_intros keeps_tx)
      (auto simp: Let_def image_iff split: if_splits intro!: ins [simplified])
qed

lemma passkey_update_inv:
  assumes "passkey_inv s" and "\<And>p. pk_id (f p) = pk_id p" "\<And>p. pk_credential_id (f p) = pk_credential_id p"
    "\<And>p. pk_user (f p) = pk_user p" "\<And>p. pk_revoked_at (f p) = pk_revoked_at p"
  shows "passkey_inv (s\<lparr>user_passkeys := sql_update h f (user_passkeys s)\<rparr>)"
proof -
  have "has_live_passkey u (s\<lparr>user_passkeys := sql_update h f (user_passkeys s)\<rparr>) = has_live_passkey u s" for u
    using assms(4,5) by (auto simp: has_live_passkey_def bex_sql_update split: if_splits)
  moreover have "distinct (map pk_credential_id (filter passkey_is_live (sql_update h f (user_passkeys s))))"
    using assms by (intro distinct_filter_update) (auto simp: passkey_inv_def passkey_is_live_def)
  ultimately show ?thesis using assms by (simp add: passkey_inv_def map_sql_update_same)
qed

lemma record_use_inv: "keeps passkey_inv (record_use pid c blob)"
  unfolding record_use_def
  by (intro keeps_intros keeps_tx) (auto simp: Let_def intro!: passkey_update_inv)

lemma passkey_revoke_inv: "keeps passkey_inv (passkey_revoke u pid)"
proof (unfold passkey_revoke_def, rule keeps_tx)
  fix s a s'
  assume s: "passkey_inv s" and run: "(let hit = \<lambda>p. pk_id p = pid \<and> pk_user p = u \<and> pk_revoked_at p = None;
           s' = s\<lparr>user_passkeys := sql_update hit (\<lambda>p. p\<lparr>pk_revoked_at := Some (now s)\<rparr>) (user_passkeys s)\<rparr> in
       if sql_count hit (user_passkeys s) \<noteq> 1
       then (Inl (NotFound (''passkey/'' @ pg_uuid_text s pid)), s)
       else if sql_count (\<lambda>p. pk_user p = u \<and> pk_revoked_at p = None) (user_passkeys s') = 0
       then (Inr (), set_mfa_enrolled u False s')
       else (Inr (), s')) = (Inr a, s')"
  define hit where "hit p \<longleftrightarrow> pk_id p = pid \<and> pk_user p = u \<and> pk_revoked_at p = None" for p :: passkey
  define t where "t = s\<lparr>user_passkeys := sql_update hit (\<lambda>p. p\<lparr>pk_revoked_at := Some (now s)\<rparr>) (user_passkeys s)\<rparr>"
  have s': "s' = (if has_live_passkey u t then t else set_mfa_enrolled u False t)"
    using run by (auto simp: Let_def t_def hit_def [abs_def] sql_count_zero has_live_passkey_def split: if_splits)
  have others: "has_live_passkey v t = has_live_passkey v s" if "v \<noteq> u" for v
    using that by (auto simp: has_live_passkey_def t_def bex_sql_update hit_def split: if_splits)
  have dist: "distinct (map pk_id (user_passkeys t))" "distinct (map pk_credential_id (filter passkey_is_live (user_passkeys t)))"
    using s by (auto simp: passkey_inv_def t_def map_sql_update_same passkey_is_live_def intro!: distinct_filter_update)
  show "passkey_inv s'"
  proof (cases "has_live_passkey u t")
    case True
    then have "has_live_passkey u s"
      by (auto simp: has_live_passkey_def t_def bex_sql_update split: if_splits)
    with True others have "has_live_passkey v t = has_live_passkey v s" for v by (cases "v = u") auto
    with True s dist show ?thesis by (simp add: s' passkey_inv_def) (simp add: t_def)
  next
    case False
    have "\<forall>x \<in> set (users (set_mfa_enrolled u False t)). u_mfa_enrolled x = has_live_passkey (u_id x) (set_mfa_enrolled u False t)"
      using s False others by (intro enrolled_after [of s]) (auto simp: passkey_inv_def t_def)
    with False dist show ?thesis by (simp add: s' passkey_inv_def set_mfa_enrolled_def)
  qed
qed simp

text \<open>(C34) Registering, using and revoking passkeys keeps \<open>users.mfa_enrolled\<close>
  equal to "has a live passkey" for every user, and keeps live credential ids
  unique. No interleaving of these calls can lock a user out or open the gate.\<close>

theorem mfa_enrolled_tracks_passkeys:
  assumes "passkey_inv s"
  shows "passkey_inv (snd (passkey_insert u cid blob nick s))
    \<and> passkey_inv (snd (record_use pid c blob s)) \<and> passkey_inv (snd (passkey_revoke u pid s))"
  using assms keepsD [OF passkey_insert_inv] keepsD [OF record_use_inv] keepsD [OF passkey_revoke_inv] by blast

definition demo_passkey :: identity_db where
  "demo_passkey = snd (passkey_insert 10 ''cid'' ''blob'' ''key'' (demo_db False))"

theorem mfa_enrolled_tracks_passkeys_witness:
  "passkey_inv (snd (passkey_revoke 10 100 demo_passkey))
   \<and> map u_mfa_enrolled (users demo_passkey) = [True, False, False]
   \<and> map u_mfa_enrolled (users (snd (passkey_revoke 10 100 demo_passkey))) = [False, False, False]"
proof -
  have "passkey_inv demo_passkey" "map u_mfa_enrolled (users demo_passkey) = [True, False, False]"
    "map u_mfa_enrolled (users (snd (passkey_revoke 10 100 demo_passkey))) = [False, False, False]" by code_simp+
  then show ?thesis using mfa_enrolled_tracks_passkeys [of demo_passkey 10 _ _ _ 100] by blast
qed



section \<open>Recovery codes\<close>

definition live_codes :: "uuid \<Rightarrow> 'z identity_db_scheme \<Rightarrow> string list" where
  "live_codes u s = map rc_code_hash (filter (\<lambda>r. rc_user r = u \<and> rc_used_at r = None) (recovery_codes s))"

lemma insert_code_ok:
  assumes "insert_code u h s = (Inr r, t)"
  shows "recovery_codes t = recovery_codes s @ [r]" and "rc_user r = u" "rc_code_hash r = h" "rc_used_at r = None"
  using assms by (auto simp: insert_code_def bindE_eq_Inr new_id_def Let_def split: if_splits)

lemma collect_codes:
  assumes "collectE (insert_code u) hs s = (Inr rs, t)"
  shows "recovery_codes t = recovery_codes s @ rs \<and> map rc_code_hash rs = hs
     \<and> (\<forall>r \<in> set rs. rc_user r = u \<and> rc_used_at r = None)"
  using assms
proof (induction hs arbitrary: s rs)
  case (Cons h hs)
  then obtain r s1 rs' where "insert_code u h s = (Inr r, s1)" "collectE (insert_code u) hs s1 = (Inr rs', t)"
    "rs = r # rs'" by (auto split: prod.splits sum.splits)
  with Cons.IH [of s1 rs'] insert_code_ok [of u h s r s1] show ?case by auto
qed simp

lemma rotate_batch_ok:
  assumes "rotate_batch u hs s = (Inr rs, t)"
  shows "live_codes u t = hs" and "\<And>v. v \<noteq> u \<Longrightarrow> live_codes v t = live_codes v s"
proof -
  obtain t' where t': "collectE (insert_code u) hs (s\<lparr>recovery_codes := filter (\<lambda>r. rc_user r \<noteq> u) (recovery_codes s)\<rparr>)
      = (Inr rs, t')" "t = tick t'"
    using assms by (auto simp: rotate_batch_def tx_eq_Inr)
  from collect_codes [OF t'(1)] have c: "recovery_codes t = filter (\<lambda>r. rc_user r \<noteq> u) (recovery_codes s) @ rs"
    "map rc_code_hash rs = hs" "\<forall>r \<in> set rs. rc_user r = u \<and> rc_used_at r = None"
    by (simp_all add: t'(2))
  have "filter (\<lambda>r. rc_user r = u \<and> rc_used_at r = None) rs = rs" using c(3) by (simp add: filter_id_conv)
  then show "live_codes u t = hs" by (simp add: live_codes_def c)
  show "live_codes v t = live_codes v s" if "v \<noteq> u" for v
  proof -
    have "filter (\<lambda>r. rc_user r = v \<and> rc_used_at r = None) rs = []" using c(3) that by (auto simp: filter_empty_conv)
    moreover have "filter (\<lambda>r. rc_user r \<noteq> u \<and> rc_user r = v \<and> rc_used_at r = None) rows =
      filter (\<lambda>r. rc_user r = v \<and> rc_used_at r = None) rows" for rows :: "mfa_recovery_code list"
      using that by (intro filter_cong) auto
    ultimately show ?thesis unfolding live_codes_def c(1) filter_append filter_filter by simp
  qed
qed

lemma try_consume_run:
  assumes "\<not> db_faulty s"
  shows "\<exists>t. try_consume u h s = (Inr (h \<in> set (live_codes u s)), t)
     \<and> live_codes u t = filter (\<lambda>x. x \<noteq> h) (live_codes u s)
     \<and> (\<forall>v. v \<noteq> u \<longrightarrow> live_codes v t = live_codes v s)"
proof -
  let ?hit = "\<lambda>r. rc_user r = u \<and> rc_code_hash r = h \<and> rc_used_at r = None"
  let ?f = "\<lambda>r. r\<lparr>rc_used_at := Some (now s)\<rparr>"
  let ?live = "\<lambda>v rows. map rc_code_hash (filter (\<lambda>r. rc_user r = v \<and> rc_used_at r = None) rows)"
  let ?t = "tick (s\<lparr>recovery_codes := sql_update ?hit ?f (recovery_codes s)\<rparr>)"
  have found: "(find ?hit (recovery_codes s) \<noteq> None) = (h \<in> set (live_codes u s))"
    by (auto simp: find_None_iff_all live_codes_def)
  have own: "?live u (sql_update ?hit ?f rows) = filter (\<lambda>x. x \<noteq> h) (?live u rows)" for rows
    by (induction rows) auto
  have other: "?live v (sql_update ?hit ?f rows) = ?live v rows" if "v \<noteq> u" for v rows
    using that by (induction rows) auto
  have "try_consume u h s = (Inr (h \<in> set (live_codes u s)), ?t)"
    using assms found by (simp add: try_consume_def tx_def db_faulty_def Let_def)
  then show ?thesis by (auto simp: live_codes_def own other)
qed

text \<open>(C13) Recovery codes are one-shot: rotating the batch makes exactly the new
  hashes live and kills every earlier code of the user; a code is accepted exactly
  when its hash is live, and is dead afterwards. Other users' codes are never
  touched.\<close>

theorem recovery_codes_one_shot:
  assumes "rotate_batch u hs s = (Inr rs, t)" and "\<forall>n. \<not> pg_fault t n"
  shows "live_codes u t = hs \<and> (\<forall>v. v \<noteq> u \<longrightarrow> live_codes v t = live_codes v s)
    \<and> (\<forall>h. \<exists>t1. try_consume u h t = (Inr (h \<in> set hs), t1) \<and> live_codes u t1 = filter (\<lambda>x. x \<noteq> h) hs
         \<and> fst (try_consume u h t1) = Inr False)"
proof -
  have r: "live_codes u t = hs" "\<And>v. v \<noteq> u \<Longrightarrow> live_codes v t = live_codes v s"
    using rotate_batch_ok [OF assms(1)] by auto
  have "\<exists>t1. try_consume u h t = (Inr (h \<in> set hs), t1) \<and> live_codes u t1 = filter (\<lambda>x. x \<noteq> h) hs
         \<and> fst (try_consume u h t1) = Inr False" for h
  proof -
    obtain t1 where t1: "try_consume u h t = (Inr (h \<in> set hs), t1)" "live_codes u t1 = filter (\<lambda>x. x \<noteq> h) hs"
      using try_consume_run [of t u h] assms(2) r(1) by (auto simp: db_faulty_def)
    have "pg_fault t1 = pg_fault t" using t1(1) by (auto simp: try_consume_def tx_def Let_def split: if_splits)
    then have "\<not> db_faulty t1" using assms(2) by (simp add: db_faulty_def)
    from try_consume_run [OF this, of u h] t1(2) have "fst (try_consume u h t1) = Inr False" by auto
    with t1 show ?thesis by blast
  qed
  with r show ?thesis by blast
qed

theorem recovery_codes_one_shot_witness:
  "fst (try_consume 10 ''h2'' (snd (rotate_batch 10 [''h1'', ''h2''] (demo_db False)))) = Inr True
   \<and> fst (try_consume 10 ''h3'' (snd (rotate_batch 10 [''h1'', ''h2''] (demo_db False)))) = Inr False"
proof -
  let ?r = "rotate_batch 10 [''h1'', ''h2''] (demo_db False)"
  have "case fst ?r of Inr _ \<Rightarrow> True | Inl _ \<Rightarrow> False" by code_simp
  then obtain rs where rs: "?r = (Inr rs, snd ?r)" by (cases ?r) (auto split: sum.splits)
  have "pg_fault (snd ?r) = (\<lambda>_. False)"
    by (simp add: rotate_batch_def tx_def insert_code_def bindE_def new_id_def Let_def demo_db_def split: if_splits)
  then have "\<forall>n. \<not> pg_fault (snd ?r) n" by simp
  from recovery_codes_one_shot [OF rs this] show ?thesis
    by (auto dest: spec [of _ "''h2''"] spec [of _ "''h3''"])
qed

definition respelled :: "string \<Rightarrow> string \<Rightarrow> bool" where
  "respelled a b \<longleftrightarrow> to_ascii_lowercase (filter (\<lambda>c. \<not> is_ws c \<and> c \<noteq> CHR ''-'') a)
     = to_ascii_lowercase (filter (\<lambda>c. \<not> is_ws c \<and> c \<noteq> CHR ''-'') b)"

lemma upper_lower: "upper_char (lower_char c) = upper_char c"
proof (cases "65 \<le> (of_char c :: nat) \<and> (of_char c :: nat) \<le> 90")
  case True
  then have "(of_char (char_of (of_char c + 32 :: nat)) :: nat) = of_char c + 32" by simp
  with True show ?thesis by (simp add: upper_char_def lower_char_def Let_def)
next
  case False
  then show ?thesis by (auto simp: lower_char_def Let_def)
qed

lemma canonical_respelled:
  assumes "respelled a b"
  shows "canonical a = canonical b"
proof -
  have "map upper_char xs = map upper_char (map lower_char xs)" for xs
    by (simp add: upper_lower comp_def)
  then show ?thesis using assms unfolding canonical_def respelled_def to_ascii_lowercase_def by metis
qed

lemma generate_from_Suc:
  "generate_from draw i (Suc n) = (ALPHABET ! draw i) # (if i = 4 then [CHR ''-''] else []) @ generate_from draw (Suc i) n"
  by (simp add: CODE_LEN_def)

lemma generate_one_eq:
  "generate_one draw = map (\<lambda>i. ALPHABET ! draw i) [0..<5] @ [CHR ''-''] @ map (\<lambda>i. ALPHABET ! draw i) [5..<10]"
  by (simp add: generate_one_def CODE_LEN_def numeral_eq_Suc generate_from_Suc del: generate_from.simps(2))

text \<open>A recovery code is recognised however it is typed: a generated code has
  ten alphabet characters around one hyphen, and dropping or adding hyphens and
  blanks or changing the case of letters never changes its hash.\<close>

theorem recovery_code_typing:
  assumes "\<forall>i. draw i < 32"
  shows "length (generate_one draw) = 11 \<and> generate_one draw ! 5 = CHR ''-''
    \<and> set (generate_one draw) \<subseteq> set ALPHABET \<union> {CHR ''-''}
    \<and> (\<forall>typed. respelled typed (generate_one draw) \<longrightarrow> code_hash d typed = code_hash d (generate_one draw))"
proof -
  have "ALPHABET ! draw i \<in> set ALPHABET" for i
  proof (rule nth_mem)
    have "length ALPHABET = 32" by code_simp
    with assms show "draw i < length ALPHABET" by simp
  qed
  then have "set (generate_one draw) \<subseteq> set ALPHABET \<union> {CHR ''-''}"
    unfolding generate_one_eq by auto
  moreover have "length (generate_one draw) = 11" "generate_one draw ! 5 = CHR ''-''"
    unfolding generate_one_eq by (simp_all add: nth_append)
  ultimately show ?thesis by (auto simp: code_hash_def dest: canonical_respelled)
qed

theorem recovery_code_typing_witness:
  "code_hash (\<lambda>x. x) ''01234 56789'' = code_hash (\<lambda>x. x) (generate_one (\<lambda>i. if i < 32 then i else 0))"
proof -
  have "respelled ''01234 56789'' (generate_one (\<lambda>i. if i < 32 then i else 0))" by code_simp
  then show ?thesis using recovery_code_typing [of "\<lambda>i. if i < 32 then i else 0" "\<lambda>x. x"] by simp
qed

section \<open>OAuth request states\<close>

definition auth_inv :: "'z identity_db_scheme \<Rightarrow> bool" where
  "auth_inv s \<longleftrightarrow> distinct (map as_state (auth_states s))"

definition auth_consumed :: "string \<Rightarrow> 'z identity_db_scheme \<Rightarrow> bool" where
  "auth_consumed st s \<longleftrightarrow> (\<exists>r \<in> set (auth_states s). as_state r = st)
     \<and> (\<forall>r \<in> set (auth_states s). as_state r = st \<longrightarrow> as_consumed_at r \<noteq> None)"

lemma auth_consume_marks:
  assumes "auth_consume st s = (Inr a, t)"
  shows "auth_consumed st t" and "pg_fault t = pg_fault s"
    and "\<exists>r \<in> set (auth_states s). as_state r = st \<and> as_consumed_at r = None \<and> as_expires_at r > now t
       \<and> a = \<lparr>au_state = st, au_nonce = as_nonce r, au_code_verifier = as_code_verifier r,
               au_provider = as_provider r, au_redirect_to = as_redirect_to r, au_expires_at = as_expires_at r\<rparr>"
proof -
  let ?hit = "\<lambda>r. as_state r = st \<and> as_consumed_at r = None"
  let ?f = "\<lambda>r. r\<lparr>as_consumed_at := Some (now s)\<rparr>"
  from assms obtain r where r: "find ?hit (auth_states s) = Some r"
    and t: "t = tick (s\<lparr>auth_states := sql_update ?hit ?f (auth_states s)\<rparr>)"
    and a: "\<not> as_expires_at r \<le> now t" "a = \<lparr>au_state = as_state r, au_nonce = as_nonce r, au_code_verifier = as_code_verifier r,
               au_provider = as_provider r, au_redirect_to = as_redirect_to r, au_expires_at = as_expires_at r\<rparr>"
    by (auto simp: auth_consume_def bindE_eq_Inr tx_eq_Inr Let_def fail_def split: option.splits if_splits)
  from find_Some_iff2 [OF r] have r': "?hit r" "r \<in> set (auth_states s)" by auto
  then have "\<exists>x \<in> set (sql_update ?hit ?f (auth_states s)). as_state x = st"
    by (auto simp: bex_sql_update intro!: bexI [of _ r])
  then show "auth_consumed st t" by (auto simp: auth_consumed_def t ball_sql_update)
  show "pg_fault t = pg_fault s" by (simp add: t)
  show "\<exists>r \<in> set (auth_states s). as_state r = st \<and> as_consumed_at r = None \<and> as_expires_at r > now t
       \<and> a = \<lparr>au_state = st, au_nonce = as_nonce r, au_code_verifier = as_code_verifier r,
               au_provider = as_provider r, au_redirect_to = as_redirect_to r, au_expires_at = as_expires_at r\<rparr>"
    using r' a by (intro bexI [of _ r]) auto
qed

lemma auth_consume_replay:
  assumes "auth_consumed st s" and "\<not> db_faulty s" and "\<not> db_faulty (tick s)"
  shows "fst (auth_consume st s) = Inl AuthReplay"
proof -
  let ?hit = "\<lambda>r. as_state r = st \<and> as_consumed_at r = None"
  have none: "find ?hit (auth_states s) = None" using assms(1) by (auto simp: auth_consumed_def find_None_iff_all)
  then have same: "sql_update ?hit f (auth_states s) = auth_states s" for f
    by (intro sql_update_none) (auto simp: find_None_iff_all)
  obtain r where "find (\<lambda>r. as_state r = st) (auth_states s) = Some r" "as_consumed_at r \<noteq> None"
    using assms(1) by (cases "find (\<lambda>r. as_state r = st) (auth_states s)")
      (auto simp: auth_consumed_def find_None_iff_all dest!: find_Some_iff2)
  then show ?thesis
    using assms(2,3) none same
    by (simp add: auth_consume_def bindE_def tx_def db_faulty_def Let_def replay_or_missing_def fail_def)
qed

text \<open>An OAuth \<open>state\<close> value authenticates at most one callback: a successful
  \<open>consume\<close> returns the stored verifier of an unexpired, unconsumed request, and
  consuming the same value again is reported as a replay.\<close>

theorem auth_state_consumed_once:
  assumes "auth_consume st s = (Inr a, t)" and "\<forall>n. \<not> pg_fault s n"
  shows "(\<exists>r \<in> set (auth_states s). as_state r = st \<and> as_consumed_at r = None \<and> now t < as_expires_at r
      \<and> au_code_verifier a = as_code_verifier r \<and> au_provider a = as_provider r)
    \<and> fst (auth_consume st t) = Inl AuthReplay"
proof -
  have "\<not> db_faulty t" "\<not> db_faulty (tick t)"
    using assms(2) auth_consume_marks(2) [OF assms(1)] by (simp_all add: db_faulty_def)
  then have "fst (auth_consume st t) = Inl AuthReplay"
    using auth_consume_replay [OF auth_consume_marks(1) [OF assms(1)]] by blast
  with auth_consume_marks(3) [OF assms(1)] show ?thesis by fastforce
qed

definition demo_auth :: identity_db where
  "demo_auth = snd (auth_store ''st'' ''n'' ''ver'' ''github'' None (demo_db False))"

theorem auth_state_consumed_once_witness:
  "fst (auth_consume ''st'' (snd (auth_consume ''st'' demo_auth))) = Inl AuthReplay"
proof -
  let ?r = "auth_consume ''st'' demo_auth"
  have "case fst ?r of Inr _ \<Rightarrow> True | Inl _ \<Rightarrow> False" by code_simp
  then obtain a where a: "?r = (Inr a, snd ?r)" by (cases ?r) (auto split: sum.splits)
  have "pg_fault demo_auth = (\<lambda>_. False)" by (simp add: demo_auth_def auth_store_def tx_def demo_db_def)
  then have "\<forall>n. \<not> pg_fault demo_auth n" by simp
  from auth_state_consumed_once [OF a this] show ?thesis by simp
qed

section \<open>Ceremonies finish once\<close>

lemma finish_takes:
  assumes "finish_assertion lib pg_ceremony_store i row_id pk resp s = (Inr c, t)"
  shows "\<exists>row. cs_take pg_ceremony_store i Assertion s = (Inr (Some row), t)"
  using assms
  by (auto simp: finish_assertion_def bindE_eq_Inr of_option_def of_sum_eq_Inr ret_def split: option.splits)

lemma finish_needs_take:
  assumes "\<not> (\<exists>row u. cs_take pg_ceremony_store i Assertion s = (Inr (Some row), u))"
  shows "\<not> (\<exists>c u. finish_assertion lib pg_ceremony_store i row_id pk resp s = (Inr c, u))"
  using assms finish_takes by metis

text \<open>A WebAuthn assertion ceremony finishes at most once, only as an assertion,
  and only before it expires; a replayed finish with the same handle cannot
  succeed, whatever the browser sends.\<close>

theorem assertion_finishes_once:
  assumes "ceremony_inv s" and "finish_assertion lib pg_ceremony_store i row_id pk resp s = (Inr c, t)"
  shows "(\<exists>row. pg_held s i = Some row \<and> ce_kind row = Assertion \<and> now s < ce_expires_at row)
    \<and> \<not> (\<exists>c' u. finish_assertion lib pg_ceremony_store i row_id' pk' resp' t = (Inr c', u))"
proof -
  obtain row where take: "cs_take pg_ceremony_store i Assertion s = (Inr (Some row), t)"
    using finish_takes [OF assms(2)] by blast
  have "\<not> (\<exists>c' u. finish_assertion lib pg_ceremony_store i row_id' pk' resp' t = (Inr c', u))"
    using pgcer.take_once [OF assms(1) take] by (rule finish_needs_take)
  with pgcer.take_some [OF assms(1) take] show ?thesis by blast
qed

definition demo_lib :: "(unit, string, string, string, nat) webauthn_lib" where
  "demo_lib = \<lparr>wa_start_registration = (\<lambda>u e d x. Inr ((), e)), wa_finish_registration = (\<lambda>r st. Inr r),
     wa_start_authentication = (\<lambda>pks. Inr ((), ''st'')), wa_finish_authentication = (\<lambda>r st. if st = ''st'' then Inr 7 else Inl ''bad''),
     wa_update_credential = (\<lambda>pk n. pk), wa_counter = (\<lambda>n. n), wa_cred_id = (\<lambda>pk. pk),
     wa_ser_state = Inr, wa_de_state = Inr, wa_ser_passkey = Inr, wa_b64url = (\<lambda>x. x)\<rparr>"

definition demo_ceremony :: identity_db where
  "demo_ceremony = snd (start_assertion demo_lib pg_ceremony_store 10 [''pk''] (demo_db False))"

theorem assertion_finishes_once_witness:
  "fst (finish_assertion demo_lib pg_ceremony_store 100 5 ''pk'' ''resp'' demo_ceremony)
     = Inr \<lparr>casr_passkey_row_id = 5, casr_new_sign_counter = 7, casr_updated_credential_blob = ''pk''\<rparr>
   \<and> \<not> (\<exists>c u. finish_assertion demo_lib pg_ceremony_store 100 5 ''pk'' ''resp''
        (snd (finish_assertion demo_lib pg_ceremony_store 100 5 ''pk'' ''resp'' demo_ceremony)) = (Inr c, u))"
proof -
  let ?r = "finish_assertion demo_lib pg_ceremony_store 100 5 ''pk'' ''resp'' demo_ceremony"
  have run: "fst ?r = Inr \<lparr>casr_passkey_row_id = 5, casr_new_sign_counter = 7, casr_updated_credential_blob = ''pk''\<rparr>"
    and inv: "ceremony_inv demo_ceremony" by code_simp+
  obtain c t where "?r = (Inr c, t)" using run by (cases ?r) auto
  with assertion_finishes_once [OF inv, of demo_lib 100 5 "''pk''" "''resp''" c t] run show ?thesis by simp
qed

section \<open>Identity linking\<close>

definition oidc_inv :: "'z identity_db_scheme \<Rightarrow> bool" where
  "oidc_inv s \<longleftrightarrow> distinct (map (\<lambda>r. (oi_issuer r, oi_subject r)) (oidc_identities s))"

lemma upsert_identity_ok:
  assumes "upsert_identity p s = (Inr u, t)"
  shows "\<exists>r. find (\<lambda>r. oi_issuer r = idp_issuer p \<and> oi_subject r = idp_subject p) (oidc_identities t) = Some r \<and> oi_user r = u"
proof (cases "find (\<lambda>r. oi_issuer r = idp_issuer p \<and> oi_subject r = idp_subject p) (oidc_identities s)")
  case (Some r)
  with assms show ?thesis by (auto simp: upsert_identity_def bindE_eq_Inr getS_def ret_def)
next
  case None
  then have no: "\<not> (\<exists>r \<in> set (oidc_identities s). oi_issuer r = idp_issuer p \<and> oi_subject r = idp_subject p)"
    by (simp add: find_None_iff_all)
  from None assms obtain s2 j and x :: user_row where
    up: "upsert_user (pg_uuid s (pg_uuid_ctr s)) (idp_login_email p) p (s\<lparr>pg_uuid_ctr := Suc (pg_uuid_ctr s)\<rparr>) = (Inr (), s2)"
    and u: "u = u_id x" and link: "link_identity j (u_id x) p (s2\<lparr>pg_uuid_ctr := Suc (pg_uuid_ctr s2)\<rparr>) = (Inr (), t)"
    by (auto simp: upsert_identity_def bindE_eq_Inr getS_def ret_def fail_def new_id_def split: option.splits)

  have "oidc_identities s2 = oidc_identities s"
    using up by (auto simp: upsert_user_def Let_def split: if_splits)
  then have t: "oidc_identities t = oidc_identities s @ [\<lparr>oi_id = j, oi_user = u_id x, oi_issuer = idp_issuer p,
      oi_subject = idp_subject p, oi_email_at_link = idp_email p\<rparr>]"
    using link no by (auto simp: link_identity_def split: if_splits)
  then show ?thesis using None u by (simp add: find_append)
qed

text \<open>Signing in again is stable: once \<open>upsert_identity\<close> has mapped an external
  identity to a user, every later sign-in with that issuer and subject returns the
  same user and writes nothing, whatever profile data the provider sends.\<close>

theorem sign_in_is_stable:
  assumes "upsert_identity p s = (Inr u, t)"
    and "idp_issuer q = idp_issuer p" and "idp_subject q = idp_subject p"
  shows "upsert_identity q t = (Inr u, t)"
  using upsert_identity_ok [OF assms(1)] assms(2,3)
  by (auto simp: upsert_identity_def bindE_def getS_def ret_def)

definition demo_idp :: "string \<Rightarrow> string option \<Rightarrow> idp_user" where
  "demo_idp sub e = \<lparr>idp_subject = sub, idp_issuer = ''github'', idp_email = e, idp_display_name = ''n'', idp_avatar_url = None\<rparr>"

theorem sign_in_is_stable_witness:
  "upsert_identity (demo_idp ''42'' None) (snd (upsert_identity (demo_idp ''42'' (Some ''O@X'')) (demo_db False)))
     = (Inr 10, snd (upsert_identity (demo_idp ''42'' (Some ''O@X'')) (demo_db False)))"
proof -
  let ?r = "upsert_identity (demo_idp ''42'' (Some ''O@X'')) (demo_db False)"
  have "fst ?r = Inr 10" by code_simp
  then have "?r = (Inr 10, snd ?r)" by (metis prod.collapse)
  then show ?thesis by (rule sign_in_is_stable) (simp_all add: demo_idp_def)
qed

text \<open>A new external identity whose email equals, up to case, that of an
  existing user signs in as that user: accounts are linked by email alone.\<close>

theorem sign_in_links_by_email:
  assumes "\<forall>r \<in> set (oidc_identities s). \<not> (oi_issuer r = idp_issuer p \<and> oi_subject r = idp_subject p)"
    and "find (\<lambda>x. eq_ignore_ascii_case (u_email x) (idp_login_email p)) (users s) = Some x"
    and "upsert_identity p s = (Inr u, t)"
  shows "u = u_id x"
proof -
  let ?hit = "\<lambda>x. eq_ignore_ascii_case (u_email x) (idp_login_email p)"
  let ?f = "\<lambda>x. x\<lparr>u_display_name := idp_display_name p, u_avatar_url := idp_avatar_url p,
                     u_updated_at := now s, u_version := u_version x + 1\<rparr>"
  have none: "find (\<lambda>r. oi_issuer r = idp_issuer p \<and> oi_subject r = idp_subject p) (oidc_identities s) = None"
    using assms(1) by (simp add: find_None_iff_all)
  have ex: "\<exists>x \<in> set (users s). ?hit x" using find_Some_iff2 [OF assms(2)] by blast
  have upd: "find ?hit (sql_update ?hit ?f rows) = map_option ?f (find ?hit rows)" for rows :: "user_row list"
    by (induction rows) auto
  have "u = u_id (?f x)"
    using assms(3) none ex
    by (auto simp: upsert_identity_def bindE_eq_Inr getS_def new_id_def upsert_user_def Let_def upd assms(2)
        ret_def fail_def split: option.splits)
  then show ?thesis by simp
qed

theorem sign_in_links_by_email_witness:
  "fst (upsert_identity (demo_idp ''42'' (Some ''O@X'')) (demo_db False)) = Inr 10"
proof -
  let ?p = "demo_idp ''42'' (Some ''O@X'')"
  let ?r = "upsert_identity ?p (demo_db False)"
  have "\<forall>r \<in> set (oidc_identities (demo_db False)). \<not> (oi_issuer r = idp_issuer ?p \<and> oi_subject r = idp_subject ?p)"
    "case fst ?r of Inr _ \<Rightarrow> True | Inl _ \<Rightarrow> False"
    "find (\<lambda>x. eq_ignore_ascii_case (u_email x) (idp_login_email ?p)) (users (demo_db False)) = Some (demo_user 10 ''o@x'' True)"
    by code_simp+
  moreover from calculation(2) obtain u where "?r = (Inr u, snd ?r)" by (cases ?r) (auto split: sum.splits)
  ultimately have "u = u_id (demo_user 10 ''o@x'' True)" using sign_in_links_by_email by blast
  with \<open>?r = (Inr u, snd ?r)\<close> show ?thesis by (metis demo_user_def fst_conv user_row.select_convs(1))
qed

end
