(* ===== verification/Cluster.thy ===== *)
theory Cluster
  imports Sessions_Mfa
begin

text \<open>
  The cluster crate: cluster rows, servers and their life cycle
  (\<open>cluster/src/model.rs\<close>, \<open>repository.rs\<close>, \<open>service.rs\<close>) and the mapping of
  failure texts to categories (\<open>status.rs\<close>). The tables the workflow runner and
  the API share with it (\<open>provisioning_workflows\<close>, \<open>idempotency_keys\<close>) are part
  of the same state.
\<close>

section \<open>Tables\<close>

datatype cluster_status =
    Pending | Provisioning | Ready | Scaling | Failed | Destroying | Destroyed

record cluster_row =
  cl_id :: uuid
  cl_org :: uuid
  cl_credential_id :: uuid
  cl_name :: string
  cl_region :: string
  cl_server_type :: string
  cl_control_plane_count :: int
  cl_worker_count :: int
  cl_status :: cluster_status
  cl_status_reason :: "string option"
  cl_temporal_workflow_id :: "string option"
  cl_created_at :: timestamp
  cl_updated_at :: timestamp
  cl_deleted_at :: "timestamp option"
  cl_version :: int
  cl_kubeconfig_secret_id :: "uuid option"
  cl_agent_last_seen_at :: "timestamp option"
  cl_agent_version :: string

datatype cluster_node_role = ControlPlane | Worker

record cluster_server_row =
  cs_id :: uuid
  cs_org :: uuid
  cs_cluster :: uuid
  cs_hetzner_id :: int
  cs_role :: cluster_node_role
  cs_public_ipv4 :: "string option"
  cs_private_ipv4 :: "string option"
  cs_created_at :: timestamp
  cs_deleted_at :: "timestamp option"

record workflow_row =
  pw_id :: uuid
  pw_cluster :: uuid
  pw_org :: uuid
  pw_step :: string
  pw_error_reason :: "string option"
  pw_started_at :: timestamp
  pw_finished_at :: "timestamp option"

record idempotency_row =
  ik_org :: uuid
  ik_key :: string
  ik_request_hash :: string
  ik_status :: int
  ik_body :: string
  ik_resource_id :: "uuid option"
  ik_expires_at :: timestamp

record cluster_db = identity_db +
  clusters :: "cluster_row list"
  cluster_servers :: "cluster_server_row list"
  workflow_rows :: "workflow_row list"
  idempotency_keys :: "idempotency_row list"

lemma cluster_frame_tick [simp]:
  "clusters (tick s) = clusters s"
  "cluster_servers (tick s) = cluster_servers s"
  "workflow_rows (tick s) = workflow_rows s"
  "idempotency_keys (tick s) = idempotency_keys s"
  by (simp_all add: tick_def)

lemma cluster_frame_audit [simp]:
  "clusters (audit_log_append_explicit c g a t r d m s) = clusters s"
  "cluster_servers (audit_log_append_explicit c g a t r d m s) = cluster_servers s"
  "workflow_rows (audit_log_append_explicit c g a t r d m s) = workflow_rows s"
  "idempotency_keys (audit_log_append_explicit c g a t r d m s) = idempotency_keys s"
  by (simp_all add: audit_log_append_explicit_def Let_def)

lemma cluster_frame_trigger [simp]:
  "clusters (audit_log_append_trigger c tb v g r s) = clusters s"
  "cluster_servers (audit_log_append_trigger c tb v g r s) = cluster_servers s"
  "workflow_rows (audit_log_append_trigger c tb v g r s) = workflow_rows s"
  "idempotency_keys (audit_log_append_trigger c tb v g r s) = idempotency_keys s"
  by (simp_all add: audit_log_append_trigger_def)

lemma cluster_frame_rows [simp]:
  "clusters (audit_rows c tb v rows s) = clusters s"
  "cluster_servers (audit_rows c tb v rows s) = cluster_servers s"
  "workflow_rows (audit_rows c tb v rows s) = workflow_rows s"
  "idempotency_keys (audit_rows c tb v rows s) = idempotency_keys s"
  by (induction rows arbitrary: s) (auto simp: audit_rows_Cons)

text \<open>The secret ids other tables reference with \<open>ON DELETE RESTRICT\<close>.\<close>

definition secret_refs :: "'z cluster_db_scheme \<Rightarrow> uuid list" where
  "secret_refs s = map cr_secret_id (hetzner_credentials s)
     @ List.map_filter cl_kubeconfig_secret_id (clusters s)"

section \<open>Model\<close>

record cluster =
  c_id :: uuid
  c_org :: uuid
  c_credential_id :: uuid
  c_name :: string
  c_region :: string
  c_server_type :: string
  c_control_plane_count :: int
  c_worker_count :: int
  c_status :: cluster_status
  c_status_reason :: "string option"
  c_temporal_workflow_id :: "string option"
  c_created_at :: timestamp
  c_updated_at :: timestamp
  c_version :: int
  c_agent_last_seen_at :: "timestamp option"
  c_agent_version :: string

record new_cluster =
  nc_name :: string
  nc_region :: string
  nc_server_type :: string
  nc_control_plane_count :: int
  nc_worker_count :: int
  nc_credential_id :: uuid

record cluster_server =
  sv_id :: uuid
  sv_org :: uuid
  sv_cluster_id :: uuid
  sv_hetzner_server_id :: int
  sv_role :: cluster_node_role
  sv_public_ipv4 :: "string option"
  sv_private_ipv4 :: "string option"

definition row_to_cluster :: "cluster_row \<Rightarrow> cluster" where
  "row_to_cluster r =
     \<lparr>c_id = cl_id r, c_org = cl_org r, c_credential_id = cl_credential_id r, c_name = cl_name r,
      c_region = cl_region r, c_server_type = cl_server_type r,
      c_control_plane_count = cl_control_plane_count r, c_worker_count = cl_worker_count r,
      c_status = cl_status r, c_status_reason = cl_status_reason r,
      c_temporal_workflow_id = cl_temporal_workflow_id r, c_created_at = cl_created_at r,
      c_updated_at = cl_updated_at r, c_version = cl_version r,
      c_agent_last_seen_at = cl_agent_last_seen_at r, c_agent_version = cl_agent_version r\<rparr>"

section \<open>Repository\<close>

definition cluster_map_conflict :: "sqlx_error \<Rightarrow> platform_error" where
  "cluster_map_conflict e =
     (if e = SqlxUnique then Conflict ''a cluster with this name already exists'' else Database e)"

text \<open>\<open>set_tenant\<close>: the rows a transaction of \<open>org\<close> sees.\<close>

definition cluster_visible :: "'z cluster_db_scheme \<Rightarrow> uuid \<Rightarrow> cluster_row \<Rightarrow> bool" where
  "cluster_visible s org r \<longleftrightarrow> rls s (Some org) (cl_org r)"

definition cluster_insert ::
    "uuid \<Rightarrow> new_cluster \<Rightarrow> audit_ctx \<Rightarrow> ('z cluster_db_scheme, platform_error, cluster) op" where
  "cluster_insert org new ctx =
     bindE new_id (\<lambda>i.
     tx Database (\<lambda>s.
       let row = \<lparr>cl_id = i, cl_org = org, cl_credential_id = nc_credential_id new, cl_name = nc_name new,
                  cl_region = nc_region new, cl_server_type = nc_server_type new,
                  cl_control_plane_count = nc_control_plane_count new, cl_worker_count = nc_worker_count new,
                  cl_status = Pending, cl_status_reason = None, cl_temporal_workflow_id = None,
                  cl_created_at = now s, cl_updated_at = now s, cl_deleted_at = None, cl_version = 1,
                  cl_kubeconfig_secret_id = None, cl_agent_last_seen_at = None, cl_agent_version = []\<rparr> in
       if nc_control_plane_count new < 1 then (Inl (Invalid ''control_plane_count must be >= 1''), s)
       else if \<not> (1 \<le> nc_worker_count new \<and> nc_worker_count new \<le> 50)
       then (Inl (Invalid ''worker_count must be between 1 and 50''), s)
       else if (\<exists>r \<in> set (clusters s). cl_id r = i \<or>
                  cl_org r = org \<and> cl_name r = nc_name new \<and> cl_deleted_at r = None)
       then (Inl (cluster_map_conflict SqlxUnique), s)
       else if nc_credential_id new \<notin> cr_id ` set (hetzner_credentials s)
       then (Inl (cluster_map_conflict SqlxForeignKey), s)
       else (Inr (row_to_cluster row),
             audit_rows ctx ''clusters'' ''.created'' [(org, i)] (s\<lparr>clusters := clusters s @ [row]\<rparr>))))"

definition cluster_get :: "uuid \<Rightarrow> uuid \<Rightarrow> ('z cluster_db_scheme, platform_error, cluster) op" where
  "cluster_get org i =
     bindE (tx Database (\<lambda>s.
       (Inr (find (\<lambda>r. cluster_visible s org r \<and> cl_id r = i \<and> cl_deleted_at r = None) (clusters s)), s)))
     (\<lambda>row s. case row of
        None \<Rightarrow> (Inl (NotFound (''cluster/'' @ pg_uuid_text s i)), s)
      | Some r \<Rightarrow> (Inr (row_to_cluster r), s))"

definition cluster_list :: "uuid \<Rightarrow> ('z cluster_db_scheme, platform_error, cluster list) op" where
  "cluster_list org =
     tx Database (\<lambda>s.
       (Inr (map row_to_cluster (order_desc cl_created_at
          (filter (\<lambda>r. cluster_visible s org r \<and> cl_deleted_at r = None) (clusters s)))), s))"

text \<open>An \<open>UPDATE clusters\<close>: the \<open>set_updated_at\<close> trigger bumps \<open>updated_at\<close> and
  \<open>version\<close>, the audit trigger appends one entry per row.\<close>

definition update_clusters ::
    "audit_ctx \<Rightarrow> (cluster_row \<Rightarrow> bool) \<Rightarrow> (cluster_row \<Rightarrow> cluster_row)
      \<Rightarrow> ('z cluster_db_scheme, platform_error, nat) op" where
  "update_clusters ctx hit f s =
     (Inr (sql_count hit (clusters s)),
      audit_rows ctx ''clusters'' ''.updated'' (map (\<lambda>r. (cl_org r, cl_id r)) (filter hit (clusters s)))
        (s\<lparr>clusters := sql_update hit
             (\<lambda>r. (f r)\<lparr>cl_updated_at := now s, cl_version := cl_version r + 1\<rparr>) (clusters s)\<rparr>))"

definition cluster_not_found :: "uuid \<Rightarrow> ('z cluster_db_scheme, platform_error, 'a) op" where
  "cluster_not_found i s = (Inl (NotFound (''cluster/'' @ pg_uuid_text s i)), s)"

definition set_kubeconfig_secret ::
    "uuid \<Rightarrow> uuid \<Rightarrow> uuid \<Rightarrow> audit_ctx \<Rightarrow> ('z cluster_db_scheme, platform_error, unit) op" where
  "set_kubeconfig_secret org i sid ctx =
     bindE (tx Database (\<lambda>s.
       let hit = \<lambda>r. cluster_visible s org r \<and> cl_id r = i \<and> cl_deleted_at r = None
                   \<and> (cl_kubeconfig_secret_id r = None \<or> cl_kubeconfig_secret_id r = Some sid) in
       if (\<exists>r \<in> set (clusters s). hit r) \<and> sid \<notin> sec_id ` set (secrets s)
       then (Inl (Database SqlxForeignKey), s)
       else update_clusters ctx hit (\<lambda>r. r\<lparr>cl_kubeconfig_secret_id := Some sid\<rparr>) s)) (\<lambda>affected.
     if affected = 0 then fail (Conflict ''kubeconfig already set to a different secret'') else ret ())"

definition kubeconfig_secret ::
    "uuid \<Rightarrow> uuid \<Rightarrow> ('z cluster_db_scheme, platform_error, uuid option) op" where
  "kubeconfig_secret org i =
     bindE (tx Database (\<lambda>s.
       (Inr (find (\<lambda>r. cluster_visible s org r \<and> cl_id r = i \<and> cl_deleted_at r = None) (clusters s)), s)))
     (\<lambda>row. case row of
        Some r \<Rightarrow> ret (cl_kubeconfig_secret_id r)
      | None \<Rightarrow> cluster_not_found i)"

definition update_status ::
    "uuid \<Rightarrow> uuid \<Rightarrow> cluster_status \<Rightarrow> string option \<Rightarrow> audit_ctx
      \<Rightarrow> ('z cluster_db_scheme, platform_error, unit) op" where
  "update_status org i st reason ctx =
     bindE (tx Database (\<lambda>s.
       update_clusters ctx (\<lambda>r. cluster_visible s org r \<and> cl_id r = i)
         (\<lambda>r. r\<lparr>cl_status := st, cl_status_reason := reason\<rparr>) s)) (\<lambda>affected.
     if affected = 0 then cluster_not_found i else ret ())"

definition update_worker_count ::
    "uuid \<Rightarrow> uuid \<Rightarrow> int \<Rightarrow> audit_ctx \<Rightarrow> ('z cluster_db_scheme, platform_error, unit) op" where
  "update_worker_count org i n ctx =
     bindE (tx Database (\<lambda>s.
       let hit = \<lambda>r. cluster_visible s org r \<and> cl_id r = i in
       if (\<exists>r \<in> set (clusters s). hit r) \<and> \<not> (1 \<le> n \<and> n \<le> 50) then (Inl (Database SqlxCheck), s)
       else update_clusters ctx hit (\<lambda>r. r\<lparr>cl_worker_count := n\<rparr>) s)) (\<lambda>affected.
     if affected = 0 then cluster_not_found i else ret ())"

text \<open>
  \<open>SELECT touch_cluster_agent_heartbeat($1, $2)\<close>: the function runs with the
  rights of its owner and returns the organization, or NULL when no live row
  matched. A scalar function called in a \<open>SELECT\<close> yields one row in both cases;
  the row decoder asks for a non-null UUID. No audit variables are set.
\<close>

definition no_audit :: audit_ctx where
  "no_audit = \<lparr>actor_user_id = None, request_id = None, ip = None, user_agent = None\<rparr>"

definition touch_agent_heartbeat ::
    "uuid \<Rightarrow> string \<Rightarrow> ('z cluster_db_scheme, platform_error, uuid option) op" where
  "touch_agent_heartbeat i version =
     bindE (tx Database (\<lambda>s.
       let hit = \<lambda>r. cl_id r = i \<and> cl_deleted_at r = None in
       (Inr (map_option cl_org (find hit (clusters s))),
        snd (update_clusters no_audit hit
          (\<lambda>r. r\<lparr>cl_agent_last_seen_at := Some (now s), cl_agent_version := version\<rparr>) s)))) (\<lambda>org.
     case org of
       Some v \<Rightarrow> ret (Some v)
     | None \<Rightarrow> fail (Database (SqlxOther ''error occurred while decoding column 0: unexpected null'')))"

definition cluster_soft_delete ::
    "uuid \<Rightarrow> uuid \<Rightarrow> audit_ctx \<Rightarrow> ('z cluster_db_scheme, platform_error, unit) op" where
  "cluster_soft_delete org i ctx =
     bindE (tx Database (\<lambda>s.
       update_clusters ctx (\<lambda>r. cluster_visible s org r \<and> cl_id r = i \<and> cl_deleted_at r = None)
         (\<lambda>r. r\<lparr>cl_deleted_at := Some (now s)\<rparr>) s)) (\<lambda>_. ret ())"

definition record_server ::
    "uuid \<Rightarrow> uuid \<Rightarrow> int \<Rightarrow> cluster_node_role \<Rightarrow> string option \<Rightarrow> string option \<Rightarrow> audit_ctx
      \<Rightarrow> ('z cluster_db_scheme, platform_error, unit) op" where
  "record_server org i hid role pub priv ctx =
     bindE new_id (\<lambda>sid.
     tx Database (\<lambda>s.
       if (\<exists>r \<in> set (cluster_servers s). cs_hetzner_id r = hid \<and> cs_deleted_at r = None) then (Inr (), s)
       else if sid \<in> cs_id ` set (cluster_servers s) then (Inl (Database SqlxUnique), s)
       else if i \<notin> cl_id ` set (clusters s) then (Inl (Database SqlxForeignKey), s)
       else (Inr (), s\<lparr>cluster_servers := cluster_servers s @
              [\<lparr>cs_id = sid, cs_org = org, cs_cluster = i, cs_hetzner_id = hid, cs_role = role,
                cs_public_ipv4 = pub, cs_private_ipv4 = priv, cs_created_at = now s,
                cs_deleted_at = None\<rparr>]\<rparr>)))"

text \<open>The text form of an \<open>inet\<close> value carries its netmask.\<close>

definition inet_text :: "string \<Rightarrow> string" where
  "inet_text a = (if CHR ''/'' \<in> set a then a else a @ ''/32'')"

definition role_rank :: "cluster_node_role \<Rightarrow> nat" where
  "role_rank r = (case r of ControlPlane \<Rightarrow> 0 | Worker \<Rightarrow> 1)"

definition row_to_server :: "cluster_server_row \<Rightarrow> cluster_server" where
  "row_to_server r =
     \<lparr>sv_id = cs_id r, sv_org = cs_org r, sv_cluster_id = cs_cluster r,
      sv_hetzner_server_id = cs_hetzner_id r, sv_role = cs_role r,
      sv_public_ipv4 = map_option inet_text (cs_public_ipv4 r),
      sv_private_ipv4 = map_option inet_text (cs_private_ipv4 r)\<rparr>"

definition list_servers ::
    "uuid \<Rightarrow> uuid \<Rightarrow> ('z cluster_db_scheme, platform_error, cluster_server list) op" where
  "list_servers org i =
     tx Database (\<lambda>s.
       (Inr (map row_to_server (sort_key (\<lambda>r. (role_rank (cs_role r), cs_created_at r))
          (filter (\<lambda>r. rls s (Some org) (cs_org r) \<and> cs_cluster r = i \<and> cs_deleted_at r = None)
             (cluster_servers s)))), s))"

definition soft_delete_servers ::
    "uuid \<Rightarrow> uuid \<Rightarrow> audit_ctx \<Rightarrow> ('z cluster_db_scheme, platform_error, unit) op" where
  "soft_delete_servers org i ctx =
     tx Database (\<lambda>s.
       (Inr (), s\<lparr>cluster_servers :=
          sql_update (\<lambda>r. rls s (Some org) (cs_org r) \<and> cs_cluster r = i \<and> cs_deleted_at r = None)
            (\<lambda>r. r\<lparr>cs_deleted_at := Some (now s)\<rparr>) (cluster_servers s)\<rparr>))"

section \<open>Service\<close>

definition ALLOWED_REGIONS :: "string list" where
  "ALLOWED_REGIONS = [''nbg1'', ''fsn1'', ''hel1'', ''ash'', ''hil'']"

definition ALLOWED_SERVER_TYPES :: "string list" where
  "ALLOWED_SERVER_TYPES = [''cpx11'', ''cpx21'', ''cpx31'', ''cpx41'', ''ccx13'', ''ccx23'']"

definition quoted :: "string \<Rightarrow> string" where
  "quoted x = [CHR 0x27] @ x @ [CHR 0x27]"

text \<open>The dash of the multi-control-plane message is the only non-ASCII
  character of the crate's texts; it is written as a hyphen.\<close>

definition validate_allowed :: "new_cluster \<Rightarrow> platform_error + unit" where
  "validate_allowed n =
     (if trim (nc_name n) = [] then Inl (Invalid ''name must not be empty'')
      else if nc_region n \<notin> set ALLOWED_REGIONS
      then Inl (Invalid (''region '' @ quoted (nc_region n) @ '' is not on the allowlist''))
      else if nc_server_type n \<notin> set ALLOWED_SERVER_TYPES
      then Inl (Invalid (''server_type '' @ quoted (nc_server_type n) @ '' is not on the allowlist''))
      else if nc_control_plane_count n \<noteq> 1
      then Inl (Invalid (''control_plane_count must be 1 - HA control-plane delivery ''
        @ ''is deferred to Phase 4+ (see ADR-0012). Revisit triggers: ''
        @ ''a data-residency customer that requires multi-region, or ''
        @ ''Hetzner shipping a managed etcd / Cluster API offering.''))
      else if \<not> (1 \<le> nc_worker_count n \<and> nc_worker_count n \<le> 10)
      then Inl (Invalid ''worker_count must be between 1 and 10'')
      else Inr ())"

definition cluster_create ::
    "uuid \<Rightarrow> new_cluster \<Rightarrow> audit_ctx \<Rightarrow> ('z cluster_db_scheme, platform_error, cluster) op" where
  "cluster_create org new ctx =
     bindE (of_sum id (validate_allowed new)) (\<lambda>_. cluster_insert org new ctx)"

definition service_get :: "uuid \<Rightarrow> uuid \<Rightarrow> ('z cluster_db_scheme, platform_error, cluster) op" where
  "service_get org i = cluster_get org i"

definition service_list :: "uuid \<Rightarrow> ('z cluster_db_scheme, platform_error, cluster list) op" where
  "service_list org = cluster_list org"

definition store_kubeconfig ::
    "'z cluster_db_scheme secret_ops \<Rightarrow> uuid \<Rightarrow> uuid \<Rightarrow> string \<Rightarrow> audit_ctx
      \<Rightarrow> ('z cluster_db_scheme, platform_error, unit) op" where
  "store_kubeconfig store org i kubeconfig ctx =
     bindE (map_err Secret (ss_put store org kubeconfig)) (\<lambda>sref.
     catchE (set_kubeconfig_secret org i (sr_id sref) ctx)
       (\<lambda>err. bindE (ignoreE (ss_delete store sref)) (\<lambda>_. fail err))
       ret)"

definition fetch_kubeconfig ::
    "'z cluster_db_scheme secret_ops \<Rightarrow> uuid \<Rightarrow> uuid \<Rightarrow> ('z cluster_db_scheme, platform_error, string) op" where
  "fetch_kubeconfig store org i =
     bindE (kubeconfig_secret org i) (\<lambda>found.
     case found of
       None \<Rightarrow> (\<lambda>s. (Inl (NotFound (''kubeconfig for cluster/'' @ pg_uuid_text s i @ '' not yet available'')), s))
     | Some sid \<Rightarrow> map_err Secret (ss_get store \<lparr>sr_id = sid, sr_org = org\<rparr>))"

definition begin_destroy ::
    "uuid \<Rightarrow> uuid \<Rightarrow> audit_ctx \<Rightarrow> ('z cluster_db_scheme, platform_error, cluster) op" where
  "begin_destroy org i ctx =
     bindE (cluster_get org i) (\<lambda>c.
     if c_status c = Destroyed then fail (Conflict ''cluster is already destroyed'')
     else bindE (update_status org i Destroying None ctx) (\<lambda>_. ret c))"

definition finalize_destroy ::
    "'z cluster_db_scheme secret_ops \<Rightarrow> uuid \<Rightarrow> uuid \<Rightarrow> audit_ctx
      \<Rightarrow> ('z cluster_db_scheme, platform_error, unit) op" where
  "finalize_destroy store org i ctx =
     bindE (kubeconfig_secret org i) (\<lambda>found.
     bindE (case found of
              Some sid \<Rightarrow> ignoreE (ss_delete store \<lparr>sr_id = sid, sr_org = org\<rparr>)
            | None \<Rightarrow> ret ()) (\<lambda>_.
     bindE (cluster_soft_delete org i ctx) (\<lambda>_.
     bindE (update_status org i Destroyed None ctx) (\<lambda>_. ret ()))))"

definition mark_destroy_failed ::
    "uuid \<Rightarrow> uuid \<Rightarrow> string \<Rightarrow> audit_ctx \<Rightarrow> ('z cluster_db_scheme, platform_error, unit) op" where
  "mark_destroy_failed org i reason ctx = update_status org i Failed (Some reason) ctx"

section \<open>Failure categories\<close>

datatype error_category =
    ProviderError | NetworkError | BootTimeout | InstallationError | UnknownError

definition error_category_str :: "error_category \<Rightarrow> string" where
  "error_category_str c =
     (case c of
        ProviderError \<Rightarrow> ''provider_error'' | NetworkError \<Rightarrow> ''network_error''
      | BootTimeout \<Rightarrow> ''boot_timeout'' | InstallationError \<Rightarrow> ''installation_error''
      | UnknownError \<Rightarrow> ''unknown'')"

definition contains_any :: "string \<Rightarrow> string list \<Rightarrow> bool" where
  "contains_any t ps \<longleftrightarrow> (\<exists>p \<in> set ps. contains_str t p)"

definition error_category_of :: "cluster_status \<Rightarrow> string option \<Rightarrow> error_category option" where
  "error_category_of st reason =
     (if st \<noteq> Failed then None
      else
        let r = to_ascii_lowercase (case reason of None \<Rightarrow> [] | Some x \<Rightarrow> x) in
        if starts_with r ''hetzner:''
        then if contains_any r [''401'', ''403'', ''quota'', ''forbidden''] then Some ProviderError
             else if contains_any r [''429'', ''502'', ''503'', ''504'', ''transport'', ''timeout'']
             then Some NetworkError
             else Some ProviderError
        else if starts_with r ''ssh:'' then Some InstallationError
        else if contains_str r ''cloud-init'' \<or> contains_str r ''cloudinittimeout'' then Some BootTimeout
        else Some UnknownError)"

section \<open>Well-formed tables\<close>

definition cluster_inv :: "'z cluster_db_scheme \<Rightarrow> bool" where
  "cluster_inv s \<longleftrightarrow>
     distinct (map cl_id (clusters s))
   \<and> distinct (map (\<lambda>r. (cl_org r, cl_name r)) (filter (\<lambda>r. cl_deleted_at r = None) (clusters s)))
   \<and> (\<forall>r \<in> set (clusters s). 1 \<le> cl_control_plane_count r \<and> 1 \<le> cl_worker_count r \<and> cl_worker_count r \<le> 50)
   \<and> distinct (map cs_id (cluster_servers s))
   \<and> distinct (map cs_hetzner_id (filter (\<lambda>r. cs_deleted_at r = None) (cluster_servers s)))
   \<and> cs_cluster ` set (cluster_servers s) \<subseteq> cl_id ` set (clusters s)"

lemma cluster_inv_cong:
  "clusters t = clusters s \<Longrightarrow> cluster_servers t = cluster_servers s \<Longrightarrow> cluster_inv t = cluster_inv s"
  by (simp add: cluster_inv_def)

lemma cluster_inv_simps [simp]:
  "cluster_inv (tick s) = cluster_inv s" "cluster_inv (s\<lparr>pg_uuid_ctr := n\<rparr>) = cluster_inv s"
  "cluster_inv (audit_rows c tb v rows s) = cluster_inv s"
  by (rule cluster_inv_cong; simp)+

lemma update_clusters_state:
  "snd (update_clusters ctx hit f s) =
     audit_rows ctx ''clusters'' ''.updated'' (map (\<lambda>r. (cl_org r, cl_id r)) (filter hit (clusters s)))
        (s\<lparr>clusters := sql_update hit (\<lambda>r. (f r)\<lparr>cl_updated_at := now s, cl_version := cl_version r + 1\<rparr>) (clusters s)\<rparr>)"
  by (simp add: update_clusters_def)

lemma clusters_update_clusters [simp]:
  "clusters (snd (update_clusters ctx hit f s)) =
     sql_update hit (\<lambda>r. (f r)\<lparr>cl_updated_at := now s, cl_version := cl_version r + 1\<rparr>) (clusters s)"
  by (simp add: update_clusters_state)

lemma fst_update_clusters [simp]: "fst (update_clusters ctx hit f s) = Inr (sql_count hit (clusters s))"
  by (simp add: update_clusters_def)

lemma update_clusters_eq:
  "update_clusters ctx hit f s = (Inr n, t) \<longleftrightarrow> n = sql_count hit (clusters s) \<and> t = snd (update_clusters ctx hit f s)"
  by (auto simp: update_clusters_def)

lemma update_clusters_not_Inl [simp]: "update_clusters ctx hit f s \<noteq> (Inl e, t)"
  by (simp add: update_clusters_def)

lemma update_clusters_frame [simp]:
  "secrets (snd (update_clusters ctx hit f s)) = secrets s"
  "vault (snd (update_clusters ctx hit f s)) = vault s"
  "hetzner_credentials (snd (update_clusters ctx hit f s)) = hetzner_credentials s"
  "cluster_servers (snd (update_clusters ctx hit f s)) = cluster_servers s"
  "workflow_rows (snd (update_clusters ctx hit f s)) = workflow_rows s"
  "idempotency_keys (snd (update_clusters ctx hit f s)) = idempotency_keys s"
  "memberships (snd (update_clusters ctx hit f s)) = memberships s"
  "pg_bypass (snd (update_clusters ctx hit f s)) = pg_bypass s"
  "pg_fault (snd (update_clusters ctx hit f s)) = pg_fault s"
  "pg_calls (snd (update_clusters ctx hit f s)) = pg_calls s"
  "pg_uuid_text (snd (update_clusters ctx hit f s)) = pg_uuid_text s"
  by (simp_all add: update_clusters_state)

text \<open>An update that keeps identity, owner and name, never revives a row and
  stays within the column checks.\<close>

definition tame :: "(cluster_row \<Rightarrow> cluster_row) \<Rightarrow> bool" where
  "tame f \<longleftrightarrow> (\<forall>r. cl_id (f r) = cl_id r \<and> cl_org (f r) = cl_org r \<and> cl_name (f r) = cl_name r
     \<and> cl_control_plane_count (f r) = cl_control_plane_count r
     \<and> (cl_deleted_at (f r) = None \<longrightarrow> cl_deleted_at r = None)
     \<and> (cl_worker_count (f r) = cl_worker_count r \<or> 1 \<le> cl_worker_count (f r) \<and> cl_worker_count (f r) \<le> 50))"

lemma update_clusters_inv:
  assumes "cluster_inv s" and "tame f"
  shows "cluster_inv (snd (update_clusters ctx hit f s))"
proof -
  let ?g = "\<lambda>r. (f r)\<lparr>cl_updated_at := now s, cl_version := cl_version r + 1\<rparr>"
  let ?rows = "sql_update hit ?g (clusters s)"
  have ids: "map cl_id ?rows = map cl_id (clusters s)"
    using assms(2) by (intro map_sql_update_same) (simp add: tame_def)
  have "distinct (map (\<lambda>r. (cl_org r, cl_name r)) (filter (\<lambda>r. cl_deleted_at r = None) ?rows))"
    using assms by (intro distinct_filter_update) (auto simp: cluster_inv_def tame_def)
  moreover have "\<forall>r \<in> set ?rows. 1 \<le> cl_control_plane_count r \<and> 1 \<le> cl_worker_count r \<and> cl_worker_count r \<le> 50"
  proof -
    have "1 \<le> cl_control_plane_count (f r) \<and> 1 \<le> cl_worker_count (f r) \<and> cl_worker_count (f r) \<le> 50"
      if "r \<in> set (clusters s)" for r
      using that assms by (auto simp: cluster_inv_def tame_def dest!: spec [of _ r])
    then show ?thesis using assms(1) by (auto simp: ball_sql_update cluster_inv_def)
  qed
  moreover have "cl_id ` set ?rows = cl_id ` set (clusters s)" using ids by (metis list.set_map)
  ultimately show ?thesis using assms(1) ids by (simp add: cluster_inv_def)
qed

lemma keeps_update_clusters:
  assumes "\<And>s. tame (f s)"
  shows "keeps cluster_inv (tx Database (\<lambda>s. update_clusters ctx (hit s) (f s) s))"
  by (rule keeps_tx) (auto simp: update_clusters_eq intro!: update_clusters_inv assms)

lemma keeps_not_found [keeps_intros]: "keeps P (cluster_not_found i)"
  by (simp add: keeps_def cluster_not_found_def)

lemma update_status_inv: "keeps cluster_inv (update_status org i st reason ctx)"
  unfolding update_status_def
  by (intro keeps_intros keeps_update_clusters) (simp add: tame_def)

lemma cluster_soft_delete_inv: "keeps cluster_inv (cluster_soft_delete org i ctx)"
  unfolding cluster_soft_delete_def
  by (intro keeps_intros keeps_update_clusters) (simp add: tame_def)

lemma set_kubeconfig_secret_inv: "keeps cluster_inv (set_kubeconfig_secret org i sid ctx)"
  unfolding set_kubeconfig_secret_def Let_def
  by (intro keeps_intros keeps_tx)
    (auto simp: update_clusters_eq tame_def split: if_splits intro!: update_clusters_inv)

lemma worker_count_update_inv:
  assumes "cluster_inv s" and "(\<exists>r \<in> set (clusters s). hit r) \<Longrightarrow> 1 \<le> n \<and> n \<le> 50"
  shows "cluster_inv (snd (update_clusters ctx hit (\<lambda>r. r\<lparr>cl_worker_count := n\<rparr>) s))"
proof (cases "\<exists>r \<in> set (clusters s). hit r")
  case True
  with assms show ?thesis by (intro update_clusters_inv) (auto simp: tame_def)
next
  case False
  then have "clusters (snd (update_clusters ctx hit (\<lambda>r. r\<lparr>cl_worker_count := n\<rparr>) s)) = clusters s"
    by (auto simp: sql_update_none)
  from cluster_inv_cong [OF this] assms(1) show ?thesis by simp
qed

lemma update_worker_count_inv: "keeps cluster_inv (update_worker_count org i n ctx)"
  unfolding update_worker_count_def Let_def
proof (intro keeps_intros keeps_tx)
  fix s :: "'a cluster_db_scheme" and a s'
  let ?hit = "\<lambda>r. cluster_visible s org r \<and> cl_id r = i"
  assume inv: "cluster_inv s" and run: "(if (\<exists>r \<in> set (clusters s). ?hit r) \<and> \<not> (1 \<le> n \<and> n \<le> 50) then (Inl (Database SqlxCheck), s)
       else update_clusters ctx ?hit (\<lambda>r. r\<lparr>cl_worker_count := n\<rparr>) s) = (Inr a, s')"
  have ok: "(\<exists>r \<in> set (clusters s). ?hit r) \<Longrightarrow> 1 \<le> n \<and> n \<le> 50"
    using run by (metis (no_types, lifting) Inl_Inr_False prod.inject)
  then have "update_clusters ctx ?hit (\<lambda>r. r\<lparr>cl_worker_count := n\<rparr>) s = (Inr a, s')"
    using run by (metis (no_types, lifting))
  then show "cluster_inv s'"
    using worker_count_update_inv [OF inv ok] unfolding update_clusters_eq by blast
qed simp

lemma touch_agent_heartbeat_inv: "keeps cluster_inv (touch_agent_heartbeat i v)"
  unfolding touch_agent_heartbeat_def Let_def
  by (intro keeps_intros keeps_tx)
    (auto simp: tame_def split: option.split intro!: update_clusters_inv keeps_intros)

lemma cluster_insert_inv: "keeps cluster_inv (cluster_insert org new ctx)"
  unfolding cluster_insert_def
  by (intro keeps_intros keeps_tx)
    (auto simp: Let_def cluster_inv_def split: if_splits)

lemma cluster_inv_add_server:
  assumes "cluster_inv s" and "\<not> (\<exists>r \<in> set (cluster_servers s). cs_hetzner_id r = cs_hetzner_id x \<and> cs_deleted_at r = None)"
    and "cs_id x \<notin> cs_id ` set (cluster_servers s)" and "cs_cluster x \<in> cl_id ` set (clusters s)"
  shows "cluster_inv (s\<lparr>cluster_servers := cluster_servers s @ [x]\<rparr>)"
proof -
  have "cs_hetzner_id x \<notin> cs_hetzner_id ` set (filter (\<lambda>r. cs_deleted_at r = None) (cluster_servers s))"
    using assms(2) by (auto simp: image_iff)
  with assms show ?thesis by (simp add: cluster_inv_def)
qed

lemma record_server_inv: "keeps cluster_inv (record_server org i hid role pub priv ctx)"
  unfolding record_server_def
  by (intro keeps_intros keeps_tx)
    (auto split: if_splits intro!: cluster_inv_add_server)

lemma soft_delete_servers_inv: "keeps cluster_inv (soft_delete_servers org i ctx)"
proof -
  have "cluster_inv (s\<lparr>cluster_servers := sql_update h (\<lambda>r. r\<lparr>cs_deleted_at := Some (now s)\<rparr>) (cluster_servers s)\<rparr>)"
    if "cluster_inv s" for s :: "'a cluster_db_scheme" and h
  proof -
    let ?f = "\<lambda>r. r\<lparr>cs_deleted_at := Some (now s)\<rparr>"
    have "map cs_cluster (sql_update h ?f (cluster_servers s)) = map cs_cluster (cluster_servers s)"
      by (rule map_sql_update_same) simp
    then have "cs_cluster ` set (sql_update h ?f (cluster_servers s)) = cs_cluster ` set (cluster_servers s)"
      by (metis list.set_map)
    moreover have "distinct (map cs_hetzner_id (filter (\<lambda>r. cs_deleted_at r = None) (sql_update h ?f (cluster_servers s))))"
      using that by (intro distinct_filter_update) (auto simp: cluster_inv_def)
    ultimately show ?thesis using that by (simp add: cluster_inv_def map_sql_update_same)
  qed
  then show ?thesis unfolding soft_delete_servers_def by (intro keeps_tx) auto
qed

section \<open>Tenant isolation\<close>

definition cluster_view :: "uuid \<Rightarrow> 'z cluster_db_scheme \<Rightarrow> _" where
  "cluster_view org s =
     (identity_view org s, filter (\<lambda>r. cl_org r = org) (clusters s), filter (\<lambda>r. cs_org r = org) (cluster_servers s))"

definition cluster_others :: "uuid \<Rightarrow> _ \<Rightarrow> 'z cluster_db_scheme \<Rightarrow> bool" where
  "cluster_others org v s \<longleftrightarrow> \<not> pg_bypass s \<and> cluster_view org s = v"

lemma cluster_others_iff:
  "cluster_others org (v, cs, ss) s \<longleftrightarrow> others_view org v s
     \<and> (filter (\<lambda>r. cl_org r = org) (clusters s) = cs \<and> filter (\<lambda>r. cs_org r = org) (cluster_servers s) = ss)"
  by (auto simp: cluster_others_def cluster_view_def others_view_def)

lemma cluster_others_simps [simp]:
  "cluster_others org v (tick s) = cluster_others org v s"
  "cluster_others org v (s\<lparr>pg_uuid_ctr := n\<rparr>) = cluster_others org v s"
  "cluster_others org v (audit_rows c tb vb rows s) = cluster_others org v s"
  "cluster_others org v (audit_log_append_trigger c tb vb o1 i s) = cluster_others org v s"
  by (cases v; simp add: cluster_others_iff)+

lemma cluster_others_role: "cluster_others org v s \<Longrightarrow> \<not> pg_bypass s"
  by (simp add: cluster_others_def)

lemma cluster_others_rows:
  assumes "cluster_others org v s" and "\<And>r. hit r \<Longrightarrow> cl_org r \<noteq> org" and "\<And>r. cl_org (f r) = cl_org r"
  shows "cluster_others org v (snd (update_clusters ctx hit f s))"
proof -
  let ?g = "\<lambda>r. (f r)\<lparr>cl_updated_at := now s, cl_version := cl_version r + 1\<rparr>"
  have "filter (\<lambda>r. cl_org r = org) (sql_update hit ?g (clusters s)) = filter (\<lambda>r. cl_org r = org) (clusters s)"
    using assms(2,3) by (intro filter_update_tenant) auto
  then show ?thesis
    using assms(1) unfolding update_clusters_state
    by (simp add: cluster_others_def cluster_view_def identity_view_def)
qed

lemma keeps_update_other:
  assumes "o' \<noteq> org" and "\<And>s r. cl_org (f s r) = cl_org r"
    and "\<And>s r. \<not> pg_bypass s \<Longrightarrow> hit s r \<Longrightarrow> cl_org r = o'"
  shows "keeps (cluster_others org v) (tx Database (\<lambda>s. update_clusters ctx (hit s) (f s) s))"
proof (rule keeps_tx)
  fix s a s'
  assume s: "cluster_others org v s" and "update_clusters ctx (hit s) (f s) s = (Inr a, s')"
  then have "s' = snd (update_clusters ctx (hit s) (f s) s)" by (simp add: update_clusters_eq)
  moreover have "cluster_others org v (snd (update_clusters ctx (hit s) (f s) s))"
    using s assms by (intro cluster_others_rows) (auto dest: cluster_others_role)
  ultimately show "cluster_others org v s'" by simp
qed simp

lemma update_status_other: "o' \<noteq> org \<Longrightarrow> keeps (cluster_others org v) (update_status o' i st r ctx)"
  unfolding update_status_def
  by (intro keeps_intros keeps_update_other) (auto simp: cluster_visible_def rls_app_role)

lemma cluster_soft_delete_other: "o' \<noteq> org \<Longrightarrow> keeps (cluster_others org v) (cluster_soft_delete o' i ctx)"
  unfolding cluster_soft_delete_def
  by (intro keeps_intros keeps_update_other) (auto simp: cluster_visible_def rls_app_role)

lemma keeps_tx_guard:
  assumes "keeps P (tx e n)" and "\<And>s. P s \<Longrightarrow> P (tick s)"
  shows "keeps P (tx e (\<lambda>s. if g s then (Inl (x s), s) else n s))"
proof (rule keepsI)
  fix s assume s: "P s"
  show "P (snd (tx e (\<lambda>s. if g s then (Inl (x s), s) else n s) s))"
    using keepsD [OF assms(1) s] assms(2) [OF s] by (simp add: tx_def split: if_splits)
qed

lemma update_worker_count_other: "o' \<noteq> org \<Longrightarrow> keeps (cluster_others org v) (update_worker_count o' i n ctx)"
  unfolding update_worker_count_def Let_def
  by (intro keeps_intros keeps_tx_guard keeps_update_other) (auto simp: cluster_visible_def rls_app_role)

lemma set_kubeconfig_secret_other:
  "o' \<noteq> org \<Longrightarrow> keeps (cluster_others org v) (set_kubeconfig_secret o' i sid ctx)"
  unfolding set_kubeconfig_secret_def Let_def
  by (intro keeps_intros keeps_tx_guard keeps_update_other) (auto simp: cluster_visible_def rls_app_role)

lemma cluster_insert_other: "o' \<noteq> org \<Longrightarrow> keeps (cluster_others org v) (cluster_insert o' new ctx)"
  unfolding cluster_insert_def
  by (intro keeps_intros keeps_tx)
    (auto simp: Let_def cluster_others_def cluster_view_def identity_view_def split: if_splits)

lemma cluster_create_other: "o' \<noteq> org \<Longrightarrow> keeps (cluster_others org v) (cluster_create o' new ctx)"
  unfolding cluster_create_def
  by (intro keeps_intros cluster_insert_other) (simp_all add: keeps_def of_sum_def split: sum.split)

lemma record_server_other: "o' \<noteq> org \<Longrightarrow> keeps (cluster_others org v) (record_server o' i h r p q ctx)"
  unfolding record_server_def
  by (intro keeps_intros keeps_tx)
    (auto simp: cluster_others_def cluster_view_def identity_view_def split: if_splits)

lemma soft_delete_servers_other: "o' \<noteq> org \<Longrightarrow> keeps (cluster_others org v) (soft_delete_servers o' i ctx)"
proof -
  assume "o' \<noteq> org"
  have "cluster_others org v (s\<lparr>cluster_servers := sql_update (\<lambda>r. rls s (Some o') (cs_org r) \<and> cs_cluster r = i \<and> cs_deleted_at r = None)
            (\<lambda>r. r\<lparr>cs_deleted_at := Some (now s)\<rparr>) (cluster_servers s)\<rparr>)" if "cluster_others org v s" for s :: "'a cluster_db_scheme"
  proof -
    have "filter (\<lambda>r. cs_org r = org) (sql_update (\<lambda>r. rls s (Some o') (cs_org r) \<and> cs_cluster r = i \<and> cs_deleted_at r = None)
        (\<lambda>r. r\<lparr>cs_deleted_at := Some (now s)\<rparr>) (cluster_servers s)) = filter (\<lambda>r. cs_org r = org) (cluster_servers s)"
      using \<open>o' \<noteq> org\<close> cluster_others_role [OF that] by (intro filter_update_tenant) (auto simp: rls_app_role)
    with that show ?thesis by (simp add: cluster_others_def cluster_view_def identity_view_def)
  qed
  then show ?thesis unfolding soft_delete_servers_def by (intro keeps_tx) auto
qed

lemma cluster_get_other: "keeps (cluster_others org v) (cluster_get o' i)"
  unfolding cluster_get_def by (intro keeps_intros) (auto simp: keeps_def split: option.split)

lemma begin_destroy_other: "o' \<noteq> org \<Longrightarrow> keeps (cluster_others org v) (begin_destroy o' i ctx)"
  unfolding begin_destroy_def by (intro keeps_intros cluster_get_other update_status_other)

lemma keeps_conj: "keeps P m \<Longrightarrow> keeps Q m \<Longrightarrow> keeps (\<lambda>s. P s \<and> Q s) m"
  by (simp add: keeps_def)

lemma secret_ops_keep_clusters:
  "keeps (\<lambda>s. clusters s = cs \<and> cluster_servers s = ss) (pgcrypto_put kek o' p)"
  "keeps (\<lambda>s. clusters s = cs \<and> cluster_servers s = ss) (secret_delete refs h)"
  unfolding pgcrypto_put_def secret_delete_def
  by (intro keeps_intros keeps_tx; auto simp: Let_def insert_secret_def split: if_splits)+

lemma keeps_cluster_others:
  fixes m :: "('z cluster_db_scheme, 'e, 'a) op"
  assumes "\<And>v. keeps (others_view org v) m" and "\<And>cs ss. keeps (\<lambda>s. clusters s = cs \<and> cluster_servers s = ss) m"
  shows "keeps (cluster_others org v) m"
proof (rule keepsI)
  fix s :: "'z cluster_db_scheme" assume s: "cluster_others org v s"
  obtain a b c where v: "v = (a, b, c)" by (cases v)
  from s have "others_view org a s" by (simp add: v cluster_others_iff)
  from keepsD [OF assms(1) this] keepsD [OF assms(2) [of "clusters s" "cluster_servers s"]] s
  show "cluster_others org v (snd (m s))" by (simp add: v cluster_others_iff)
qed

lemma pgcrypto_put_cluster_other: "o' \<noteq> org \<Longrightarrow> keeps (cluster_others org v) (pgcrypto_put kek o' p)"
  by (intro keeps_cluster_others pgcrypto_put_other secret_ops_keep_clusters)

lemma secret_delete_cluster_other: "sr_org h \<noteq> org \<Longrightarrow> keeps (cluster_others org v) (secret_delete refs h)"
  by (intro keeps_cluster_others secret_delete_other secret_ops_keep_clusters)

lemma pgcrypto_put_org: "pgcrypto_put kek org p s = (Inr h, t) \<Longrightarrow> sr_org h = org"
  by (auto simp: pgcrypto_put_def bindE_eq_Inr ret_def)

lemma keeps_bind_post:
  assumes "keeps P m" and "\<And>s a t. m s = (Inr a, t) \<Longrightarrow> P t \<Longrightarrow> P (snd (k a t))"
  shows "keeps P (bindE m k)"
proof (rule keepsI)
  fix s assume "P s"
  with keepsD [OF assms(1) this] assms(2) show "P (snd (bindE m k s))"
    by (cases "m s") (auto simp: bindE_def split: sum.splits)
qed

lemma store_kubeconfig_other:
  assumes "o' \<noteq> org"
  shows "keeps (cluster_others org v) (store_kubeconfig (pgcrypto_store refs kek) o' i k ctx)"
  unfolding store_kubeconfig_def pgcrypto_store_def secret_ops.simps
proof (intro keeps_bind_post keeps_map_err pgcrypto_put_cluster_other assms)
  fix s h and t :: "'a cluster_db_scheme"
  assume "map_err Secret (pgcrypto_put kek o' k) s = (Inr h, t)" and t: "cluster_others org v t"
  then have "sr_org h = o'" using pgcrypto_put_org [of kek o' k s h t] by simp
  with assms have "keeps (cluster_others org v) (catchE (set_kubeconfig_secret o' i (sr_id h) ctx)
      (\<lambda>err. bindE (ignoreE (secret_delete refs h)) (\<lambda>_. fail err)) ret)"
    by (intro keeps_intros set_kubeconfig_secret_other secret_delete_cluster_other) auto
  from keepsD [OF this t] show "cluster_others org v (snd (catchE (set_kubeconfig_secret o' i (sr_id h) ctx)
      (\<lambda>err. bindE (ignoreE (secret_delete refs h)) (\<lambda>_. fail err)) ret t))" .
qed

lemma kubeconfig_secret_other: "keeps (cluster_others org v) (kubeconfig_secret o' i)"
  unfolding kubeconfig_secret_def by (intro keeps_intros) (auto intro!: keeps_intros split: option.split)

lemma finalize_destroy_other:
  "o' \<noteq> org \<Longrightarrow> keeps (cluster_others org v) (finalize_destroy (pgcrypto_store refs kek) o' i ctx)"
  unfolding finalize_destroy_def pgcrypto_store_def
  by (intro keeps_intros kubeconfig_secret_other cluster_soft_delete_other update_status_other)
    (auto intro!: keeps_intros secret_delete_cluster_other split: option.split)

datatype cluster_call =
    CallCreate uuid new_cluster audit_ctx
  | CallStoreKubeconfig uuid uuid string audit_ctx
  | CallUpdateStatus uuid uuid cluster_status "string option" audit_ctx
  | CallUpdateWorkerCount uuid uuid int audit_ctx
  | CallRecordServer uuid uuid int cluster_node_role "string option" "string option" audit_ctx
  | CallDeleteServers uuid uuid audit_ctx
  | CallBeginDestroy uuid uuid audit_ctx
  | CallFinalizeDestroy uuid uuid audit_ctx

fun cluster_call_tenant :: "cluster_call \<Rightarrow> uuid" where
  "cluster_call_tenant (CallCreate org _ _) = org"
| "cluster_call_tenant (CallStoreKubeconfig org _ _ _) = org"
| "cluster_call_tenant (CallUpdateStatus org _ _ _ _) = org"
| "cluster_call_tenant (CallUpdateWorkerCount org _ _ _) = org"
| "cluster_call_tenant (CallRecordServer org _ _ _ _ _ _) = org"
| "cluster_call_tenant (CallDeleteServers org _ _) = org"
| "cluster_call_tenant (CallBeginDestroy org _ _) = org"
| "cluster_call_tenant (CallFinalizeDestroy org _ _) = org"

fun cluster_exec :: "'z cluster_db_scheme secret_ops \<Rightarrow> cluster_call \<Rightarrow> 'z cluster_db_scheme \<Rightarrow> 'z cluster_db_scheme" where
  "cluster_exec st (CallCreate org new ctx) s = snd (cluster_create org new ctx s)"
| "cluster_exec st (CallStoreKubeconfig org i k ctx) s = snd (store_kubeconfig st org i k ctx s)"
| "cluster_exec st (CallUpdateStatus org i x r ctx) s = snd (update_status org i x r ctx s)"
| "cluster_exec st (CallUpdateWorkerCount org i n ctx) s = snd (update_worker_count org i n ctx s)"
| "cluster_exec st (CallRecordServer org i h r p q ctx) s = snd (record_server org i h r p q ctx s)"
| "cluster_exec st (CallDeleteServers org i ctx) s = snd (soft_delete_servers org i ctx s)"
| "cluster_exec st (CallBeginDestroy org i ctx) s = snd (begin_destroy org i ctx s)"
| "cluster_exec st (CallFinalizeDestroy org i ctx) s = snd (finalize_destroy st org i ctx s)"

datatype cluster_query = AskCluster uuid uuid | AskClusters uuid | AskServers uuid uuid | AskKubeconfigSecret uuid uuid

datatype cluster_answer =
    OneCluster "platform_error + cluster" | Clusters "platform_error + cluster list"
  | Servers "platform_error + cluster_server list" | KubeconfigSecret "platform_error + uuid option"

fun cluster_query_tenant :: "cluster_query \<Rightarrow> uuid" where
  "cluster_query_tenant (AskCluster org _) = org"
| "cluster_query_tenant (AskClusters org) = org"
| "cluster_query_tenant (AskServers org _) = org"
| "cluster_query_tenant (AskKubeconfigSecret org _) = org"

fun cluster_answer_of :: "cluster_query \<Rightarrow> 'z cluster_db_scheme \<Rightarrow> cluster_answer" where
  "cluster_answer_of (AskCluster org i) s = OneCluster (fst (service_get org i s))"
| "cluster_answer_of (AskClusters org) s = Clusters (fst (service_list org s))"
| "cluster_answer_of (AskServers org i) s = Servers (fst (list_servers org i s))"
| "cluster_answer_of (AskKubeconfigSecret org i) s = KubeconfigSecret (fst (kubeconfig_secret org i s))"

lemma cluster_exec_other:
  assumes "cluster_call_tenant c \<noteq> org"
  shows "cluster_others org v s \<Longrightarrow> cluster_others org v (cluster_exec (pgcrypto_store refs kek) c s)"
  using assms
  by (cases c)
    (simp_all add: keepsD cluster_create_other store_kubeconfig_other update_status_other
      update_worker_count_other record_server_other soft_delete_servers_other begin_destroy_other
      finalize_destroy_other)

interpretation clt: tenant_isolation "cluster_exec (pgcrypto_store refs kek)" cluster_call_tenant
  cluster_answer_of cluster_query_tenant cluster_view "\<lambda>s. \<not> pg_bypass s" "\<lambda>s. \<not> db_faulty s"
  for refs :: "'z cluster_db_scheme \<Rightarrow> uuid list" and kek :: string
proof (unfold_locales, goal_cases)
  case (1 s c)
  then show ?case
    using cluster_exec_other [of c "Suc (cluster_call_tenant c)" "cluster_view (Suc (cluster_call_tenant c)) s" s refs kek]
    by (simp add: cluster_others_def)
next
  case (2 s c org)
  then show ?case
    using cluster_exec_other [of c org "cluster_view org s" s refs kek] by (simp add: cluster_others_def)
next
  case (3 s t q)
  then show ?case
    by (cases q)
      (auto simp: cluster_view_def identity_view_def service_get_def service_list_def cluster_list_def
        cluster_get_def kubeconfig_secret_def list_servers_def tx_def db_faulty_def bindE_def
        cluster_visible_def filter_own find_own cluster_not_found_def ret_def split: option.split)
qed

section \<open>Clients of the secret store\<close>

definition same_secrets :: "'z cluster_db_scheme \<Rightarrow> 'z cluster_db_scheme \<Rightarrow> bool" where
  "same_secrets s t \<longleftrightarrow> secrets t = secrets s \<and> vault t = vault s \<and> pgp_enc t = pgp_enc s \<and> pgp_dec t = pgp_dec s
     \<and> pg_bypass t = pg_bypass s \<and> pg_uuid t = pg_uuid s \<and> pg_uuid_text t = pg_uuid_text s
     \<and> pg_uuid_ctr s \<le> pg_uuid_ctr t"

definition same_tables :: "'z cluster_db_scheme \<Rightarrow> 'z cluster_db_scheme \<Rightarrow> bool" where
  "same_tables s t \<longleftrightarrow> clusters t = clusters s \<and> cluster_servers t = cluster_servers s
     \<and> hetzner_credentials t = hetzner_credentials s \<and> pg_fault t = pg_fault s \<and> pg_bypass t = pg_bypass s"

text \<open>Every referenced secret exists (the foreign keys).\<close>

definition refs_ok :: "'z cluster_db_scheme \<Rightarrow> bool" where
  "refs_ok s \<longleftrightarrow> set (secret_refs s) \<subseteq> sec_id ` set (secrets s)"

definition reliable :: "'z pg_scheme \<Rightarrow> bool" where
  "reliable s \<longleftrightarrow> (\<forall>n. \<not> pg_fault s n)"

lemma reliable_not_faulty: "reliable s \<Longrightarrow> \<not> db_faulty s"
  by (simp add: reliable_def db_faulty_def)

lemma reliable_tick [simp]: "reliable (tick s) = reliable s"
  by (simp add: reliable_def)

lemma same_tables_refs: "same_tables s t \<Longrightarrow> secret_refs t = secret_refs s"
  by (simp add: same_tables_def secret_refs_def)

lemma pg_uuid_ctr_audit_rows: "pg_uuid_ctr s \<le> pg_uuid_ctr (audit_rows c tb v rows s)"
proof (induction rows arbitrary: s)
  case (Cons x rows)
  obtain g r where x: "x = (g, r)" by (cases x)
  have "pg_uuid_ctr s \<le> pg_uuid_ctr (audit_log_append_trigger c tb v g r s)"
    by (simp add: audit_log_append_trigger_def audit_log_append_explicit_def Let_def)
  also have "\<dots> \<le> pg_uuid_ctr (audit_rows c tb v rows (audit_log_append_trigger c tb v g r s))"
    by (rule Cons.IH)
  finally show ?case by (simp add: x audit_rows_Cons)
qed simp

lemma same_secrets_update: "same_secrets s (tick (snd (update_clusters ctx hit f s)))"
  using pg_uuid_ctr_audit_rows
    [of "s\<lparr>clusters := sql_update hit (\<lambda>r. (f r)\<lparr>cl_updated_at := now s, cl_version := cl_version r + 1\<rparr>)
       (clusters s)\<rparr>" ctx "''clusters''" "''.updated''" "map (\<lambda>r. (cl_org r, cl_id r)) (filter hit (clusters s))"]
  by (simp add: same_secrets_def update_clusters_def)

lemma same_secrets_tick: "same_secrets s (tick s)"
  by (simp add: same_secrets_def)

lemma same_secrets_trans: "same_secrets s t \<Longrightarrow> same_secrets t u \<Longrightarrow> same_secrets s u"
  by (auto simp: same_secrets_def)

locale secret_client = secret_store ops inv live refd faulty
  for ops :: "'z cluster_db_scheme secret_ops"
    and inv :: "'z cluster_db_scheme \<Rightarrow> bool"
    and live :: "'z cluster_db_scheme \<Rightarrow> secret_ref \<Rightarrow> string option"
    and refd :: "'z cluster_db_scheme \<Rightarrow> uuid \<Rightarrow> bool"
    and faulty :: "'z cluster_db_scheme \<Rightarrow> bool" +
  assumes same: "same_secrets s t \<Longrightarrow> inv s \<Longrightarrow> inv t \<and> live t = live s"
    and inv_role: "inv s \<Longrightarrow> \<not> pg_bypass s"
    and refd_iff: "refd s i \<longleftrightarrow> i \<in> set (secret_refs s)"
    and faulty_iff: "faulty s \<longleftrightarrow> db_faulty s"
    and put_frame: "ss_put ops org p s = (pr, t) \<Longrightarrow> same_tables s t"
    and del_frame: "ss_delete ops h s = (dr, t) \<Longrightarrow> same_tables s t"
    and put_new: "inv s \<Longrightarrow> ss_put ops org p s = (Inr h, t) \<Longrightarrow>
          sr_id h \<notin> sec_id ` set (secrets s) \<and> sr_id h \<in> sec_id ` set (secrets t)"
begin

lemma put_runs:
  assumes "inv s" and "reliable s"
  obtains h t where "ss_put ops org p s = (Inr h, t)" "inv t" "sr_org h = org" "live s h = None"
    "live t = (live s)(h \<mapsto> p)" "reliable t" "same_tables s t"
proof -
  obtain h t where put: "ss_put ops org p s = (Inr h, t)"
    using put_run [OF assms(1), of org p] assms(2) reliable_not_faulty faulty_iff by metis
  moreover have "reliable t" using put_frame [OF put] assms(2) by (simp add: same_tables_def reliable_def)
  ultimately show thesis
    using that put_ok [OF assms(1) put] put_frame [OF put] by blast
qed

lemma get_runs:
  assumes "inv s" and "reliable s" and "live s h = Some p"
  shows "\<exists>t. ss_get ops h s = (Inr p, t)"
  using get_run [OF assms(1) _ assms(3)] assms(2) reliable_not_faulty faulty_iff by metis

text \<open>Clean-up of a secret nobody references.\<close>

lemma cleanup_restores:
  assumes "inv s" and "reliable s" and "live s = m(h \<mapsto> p)" and "m h = None" and "sr_id h \<notin> set (secret_refs s)"
  shows "live (snd (ss_delete ops h s)) = m"
proof -
  obtain t where "ss_delete ops h s = (Inr (), t)"
    using del_run [OF assms(1), of h] assms(2,5) reliable_not_faulty faulty_iff refd_iff by metis
  with del_ok [OF assms(1) this] assms(3,4) show ?thesis by (auto simp: fun_upd_idem)
qed

end

subsection \<open>Both stores serve the clients\<close>

lemma pgcrypto_put_tables: "pgcrypto_put kek org p s = (r, t) \<Longrightarrow> same_tables s t"
  by (auto simp: pgcrypto_put_def bindE_def new_id_def tx_def insert_secret_def Let_def ret_def same_tables_def
      split: prod.splits sum.splits if_splits)

lemma secret_delete_tables: "secret_delete refs h s = (r, t) \<Longrightarrow> same_tables s t"
  by (auto simp: secret_delete_def tx_def Let_def same_tables_def split: prod.splits sum.splits if_splits)

lemma vault_put_tables: "vault_put in_memory_transit prefix org p s = (r, t) \<Longrightarrow> same_tables s t"
  by (auto simp: vault_put_run Let_def same_tables_def split: if_splits)

interpretation pgcc: secret_client "pgcrypto_store secret_refs kek" pgcrypto_inv "pgcrypto_live kek"
  "\<lambda>s i. i \<in> set (secret_refs s)" db_faulty for kek :: string
proof (unfold_locales, goal_cases)
  case (1 s t)
  then show ?case
    using pgcrypto_inv_cong [of t s] pgcrypto_live_cong [of t s kek] by (simp add: same_secrets_def)
next
  case (2 s)
  then show ?case by (simp add: pgcrypto_inv_def secret_inv_def)
next
  case (5 org p s pr t)
  then show ?case using pgcrypto_put_tables [of kek org p s pr t] by (simp add: pgcrypto_store_def)
next
  case (6 h s dr t)
  then show ?case using secret_delete_tables [of secret_refs h s dr t] by (simp add: pgcrypto_store_def)
next
  case (7 s org p h t)
  then have put: "pgcrypto_put kek org p s = (Inr h, t)" by (simp add: pgcrypto_store_def)
  have "sr_id h = pg_uuid s (pg_uuid_ctr s)" and "sr_id h \<in> sec_id ` set (secrets t)"
    using put by (auto simp: pgcrypto_put_def bindE_def new_id_def tx_def insert_secret_def Let_def ret_def
        split: prod.splits sum.splits if_splits)
  moreover have "pg_uuid s (pg_uuid_ctr s) \<notin> sec_id ` set (secrets s)"
    using fresh_secret_id [of s] 7(1) by (auto simp: pgcrypto_inv_def)
  ultimately show ?case by simp
qed simp_all

lemma vault_inv_same:
  assumes "same_secrets s t" and "vault_inv s"
  shows "vault_inv t" and "vault_live prefix t = vault_live prefix s"
proof -
  have "secret_inv t"
    using assms secret_inv_shrink [of s t "\<lambda>_. True"] by (simp add: same_secrets_def vault_inv_def)
  with assms show "vault_inv t" by (simp add: vault_inv_def same_secrets_def)
  show "vault_live prefix t = vault_live prefix s"
    using assms(1) secret_visible_cong [of t s]
    by (intro ext) (simp add: vault_live_def same_secrets_def split: option.split)
qed

interpretation vltc: secret_client "vault_store secret_refs in_memory_transit prefix" vault_inv
  "vault_live prefix" "\<lambda>s i. i \<in> set (secret_refs s)" db_faulty for prefix :: string
proof (unfold_locales, goal_cases)
  case (1 s t)
  then show ?case using vault_inv_same by blast
next
  case (2 s)
  then show ?case by (simp add: vault_inv_def secret_inv_def)
next
  case (5 org p s pr t)
  then show ?case using vault_put_tables [of prefix org p s pr t] by (simp add: vault_store_def)
next
  case (6 h s dr t)
  then show ?case using secret_delete_tables [of secret_refs h s dr t] by (simp add: vault_store_def)
next
  case (7 s org p h t)
  then show ?case
    using fresh_secret_id [of s]
    by (auto simp: vault_store_def vault_put_run Let_def vault_inv_def split: if_splits)
qed simp_all

subsection \<open>Kubeconfigs and provider credentials in the secret store\<close>

text \<open>The row \<open>WHERE id = $1 AND deleted_at IS NULL\<close> finds for \<open>org\<close>.\<close>

definition live_cluster :: "'z cluster_db_scheme \<Rightarrow> uuid \<Rightarrow> uuid \<Rightarrow> cluster_row option" where
  "live_cluster s org i =
     find (\<lambda>r. cluster_visible s org r \<and> cl_id r = i \<and> cl_deleted_at r = None) (clusters s)"

lemma find_sql_update:
  assumes "\<And>x. hit x \<Longrightarrow> p (f x) = p x"
  shows "find p (sql_update hit f xs) = map_option (\<lambda>r. if hit r then f r else r) (find p xs)"
  using assms by (induction xs) (auto simp: sql_update_def)

lemma cluster_visible_cong: "pg_bypass t = pg_bypass s \<Longrightarrow> cluster_visible t = cluster_visible s"
  by (intro ext) (simp add: cluster_visible_def rls_def)

lemma live_cluster_tables: "same_tables s t \<Longrightarrow> live_cluster t = live_cluster s"
  using cluster_visible_cong [of t s] by (intro ext) (simp add: live_cluster_def same_tables_def)

lemma live_clusterD:
  "live_cluster s org i = Some r \<Longrightarrow>
     r \<in> set (clusters s) \<and> cluster_visible s org r \<and> cl_id r = i \<and> cl_deleted_at r = None"
  unfolding live_cluster_def by (drule find_Some_iff2) blast

lemma live_cluster_update:
  assumes "\<And>r. cl_org (f r) = cl_org r \<and> cl_id (f r) = cl_id r \<and> (cl_deleted_at (f r) = None) = (cl_deleted_at r = None)"
  shows "live_cluster (tick (snd (update_clusters ctx hit f s))) org i =
    map_option (\<lambda>r. if hit r then (f r)\<lparr>cl_updated_at := now s, cl_version := cl_version r + 1\<rparr> else r)
      (live_cluster s org i)"
proof -
  have vis: "cluster_visible (tick (snd (update_clusters ctx hit f s))) = cluster_visible s"
    by (rule cluster_visible_cong) simp
  show ?thesis
    using assms unfolding live_cluster_def vis
    by (simp add: find_sql_update cluster_visible_def)
qed

lemma kubeconfig_secret_run:
  "\<not> db_faulty s \<Longrightarrow> kubeconfig_secret org i s =
     (case live_cluster s org i of Some r \<Rightarrow> (Inr (cl_kubeconfig_secret_id r), tick s)
      | None \<Rightarrow> (Inl (NotFound (''cluster/'' @ pg_uuid_text s i)), tick s))"
  by (simp add: kubeconfig_secret_def bindE_def tx_def db_faulty_def live_cluster_def ret_def
      cluster_not_found_def split: option.split)

lemma cluster_get_run:
  "\<not> db_faulty s \<Longrightarrow> cluster_get org i s =
     (case live_cluster s org i of Some r \<Rightarrow> (Inr (row_to_cluster r), tick s)
      | None \<Rightarrow> (Inl (NotFound (''cluster/'' @ pg_uuid_text s i)), tick s))"
  by (simp add: cluster_get_def bindE_def tx_def db_faulty_def live_cluster_def split: option.split)

text \<open>The row update of \<open>set_kubeconfig_secret\<close>.\<close>

definition kube_hit :: "'z cluster_db_scheme \<Rightarrow> uuid \<Rightarrow> uuid \<Rightarrow> uuid \<Rightarrow> cluster_row \<Rightarrow> bool" where
  "kube_hit s org i sid r \<longleftrightarrow> cluster_visible s org r \<and> cl_id r = i \<and> cl_deleted_at r = None
     \<and> (cl_kubeconfig_secret_id r = None \<or> cl_kubeconfig_secret_id r = Some sid)"

lemma set_kubeconfig_secret_run:
  fixes s :: "'z cluster_db_scheme"
  assumes "\<not> db_faulty s" and "sid \<in> sec_id ` set (secrets s)"
  shows "set_kubeconfig_secret org i sid ctx s =
    (if \<exists>r \<in> set (clusters s). kube_hit s org i sid r then Inr ()
     else Inl (Conflict ''kubeconfig already set to a different secret''),
     tick (snd (update_clusters ctx (kube_hit s org i sid) (\<lambda>r. r\<lparr>cl_kubeconfig_secret_id := Some sid\<rparr>) s)))"
proof -
  have zero: "sql_count (kube_hit s org i sid) (clusters s) = 0 \<longleftrightarrow> \<not> (\<exists>r \<in> set (clusters s). kube_hit s org i sid r)"
    by (simp add: sql_count_zero)
  have hit: "(\<lambda>r. cluster_visible (s' :: 'z cluster_db_scheme) org r \<and> cl_id r = i \<and> cl_deleted_at r = None
      \<and> (cl_kubeconfig_secret_id r = None \<or> cl_kubeconfig_secret_id r = Some sid)) = kube_hit s' org i sid" for s'
    by (intro ext) (simp add: kube_hit_def)
  show ?thesis
    using assms zero unfolding set_kubeconfig_secret_def hit
    by (simp add: bindE_def tx_def db_faulty_def Let_def update_clusters_def ret_def fail_def)
qed

lemma update_clusters_none:
  "\<not> (\<exists>r \<in> set (clusters s). hit r) \<Longrightarrow> snd (update_clusters ctx hit f s) = s"
  by (simp add: update_clusters_state sql_update_none)

lemma kube_refs_update:
  "set (secret_refs (tick (snd (update_clusters ctx hit (\<lambda>r. r\<lparr>cl_kubeconfig_secret_id := Some sid\<rparr>) s))))
     \<subseteq> insert sid (set (secret_refs s))"
  by (auto simp: secret_refs_def map_filter_def set_sql_update split: if_splits)

lemma kube_one_row:
  assumes "cluster_inv s" and "live_cluster s org i = Some r" and "cl_kubeconfig_secret_id r = Some old" and "old \<noteq> sid"
  shows "\<not> (\<exists>x \<in> set (clusters s). kube_hit s org i sid x)"
proof -
  have "x = r" if "x \<in> set (clusters s)" "cl_id x = i" for x
    using that live_clusterD [OF assms(2)] assms(1) by (auto simp: cluster_inv_def distinct_map inj_on_def)
  with assms(3,4) show ?thesis by (auto simp: kube_hit_def)
qed

context secret_client
begin

lemma store_fetch:
  assumes "inv s" and "reliable s" and "live_cluster s org i = Some r" and "cl_kubeconfig_secret_id r = None"
  shows "\<exists>t u. store_kubeconfig ops org i k ctx s = (Inr (), t) \<and> fetch_kubeconfig ops org i t = (Inr k, u)"
proof -
  obtain h s1 where put: "ss_put ops org k s = (Inr h, s1)" "inv s1" "sr_org h = org"
      "live s1 = (live s)(h \<mapsto> k)" "reliable s1" "same_tables s s1"
    using put_runs [OF assms(1,2), of org k] by metis
  let ?hit = "kube_hit s1 org i (sr_id h)"
  let ?t = "tick (snd (update_clusters ctx ?hit (\<lambda>r. r\<lparr>cl_kubeconfig_secret_id := Some (sr_id h)\<rparr>) s1))"
  have row: "live_cluster s1 org i = Some r" using live_cluster_tables [OF put(6)] assms(3) by simp
  have hit: "?hit r" and mem: "r \<in> set (clusters s1)"
    using live_clusterD [OF row] assms(4) by (simp_all add: kube_hit_def)
  have "set_kubeconfig_secret org i (sr_id h) ctx s1 = (Inr (), ?t)"
    using set_kubeconfig_secret_run [OF reliable_not_faulty [OF put(5)], of "sr_id h" org i ctx]
      put_new [OF assms(1) put(1)] hit mem by auto
  then have store: "store_kubeconfig ops org i k ctx s = (Inr (), ?t)"
    using put(1) by (simp add: store_kubeconfig_def bindE_def map_err_def catchE_def ret_def)
  have same_t: "same_secrets s1 ?t" by (rule same_secrets_update)
  have rel_t: "reliable ?t" using put(5) by (simp add: reliable_def)
  have "live_cluster ?t org i = Some (r\<lparr>cl_kubeconfig_secret_id := Some (sr_id h), cl_updated_at := now s1,
      cl_version := cl_version r + 1\<rparr>)"
    using row hit by (simp add: live_cluster_update)
  then have ks: "kubeconfig_secret org i ?t = (Inr (Some (sr_id h)), tick ?t)"
    using kubeconfig_secret_run [OF reliable_not_faulty [OF rel_t], of org i] by simp
  have "same_secrets s1 (tick ?t)" using same_secrets_trans [OF same_t same_secrets_tick] .
  then have live_u: "inv (tick ?t)" "live (tick ?t) h = Some k" using same [of s1 "tick ?t"] put(2,4) by auto
  have "h = \<lparr>sr_id = sr_id h, sr_org = org\<rparr>" using put(3) by simp
  then obtain u where "ss_get ops \<lparr>sr_id = sr_id h, sr_org = org\<rparr> (tick ?t) = (Inr k, u)"
    using get_runs [OF live_u(1) _ live_u(2)] rel_t by (metis reliable_tick)
  then have "fetch_kubeconfig ops org i ?t = (Inr k, u)"
    using ks by (simp add: fetch_kubeconfig_def bindE_def map_err_def)
  with store show ?thesis by blast
qed

lemma store_twice:
  assumes "inv s" and "reliable s" and "cluster_inv s" and "refs_ok s" and "live_cluster s org i = Some r"
    and "cl_kubeconfig_secret_id r = Some old"
  shows "\<exists>t. store_kubeconfig ops org i k ctx s = (Inl (Conflict ''kubeconfig already set to a different secret''), t)
    \<and> live t = live s"
proof -
  obtain h s1 where put: "ss_put ops org k s = (Inr h, s1)" "inv s1" "live s h = None"
      "live s1 = (live s)(h \<mapsto> k)" "reliable s1" "same_tables s s1"
    using put_runs [OF assms(1,2), of org k] by metis
  have row: "live_cluster s1 org i = Some r" using live_cluster_tables [OF put(6)] assms(5) by simp
  have old: "old \<in> set (secret_refs s)"
    using live_clusterD [OF assms(5)] assms(6) by (force simp: secret_refs_def map_filter_def)
  have new: "sr_id h \<notin> set (secret_refs s)"
    using put_new [OF assms(1) put(1)] assms(4) by (auto simp: refs_ok_def)
  have inv1: "cluster_inv s1" using put(6) assms(3) cluster_inv_cong [of s1 s] by (simp add: same_tables_def)
  have none: "\<not> (\<exists>x \<in> set (clusters s1). kube_hit s1 org i (sr_id h) x)"
    by (rule kube_one_row [OF inv1 row assms(6)]) (use old new in blast)
  have set: "set_kubeconfig_secret org i (sr_id h) ctx s1 =
      (Inl (Conflict ''kubeconfig already set to a different secret''), tick s1)"
    using set_kubeconfig_secret_run [OF reliable_not_faulty [OF put(5)], of "sr_id h" org i ctx]
      put_new [OF assms(1) put(1)] none update_clusters_none [OF none] by simp
  have t1: "inv (tick s1)" "live (tick s1) = (live s)(h \<mapsto> k)" using same [OF same_secrets_tick put(2)] put(4) by auto
  have "secret_refs (tick s1) = secret_refs s"
    using same_tables_refs [OF put(6)] by (simp add: secret_refs_def)
  then have "live (snd (ss_delete ops h (tick s1))) = live s"
    using cleanup_restores [OF t1(1) _ t1(2) put(3)] put(5) new by simp
  then show ?thesis
    using put(1) set
    by (simp add: store_kubeconfig_def bindE_def map_err_def catchE_def ignoreE_def fail_def split: prod.split)
qed

end

lemma cluster_soft_delete_run:
  "\<not> db_faulty s \<Longrightarrow> cluster_soft_delete org i ctx s =
     (Inr (), tick (snd (update_clusters ctx
        (\<lambda>r. cluster_visible s org r \<and> cl_id r = i \<and> cl_deleted_at r = None)
        (\<lambda>r. r\<lparr>cl_deleted_at := Some (now s)\<rparr>) s)))"
  by (simp add: cluster_soft_delete_def bindE_def tx_def db_faulty_def update_clusters_def ret_def)

lemma update_status_run:
  "\<not> db_faulty s \<Longrightarrow> update_status org i st reason ctx s =
     (if \<exists>r \<in> set (clusters s). cluster_visible s org r \<and> cl_id r = i then Inr ()
      else Inl (NotFound (''cluster/'' @ pg_uuid_text s i)),
      tick (snd (update_clusters ctx (\<lambda>r. cluster_visible s org r \<and> cl_id r = i)
        (\<lambda>r. r\<lparr>cl_status := st, cl_status_reason := reason\<rparr>) s)))"
  by (auto simp: update_status_def bindE_def tx_def db_faulty_def update_clusters_def ret_def
      cluster_not_found_def sql_count_zero)

text \<open>The rows after \<open>finalize_destroy\<close>.\<close>

definition retire :: "'z cluster_db_scheme \<Rightarrow> uuid \<Rightarrow> uuid \<Rightarrow> audit_ctx \<Rightarrow> 'z cluster_db_scheme" where
  "retire s org i ctx =
     (let t = tick (snd (update_clusters ctx
                (\<lambda>r. cluster_visible s org r \<and> cl_id r = i \<and> cl_deleted_at r = None)
                (\<lambda>r. r\<lparr>cl_deleted_at := Some (now s)\<rparr>) s)) in
      tick (snd (update_clusters ctx (\<lambda>r. cluster_visible t org r \<and> cl_id r = i)
        (\<lambda>r. r\<lparr>cl_status := Destroyed, cl_status_reason := None\<rparr>) t)))"

lemma retire_same_secrets: "same_secrets s (retire s org i ctx)"
  unfolding retire_def Let_def by (rule same_secrets_trans [OF same_secrets_update same_secrets_update])

lemma retire_reliable [simp]: "reliable (retire s org i ctx) = reliable s"
  by (simp add: retire_def Let_def reliable_def)

lemma retire_rows:
  "\<forall>r \<in> set (clusters (retire s org i ctx)).
     cl_id r = i \<and> cluster_visible s org r \<longrightarrow> cl_status r = Destroyed \<and> cl_deleted_at r \<noteq> None"
  unfolding retire_def Let_def by (auto simp: ball_sql_update cluster_visible_def rls_def)

lemma retire_gone: "live_cluster (retire s org i ctx) org i = None"
proof -
  have "cluster_visible (retire s org i ctx) = cluster_visible s"
    by (rule cluster_visible_cong) (simp add: retire_def Let_def)
  with retire_rows [of s org i ctx] show ?thesis
    by (auto simp: live_cluster_def find_None_iff_all)
qed

lemma finalize_tail:
  assumes "reliable s" and "live_cluster s org i = Some r"
  shows "bindE (cluster_soft_delete org i ctx) (\<lambda>_. bindE (update_status org i Destroyed None ctx) (\<lambda>_. ret ())) s
    = (Inr (), retire s org i ctx)"
proof -
  let ?hit = "\<lambda>r. cluster_visible s org r \<and> cl_id r = i \<and> cl_deleted_at r = None"
  let ?t = "tick (snd (update_clusters ctx ?hit (\<lambda>r. r\<lparr>cl_deleted_at := Some (now s)\<rparr>) s))"
  have rel: "reliable ?t" using assms(1) by (simp add: reliable_def)
  have vis: "cluster_visible ?t = cluster_visible s" by (rule cluster_visible_cong) simp
  have "\<exists>x \<in> set (clusters ?t). cluster_visible s org x \<and> cl_id x = i"
    using live_clusterD [OF assms(2)]
    by (simp add: bex_sql_update) (auto simp: cluster_visible_def)
  then show ?thesis
    using cluster_soft_delete_run [OF reliable_not_faulty [OF assms(1)], of org i ctx]
      update_status_run [OF reliable_not_faulty [OF rel], of org i Destroyed None ctx]
    by (simp add: bindE_def ret_def retire_def Let_def vis)
qed

lemma cred_insert_ok:
  assumes "cred_insert org alias sref ctx s = (Inr c, t)"
  shows "same_secrets s t \<and> hc_secret_ref c = sref"
  using assms pg_uuid_ctr_audit_rows
  by (auto simp: cred_insert_def bindE_eq_Inr new_id_def tx_eq_Inr Let_def fail_def row_to_credential_def
      same_secrets_def audit_log_append_trigger_def audit_log_append_explicit_def split: if_splits)

lemma cred_insert_err:
  assumes "cred_insert org alias sref ctx s = (Inl e, t)"
  shows "same_secrets s t \<and> same_tables s t"
  using assms
  by (auto simp: cred_insert_def bindE_eq_Inl new_id_def tx_eq_Inl Let_def fail_def
      same_secrets_def same_tables_def split: if_splits)

lemma cred_insert_taken:
  assumes "reliable s" and "sr_org sref = org"
    and "\<exists>r \<in> set (hetzner_credentials s). cr_org r = org \<and> cr_alias r = alias \<and> cr_deleted_at r = None"
  shows "fst (cred_insert org alias sref ctx s) = Inl (map_conflict SqlxUnique)"
  using assms by (auto simp: cred_insert_def bindE_def new_id_def tx_def Let_def reliable_def)

context secret_client
begin

lemma create_credential:
  assumes "inv s" and "reliable s" and "refs_ok s" and "hcs_create ops org alias token ctx s = (r, t)"
  shows "case r of Inr c \<Rightarrow> sr_org (hc_secret_ref c) = org \<and> live s (hc_secret_ref c) = None
                        \<and> live t = (live s)(hc_secret_ref c \<mapsto> token)
         | Inl e \<Rightarrow> live t = live s"
proof -
  obtain h s1 where put: "ss_put ops org token s = (Inr h, s1)" "inv s1" "live s h = None" "sr_org h = org"
      "live s1 = (live s)(h \<mapsto> token)" "reliable s1" "same_tables s s1"
    using put_runs [OF assms(1,2), of org token] by metis
  have new: "sr_id h \<notin> set (secret_refs s)"
    using put_new [OF assms(1) put(1)] assms(3) by (auto simp: refs_ok_def)
  obtain x s2 where ins: "cred_insert org alias h ctx s1 = (x, s2)" by fastforce
  show ?thesis
  proof (cases x)
    case (Inr c)
    with ins cred_insert_ok have "same_secrets s1 s2" "hc_secret_ref c = h" by blast+
    moreover have "r = Inr c" "t = s2"
      using assms(4) put(1) ins Inr by (simp_all add: hcs_create_def bindE_def map_err_def catchE_def ret_def)
    ultimately show ?thesis using same [of s1 s2] put by simp
  next
    case (Inl e)
    with ins cred_insert_err have f: "same_secrets s1 s2" "same_tables s1 s2" by blast+
    have "live (snd (ss_delete ops h s2)) = live s"
      using same [OF f(1) put(2)] put(3,5,6) new same_tables_refs [OF put(7)] same_tables_refs [OF f(2)] f(2)
      by (intro cleanup_restores) (simp_all add: same_tables_def reliable_def)
    moreover have "r = Inl e" "t = snd (ss_delete ops h s2)"
      using assms(4) put(1) ins Inl
      by (auto simp: hcs_create_def bindE_def map_err_def catchE_def ignoreE_def fail_def split: prod.splits)
    ultimately show ?thesis by simp
  qed
qed

lemma create_taken:
  assumes "inv s" and "reliable s"
    and "\<exists>r \<in> set (hetzner_credentials s). cr_org r = org \<and> cr_alias r = alias \<and> cr_deleted_at r = None"
  shows "fst (hcs_create ops org alias token ctx s) = Inl (map_conflict SqlxUnique)"
proof -
  obtain h s1 where put: "ss_put ops org token s = (Inr h, s1)" "sr_org h = org" "reliable s1" "same_tables s s1"
    using put_runs [OF assms(1,2), of org token] by metis
  have "fst (cred_insert org alias h ctx s1) = Inl (map_conflict SqlxUnique)"
    using put(2-4) assms(3) by (intro cred_insert_taken) (simp_all add: same_tables_def)
  then show ?thesis
    using put(1)
    by (auto simp: hcs_create_def bindE_def map_err_def catchE_def ignoreE_def fail_def split: prod.split sum.split)
qed

lemma delete_keeps_referenced:
  assumes "inv s" and "sr_id h \<in> set (secret_refs s)"
  shows "inv (snd (ss_delete ops h s)) \<and> live (snd (ss_delete ops h s)) = live s"
proof -
  obtain x t where d: "ss_delete ops h s = (x, t)" by fastforce
  show ?thesis
  proof (cases "live s h")
    case None
    then show ?thesis using d del_ok [OF assms(1)] del_err [OF assms(1)] by (cases x) (auto simp: fun_upd_idem)
  next
    case (Some p)
    then obtain e t' where "ss_delete ops h s = (Inl e, t')"
      using del_refd [OF assms(1)] assms(2) refd_iff by blast
    then show ?thesis using del_err [OF assms(1)] by simp
  qed
qed

lemma delete_tables: "same_tables s (snd (ss_delete ops h s))"
  using del_frame [of h s] by (metis prod.collapse)

lemma destroy_keeps_secret:
  assumes "inv s" and "reliable s" and "live_cluster s org i = Some r"
  shows "\<exists>t u. finalize_destroy ops org i ctx s = (Inr (), t) \<and> live t = live s \<and> live_cluster t org i = None
    \<and> (\<forall>x \<in> set (clusters t). cl_id x = i \<and> cluster_visible s org x \<longrightarrow>
          cl_status x = Destroyed \<and> cl_deleted_at x \<noteq> None)
    \<and> finalize_destroy ops org i ctx t = (Inl (NotFound (''cluster/'' @ pg_uuid_text t i)), u)"
proof -
  define d where "d = (case cl_kubeconfig_secret_id r of Some sid \<Rightarrow> ignoreE (ss_delete ops \<lparr>sr_id = sid, sr_org = org\<rparr>)
            | None \<Rightarrow> (ret () :: ('z cluster_db_scheme, platform_error, unit) op))"
  have tck: "inv (tick s)" "live (tick s) = live s" using same [OF same_secrets_tick assms(1)] by auto
  have ref: "sid \<in> set (secret_refs (tick s))" if "cl_kubeconfig_secret_id r = Some sid" for sid
    using live_clusterD [OF assms(3)] that by (force simp: secret_refs_def map_filter_def)
  have "fst (d (tick s)) = Inr ()"
    by (auto simp: d_def ignoreE_def ret_def split: option.split prod.split)
  then obtain s2 where d: "d (tick s) = (Inr (), s2)" by (metis prod.collapse)
  then have s2: "s2 = snd (d (tick s))" by simp
  have inv2: "inv s2" and live2: "live s2 = live s" unfolding s2
    using tck ref delete_keeps_referenced [OF tck(1), of "\<lparr>sr_id = _, sr_org = org\<rparr>"]
    by (auto simp: d_def ignoreE_def ret_def split: option.split prod.split)
  have tab: "same_tables s s2" unfolding s2
    using delete_tables [of "tick s" "\<lparr>sr_id = _, sr_org = org\<rparr>"]
    by (auto simp: d_def ignoreE_def ret_def same_tables_def split: option.split prod.split)
  have rel2: "reliable s2" using assms(2) tab by (simp add: same_tables_def reliable_def)
  have row2: "live_cluster s2 org i = Some r" using live_cluster_tables [OF tab] assms(3) by simp
  let ?t = "retire s2 org i ctx"
  let ?tail = "bindE (cluster_soft_delete org i ctx) (\<lambda>_. bindE (update_status org i Destroyed None ctx) (\<lambda>_. ret ()))"
  have "kubeconfig_secret org i s = (Inr (cl_kubeconfig_secret_id r), tick s)"
    using kubeconfig_secret_run [OF reliable_not_faulty [OF assms(2)], of org i] assms(3) by simp
  then have "finalize_destroy ops org i ctx s = bindE d (\<lambda>_. ?tail) (tick s)"
    by (simp add: finalize_destroy_def bindE_Inr d_def)
  also have "\<dots> = ?tail s2" using d by (simp only: bindE_def prod.case sum.case)
  finally have run: "finalize_destroy ops org i ctx s = (Inr (), ?t)"
    using finalize_tail [OF rel2 row2, of ctx] by simp
  have "live ?t = live s" using same [OF retire_same_secrets inv2] live2 by simp
  moreover have "cluster_visible s2 = cluster_visible s"
    using tab by (intro cluster_visible_cong) (simp add: same_tables_def)
  moreover have "finalize_destroy ops org i ctx ?t = (Inl (NotFound (''cluster/'' @ pg_uuid_text ?t i)), tick ?t)"
    using kubeconfig_secret_run [of ?t org i] rel2 reliable_not_faulty [of ?t] retire_gone [of s2 org i ctx]
    by (simp add: finalize_destroy_def bindE_def)
  ultimately show ?thesis
    using run retire_gone [of s2 org i ctx] retire_rows [of s2 org i ctx] by fastforce
qed

end

section \<open>Well-formedness over call sequences\<close>

lemma keeps_same_tables:
  fixes m :: "('a cluster_db_scheme, 'e, 'b) op"
  assumes "\<And>s r t. m s = (r, t) \<Longrightarrow> same_tables s t"
  shows "keeps cluster_inv m"
proof (rule keepsI)
  fix s :: "'a cluster_db_scheme"
  assume "cluster_inv s"
  moreover have "same_tables s (snd (m s))" using assms [of s] by (metis prod.collapse)
  ultimately show "cluster_inv (snd (m s))"
    using cluster_inv_cong [of "snd (m s)" s] by (simp add: same_tables_def)
qed

lemma secret_ops_keep_inv:
  "keeps cluster_inv (pgcrypto_put kek org p)" "keeps cluster_inv (secret_delete refs h)"
  by (rule keeps_same_tables, erule pgcrypto_put_tables secret_delete_tables)+

lemmas cluster_repo_inv =
  update_status_inv cluster_soft_delete_inv set_kubeconfig_secret_inv update_worker_count_inv
  cluster_insert_inv record_server_inv soft_delete_servers_inv secret_ops_keep_inv

lemma cluster_read_inv: "keeps cluster_inv (kubeconfig_secret org i)" "keeps cluster_inv (cluster_get org i)"
  by (auto simp: keeps_def kubeconfig_secret_def cluster_get_def bindE_def tx_def ret_def cluster_not_found_def
      split: option.split)

lemma cluster_service_inv:
  "keeps cluster_inv (cluster_create org new ctx)"
  "keeps cluster_inv (begin_destroy org i ctx)"
  "keeps cluster_inv (store_kubeconfig (pgcrypto_store refs kek) org i k ctx)"
  "keeps cluster_inv (finalize_destroy (pgcrypto_store refs kek) org i ctx)"
  unfolding cluster_create_def begin_destroy_def store_kubeconfig_def finalize_destroy_def pgcrypto_store_def
     secret_ops.select_convs
  by (intro keeps_intros keeps_of_sum cluster_repo_inv cluster_read_inv |
      rule cluster_repo_inv | auto split: option.split intro!: keeps_intros cluster_repo_inv)+

lemma cluster_exec_inv: "cluster_inv s \<Longrightarrow> cluster_inv (cluster_exec (pgcrypto_store refs kek) c s)"
  by (cases c) (simp_all add: keepsD cluster_service_inv cluster_repo_inv)

section \<open>A concrete state\<close>

text \<open>Organization 1 with one provider credential, a fresh cluster (70) and a
  cluster (71) whose kubeconfig is stored.\<close>

definition demo_secret :: "uuid \<Rightarrow> string \<Rightarrow> secret_row" where
  "demo_secret i p = \<lparr>sec_id = i, sec_org = 1, sec_ciphertext = ''dek'' @ p, sec_wrapped_dek = ''kekdek'',
     sec_algorithm = ''pgp_sym_v1'', sec_created_at = 0\<rparr>"

definition demo_cluster_row :: "uuid \<Rightarrow> string \<Rightarrow> uuid option \<Rightarrow> cluster_row" where
  "demo_cluster_row i nm sid =
     \<lparr>cl_id = i, cl_org = 1, cl_credential_id = 50, cl_name = nm, cl_region = ''nbg1'', cl_server_type = ''cpx11'',
      cl_control_plane_count = 1, cl_worker_count = 2, cl_status = Ready, cl_status_reason = None,
      cl_temporal_workflow_id = None, cl_created_at = 0, cl_updated_at = 0, cl_deleted_at = None, cl_version = 1,
      cl_kubeconfig_secret_id = sid, cl_agent_last_seen_at = None, cl_agent_version = []\<rparr>"

definition demo_clusters :: cluster_db where
  "demo_clusters = identity_db.extend
     ((demo_db False)\<lparr>
        secrets := [demo_secret 60 ''token'', demo_secret 61 ''kubeconfig''],
        hetzner_credentials := [\<lparr>cr_id = 50, cr_org = 1, cr_alias = ''main'', cr_secret_id = 60, cr_created_at = 0,
           cr_updated_at = 0, cr_deleted_at = None, cr_version = 1\<rparr>]\<rparr>)
     (cluster_db.fields [demo_cluster_row 70 ''a'' None, demo_cluster_row 71 ''b'' (Some 61)] [] [] [])"

definition demo_new :: new_cluster where
  "demo_new = \<lparr>nc_name = ''prod'', nc_region = ''nbg1'', nc_server_type = ''cpx21'',
     nc_control_plane_count = 1, nc_worker_count = 3, nc_credential_id = 50\<rparr>"

lemma demo_clusters_fields [simp]:
  "pg_bypass demo_clusters = False" "pg_fault demo_clusters = (\<lambda>_. False)"
  "pg_uuid demo_clusters = (\<lambda>n. 100 + n)" "pg_uuid_ctr demo_clusters = 0"
  "secrets demo_clusters = [demo_secret 60 ''token'', demo_secret 61 ''kubeconfig'']"
  "clusters demo_clusters = [demo_cluster_row 70 ''a'' None, demo_cluster_row 71 ''b'' (Some 61)]"
  "cluster_servers demo_clusters = []"
  "vault demo_clusters = \<lparr>vk_keys = [], vk_ciphertexts = [], vk_counter = 0\<rparr>"
  "map cr_secret_id (hetzner_credentials demo_clusters) = [60]"
  by (simp_all add: demo_clusters_def identity_db.defs cluster_db.defs demo_db_def)

lemma demo_clusters_ok:
  "pgcrypto_inv demo_clusters" "vault_inv demo_clusters" "cluster_inv demo_clusters" "refs_ok demo_clusters"
  "reliable demo_clusters"
proof -
  have "secret_inv demo_clusters" by (auto simp: secret_inv_def demo_secret_def inj_def)
  moreover have "pgp_law demo_clusters"
    by (simp add: pgp_law_def demo_clusters_def identity_db.defs cluster_db.defs demo_db_def)
  ultimately show "pgcrypto_inv demo_clusters" "vault_inv demo_clusters"
    by (simp_all add: pgcrypto_inv_def vault_inv_def demo_secret_def VAULT_ALGORITHM_TAG_def)
  show "cluster_inv demo_clusters" by (simp add: cluster_inv_def demo_cluster_row_def)
  show "refs_ok demo_clusters" "reliable demo_clusters"
    by (simp_all add: refs_ok_def secret_refs_def demo_secret_def demo_cluster_row_def map_filter_def reliable_def)
qed

lemma demo_live:
  "live_cluster demo_clusters 1 70 = Some (demo_cluster_row 70 ''a'' None)"
  "live_cluster demo_clusters 1 71 = Some (demo_cluster_row 71 ''b'' (Some 61))"
  by (simp_all add: live_cluster_def cluster_visible_def rls_def demo_cluster_row_def app_current_tenant_id_def)

section \<open>Properties\<close>

text \<open>(C32) Well-formed tables: over any sequence of the crate's mutating calls, ids
  stay unique, live clusters of an organization have distinct names, counts stay
  in range, live servers are recorded once, and every server belongs to a
  cluster row.\<close>

theorem cluster_tables_stay_wellformed:
  assumes "cluster_inv s"
  shows "cluster_inv (fold (cluster_exec (pgcrypto_store refs kek)) cs s)"
  using assms by (induction cs arbitrary: s) (simp_all add: cluster_exec_inv)

theorem cluster_tables_stay_wellformed_witness:
  "cluster_inv (fold (cluster_exec (pgcrypto_store secret_refs ''kek''))
     [CallCreate 1 demo_new demo_ctx, CallUpdateWorkerCount 1 70 99 demo_ctx, CallFinalizeDestroy 1 71 demo_ctx] demo_clusters)"
  by (rule cluster_tables_stay_wellformed) (rule demo_clusters_ok)

text \<open>(C5) Noninterference between tenants: under the application role, the
  cluster calls of other organizations never change what an organization reads
  of its clusters, servers and kubeconfig references.\<close>

theorem cluster_noninterference:
  assumes "\<not> pg_bypass s" and "\<forall>c \<in> set cs. cluster_call_tenant c \<noteq> cluster_query_tenant q"
    and "\<not> db_faulty s" and "\<not> db_faulty (fold (cluster_exec (pgcrypto_store refs kek)) cs s)"
  shows "cluster_answer_of q (fold (cluster_exec (pgcrypto_store refs kek)) cs s) = cluster_answer_of q s"
  using assms by (intro clt.noninterference) auto

theorem cluster_noninterference_witness:
  "cluster_answer_of (AskKubeconfigSecret 1 71) (fold (cluster_exec (pgcrypto_store secret_refs ''kek''))
     [CallFinalizeDestroy 2 71 demo_ctx, CallUpdateStatus 2 71 Failed None demo_ctx] demo_clusters)
   = KubeconfigSecret (Inr (Some 61))"
proof -
  let ?cs = "[CallFinalizeDestroy 2 71 demo_ctx, CallUpdateStatus 2 71 Failed None demo_ctx]"
  let ?t = "fold (cluster_exec (pgcrypto_store secret_refs ''kek'')) ?cs demo_clusters"
  have "\<not> db_faulty demo_clusters" "\<not> db_faulty ?t" by code_simp+
  then have "cluster_answer_of (AskKubeconfigSecret 1 71) ?t = cluster_answer_of (AskKubeconfigSecret 1 71) demo_clusters"
    by (intro cluster_noninterference) simp_all
  moreover have "cluster_answer_of (AskKubeconfigSecret 1 71) demo_clusters = KubeconfigSecret (Inr (Some 61))"
    by code_simp
  ultimately show ?thesis by simp
qed

text \<open>Kubeconfig round trip with either secret store: storing the kubeconfig of
  a live cluster that has none succeeds, and fetching it gives the same text.\<close>

theorem kubeconfig_round_trip:
  assumes "reliable s" and "live_cluster s org i = Some r" and "cl_kubeconfig_secret_id r = None"
  shows "(pgcrypto_inv s \<longrightarrow> (\<exists>t u.
        store_kubeconfig (pgcrypto_store secret_refs kek) org i k ctx s = (Inr (), t)
      \<and> fetch_kubeconfig (pgcrypto_store secret_refs kek) org i t = (Inr k, u)))
   \<and> (vault_inv s \<longrightarrow> (\<exists>t u.
        store_kubeconfig (vault_store secret_refs in_memory_transit prefix) org i k ctx s = (Inr (), t)
      \<and> fetch_kubeconfig (vault_store secret_refs in_memory_transit prefix) org i t = (Inr k, u)))"
  using pgcc.store_fetch [OF _ assms] vltc.store_fetch [OF _ assms] by blast

theorem kubeconfig_round_trip_witness:
  "(\<exists>t u. store_kubeconfig (pgcrypto_store secret_refs ''kek'') 1 70 ''yaml'' demo_ctx demo_clusters = (Inr (), t)
      \<and> fetch_kubeconfig (pgcrypto_store secret_refs ''kek'') 1 70 t = (Inr ''yaml'', u))
   \<and> (\<exists>t u. store_kubeconfig (vault_store secret_refs in_memory_transit ''p'') 1 70 ''yaml'' demo_ctx demo_clusters = (Inr (), t)
      \<and> fetch_kubeconfig (vault_store secret_refs in_memory_transit ''p'') 1 70 t = (Inr ''yaml'', u))"
  using kubeconfig_round_trip [OF demo_clusters_ok(5) demo_live(1), of "''kek''" "''yaml''" demo_ctx "''p''"]
    demo_clusters_ok by (simp add: demo_cluster_row_def)

text \<open>A second kubeconfig is refused: storing one for a cluster that already
  has one returns a conflict, also when the text is the same, and the fresh
  secret is cleaned up so that the store holds exactly what it held before.\<close>

theorem second_kubeconfig_conflicts:
  assumes "reliable s" and "cluster_inv s" and "refs_ok s" and "live_cluster s org i = Some r"
    and "cl_kubeconfig_secret_id r = Some old"
  shows "(pgcrypto_inv s \<longrightarrow> (\<exists>t. store_kubeconfig (pgcrypto_store secret_refs kek) org i k ctx s
        = (Inl (Conflict ''kubeconfig already set to a different secret''), t) \<and> pgcrypto_live kek t = pgcrypto_live kek s))
   \<and> (vault_inv s \<longrightarrow> (\<exists>t. store_kubeconfig (vault_store secret_refs in_memory_transit prefix) org i k ctx s
        = (Inl (Conflict ''kubeconfig already set to a different secret''), t) \<and> vault_live prefix t = vault_live prefix s))"
  using pgcc.store_twice [OF _ assms] vltc.store_twice [OF _ assms] by blast

theorem second_kubeconfig_conflicts_witness:
  "\<exists>t. store_kubeconfig (pgcrypto_store secret_refs ''kek'') 1 71 ''kubeconfig'' demo_ctx demo_clusters
     = (Inl (Conflict ''kubeconfig already set to a different secret''), t)
   \<and> pgcrypto_live ''kek'' t = pgcrypto_live ''kek'' demo_clusters"
  using second_kubeconfig_conflicts [OF demo_clusters_ok(5,3,4) demo_live(2), of 61 "''kek''" "''kubeconfig''" demo_ctx]
    demo_clusters_ok by (simp add: demo_cluster_row_def)

text \<open>Registering a provider credential is all or nothing: on success the
  token is readable through the new credential's reference and nothing else
  changes in the store; on any error no secret is left behind; and a taken
  alias is always an error.\<close>

theorem credential_create_all_or_nothing:
  assumes "pgcrypto_inv s" and "reliable s" and "refs_ok s"
    and "hcs_create (pgcrypto_store secret_refs kek) org alias token ctx s = (r, t)"
  shows "(case r of
            Inr c \<Rightarrow> sr_org (hc_secret_ref c) = org \<and> pgcrypto_live kek s (hc_secret_ref c) = None
              \<and> pgcrypto_live kek t = (pgcrypto_live kek s)(hc_secret_ref c \<mapsto> token)
          | Inl e \<Rightarrow> pgcrypto_live kek t = pgcrypto_live kek s)
    \<and> ((\<exists>x \<in> set (hetzner_credentials s). cr_org x = org \<and> cr_alias x = alias \<and> cr_deleted_at x = None)
        \<longrightarrow> r = Inl (Conflict ''a Hetzner credential with this alias already exists''))"
  using pgcc.create_credential [OF assms] pgcc.create_taken [OF assms(1,2), of org "alias" kek token ctx] assms(4)
  by (auto simp: map_conflict_def)

theorem credential_create_all_or_nothing_witness:
  "let (r, t) = hcs_create (pgcrypto_store secret_refs ''kek'') 1 ''main'' ''tok'' demo_ctx demo_clusters
   in r = Inl (Conflict ''a Hetzner credential with this alias already exists'')
      \<and> pgcrypto_live ''kek'' t = pgcrypto_live ''kek'' demo_clusters"
proof -
  obtain r t where run: "hcs_create (pgcrypto_store secret_refs ''kek'') 1 ''main'' ''tok'' demo_ctx demo_clusters = (r, t)"
    by fastforce
  have "\<exists>x \<in> set (hetzner_credentials demo_clusters). cr_org x = 1 \<and> cr_alias x = ''main'' \<and> cr_deleted_at x = None"
    by code_simp
  with credential_create_all_or_nothing [OF demo_clusters_ok(1,5,4) run] run show ?thesis by auto
qed

text \<open>Destroying a cluster: finalizing a live cluster succeeds, marks its row
  destroyed and deleted so that no read finds it, and a second call answers not
  found. The kubeconfig secret stays in the store: the row still references it,
  the foreign key refuses the deletion and the error is ignored.\<close>

theorem destroy_retires_cluster:
  assumes "pgcrypto_inv s" and "reliable s" and "live_cluster s org i = Some r"
  shows "\<exists>t u. finalize_destroy (pgcrypto_store secret_refs kek) org i ctx s = (Inr (), t)
    \<and> pgcrypto_live kek t = pgcrypto_live kek s \<and> live_cluster t org i = None
    \<and> (\<forall>x \<in> set (clusters t). cl_id x = i \<and> cluster_visible s org x \<longrightarrow>
          cl_status x = Destroyed \<and> cl_deleted_at x \<noteq> None)
    \<and> finalize_destroy (pgcrypto_store secret_refs kek) org i ctx t
        = (Inl (NotFound (''cluster/'' @ pg_uuid_text t i)), u)"
  using pgcc.destroy_keeps_secret [OF assms] .

theorem destroy_retires_cluster_witness:
  "\<exists>t. finalize_destroy (pgcrypto_store secret_refs ''kek'') 1 71 demo_ctx demo_clusters = (Inr (), t)
     \<and> pgcrypto_live ''kek'' t \<lparr>sr_id = 61, sr_org = 1\<rparr> = Some ''kubeconfig'' \<and> live_cluster t 1 71 = None"
proof -
  have "pgcrypto_live ''kek'' demo_clusters \<lparr>sr_id = 61, sr_org = 1\<rparr> = Some ''kubeconfig''" by code_simp
  then show ?thesis
    using destroy_retires_cluster [OF demo_clusters_ok(1,5) demo_live(2), of "''kek''" demo_ctx] by auto
qed

text \<open>Creating a cluster: a request outside the allowlists or the counts the
  service accepts is refused before the database is touched; an accepted
  request names an existing credential and a name no live cluster of the
  organization has, and the created row is pending and can be read back.\<close>

theorem cluster_create_validated:
  assumes "cluster_create org new ctx s = (r, t)"
  shows "(\<forall>e. validate_allowed new = Inl e \<longrightarrow> r = Inl e \<and> t = s)
    \<and> (\<forall>c. r = Inr c \<longrightarrow>
          trim (nc_name new) \<noteq> [] \<and> nc_region new \<in> set ALLOWED_REGIONS
        \<and> nc_server_type new \<in> set ALLOWED_SERVER_TYPES \<and> nc_control_plane_count new = 1
        \<and> 1 \<le> nc_worker_count new \<and> nc_worker_count new \<le> 10
        \<and> nc_credential_id new \<in> cr_id ` set (hetzner_credentials s)
        \<and> \<not> (\<exists>x \<in> set (clusters s). cl_org x = org \<and> cl_name x = nc_name new \<and> cl_deleted_at x = None)
        \<and> c_status c = Pending \<and> c_org c = org \<and> c_name c = nc_name new
        \<and> (\<not> db_faulty t \<longrightarrow> fst (service_get org (c_id c) t) = Inr c))"
proof (cases "validate_allowed new")
  case (Inl e)
  with assms show ?thesis by (auto simp: cluster_create_def bindE_def of_sum_def fail_def)
next
  case (Inr u)
  show ?thesis
  proof (intro conjI allI impI)
    fix c
    assume "r = Inr c"
    then have ins: "cluster_insert org new ctx s = (Inr c, t)"
      using assms Inr by (simp add: cluster_create_def bindE_def of_sum_def ret_def)
    let ?i = "pg_uuid s (pg_uuid_ctr s)"
    from ins have fresh: "\<forall>x \<in> set (clusters s). cl_id x \<noteq> ?i"
      and cred: "nc_credential_id new \<in> cr_id ` set (hetzner_credentials s)"
      and nm: "\<not> (\<exists>x \<in> set (clusters s). cl_org x = org \<and> cl_name x = nc_name new \<and> cl_deleted_at x = None)"
      by (auto simp: cluster_insert_def bindE_eq_Inr new_id_def tx_eq_Inr Let_def split: if_splits)
    from ins obtain row where row: "c = row_to_cluster row" "clusters t = clusters s @ [row]" "cl_id row = ?i"
        "cl_org row = org" "cl_status row = Pending" "cl_name row = nc_name new" "cl_deleted_at row = None"
      by (auto simp: cluster_insert_def bindE_eq_Inr new_id_def tx_eq_Inr Let_def split: if_splits)
    have "find (\<lambda>r. cluster_visible t org r \<and> cl_id r = ?i \<and> cl_deleted_at r = None) (clusters s) = None"
      using fresh by (auto simp: find_None_iff_all)
    then have "live_cluster t org ?i = Some row"
      using row by (simp add: live_cluster_def find_append cluster_visible_def rls_def app_current_tenant_id_def)
    then show "\<not> db_faulty t \<Longrightarrow> fst (service_get org (c_id c) t) = Inr c"
      using row by (simp add: service_get_def cluster_get_run row_to_cluster_def)
    show "nc_credential_id new \<in> cr_id ` set (hetzner_credentials s)"
      "\<not> (\<exists>x \<in> set (clusters s). cl_org x = org \<and> cl_name x = nc_name new \<and> cl_deleted_at x = None)"
      by (fact cred nm)+
    show "c_status c = Pending" "c_org c = org" "c_name c = nc_name new"
      using row by (simp_all add: row_to_cluster_def)
  qed (use Inr in \<open>auto simp: validate_allowed_def split: if_splits\<close>)
qed

theorem cluster_create_validated_witness:
  "(case cluster_create 1 demo_new demo_ctx demo_clusters of (r, t) \<Rightarrow>
      \<exists>c. r = Inr c \<and> c_status c = Pending \<and> fst (service_get 1 (c_id c) t) = Inr c)
   \<and> cluster_create 1 (demo_new\<lparr>nc_worker_count := 11\<rparr>) demo_ctx demo_clusters
       = (Inl (Invalid ''worker_count must be between 1 and 10''), demo_clusters)"
proof -
  obtain r t where run: "cluster_create 1 demo_new demo_ctx demo_clusters = (r, t)" by fastforce
  have "case cluster_create 1 demo_new demo_ctx demo_clusters of (Inr _, t) \<Rightarrow> \<not> db_faulty t | _ \<Rightarrow> False" by code_simp
  with run obtain c where "r = Inr c" "\<not> db_faulty t" by (auto split: sum.splits)
  with cluster_create_validated [OF run] run have 1: "case cluster_create 1 demo_new demo_ctx demo_clusters of (r, t) \<Rightarrow>
      \<exists>c. r = Inr c \<and> c_status c = Pending \<and> fst (service_get 1 (c_id c) t) = Inr c" by simp
  obtain r' t' where run': "cluster_create 1 (demo_new\<lparr>nc_worker_count := 11\<rparr>) demo_ctx demo_clusters = (r', t')" by fastforce
  have "validate_allowed (demo_new\<lparr>nc_worker_count := 11\<rparr>) = Inl (Invalid ''worker_count must be between 1 and 10'')"
    by code_simp
  with cluster_create_validated [OF run'] run' 1 show ?thesis by simp
qed

text \<open>Agent heartbeats: a heartbeat for a live cluster answers with its
  organization and stamps only that row; one for an unknown or deleted cluster
  is an error rather than an empty answer, because the call always yields one
  row and the null in it cannot be decoded.\<close>

theorem heartbeat_answers:
  assumes "\<not> db_faulty s" and "cluster_inv s"
  shows "fst (touch_agent_heartbeat i v s) =
      (case find (\<lambda>r. cl_id r = i \<and> cl_deleted_at r = None) (clusters s) of
         Some r \<Rightarrow> Inr (Some (cl_org r))
       | None \<Rightarrow> Inl (Database (SqlxOther ''error occurred while decoding column 0: unexpected null'')))
    \<and> (\<forall>r. find (\<lambda>r. cl_id r = i \<and> cl_deleted_at r = None) (clusters s) = Some r \<longrightarrow>
         find (\<lambda>r. cl_id r = i \<and> cl_deleted_at r = None) (clusters (snd (touch_agent_heartbeat i v s)))
           = Some (r\<lparr>cl_agent_last_seen_at := Some (now s), cl_agent_version := v, cl_updated_at := now s,
                     cl_version := cl_version r + 1\<rparr>))
    \<and> filter (\<lambda>r. cl_id r \<noteq> i) (clusters (snd (touch_agent_heartbeat i v s))) = filter (\<lambda>r. cl_id r \<noteq> i) (clusters s)"
proof -
  let ?p = "\<lambda>r. cl_id r = i \<and> cl_deleted_at r = None"
  let ?f = "\<lambda>r. r\<lparr>cl_agent_last_seen_at := Some (now s), cl_agent_version := v, cl_updated_at := now s,
                     cl_version := cl_version r + 1\<rparr>"
  have cl: "clusters (snd (touch_agent_heartbeat i v s)) = sql_update ?p ?f (clusters s)"
    using assms(1)
    by (simp add: touch_agent_heartbeat_def bindE_def tx_def db_faulty_def Let_def ret_def fail_def split: option.split)
  have "fst (touch_agent_heartbeat i v s) =
      (case find ?p (clusters s) of Some r \<Rightarrow> Inr (Some (cl_org r))
       | None \<Rightarrow> Inl (Database (SqlxOther ''error occurred while decoding column 0: unexpected null'')))"
    using assms(1)
    by (simp add: touch_agent_heartbeat_def bindE_def tx_def db_faulty_def Let_def ret_def fail_def split: option.split)
  moreover have "find ?p (sql_update ?p ?f (clusters s)) = map_option (\<lambda>r. if ?p r then ?f r else r) (find ?p (clusters s))"
    by (rule find_sql_update) simp
  moreover have "filter (\<lambda>r. cl_id r \<noteq> i) (sql_update ?p ?f (clusters s)) = filter (\<lambda>r. cl_id r \<noteq> i) (clusters s)"
    by (rule filter_sql_update_other) auto
  ultimately show ?thesis unfolding cl by (auto dest: find_Some_iff2)
qed

theorem heartbeat_answers_witness:
  "fst (touch_agent_heartbeat 70 ''1.0'' demo_clusters) = Inr (Some 1)
   \<and> fst (touch_agent_heartbeat 99 ''1.0'' demo_clusters)
       = Inl (Database (SqlxOther ''error occurred while decoding column 0: unexpected null''))"
proof -
  have "\<not> db_faulty demo_clusters" by code_simp
  from heartbeat_answers [OF this demo_clusters_ok(3), of 70 "''1.0''"]
    heartbeat_answers [OF this demo_clusters_ok(3), of 99 "''1.0''"]
  show ?thesis by (simp add: demo_cluster_row_def)
qed

end
