(* ===== verification/Assurance.thy ===== *)
theory Assurance
  imports Cluster
begin

text \<open>
  Two guarantees that span the lower components: the secret stores as
  implementations of one abstract map, and the audit trail that the writes of the
  cluster component leave (\<open>platform/src/secrets.rs\<close>, \<open>platform/src/audit.rs\<close>,
  \<open>migrations/20260424120300_audit_log.sql\<close>).
\<close>

section \<open>The secret stores refine a map\<close>

datatype secret_call = PutSecret uuid string | GetSecret secret_ref | DeleteSecret secret_ref

datatype secret_answer = Handle secret_ref | Plaintext string | Deleted | Refused

fun secret_exec :: "'s secret_ops \<Rightarrow> secret_call \<Rightarrow> 's \<Rightarrow> secret_answer \<times> 's" where
  "secret_exec ops (PutSecret org p) s = (case ss_put ops org p s of (Inr h, t) \<Rightarrow> (Handle h, t) | (Inl _, t) \<Rightarrow> (Refused, t))"
| "secret_exec ops (GetSecret h) s = (case ss_get ops h s of (Inr p, t) \<Rightarrow> (Plaintext p, t) | (Inl _, t) \<Rightarrow> (Refused, t))"
| "secret_exec ops (DeleteSecret h) s = (case ss_delete ops h s of (Inr _, t) \<Rightarrow> (Deleted, t) | (Inl _, t) \<Rightarrow> (Refused, t))"

text \<open>The specification: a partial map from handles to plaintexts. A call may be
  refused while the database is down, a read when nothing is held, and a delete
  when a row still refers to the secret; nothing else may be refused, and a
  refused call changes nothing.\<close>

fun may_refuse :: "(secret_ref \<Rightarrow> string option) \<Rightarrow> (uuid \<Rightarrow> bool) \<Rightarrow> secret_call \<Rightarrow> bool" where
  "may_refuse m pinned (PutSecret _ _) = False"
| "may_refuse m pinned (GetSecret h) = (m h = None)"
| "may_refuse m pinned (DeleteSecret h) = pinned (sr_id h)"

inductive secret_spec ::
    "bool \<Rightarrow> (uuid \<Rightarrow> bool) \<Rightarrow> (secret_ref \<Rightarrow> string option) \<Rightarrow> secret_call \<Rightarrow> secret_answer \<Rightarrow> (secret_ref \<Rightarrow> string option) \<Rightarrow> bool"
  for up :: bool and pinned :: "uuid \<Rightarrow> bool" and m :: "secret_ref \<Rightarrow> string option" where
  spec_put: "m h = None \<Longrightarrow> sr_org h = org \<Longrightarrow> secret_spec up pinned m (PutSecret org p) (Handle h) (m(h \<mapsto> p))"
| spec_get: "m h = Some p \<Longrightarrow> secret_spec up pinned m (GetSecret h) (Plaintext p) m"
| spec_delete: "\<not> (m h \<noteq> None \<and> pinned (sr_id h)) \<Longrightarrow> secret_spec up pinned m (DeleteSecret h) Deleted (m(h := None))"
| spec_refuse: "\<not> up \<or> may_refuse m pinned c \<Longrightarrow> secret_spec up pinned m c Refused m"

inductive_simps secret_spec_simps:
  "secret_spec up pinned m c (Plaintext p) m'" "secret_spec up pinned m c Deleted m'" "secret_spec up pinned m c (Handle h) m'"
  "secret_spec up pinned m c Refused m'"

context secret_store
begin

lemma exec_simulates:
  assumes "inv s" and "secret_exec ops c s = (a, t)"
  shows "inv t \<and> secret_spec (\<not> faulty s) (refd s) (live s) c a (live t)"
proof (cases c)
  case (PutSecret org p)
  show ?thesis
  proof (cases "ss_put ops org p s")
    case (Pair r u)
    with assms PutSecret put_ok [OF assms(1), of org p] put_err [OF assms(1), of org p] put_run [OF assms(1), of org p]
    show ?thesis by (cases r) (auto simp: secret_spec_simps)
  qed
next
  case (GetSecret h)
  show ?thesis
  proof (cases "ss_get ops h s")
    case (Pair r u)
    with assms GetSecret get_keeps [OF assms(1) Pair] get_ok [OF assms(1), of h] get_run [OF assms(1), of h]
    show ?thesis by (cases r; cases "live s h") (auto simp: secret_spec_simps)
  qed
next
  case (DeleteSecret h)
  show ?thesis
  proof (cases "ss_delete ops h s")
    case (Pair r u)
    with assms DeleteSecret del_ok [OF assms(1), of h] del_err [OF assms(1), of h] del_run [OF assms(1), of h] del_refd [OF assms(1), of h]
    show ?thesis by (cases r) (auto simp: secret_spec_simps)
  qed
qed

end



section \<open>The audit trail of the cluster component\<close>

definition audited :: "'z cluster_db_scheme \<Rightarrow> bool" where
  "audited s \<longleftrightarrow> audit_ok s \<and> cluster_inv s"

lemma keeps_audited:
  assumes "keeps cluster_inv m" and "\<And>s. audit_ok s \<Longrightarrow> cluster_inv s \<Longrightarrow> audit_ok (snd (m s))"
  shows "keeps audited m"
  using assms by (auto simp: keeps_def audited_def)

lemma audit_ok_fields [simp]:
  "audit_ok (s\<lparr>pg_uuid_ctr := n\<rparr>) = audit_ok s" "audit_ok (s\<lparr>clusters := cl\<rparr>) = audit_ok s"
  "audit_ok (s\<lparr>cluster_servers := sv\<rparr>) = audit_ok s" "audit_ok (s\<lparr>secrets := sx\<rparr>) = audit_ok s"
  "audit_ok (s\<lparr>rnd_ctr := n\<rparr>) = audit_ok s"
  by (rule audit_ok_cong; simp)+

lemma audit_ok_tx:
  assumes "audit_ok s" and "\<And>a t. m s = (Inr a, t) \<Longrightarrow> audit_ok (tick t)"
  shows "audit_ok (snd (tx e m s))"
  using assms by (auto simp: tx_def audit_ok_tick split: prod.split sum.split)

text \<open>Cluster ids are unique, so an update by id writes at most one audit entry.\<close>

lemma one_hit:
  assumes "cluster_inv s" and "\<And>r. hit r \<Longrightarrow> cl_id r = i"
  shows "length (filter hit (clusters s)) \<le> 1"
proof -
  have "distinct (map cl_id (filter hit (clusters s)))" using assms(1) by (simp add: cluster_inv_def distinct_map_filter)
  moreover have "set (map cl_id (filter hit (clusters s))) \<subseteq> {i}" using assms(2) by auto
  ultimately have "length (map cl_id (filter hit (clusters s))) \<le> card {i}"
    by (metis card_mono distinct_card finite.emptyI finite.insertI)
  then show ?thesis by simp
qed

lemma audit_ok_update:
  assumes "audit_ok s" and "cluster_inv s" and "\<And>r. hit r \<Longrightarrow> cl_id r = i"
  shows "audit_ok (tick (snd (update_clusters ctx hit f s)))"
  unfolding update_clusters_state using one_hit [OF assms(2,3)] assms(1) by (intro audit_ok_rows) simp_all

lemma audited_updates:
  "keeps audited (update_status org i st reason ctx)" "keeps audited (cluster_soft_delete org i ctx)"
  "keeps audited (set_kubeconfig_secret org i sid ctx)" "keeps audited (update_worker_count org i n ctx)"
proof -
  have bind: "audit_ok (snd (bindE m k s))" if "audit_ok (snd (m s))" and "\<And>a u. snd (k a u) = u" for m k and s :: "'z cluster_db_scheme"
    using that by (auto simp: bindE_def split: prod.split sum.split)
  have "audit_ok (snd (update_status org i st reason ctx s))" if "audit_ok s" "cluster_inv s" for s :: "'z cluster_db_scheme"
    unfolding update_status_def
    by (intro bind audit_ok_tx that) (auto simp: update_clusters_eq ret_def fail_def cluster_not_found_def intro!: audit_ok_update [where i = i] that)
  then show "keeps audited (update_status org i st reason ctx)" by (intro keeps_audited update_status_inv)
  have "audit_ok (snd (cluster_soft_delete org i ctx s))" if "audit_ok s" "cluster_inv s" for s :: "'z cluster_db_scheme"
    unfolding cluster_soft_delete_def
    by (intro bind audit_ok_tx that) (auto simp: update_clusters_eq ret_def fail_def cluster_not_found_def intro!: audit_ok_update [where i = i] that)
  then show "keeps audited (cluster_soft_delete org i ctx)" by (intro keeps_audited cluster_soft_delete_inv)
  have "audit_ok (snd (set_kubeconfig_secret org i sid ctx s))" if "audit_ok s" "cluster_inv s" for s :: "'z cluster_db_scheme"
    unfolding set_kubeconfig_secret_def Let_def
    by (intro bind audit_ok_tx that) (auto simp: update_clusters_eq ret_def fail_def split: if_splits intro!: audit_ok_update [where i = i] that)
  then show "keeps audited (set_kubeconfig_secret org i sid ctx)" by (intro keeps_audited set_kubeconfig_secret_inv)
  have "audit_ok (snd (update_worker_count org i n ctx s))" if "audit_ok s" "cluster_inv s" for s :: "'z cluster_db_scheme"
    unfolding update_worker_count_def Let_def
    by (intro bind audit_ok_tx that)
      (auto simp: update_clusters_eq ret_def fail_def cluster_not_found_def split: if_splits intro!: audit_ok_update [where i = i] that)
  then show "keeps audited (update_worker_count org i n ctx)" by (intro keeps_audited update_worker_count_inv)
qed

lemma audited_inserts:
  "keeps audited (cluster_insert org new ctx)" "keeps audited (record_server org i hid role pub priv ctx)"
  "keeps audited (soft_delete_servers org i ctx)" "keeps audited (pgcrypto_put kek org p)" "keeps audited (secret_delete refs h)"
  "keeps audited (kubeconfig_secret org i)" "keeps audited (cluster_get org i)"
proof -
  have "audit_ok (snd (cluster_insert org new ctx s))" if "audit_ok s" for s :: "'z cluster_db_scheme"
    unfolding cluster_insert_def bindE_def new_id_def prod.case sum.case
    by (intro audit_ok_tx) (auto simp: that Let_def split: if_splits intro!: audit_ok_trigger)
  then show "keeps audited (cluster_insert org new ctx)" by (intro keeps_audited cluster_insert_inv)
  show "keeps audited (record_server org i hid role pub priv ctx)"
    by (rule keeps_audited [OF record_server_inv])
      (auto simp: record_server_def bindE_def new_id_def intro!: audit_ok_tx audit_ok_tick split: if_splits)
  show "keeps audited (soft_delete_servers org i ctx)"
    by (rule keeps_audited [OF soft_delete_servers_inv])
      (auto simp: soft_delete_servers_def bindE_def intro!: audit_ok_tx audit_ok_tick split: if_splits)
  show "keeps audited (pgcrypto_put kek org p)"
  proof (rule keeps_audited [OF secret_ops_keep_inv(1)])
    fix s :: "'z cluster_db_scheme"
    assume "audit_ok s"
    moreover have "keeps audit_ok (pgcrypto_put kek org p :: ('z cluster_db_scheme, _, _) op)"
      unfolding pgcrypto_put_def
      by (intro keeps_intros keeps_tx audit_ok_tick) (auto simp: Let_def insert_secret_def split: if_splits)
    ultimately show "audit_ok (snd (pgcrypto_put kek org p s))" by (rule keepsD [rotated])
  qed
  show "keeps audited (secret_delete refs h)"
    by (rule keeps_audited [OF secret_ops_keep_inv(2)])
      (auto simp: secret_delete_def Let_def intro!: audit_ok_tx audit_ok_tick split: if_splits)
  show "keeps audited (kubeconfig_secret org i)" "keeps audited (cluster_get org i)"
    by (auto simp: keeps_def audited_def kubeconfig_secret_def cluster_get_def bindE_def tx_def ret_def cluster_not_found_def
        audit_ok_tick split: option.split)
qed

lemma audited_services:
  "keeps audited (cluster_create org new ctx)" "keeps audited (begin_destroy org i ctx)"
  "keeps audited (store_kubeconfig (pgcrypto_store refs kek) org i k ctx)"
  "keeps audited (finalize_destroy (pgcrypto_store refs kek) org i ctx)"
  unfolding cluster_create_def begin_destroy_def store_kubeconfig_def finalize_destroy_def pgcrypto_store_def secret_ops.select_convs
  by (intro keeps_intros keeps_of_sum audited_updates audited_inserts |
      rule audited_updates audited_inserts | auto split: option.split intro!: keeps_intros audited_inserts)+

lemma audited_exec: "audited s \<Longrightarrow> audited (cluster_exec (pgcrypto_store refs kek) c s)"
  by (cases c) (simp_all add: keepsD audited_services audited_updates audited_inserts)

text \<open>(C9) The audit trail stays verifiable: from a state whose trail verifies, whatever
  sequence of cluster calls follows, by whichever tenants and with whatever
  database failures in between, \<open>verify_chain\<close> reports no broken entry for any
  organization.\<close>

theorem audit_trail_stays_verifiable:
  assumes "audit_ok s" and "cluster_inv s"
  shows "verify_chain org (fold (cluster_exec (pgcrypto_store refs kek)) calls s)
    = (Inr [], fold (cluster_exec (pgcrypto_store refs kek)) calls s)"
proof -
  have "audited s" using assms by (simp add: audited_def)
  then have "audited (fold (cluster_exec (pgcrypto_store refs kek)) calls s)"
    by (induction calls arbitrary: s) (simp_all add: audited_exec)
  then show ?thesis by (simp add: verify_chain_def audited_def audit_ok_def)
qed

theorem audit_trail_stays_verifiable_witness:
  "let t = fold (cluster_exec (pgcrypto_store secret_refs ''kek''))
       [CallCreate 1 demo_new no_audit, CallUpdateStatus 1 70 Failed (Some ''boom'') no_audit, CallFinalizeDestroy 1 71 no_audit] demo_clusters
   in verify_chain 1 t = (Inr [], t) \<and> length (pg_audit t) = 4"
proof -
  let ?cs = "[CallCreate 1 demo_new no_audit, CallUpdateStatus 1 70 Failed (Some ''boom'') no_audit, CallFinalizeDestroy 1 71 no_audit]"
  have "audit_ok demo_clusters"
    by (simp add: audit_ok_def audit_wf_def audit_log_verify_def audit_chain_def demo_clusters_def identity_db.defs cluster_db.defs demo_db_def strict_mono_def)
  moreover have "length (pg_audit (fold (cluster_exec (pgcrypto_store secret_refs ''kek'')) ?cs demo_clusters)) = 4" by code_simp
  ultimately show ?thesis
    using audit_trail_stays_verifiable [of demo_clusters 1 secret_refs "''kek''" ?cs] demo_clusters_ok(3) unfolding Let_def by blast
qed

section \<open>Tampering\<close>



end
