(* ===== verification/Addons.thy ===== *)
theory Addons
  imports Cluster
begin

text \<open>
  The addons crate: the chart catalog (\<open>addons/src/catalog.rs\<close>), the rows of
  \<open>cluster_addons\<close> (\<open>repository.rs\<close>) and the service that checks a request
  against the catalog (\<open>service.rs\<close>).
\<close>

section \<open>Model\<close>

datatype addon_status =
    AddonPending | AddonInstalling | AddonReady | AddonFailed | AddonUninstalling | AddonUninstalled

record addon_row =
  ca_id :: uuid
  ca_org :: uuid
  ca_cluster :: uuid
  ca_addon :: string
  ca_version :: string
  ca_status :: addon_status
  ca_status_reason :: "string option"
  ca_helm_release :: string
  ca_created_at :: timestamp
  ca_updated_at :: timestamp
  ca_deleted_at :: "timestamp option"
  ca_version_lock :: int

record addon_db = cluster_db +
  cluster_addons :: "addon_row list"

lemma addon_frame_tick [simp]:
  "cluster_addons (tick s) = cluster_addons s"
  by (simp_all add: tick_def)

lemma addon_frame_audit [simp]:
  "cluster_addons (audit_log_append_explicit c g a t r d m s) = cluster_addons s"
  by (simp_all add: audit_log_append_explicit_def Let_def)

lemma addon_frame_trigger [simp]:
  "cluster_addons (audit_log_append_trigger c tb v g r s) = cluster_addons s"
  by (simp_all add: audit_log_append_trigger_def)

lemma addon_frame_rows [simp]:
  "cluster_addons (audit_rows c tb v rows s) = cluster_addons s"
  by (induction rows arbitrary: s) (auto simp: audit_rows_Cons)

record cluster_addon =
  ad_id :: uuid
  ad_organization_id :: uuid
  ad_cluster_id :: uuid
  ad_addon :: string
  ad_version :: string
  ad_helm_release :: string
  ad_status :: addon_status
  ad_status_reason :: "string option"
  ad_created_at :: timestamp
  ad_updated_at :: timestamp
  ad_version_lock :: int

record new_addon =
  na_addon :: string
  na_version :: string

section \<open>Catalog\<close>

record addon_spec =
  slug :: string
  chart_repo :: string
  chart_name :: string
  release_name :: string
  namespace :: string
  default_values_yaml :: string

definition nl :: string where
  "nl = [CHR 0x0A]"

definition CATALOG :: "addon_spec list" where
  "CATALOG =
     [\<lparr>slug = ''ingress-nginx'', chart_repo = ''https://kubernetes.github.io/ingress-nginx'',
       chart_name = ''ingress-nginx'', release_name = ''ingress-nginx'', namespace = ''ingress-nginx'',
       default_values_yaml = ''controller:'' @ nl @ ''  replicaCount: 1'' @ nl @ ''  service:'' @ nl
         @ ''    type: NodePort'' @ nl\<rparr>,
      \<lparr>slug = ''cert-manager'', chart_repo = ''https://charts.jetstack.io'',
       chart_name = ''cert-manager'', release_name = ''cert-manager'', namespace = ''cert-manager'',
       default_values_yaml = ''crds:'' @ nl @ ''  enabled: true'' @ nl\<rparr>]"

definition catalog_lookup :: "string \<Rightarrow> platform_error + addon_spec" where
  "catalog_lookup x =
     (case find (\<lambda>a. slug a = x) CATALOG of
        Some a \<Rightarrow> Inr a
      | None \<Rightarrow> Inl (Invalid (''unknown addon: '' @ x)))"

definition slugs :: "string list" where
  "slugs = map slug CATALOG"

section \<open>Repository\<close>

definition row_to_addon :: "addon_row \<Rightarrow> cluster_addon" where
  "row_to_addon r =
     \<lparr>ad_id = ca_id r, ad_organization_id = ca_org r, ad_cluster_id = ca_cluster r, ad_addon = ca_addon r,
      ad_version = ca_version r, ad_helm_release = ca_helm_release r, ad_status = ca_status r,
      ad_status_reason = ca_status_reason r, ad_created_at = ca_created_at r, ad_updated_at = ca_updated_at r,
      ad_version_lock = ca_version_lock r\<rparr>"

definition addon_visible :: "'z addon_db_scheme \<Rightarrow> uuid \<Rightarrow> addon_row \<Rightarrow> bool" where
  "addon_visible s org r \<longleftrightarrow> rls s (Some org) (ca_org r)"

text \<open>The fresh id is drawn before the transaction starts; the code draws it only
  when it inserts, which no caller can tell apart.\<close>

definition addon_upsert ::
    "uuid \<Rightarrow> uuid \<Rightarrow> string \<Rightarrow> string \<Rightarrow> string \<Rightarrow> audit_ctx
      \<Rightarrow> ('z addon_db_scheme, platform_error, cluster_addon) op" where
  "addon_upsert org cl addon version release ctx =
     bindE new_id (\<lambda>i.
     tx Database (\<lambda>s.
       case find (\<lambda>r. addon_visible s org r \<and> ca_cluster r = cl \<and> ca_addon r = addon \<and> ca_deleted_at r = None)
              (cluster_addons s) of
         Some r \<Rightarrow> (Inr (row_to_addon r), s)
       | None \<Rightarrow>
           let row = \<lparr>ca_id = i, ca_org = org, ca_cluster = cl, ca_addon = addon, ca_version = version,
                      ca_status = AddonPending, ca_status_reason = None, ca_helm_release = release,
                      ca_created_at = now s, ca_updated_at = now s, ca_deleted_at = None, ca_version_lock = 1\<rparr> in
           if (\<exists>r \<in> set (cluster_addons s). ca_id r = i \<or>
                 ca_cluster r = cl \<and> ca_addon r = addon \<and> ca_deleted_at r = None)
           then (Inl (Database SqlxUnique), s)
           else if cl \<notin> cl_id ` set (clusters s) then (Inl (Database SqlxForeignKey), s)
           else (Inr (row_to_addon row),
                 audit_rows ctx ''cluster_addons'' ''.created'' [(org, i)]
                   (s\<lparr>cluster_addons := cluster_addons s @ [row]\<rparr>))))"

definition addon_list_for_cluster ::
    "uuid \<Rightarrow> uuid \<Rightarrow> ('z addon_db_scheme, platform_error, cluster_addon list) op" where
  "addon_list_for_cluster org cl =
     tx Database (\<lambda>s.
       (Inr (map row_to_addon (order_desc ca_created_at
          (filter (\<lambda>r. addon_visible s org r \<and> ca_cluster r = cl \<and> ca_deleted_at r = None) (cluster_addons s)))), s))"

definition addon_update_status ::
    "uuid \<Rightarrow> uuid \<Rightarrow> addon_status \<Rightarrow> string option \<Rightarrow> audit_ctx
      \<Rightarrow> ('z addon_db_scheme, platform_error, unit) op" where
  "addon_update_status org i st reason ctx =
     tx Database (\<lambda>s.
       let hit = \<lambda>r. addon_visible s org r \<and> ca_id r = i in
       (Inr (),
        audit_rows ctx ''cluster_addons'' ''.updated''
          (map (\<lambda>r. (ca_org r, ca_id r)) (filter hit (cluster_addons s)))
          (s\<lparr>cluster_addons := sql_update hit
               (\<lambda>r. r\<lparr>ca_status := st, ca_status_reason := reason, ca_updated_at := now s,
                      ca_version_lock := ca_version_lock r + 1\<rparr>) (cluster_addons s)\<rparr>)))"

definition addon_get_by_id ::
    "uuid \<Rightarrow> uuid \<Rightarrow> ('z addon_db_scheme, platform_error, cluster_addon option) op" where
  "addon_get_by_id org i =
     tx Database (\<lambda>s.
       (Inr (map_option row_to_addon
          (find (\<lambda>r. addon_visible s org r \<and> ca_id r = i \<and> ca_deleted_at r = None) (cluster_addons s))), s))"

section \<open>Service\<close>

definition request_install ::
    "uuid \<Rightarrow> uuid \<Rightarrow> new_addon \<Rightarrow> audit_ctx \<Rightarrow> ('z addon_db_scheme, platform_error, cluster_addon) op" where
  "request_install org cl new ctx =
     (if trim (na_version new) = [] then fail (Invalid ''version must not be empty'')
      else bindE (of_sum id (catalog_lookup (na_addon new))) (\<lambda>spec.
        addon_upsert org cl (slug spec) (na_version new) (release_name spec) ctx))"

definition service_list_for_cluster ::
    "uuid \<Rightarrow> uuid \<Rightarrow> ('z addon_db_scheme, platform_error, cluster_addon list) op" where
  "service_list_for_cluster org cl = addon_list_for_cluster org cl"

definition service_get_by_id ::
    "uuid \<Rightarrow> uuid \<Rightarrow> ('z addon_db_scheme, platform_error, cluster_addon option) op" where
  "service_get_by_id org i = addon_get_by_id org i"

definition service_update_status ::
    "uuid \<Rightarrow> uuid \<Rightarrow> addon_status \<Rightarrow> string option \<Rightarrow> audit_ctx
      \<Rightarrow> ('z addon_db_scheme, platform_error, unit) op" where
  "service_update_status org i st reason ctx = addon_update_status org i st reason ctx"

section \<open>Well-formed rows\<close>

definition addon_inv :: "'z addon_db_scheme \<Rightarrow> bool" where
  "addon_inv s \<longleftrightarrow>
     distinct (map ca_id (cluster_addons s))
   \<and> distinct (map (\<lambda>r. (ca_cluster r, ca_addon r)) (filter (\<lambda>r. ca_deleted_at r = None) (cluster_addons s)))
   \<and> ca_cluster ` set (cluster_addons s) \<subseteq> cl_id ` set (clusters s)
   \<and> ca_addon ` set (cluster_addons s) \<subseteq> set slugs"

lemma addon_inv_cong:
  "cluster_addons t = cluster_addons s \<Longrightarrow> cl_id ` set (clusters t) = cl_id ` set (clusters s) \<Longrightarrow> addon_inv t = addon_inv s"
  by (simp add: addon_inv_def)

lemma addon_inv_simps [simp]:
  "addon_inv (tick s) = addon_inv s" "addon_inv (s\<lparr>pg_uuid_ctr := n\<rparr>) = addon_inv s"
  "addon_inv (audit_rows c tb v rows s) = addon_inv s"
  "addon_inv (audit_log_append_trigger c tb v g r s) = addon_inv s"
  by (rule addon_inv_cong; simp)+

lemma addon_upsert_inv: "addon \<in> set slugs \<Longrightarrow> keeps addon_inv (addon_upsert org cl addon ver rel ctx)"
  unfolding addon_upsert_def
  by (intro keeps_intros keeps_tx)
    (auto simp: Let_def addon_inv_def image_iff split: option.splits if_splits)

lemma catalog_slug: "catalog_lookup x = Inr spec \<Longrightarrow> slug spec = x \<and> slug spec \<in> set slugs"
  by (auto simp: catalog_lookup_def slugs_def split: option.splits dest: find_Some_iff2)

lemma request_install_inv: "keeps addon_inv (request_install org cl new ctx)"
proof (cases "catalog_lookup (na_addon new)")
  case (Inl e)
  then show ?thesis by (auto simp: request_install_def keeps_def bindE_def of_sum_def fail_def)
next
  case (Inr spec)
  have sl: "slug spec \<in> set slugs" using catalog_slug [OF Inr] by blast
  show ?thesis
    using Inr by (auto simp: request_install_def keeps_def bindE_def of_sum_def fail_def ret_def
        keepsD [OF addon_upsert_inv [OF sl]])
qed

lemma addon_update_status_inv: "keeps addon_inv (addon_update_status org i st reason ctx)"
proof -
  have "addon_inv (s\<lparr>cluster_addons := sql_update h (\<lambda>r. r\<lparr>ca_status := st, ca_status_reason := reason,
      ca_updated_at := now s, ca_version_lock := ca_version_lock r + 1\<rparr>) (cluster_addons s)\<rparr>)"
    if "addon_inv s" for s :: "'a addon_db_scheme" and h
  proof -
    let ?rows = "sql_update h (\<lambda>r. r\<lparr>ca_status := st, ca_status_reason := reason,
      ca_updated_at := now s, ca_version_lock := ca_version_lock r + 1\<rparr>) (cluster_addons s)"
    have "map ca_id ?rows = map ca_id (cluster_addons s)" "map ca_cluster ?rows = map ca_cluster (cluster_addons s)"
      "map ca_addon ?rows = map ca_addon (cluster_addons s)"
      by (rule map_sql_update_same, simp)+
    moreover from calculation(2,3) have "ca_cluster ` set ?rows = ca_cluster ` set (cluster_addons s)"
      "ca_addon ` set ?rows = ca_addon ` set (cluster_addons s)" by (metis list.set_map)+
    moreover have "distinct (map (\<lambda>r. (ca_cluster r, ca_addon r)) (filter (\<lambda>r. ca_deleted_at r = None) ?rows))"
      using that by (intro distinct_filter_update) (auto simp: addon_inv_def)
    ultimately show ?thesis using that by (simp add: addon_inv_def)
  qed
  then show ?thesis
    unfolding addon_update_status_def by (intro keeps_tx) (auto simp: Let_def)
qed

section \<open>Properties\<close>

definition demo_addons :: addon_db where
  "demo_addons = cluster_db.extend demo_clusters (addon_db.fields [])"

text \<open>Requesting an addon is idempotent per cluster and addon: after a
  successful request, every further request for the same addon of that cluster
  answers with the row that is there, whatever version it asks for and whatever
  status the row has reached meanwhile (also after an uninstall), and inserts
  nothing. Only catalog addons are ever accepted.\<close>

theorem addon_request_idempotent:
  assumes "request_install org cl new ctx s = (Inr a, t)" and "addon_inv s" and "\<not> pg_bypass s"
    and "service_update_status org (ad_id a) st reason ctx t = (Inr (), u)"
    and "na_addon new' = na_addon new" and "trim (na_version new') \<noteq> []" and "\<not> db_faulty u"
  shows "na_addon new \<in> set slugs
    \<and> (\<exists>b v. request_install org cl new' ctx' u = (Inr b, v) \<and> ad_id b = ad_id a \<and> ad_version b = ad_version a
          \<and> ad_status b = st \<and> cluster_addons v = cluster_addons u)"
proof -
  obtain spec where spec: "catalog_lookup (na_addon new) = Inr spec"
      and up: "addon_upsert org cl (slug spec) (na_version new) (release_name spec) ctx s = (Inr a, t)"
    using assms(1)
    by (auto simp: request_install_def bindE_def of_sum_def fail_def ret_def split: if_splits sum.splits)
  let ?p = "\<lambda>r. ca_org r = org \<and> ca_cluster r = cl \<and> ca_addon r = slug spec \<and> ca_deleted_at r = None"
  have rls: "\<And>w o' o''. \<not> pg_bypass w \<Longrightarrow> rls w (Some o') o'' \<longleftrightarrow> o'' = o'" by (rule rls_app_role)
  have bt: "\<not> pg_bypass t"
    using up assms(3)
    by (auto simp: addon_upsert_def bindE_eq_Inr new_id_def tx_eq_Inr Let_def split: option.splits if_splits)
  obtain r where r: "find ?p (cluster_addons t) = Some r" "a = row_to_addon r"
    using up assms(3)
    by (auto simp: addon_upsert_def bindE_eq_Inr new_id_def tx_eq_Inr Let_def addon_visible_def rls find_append
        split: option.splits if_splits)
  have rm: "r \<in> set (cluster_addons t)" "?p r" using find_Some_iff2 [OF r(1)] by auto
  have dist: "distinct (map ca_id (cluster_addons t))"
    using keeps_run [OF request_install_inv assms(2,1)] by (simp add: addon_inv_def)
  let ?f = "\<lambda>r. r\<lparr>ca_status := st, ca_status_reason := reason, ca_updated_at := now t,
                   ca_version_lock := ca_version_lock r + 1\<rparr>"
  let ?hit = "\<lambda>x. addon_visible t org x \<and> ca_id x = ad_id a"
  have u: "cluster_addons u = sql_update ?hit ?f (cluster_addons t)" "pg_bypass u = pg_bypass t"
    using assms(4) by (auto simp: service_update_status_def addon_update_status_def tx_eq_Inr Let_def)
  have "?hit r" using rm r(2) bt by (simp add: addon_visible_def rls row_to_addon_def)
  moreover have "find ?p (sql_update ?hit ?f (cluster_addons t)) = map_option (\<lambda>r. if ?hit r then ?f r else r) (find ?p (cluster_addons t))"
    by (rule find_sql_update) simp
  ultimately have fu: "find ?p (cluster_addons u) = Some (?f r)" using r(1) u(1) by simp
  have "request_install org cl new' ctx' u = addon_upsert org cl (slug spec) (na_version new') (release_name spec) ctx' u"
    using assms(5,6) spec by (simp add: request_install_def bindE_def of_sum_def ret_def)
  also have "\<dots> = (Inr (row_to_addon (?f r)), tick (u\<lparr>pg_uuid_ctr := Suc (pg_uuid_ctr u)\<rparr>))"
    using fu assms(7) bt u(2)
    by (simp add: addon_upsert_def bindE_def new_id_def tx_def db_faulty_def addon_visible_def rls)
  finally show ?thesis
    using catalog_slug [OF spec] r(2) by (auto simp: row_to_addon_def)
qed

theorem addon_request_idempotent_witness:
  "let new = \<lparr>na_addon = ''cert-manager'', na_version = ''1.15''\<rparr>;
       t = snd (request_install 1 70 new demo_ctx demo_addons);
       u = snd (service_update_status 1 100 AddonUninstalled None demo_ctx t)
   in \<exists>b v. request_install 1 70 (new\<lparr>na_version := ''1.16''\<rparr>) demo_ctx u = (Inr b, v)
        \<and> ad_version b = ''1.15'' \<and> ad_status b = AddonUninstalled"
proof -
  let ?new = "\<lparr>na_addon = ''cert-manager'', na_version = ''1.15''\<rparr>"
  let ?t = "snd (request_install 1 70 ?new demo_ctx demo_addons)"
  let ?u = "snd (service_update_status 1 100 AddonUninstalled None demo_ctx ?t)"
  have "case request_install 1 70 ?new demo_ctx demo_addons of (Inr a, _) \<Rightarrow> ad_id a = 100 \<and> ad_version a = ''1.15'' | _ \<Rightarrow> False"
    by code_simp
  then obtain a where a: "request_install 1 70 ?new demo_ctx demo_addons = (Inr a, ?t)" "ad_id a = 100" "ad_version a = ''1.15''"
    by (cases "request_install 1 70 ?new demo_ctx demo_addons") (auto split: sum.splits)
  have b: "fst (service_update_status 1 100 AddonUninstalled None demo_ctx ?t) = Inr ()" by code_simp
  have c: "addon_inv demo_addons" "\<not> pg_bypass demo_addons" "\<not> db_faulty ?u"
    "trim (na_version (?new\<lparr>na_version := ''1.16''\<rparr>)) \<noteq> []" by code_simp+
  have "service_update_status 1 (ad_id a) AddonUninstalled None demo_ctx ?t = (Inr (), ?u)"
    using b a(2) by (metis prod.collapse)
  from addon_request_idempotent [OF a(1) c(1,2) this _ c(4,3), of demo_ctx] show ?thesis
    using a(3) by (auto simp: Let_def)
qed

end
