(* ===== verification/Integrations.thy ===== *)
theory Integrations
  imports Addons
begin

text \<open>
  The integrations crate: the Hetzner Cloud client (\<open>integrations/src/hetzner.rs\<close>)
  and the wrappers that run \<open>ssh\<close>, \<open>helm\<close> and \<open>kubectl\<close> (\<open>ssh.rs\<close>,
  \<open>helm.rs\<close>, \<open>kubectl.rs\<close>). The HTTP service and the child processes are
  functions of the history of interactions, so they may answer anything; every
  interaction is appended to a trace.
\<close>

section \<open>Hetzner types\<close>

text \<open>\<open>ServerId\<close> is an unsigned 64-bit number.\<close>

type_synonym server_id = nat

datatype server_status = ServerReady | ServerInitializing | ServerFailed

record hetzner_server =
  hs_id :: server_id
  hs_status :: server_status
  hs_ipv4 :: "string option"
  hs_private_ipv4 :: "string option"

record create_server_params =
  sp_name :: string
  sp_server_type :: string
  sp_location :: string
  sp_ssh_key :: string
  sp_user_data :: string
  sp_idempotency_key :: uuid

datatype hetzner_error =
    Credential secret_error
  | HetznerTransport string
  | HetznerStatus nat string

record 's hetzner_provider =
  create_server :: "create_server_params \<Rightarrow> ('s, hetzner_error, server_id) op"
  get_server :: "server_id \<Rightarrow> ('s, hetzner_error, hetzner_server) op"
  delete_server :: "server_id \<Rightarrow> ('s, hetzner_error, unit) op"

text \<open>Wire shapes.\<close>

record create_server_body =
  cb_name :: string
  cb_server_type :: string
  cb_location :: string
  cb_image :: string
  cb_ssh_keys :: "string list"
  cb_user_data :: string
  cb_start_after_create :: bool
  cb_labels :: "(string \<times> string) list"

record server_json =
  sj_id :: nat
  sj_status :: string
  sj_ipv4 :: "string option option"
  sj_private_net :: "string option list"

datatype http_method = GET | POST | DELETE

record http_request =
  rq_method :: http_method
  rq_url :: string
  rq_bearer :: string
  rq_body :: "create_server_body option"

text \<open>A response: its status, its text (empty when reading it fails) and the
  result of decoding it as the \<open>server\<close> object.\<close>

record http_response =
  hr_status :: nat
  hr_text :: string
  hr_json :: "string + server_json"

datatype http_outcome = HttpError string | HttpReply http_response

section \<open>Child processes\<close>

record ssh_target =
  st_host :: string
  st_user :: string

datatype ssh_error = SshNonZeroExit int string | SshConnect string | SshTransport string

datatype helm_error = HelmNonZeroExit int string | HelmTransport string | HelmTimeout nat

datatype kubectl_error = KubectlNonZeroExit int string | KubectlTransport string | KubectlTimeout nat

record install_params =
  ip_release :: string
  ip_chart :: string
  ip_repo :: string
  ip_version :: string
  ip_namespace :: string
  ip_values_yaml :: string

record 's ssh_executor =
  ssh_run :: "ssh_target \<Rightarrow> string \<Rightarrow> ('s, ssh_error, string) op"

record 's helm_executor =
  upgrade_install :: "string \<Rightarrow> install_params \<Rightarrow> ('s, helm_error, unit) op"
  uninstall :: "string \<Rightarrow> string \<Rightarrow> string \<Rightarrow> ('s, helm_error, unit) op"

record 's kubectl_executor =
  drain_node :: "string \<Rightarrow> string \<Rightarrow> ('s, kubectl_error, unit) op"
  delete_node :: "string \<Rightarrow> string \<Rightarrow> ('s, kubectl_error, unit) op"

record proc_call =
  pc_bin :: string
  pc_env :: "(string \<times> string) list"
  pc_args :: "string list"

text \<open>\<open>Command::output()\<close> under a timeout: the spawn may fail, the deadline may
  pass, or the child ends with an exit code (absent when a signal ended it).\<close>

datatype proc_outcome =
    SpawnError string | TimedOut | Exited "int option" string string

section \<open>The world\<close>

datatype cluster_event =
    StepEvent string
  | TerminalEvent string "string option"

datatype ext_event =
    EvHttp http_request http_outcome
  | EvProc proc_call proc_outcome
  | EvSleep nat
  | EvPublish uuid cluster_event

text \<open>\<open>fs_write\<close> is the outcome of writing a file: \<open>None\<close>, or the error with the
  part of the file that is left on disk.\<close>

record world = addon_db +
  ext_trace :: "ext_event list"
  http_env :: "ext_event list \<Rightarrow> http_request \<Rightarrow> http_outcome"
  proc_env :: "ext_event list \<Rightarrow> proc_call \<Rightarrow> proc_outcome"
  fs_write :: "ext_event list \<Rightarrow> string \<Rightarrow> (string \<times> string option) option"
  tmp_files :: "(string \<times> string) list"
  temp_dir :: string

lemma world_frame_tick [simp]:
  "ext_trace (tick s) = ext_trace s"
  "http_env (tick s) = http_env s"
  "proc_env (tick s) = proc_env s"
  "fs_write (tick s) = fs_write s"
  "tmp_files (tick s) = tmp_files s"
  "temp_dir (tick s) = temp_dir s"
  by (simp_all add: tick_def)

lemma world_frame_audit [simp]:
  "ext_trace (audit_log_append_explicit c g a t r d m s) = ext_trace s"
  "http_env (audit_log_append_explicit c g a t r d m s) = http_env s"
  "proc_env (audit_log_append_explicit c g a t r d m s) = proc_env s"
  "fs_write (audit_log_append_explicit c g a t r d m s) = fs_write s"
  "tmp_files (audit_log_append_explicit c g a t r d m s) = tmp_files s"
  "temp_dir (audit_log_append_explicit c g a t r d m s) = temp_dir s"
  by (simp_all add: audit_log_append_explicit_def Let_def)

lemma world_frame_trigger [simp]:
  "ext_trace (audit_log_append_trigger c tb v g r s) = ext_trace s"
  "http_env (audit_log_append_trigger c tb v g r s) = http_env s"
  "proc_env (audit_log_append_trigger c tb v g r s) = proc_env s"
  "fs_write (audit_log_append_trigger c tb v g r s) = fs_write s"
  "tmp_files (audit_log_append_trigger c tb v g r s) = tmp_files s"
  "temp_dir (audit_log_append_trigger c tb v g r s) = temp_dir s"
  by (simp_all add: audit_log_append_trigger_def)

lemma world_frame_rows [simp]:
  "ext_trace (audit_rows c tb v rows s) = ext_trace s"
  "http_env (audit_rows c tb v rows s) = http_env s"
  "proc_env (audit_rows c tb v rows s) = proc_env s"
  "fs_write (audit_rows c tb v rows s) = fs_write s"
  "tmp_files (audit_rows c tb v rows s) = tmp_files s"
  "temp_dir (audit_rows c tb v rows s) = temp_dir s"
  by (induction rows arbitrary: s) (auto simp: audit_rows_Cons)

definition emit :: "ext_event \<Rightarrow> 'z world_scheme \<Rightarrow> 'z world_scheme" where
  "emit e s = s\<lparr>ext_trace := ext_trace s @ [e]\<rparr>"

definition sleep :: "nat \<Rightarrow> ('z world_scheme, 'e, unit) op" where
  "sleep secs = liftS (emit (EvSleep secs))"

definition send_request :: "http_request \<Rightarrow> ('z world_scheme, hetzner_error, http_response) op" where
  "send_request rq s =
     (case http_env s (ext_trace s) rq of
        HttpError e \<Rightarrow> (Inl (HetznerTransport e), emit (EvHttp rq (HttpError e)) s)
      | HttpReply r \<Rightarrow> (Inr r, emit (EvHttp rq (HttpReply r)) s))"

definition run_process :: "proc_call \<Rightarrow> ('z world_scheme, 'e, proc_outcome) op" where
  "run_process pc s =
     (let out = proc_env s (ext_trace s) pc in (Inr out, emit (EvProc pc out) s))"

definition write_file :: "string \<Rightarrow> string \<Rightarrow> ('z world_scheme, string, unit) op" where
  "write_file path content s =
     (case fs_write s (ext_trace s) path of
        None \<Rightarrow> (Inr (), s\<lparr>tmp_files := (path, content) # filter (\<lambda>f. fst f \<noteq> path) (tmp_files s)\<rparr>)
      | Some (err, left) \<Rightarrow>
          (Inl err, s\<lparr>tmp_files := (case left of None \<Rightarrow> [] | Some part \<Rightarrow> [(path, part)])
                                 @ filter (\<lambda>f. fst f \<noteq> path) (tmp_files s)\<rparr>))"

definition remove_file :: "string \<Rightarrow> ('z world_scheme, 'e, unit) op" where
  "remove_file path s = (Inr (), s\<lparr>tmp_files := filter (\<lambda>f. fst f \<noteq> path) (tmp_files s)\<rparr>)"

section \<open>Hetzner client\<close>

definition HETZNER_API_BASE :: string where
  "HETZNER_API_BASE = ''https://api.hetzner.cloud/v1''"

text \<open>The three bytes of the ellipsis.\<close>

definition truncate_str :: "string \<Rightarrow> nat \<Rightarrow> string" where
  "truncate_str x n = (if length x \<le> n then x else take n x @ [CHR 0xE2, CHR 0x80, CHR 0xA6])"

definition is_success :: "nat \<Rightarrow> bool" where
  "is_success code \<longleftrightarrow> 200 \<le> code \<and> code < 300"

definition resolve_token ::
    "'z world_scheme secret_ops \<Rightarrow> secret_ref \<Rightarrow> ('z world_scheme, hetzner_error, string) op" where
  "resolve_token store handle = map_err Credential (ss_get store handle)"

definition get_json ::
    "'z world_scheme secret_ops \<Rightarrow> secret_ref \<Rightarrow> string \<Rightarrow> ('z world_scheme, hetzner_error, server_json) op" where
  "get_json store handle path =
     bindE (resolve_token store handle) (\<lambda>token.
     bindE (send_request \<lparr>rq_method = GET, rq_url = HETZNER_API_BASE @ path, rq_bearer = token, rq_body = None\<rparr>) (\<lambda>r.
     if \<not> is_success (hr_status r) then fail (HetznerStatus (hr_status r) (truncate_str (hr_text r) 512))
     else of_sum HetznerTransport (hr_json r)))"

definition post_json ::
    "'z world_scheme secret_ops \<Rightarrow> secret_ref \<Rightarrow> string \<Rightarrow> create_server_body
      \<Rightarrow> ('z world_scheme, hetzner_error, server_json) op" where
  "post_json store handle path body =
     bindE (resolve_token store handle) (\<lambda>token.
     bindE (send_request \<lparr>rq_method = POST, rq_url = HETZNER_API_BASE @ path, rq_bearer = token, rq_body = Some body\<rparr>) (\<lambda>r.
     if \<not> is_success (hr_status r) then fail (HetznerStatus (hr_status r) (truncate_str (hr_text r) 512))
     else of_sum HetznerTransport (hr_json r)))"

definition delete_path ::
    "'z world_scheme secret_ops \<Rightarrow> secret_ref \<Rightarrow> string \<Rightarrow> ('z world_scheme, hetzner_error, unit) op" where
  "delete_path store handle path =
     bindE (resolve_token store handle) (\<lambda>token.
     bindE (send_request \<lparr>rq_method = DELETE, rq_url = HETZNER_API_BASE @ path, rq_bearer = token, rq_body = None\<rparr>) (\<lambda>r.
     if \<not> is_success (hr_status r) then fail (HetznerStatus (hr_status r) (truncate_str (hr_text r) 512))
     else ret ()))"

definition find_map :: "('a \<Rightarrow> 'b option) \<Rightarrow> 'a list \<Rightarrow> 'b option" where
  "find_map f xs = (case List.map_filter f xs of [] \<Rightarrow> None | y # _ \<Rightarrow> Some y)"

definition into_view :: "server_json \<Rightarrow> hetzner_server" where
  "into_view j =
     \<lparr>hs_id = sj_id j,
      hs_status =
        (if sj_status j = ''running'' then ServerReady
         else if sj_status j \<in> {''starting'', ''initializing'', ''off'', ''rebuilding''} then ServerInitializing
         else ServerFailed),
      hs_ipv4 = (case sj_ipv4 j of None \<Rightarrow> None | Some v \<Rightarrow> v),
      hs_private_ipv4 = find_map id (sj_private_net j)\<rparr>"

definition client_create_server ::
    "'z world_scheme secret_ops \<Rightarrow> secret_ref \<Rightarrow> create_server_params
      \<Rightarrow> ('z world_scheme, hetzner_error, server_id) op" where
  "client_create_server store handle params s =
     (let body = \<lparr>cb_name = sp_name params, cb_server_type = sp_server_type params,
                  cb_location = sp_location params, cb_image = ''debian-12'',
                  cb_ssh_keys = [sp_ssh_key params], cb_user_data = sp_user_data params,
                  cb_start_after_create = True,
                  cb_labels = [(''kubinate.idempotency_key'', pg_uuid_text s (sp_idempotency_key params))]\<rparr>
      in bindE (post_json store handle ''/servers'' body) (\<lambda>j. ret (sj_id j)) s)"

definition server_path :: "server_id \<Rightarrow> string" where
  "server_path i = ''/servers/'' @ show_nat i"

definition client_get_server ::
    "'z world_scheme secret_ops \<Rightarrow> secret_ref \<Rightarrow> server_id
      \<Rightarrow> ('z world_scheme, hetzner_error, hetzner_server) op" where
  "client_get_server store handle i =
     bindE (get_json store handle (server_path i)) (\<lambda>j. ret (into_view j))"

definition client_delete_server ::
    "'z world_scheme secret_ops \<Rightarrow> secret_ref \<Rightarrow> server_id \<Rightarrow> ('z world_scheme, hetzner_error, unit) op" where
  "client_delete_server store handle i = delete_path store handle (server_path i)"

definition hetzner_client ::
    "'z world_scheme secret_ops \<Rightarrow> secret_ref \<Rightarrow> 'z world_scheme hetzner_provider" where
  "hetzner_client store handle =
     \<lparr>create_server = client_create_server store handle, get_server = client_get_server store handle,
      delete_server = client_delete_server store handle\<rparr>"

section \<open>OpenSSH executor\<close>

record openssh_executor =
  identity_file :: "string option"
  command_timeout :: nat
  connect_retries :: nat
  connect_backoff :: nat

definition openssh_new :: "string option \<Rightarrow> openssh_executor" where
  "openssh_new key = \<lparr>identity_file = key, command_timeout = 300, connect_retries = 6, connect_backoff = 10\<rparr>"

definition ssh_build_command :: "openssh_executor \<Rightarrow> ssh_target \<Rightarrow> string \<Rightarrow> proc_call" where
  "ssh_build_command cfg target command =
     \<lparr>pc_bin = ''ssh'', pc_env = [],
      pc_args = [''-o'', ''BatchMode=yes'', ''-o'', ''StrictHostKeyChecking=accept-new'',
                 ''-o'', ''UserKnownHostsFile=/tmp/kubinate-known-hosts'',
                 ''-o'', ''ConnectTimeout='' @ show_nat 30, ''-o'', ''ServerAliveInterval=30'']
        @ (case identity_file cfg of Some key \<Rightarrow> [''-i'', key] | None \<Rightarrow> [])
        @ [st_user target @ ''@'' @ st_host target, ''--'', command]\<rparr>"

definition exit_code :: "int option \<Rightarrow> int" where
  "exit_code code = (case code of Some c \<Rightarrow> c | None \<Rightarrow> - 1)"

definition is_transport :: "int \<Rightarrow> string \<Rightarrow> bool" where
  "is_transport code stderr \<longleftrightarrow> code = 255 \<or> contains_str stderr ''Connection refused''
     \<or> contains_str stderr ''kex_exchange_identification'' \<or> contains_str stderr ''Connection timed out''
     \<or> contains_str stderr ''Connection closed by''"

text \<open>The loop \<open>for attempt in 0..=connect_retries\<close>; the second argument counts the
  rounds left after this one, so \<open>attempt < connect_retries\<close> is that it is not
  zero.\<close>

fun openssh_attempt ::
    "openssh_executor \<Rightarrow> nat \<Rightarrow> ssh_target \<Rightarrow> string \<Rightarrow> ('z world_scheme, ssh_error, string) op" where
  "openssh_attempt cfg left target command s =
     (case run_process (ssh_build_command cfg target command) s of
        (Inl e, s1) \<Rightarrow> (Inl e, s1)
      | (Inr (SpawnError e), s1) \<Rightarrow> (Inl (SshTransport (''spawn ssh: '' @ e)), s1)
      | (Inr TimedOut, s1) \<Rightarrow>
          (Inl (SshTransport (''ssh command timed out after '' @ show_nat (command_timeout cfg) @ ''s'')), s1)
      | (Inr (Exited code out err), s1) \<Rightarrow>
          if code = Some 0 then (Inr out, s1)
          else if is_transport (exit_code code) err
          then (case left of
                  0 \<Rightarrow> (Inl (SshConnect err), s1)
                | Suc left' \<Rightarrow>
                    openssh_attempt cfg left' target command (snd (sleep (connect_backoff cfg) s1 :: (unit + unit) \<times> 'z world_scheme)))
          else (Inl (SshNonZeroExit (exit_code code) (take 2048 err)), s1))"

definition openssh_run ::
    "openssh_executor \<Rightarrow> ssh_target \<Rightarrow> string \<Rightarrow> ('z world_scheme, ssh_error, string) op" where
  "openssh_run cfg target command = openssh_attempt cfg (connect_retries cfg) target command"

definition openssh_ssh :: "openssh_executor \<Rightarrow> 'z world_scheme ssh_executor" where
  "openssh_ssh cfg = \<lparr>ssh_run = openssh_run cfg\<rparr>"

section \<open>Helm executor\<close>

record helm_cli =
  helm_path :: "string option"
  helm_timeout :: nat

definition helm_new :: "string option \<Rightarrow> helm_cli" where
  "helm_new p = \<lparr>helm_path = p, helm_timeout = 300\<rparr>"

definition helm_bin :: "helm_cli \<Rightarrow> string" where
  "helm_bin cfg = (case helm_path cfg of Some p \<Rightarrow> p | None \<Rightarrow> ''helm'')"

definition helm_outcome :: "helm_cli \<Rightarrow> proc_outcome \<Rightarrow> helm_error + (int option \<times> string)" where
  "helm_outcome cfg out =
     (case out of
        SpawnError e \<Rightarrow> Inl (HelmTransport (''spawn helm: '' @ e))
      | TimedOut \<Rightarrow> Inl (HelmTimeout (helm_timeout cfg))
      | Exited code _ err \<Rightarrow> Inr (code, err))"

definition cli_upgrade_install ::
    "helm_cli \<Rightarrow> string \<Rightarrow> install_params \<Rightarrow> ('z world_scheme, helm_error, unit) op" where
  "cli_upgrade_install cfg kubeconfig params =
     bindE new_id (\<lambda>vid.
     bindE (getS (\<lambda>s. temp_dir s @ ''/kubinate-helm-'' @ pg_uuid_text s vid @ ''.yaml'')) (\<lambda>values_path.
     bindE (if ip_values_yaml params \<noteq> []
            then map_err (\<lambda>e. HelmTransport (''write values: '' @ e)) (write_file values_path (ip_values_yaml params))
            else ret ()) (\<lambda>_.
     bindE (run_process
       \<lparr>pc_bin = helm_bin cfg, pc_env = [(''KUBECONFIG'', kubeconfig)],
        pc_args = [''upgrade'', ''--install'', ip_release params, ip_chart params, ''--repo'', ip_repo params,
                   ''--version'', ip_version params, ''--namespace'', ip_namespace params,
                   ''--create-namespace'', ''--wait'', ''--timeout'', ''5m'']
          @ (if ip_values_yaml params \<noteq> [] then [''--values'', values_path] else [])\<rparr>) (\<lambda>result.
     bindE (remove_file values_path) (\<lambda>_.
     bindE (of_sum id (helm_outcome cfg result)) (\<lambda>(code, err).
     if code = Some 0 then ret () else fail (HelmNonZeroExit (exit_code code) (take 2048 err))))))))"

definition cli_uninstall ::
    "helm_cli \<Rightarrow> string \<Rightarrow> string \<Rightarrow> string \<Rightarrow> ('z world_scheme, helm_error, unit) op" where
  "cli_uninstall cfg kubeconfig release ns =
     bindE (run_process
       \<lparr>pc_bin = helm_bin cfg, pc_env = [(''KUBECONFIG'', kubeconfig)],
        pc_args = [''uninstall'', release, ''--namespace'', ns, ''--wait'', ''--timeout'', ''5m'']\<rparr>) (\<lambda>result.
     bindE (of_sum id (helm_outcome cfg result)) (\<lambda>(code, err).
     if code = Some 0 then ret ()
     else if contains_str err ''release: not found'' then ret ()
     else fail (HelmNonZeroExit (exit_code code) (take 2048 err))))"

definition helm_cli_executor :: "helm_cli \<Rightarrow> 'z world_scheme helm_executor" where
  "helm_cli_executor cfg = \<lparr>upgrade_install = cli_upgrade_install cfg, uninstall = cli_uninstall cfg\<rparr>"

text \<open>\<open>Display\<close> of a Helm error.\<close>

definition helm_error_text :: "helm_error \<Rightarrow> string" where
  "helm_error_text e =
     (case e of
        HelmNonZeroExit code err \<Rightarrow> ''helm command failed (exit '' @ show_int code @ ''): '' @ err
      | HelmTransport x \<Rightarrow> ''spawn helm: '' @ x
      | HelmTimeout n \<Rightarrow> ''helm timed out after '' @ show_nat n @ ''s'')"

section \<open>Kubectl executor\<close>

record kubectl_cli =
  kubectl_path :: "string option"
  kubectl_timeout :: nat

definition kubectl_new :: "string option \<Rightarrow> kubectl_cli" where
  "kubectl_new p = \<lparr>kubectl_path = p, kubectl_timeout = 240\<rparr>"

definition kubectl_build_command :: "kubectl_cli \<Rightarrow> string \<Rightarrow> string list \<Rightarrow> proc_call" where
  "kubectl_build_command cfg kubeconfig args =
     \<lparr>pc_bin = (case kubectl_path cfg of Some p \<Rightarrow> p | None \<Rightarrow> ''kubectl''),
      pc_env = [(''KUBECONFIG'', kubeconfig)], pc_args = args\<rparr>"

definition kubectl_run ::
    "kubectl_cli \<Rightarrow> proc_call \<Rightarrow> bool \<Rightarrow> ('z world_scheme, kubectl_error, unit) op" where
  "kubectl_run cfg cmd ignore_not_found =
     bindE (run_process cmd) (\<lambda>result.
     case result of
       SpawnError e \<Rightarrow> fail (KubectlTransport (''spawn kubectl: '' @ e))
     | TimedOut \<Rightarrow> fail (KubectlTimeout (kubectl_timeout cfg))
     | Exited code _ err \<Rightarrow>
         if code = Some 0 then ret ()
         else if ignore_not_found \<and> (contains_str err ''NotFound'' \<or> contains_str err ''not found'') then ret ()
         else fail (KubectlNonZeroExit (exit_code code) (take 2048 err)))"

definition cli_drain_node ::
    "kubectl_cli \<Rightarrow> string \<Rightarrow> string \<Rightarrow> ('z world_scheme, kubectl_error, unit) op" where
  "cli_drain_node cfg kubeconfig node =
     kubectl_run cfg (kubectl_build_command cfg kubeconfig
       [''drain'', node, ''--ignore-daemonsets'', ''--delete-emptydir-data'', ''--force'', ''--timeout=180s'']) True"

definition cli_delete_node ::
    "kubectl_cli \<Rightarrow> string \<Rightarrow> string \<Rightarrow> ('z world_scheme, kubectl_error, unit) op" where
  "cli_delete_node cfg kubeconfig node =
     kubectl_run cfg (kubectl_build_command cfg kubeconfig [''delete'', ''node'', node]) True"

definition kubectl_cli_executor :: "kubectl_cli \<Rightarrow> 'z world_scheme kubectl_executor" where
  "kubectl_cli_executor cfg = \<lparr>drain_node = cli_drain_node cfg, delete_node = cli_delete_node cfg\<rparr>"

end
