(* ===== verification/Workflows.thy ===== *)
theory Workflows
  imports Integrations
begin

text \<open>
  The workflows crate: the activities (\<open>workflows/src/activities.rs\<close>) and the
  workflow functions that compose them (\<open>workflows.rs\<close>). They take their
  dependencies as arguments and run on any state; the runner instantiates them
  with the clients of the integrations crate.
\<close>

section \<open>Activities\<close>

datatype activity_error =
    ActHetzner hetzner_error
  | ActSsh ssh_error
  | ActHelm helm_error
  | ActKubectl kubectl_error
  | CloudInitTimeout nat
  | ActOther string

definition is_retryable :: "activity_error \<Rightarrow> bool" where
  "is_retryable e =
     (case e of
        ActHetzner (HetznerTransport _) \<Rightarrow> True
      | ActSsh (SshConnect _) \<Rightarrow> True
      | ActSsh (SshTransport _) \<Rightarrow> True
      | ActHetzner (HetznerStatus status _) \<Rightarrow> status \<in> {408, 425, 429, 500, 502, 503, 504}
      | _ \<Rightarrow> False)"

definition CLOUD_INIT_MAX_ATTEMPTS :: nat where
  "CLOUD_INIT_MAX_ATTEMPTS = 60"

definition CLOUD_INIT_POLL_INTERVAL :: nat where
  "CLOUD_INIT_POLL_INTERVAL = 5"

text \<open>What the activities use of their surroundings besides the injected clients:
  the text form of a UUID, the name-based UUID of a text in the URL namespace,
  and the runtime's sleep.\<close>

record 's runtime =
  rt_uuid_text :: "uuid \<Rightarrow> string"
  rt_uuid_v5 :: "string \<Rightarrow> uuid"
  rt_sleep :: "nat \<Rightarrow> 's \<Rightarrow> 's"

definition hetzner_delete_server_idempotent ::
    "'s hetzner_provider \<Rightarrow> server_id \<Rightarrow> ('s, activity_error, unit) op" where
  "hetzner_delete_server_idempotent prov i s =
     (case delete_server prov i s of
        (Inr _, t) \<Rightarrow> (Inr (), t)
      | (Inl (HetznerStatus status body), t) \<Rightarrow>
          if status = 404 then (Inr (), t) else (Inl (ActHetzner (HetznerStatus status body)), t)
      | (Inl e, t) \<Rightarrow> (Inl (ActHetzner e), t))"

definition hetzner_create_server ::
    "'s hetzner_provider \<Rightarrow> create_server_params \<Rightarrow> ('s, activity_error, server_id) op" where
  "hetzner_create_server prov params = map_err ActHetzner (create_server prov params)"

text \<open>\<open>{server_id:?}\<close>.\<close>

definition show_server_id :: "server_id \<Rightarrow> string" where
  "show_server_id i = ''ServerId('' @ show_nat i @ '')''"

text \<open>The poll loop; the first argument is the number of rounds left.\<close>

fun cloud_init_poll ::
    "nat \<Rightarrow> 's runtime \<Rightarrow> 's hetzner_provider \<Rightarrow> server_id \<Rightarrow> ('s, activity_error, hetzner_server) op" where
  "cloud_init_poll 0 rt prov i s = (Inl (CloudInitTimeout CLOUD_INIT_MAX_ATTEMPTS), s)"
| "cloud_init_poll (Suc n) rt prov i s =
     (case get_server prov i s of
        (Inl e, t) \<Rightarrow> (Inl (ActHetzner e), t)
      | (Inr server, t) \<Rightarrow>
          (case hs_status server of
             ServerReady \<Rightarrow> (Inr server, t)
           | ServerFailed \<Rightarrow>
               (Inl (ActOther (''server '' @ show_server_id i @ '' reported Failed status during boot'')), t)
           | ServerInitializing \<Rightarrow> cloud_init_poll n rt prov i (rt_sleep rt CLOUD_INIT_POLL_INTERVAL t)))"

definition wait_for_cloud_init ::
    "'s runtime \<Rightarrow> 's hetzner_provider \<Rightarrow> server_id \<Rightarrow> ('s, activity_error, hetzner_server) op" where
  "wait_for_cloud_init = cloud_init_poll CLOUD_INIT_MAX_ATTEMPTS"

text \<open>\<open>str::replace\<close> with a non-empty pattern.\<close>

fun replace_str :: "string \<Rightarrow> string \<Rightarrow> string \<Rightarrow> string" where
  "replace_str p r [] = []"
| "replace_str p r (c # cs) =
     (if p \<noteq> [] \<and> starts_with (c # cs) p then r @ replace_str p r (drop (length p - 1) cs)
      else c # replace_str p r cs)"

definition quote :: char where
  "quote = CHR 0x27"

definition shell_escape :: "string \<Rightarrow> string" where
  "shell_escape value =
     [quote] @ replace_str [quote] [quote, CHR 0x5C, quote, quote] value @ [quote]"

definition ssh_install_k3s_server ::
    "'s ssh_executor \<Rightarrow> ssh_target \<Rightarrow> string \<Rightarrow> ('s, activity_error, string) op" where
  "ssh_install_k3s_server ssh target version =
     bindE (map_err ActSsh (ssh_run ssh target
       (''k3sup install --local --k3s-version '' @ shell_escape version))) (\<lambda>_.
     bindE (map_err ActSsh (ssh_run ssh target ''sudo cat /var/lib/rancher/k3s/server/node-token'')) (\<lambda>token.
     ret (trim token)))"

definition ssh_install_k3s_agent ::
    "'s ssh_executor \<Rightarrow> ssh_target \<Rightarrow> string \<Rightarrow> string \<Rightarrow> string \<Rightarrow> ('s, activity_error, unit) op" where
  "ssh_install_k3s_agent ssh worker cp_ip token version =
     bindE (map_err ActSsh (ssh_run ssh worker
       (''k3sup join --server-ip '' @ shell_escape cp_ip @ '' --k3s-version '' @ shell_escape version
        @ '' --token '' @ shell_escape token))) (\<lambda>_. ret ())"

definition local_endpoint :: string where
  "local_endpoint = ''https://127.0.0.1:6443''"

definition collect_kubeconfig ::
    "'s ssh_executor \<Rightarrow> ssh_target \<Rightarrow> string \<Rightarrow> ('s, activity_error, string) op" where
  "collect_kubeconfig ssh cp endpoint =
     bindE (map_err ActSsh (ssh_run ssh cp ''sudo cat /etc/rancher/k3s/k3s.yaml'')) (\<lambda>raw.
     ret (replace_str local_endpoint endpoint raw))"

definition kubectl_drain_node ::
    "'s kubectl_executor \<Rightarrow> string \<Rightarrow> string \<Rightarrow> ('s, activity_error, unit) op" where
  "kubectl_drain_node kubectl path node = map_err ActKubectl (drain_node kubectl path node)"

definition kubectl_delete_node ::
    "'s kubectl_executor \<Rightarrow> string \<Rightarrow> string \<Rightarrow> ('s, activity_error, unit) op" where
  "kubectl_delete_node kubectl path node = map_err ActKubectl (delete_node kubectl path node)"

definition helm_install_chart ::
    "'s helm_executor \<Rightarrow> string \<Rightarrow> install_params \<Rightarrow> ('s, activity_error, unit) op" where
  "helm_install_chart helm path params = map_err ActHelm (upgrade_install helm path params)"

definition control_plane_params ::
    "uuid \<Rightarrow> string \<Rightarrow> string \<Rightarrow> string \<Rightarrow> string \<Rightarrow> string \<Rightarrow> create_server_params" where
  "control_plane_params cluster_id name server_type location ssh_key user_data =
     \<lparr>sp_name = name @ ''-cp-01'', sp_server_type = server_type, sp_location = location,
      sp_ssh_key = ssh_key, sp_user_data = user_data, sp_idempotency_key = cluster_id\<rparr>"

definition worker_params ::
    "'s runtime \<Rightarrow> uuid \<Rightarrow> string \<Rightarrow> nat \<Rightarrow> string \<Rightarrow> string \<Rightarrow> string \<Rightarrow> string \<Rightarrow> create_server_params" where
  "worker_params rt cluster_id name index server_type location ssh_key user_data =
     \<lparr>sp_name = name @ ''-worker-'' @ show_pad2 index, sp_server_type = server_type, sp_location = location,
      sp_ssh_key = ssh_key, sp_user_data = user_data,
      sp_idempotency_key = rt_uuid_v5 rt (''kubinate.worker:'' @ rt_uuid_text rt cluster_id @ '':'' @ show_nat index)\<rparr>"

section \<open>Workflows\<close>

record provision_cluster_input =
  pi_cluster_id :: uuid
  pi_cluster_name :: string
  pi_location :: string
  pi_server_type :: string
  pi_worker_count :: nat
  pi_ssh_key :: string
  pi_user_data :: string
  pi_k3s_version :: string

record provision_cluster_output =
  po_control_plane :: hetzner_server
  po_workers :: "hetzner_server list"
  po_kubeconfig :: string

text \<open>\<open>ProgressSink\<close>: a step report cannot fail.\<close>

record 's progress_sink =
  sink_step :: "string \<Rightarrow> 's \<Rightarrow> 's"

record 's provision_deps =
  pd_hetzner :: "'s hetzner_provider"
  pd_ssh :: "'s ssh_executor"
  pd_progress :: "'s progress_sink"

definition report :: "'s progress_sink \<Rightarrow> string \<Rightarrow> ('s, 'e, unit) op" where
  "report sink st = liftS (sink_step sink st)"

definition ssh_target_of :: "hetzner_server \<Rightarrow> ('s, activity_error, ssh_target) op" where
  "ssh_target_of server =
     (case hs_ipv4 server of
        None \<Rightarrow> fail (ActOther (''server '' @ show_server_id (hs_id server) @ '' reported Ready but has no IPv4''))
      | Some host \<Rightarrow> ret \<lparr>st_host = host, st_user = ''kubinate''\<rparr>)"

definition opt_or :: "'a option \<Rightarrow> 'a \<Rightarrow> 'a" where
  "opt_or v d = (case v of Some x \<Rightarrow> x | None \<Rightarrow> d)"

definition provision_cluster ::
    "'s runtime \<Rightarrow> 's provision_deps \<Rightarrow> provision_cluster_input
      \<Rightarrow> ('s, activity_error, provision_cluster_output) op" where
  "provision_cluster rt deps input =
     bindE (report (pd_progress deps) ''creating_control_plane'') (\<lambda>_.
     bindE (hetzner_create_server (pd_hetzner deps)
       (control_plane_params (pi_cluster_id input) (pi_cluster_name input) (pi_server_type input)
          (pi_location input) (pi_ssh_key input) (pi_user_data input))) (\<lambda>cp_id.
     bindE (report (pd_progress deps) ''waiting_cloud_init_cp'') (\<lambda>_.
     bindE (wait_for_cloud_init rt (pd_hetzner deps) cp_id) (\<lambda>cp_server.
     bindE (ssh_target_of cp_server) (\<lambda>cp_target.
     bindE (report (pd_progress deps) ''installing_k3s_server'') (\<lambda>_.
     bindE (ssh_install_k3s_server (pd_ssh deps) cp_target (pi_k3s_version input)) (\<lambda>join_token.
     bindE (report (pd_progress deps) ''creating_workers'') (\<lambda>_.
     bindE (collectE (\<lambda>index. hetzner_create_server (pd_hetzner deps)
       (worker_params rt (pi_cluster_id input) (pi_cluster_name input) index (pi_server_type input)
          (pi_location input) (pi_ssh_key input) (pi_user_data input))) [0..<pi_worker_count input]) (\<lambda>worker_ids.
     bindE (report (pd_progress deps) ''waiting_cloud_init_workers'') (\<lambda>_.
     bindE (collectE (wait_for_cloud_init rt (pd_hetzner deps)) worker_ids) (\<lambda>worker_servers.
     bindE (report (pd_progress deps) ''installing_k3s_agents'') (\<lambda>_.
     bindE (forE (\<lambda>worker. bindE (ssh_target_of worker) (\<lambda>target.
       ssh_install_k3s_agent (pd_ssh deps) target
         (opt_or (hs_private_ipv4 cp_server) (opt_or (hs_ipv4 cp_server) ''0.0.0.0''))
         join_token (pi_k3s_version input))) worker_servers) (\<lambda>_.
     bindE (report (pd_progress deps) ''collecting_kubeconfig'') (\<lambda>_.
     bindE (collect_kubeconfig (pd_ssh deps) cp_target
       (''https://'' @ opt_or (hs_ipv4 cp_server) ''0.0.0.0'' @ '':6443'')) (\<lambda>kubeconfig.
     bindE (report (pd_progress deps) ''done'') (\<lambda>_.
     ret \<lparr>po_control_plane = cp_server, po_workers = worker_servers, po_kubeconfig = kubeconfig\<rparr>))))))))))))))))"

record destroy_cluster_input =
  di_cluster_id :: uuid
  di_server_ids :: "server_id list"

record 's destroy_deps =
  dd_hetzner :: "'s hetzner_provider"
  dd_progress :: "'s progress_sink"

definition destroy_cluster ::
    "'s destroy_deps \<Rightarrow> destroy_cluster_input \<Rightarrow> ('s, activity_error, unit) op" where
  "destroy_cluster deps input =
     bindE (report (dd_progress deps) ''destroying_servers'') (\<lambda>_.
     bindE (forE (hetzner_delete_server_idempotent (dd_hetzner deps)) (di_server_ids input)) (\<lambda>_.
     bindE (report (dd_progress deps) ''done'') (\<lambda>_. ret ())))"

record install_addon_input =
  ii_params :: install_params
  ii_kubeconfig_path :: string

record 's install_addon_deps =
  id_helm :: "'s helm_executor"
  id_progress :: "'s progress_sink"

definition install_addon ::
    "'s install_addon_deps \<Rightarrow> install_addon_input \<Rightarrow> ('s, activity_error, unit) op" where
  "install_addon deps input =
     bindE (report (id_progress deps) ''installing'') (\<lambda>_.
     bindE (helm_install_chart (id_helm deps) (ii_kubeconfig_path input) (ii_params input)) (\<lambda>_.
     bindE (report (id_progress deps) ''done'') (\<lambda>_. ret ())))"

record scale_out_input =
  so_cluster_id :: uuid
  so_cluster_name :: string
  so_location :: string
  so_server_type :: string
  so_ssh_key :: string
  so_user_data :: string
  so_k3s_version :: string
  so_control_plane_endpoint :: string
  so_join_token :: string
  so_start_index :: nat
  so_count :: nat

definition scale_out ::
    "'s runtime \<Rightarrow> 's provision_deps \<Rightarrow> scale_out_input \<Rightarrow> ('s, activity_error, hetzner_server list) op" where
  "scale_out rt deps input =
     bindE (report (pd_progress deps) ''creating_workers'') (\<lambda>_.
     bindE (collectE (\<lambda>offset. hetzner_create_server (pd_hetzner deps)
       (worker_params rt (so_cluster_id input) (so_cluster_name input) (so_start_index input + offset)
          (so_server_type input) (so_location input) (so_ssh_key input) (so_user_data input)))
       [0..<so_count input]) (\<lambda>ids.
     bindE (report (pd_progress deps) ''waiting_cloud_init_workers'') (\<lambda>_.
     bindE (collectE (wait_for_cloud_init rt (pd_hetzner deps)) ids) (\<lambda>workers.
     bindE (report (pd_progress deps) ''installing_k3s_agents'') (\<lambda>_.
     bindE (forE (\<lambda>w. bindE (ssh_target_of w) (\<lambda>target.
       ssh_install_k3s_agent (pd_ssh deps) target (so_control_plane_endpoint input)
         (so_join_token input) (so_k3s_version input))) workers) (\<lambda>_.
     bindE (report (pd_progress deps) ''done'') (\<lambda>_. ret workers)))))))"

record worker_to_remove =
  wr_server_id :: server_id
  wr_node_name :: string

record scale_in_input =
  si_cluster_id :: uuid
  si_targets :: "worker_to_remove list"
  si_kubeconfig_path :: string

record 's scale_in_deps =
  sd_hetzner :: "'s hetzner_provider"
  sd_kubectl :: "'s kubectl_executor"
  sd_progress :: "'s progress_sink"

definition scale_in ::
    "'s scale_in_deps \<Rightarrow> scale_in_input \<Rightarrow> ('s, activity_error, unit) op" where
  "scale_in deps input =
     bindE (report (sd_progress deps) ''draining_nodes'') (\<lambda>_.
     bindE (forE (\<lambda>t. kubectl_drain_node (sd_kubectl deps) (si_kubeconfig_path input) (wr_node_name t)) (si_targets input)) (\<lambda>_.
     bindE (report (sd_progress deps) ''deleting_nodes'') (\<lambda>_.
     bindE (forE (\<lambda>t. kubectl_delete_node (sd_kubectl deps) (si_kubeconfig_path input) (wr_node_name t)) (si_targets input)) (\<lambda>_.
     bindE (report (sd_progress deps) ''destroying_servers'') (\<lambda>_.
     bindE (forE (\<lambda>t. hetzner_delete_server_idempotent (sd_hetzner deps) (wr_server_id t)) (si_targets input)) (\<lambda>_.
     bindE (report (sd_progress deps) ''done'') (\<lambda>_. ret ())))))))"

definition noop_progress :: "'s progress_sink" where
  "noop_progress = \<lparr>sink_step = (\<lambda>_ s. s)\<rparr>"

text \<open>\<open>format_activity_reason\<close> (\<open>runner.rs\<close>).\<close>

definition format_activity_reason :: "activity_error \<Rightarrow> string" where
  "format_activity_reason e =
     (case e of
        ActHetzner (HetznerStatus status _) \<Rightarrow> ''hetzner: '' @ show_nat status
      | ActHetzner (HetznerTransport _) \<Rightarrow> ''hetzner: transport''
      | ActHetzner (Credential _) \<Rightarrow> ''hetzner: credential''
      | ActSsh (SshNonZeroExit code _) \<Rightarrow> ''ssh: NonZeroExit code='' @ show_int code
      | ActSsh (SshConnect _) \<Rightarrow> ''ssh: connect''
      | ActSsh (SshTransport _) \<Rightarrow> ''ssh: transport''
      | CloudInitTimeout attempts \<Rightarrow> ''cloud-init timed out after '' @ show_nat attempts @ '' polls''
      | ActHelm (HelmNonZeroExit code _) \<Rightarrow> ''helm: NonZeroExit code='' @ show_int code
      | ActHelm (HelmTimeout _) \<Rightarrow> ''helm: timeout''
      | ActHelm (HelmTransport _) \<Rightarrow> ''helm: transport''
      | ActKubectl (KubectlNonZeroExit code _) \<Rightarrow> ''kubectl: NonZeroExit code='' @ show_int code
      | ActKubectl (KubectlTimeout _) \<Rightarrow> ''kubectl: timeout''
      | ActKubectl (KubectlTransport _) \<Rightarrow> ''kubectl: transport''
      | ActOther _ \<Rightarrow> ''other'')"

section \<open>Reasoning about runs\<close>

text \<open>\<open>triple P m Q E\<close>: from a state with \<open>P\<close>, a success ends in \<open>Q\<close> and an error
  in \<open>E\<close>.\<close>

definition triple :: "('s \<Rightarrow> bool) \<Rightarrow> ('s, 'e, 'a) op \<Rightarrow> ('a \<Rightarrow> 's \<Rightarrow> bool) \<Rightarrow> ('s \<Rightarrow> bool) \<Rightarrow> bool" where
  "triple P m Q E \<longleftrightarrow> (\<forall>s. P s \<longrightarrow> (case m s of (Inr a, t) \<Rightarrow> Q a t | (Inl _, t) \<Rightarrow> E t))"

lemma tripleI:
  assumes "\<And>s a t. P s \<Longrightarrow> m s = (Inr a, t) \<Longrightarrow> Q a t" and "\<And>s e t. P s \<Longrightarrow> m s = (Inl e, t) \<Longrightarrow> E t"
  shows "triple P m Q E"
  unfolding triple_def
proof (intro allI impI)
  fix s
  assume "P s"
  then show "case m s of (Inr a, t) \<Rightarrow> Q a t | (Inl _, t) \<Rightarrow> E t"
    by (cases "m s"; cases "fst (m s)") (auto intro: assms)
qed

lemma triple_okD: "triple P m Q E \<Longrightarrow> P s \<Longrightarrow> m s = (Inr a, t) \<Longrightarrow> Q a t"
  unfolding triple_def by (drule spec [of _ s]) simp

lemma triple_errD: "triple P m Q E \<Longrightarrow> P s \<Longrightarrow> m s = (Inl e, t) \<Longrightarrow> E t"
  unfolding triple_def by (drule spec [of _ s]) simp

lemma triple_bind:
  assumes "triple P m R E" and "\<And>a. triple (R a) (k a) Q E"
  shows "triple P (bindE m k) Q E"
proof (rule tripleI)
  fix s a t
  assume "P s" and "bindE m k s = (Inr a, t)"
  then show "Q a t" by (auto simp: bindE_eq_Inr dest: triple_okD [OF assms(1)] triple_okD [OF assms(2)])
next
  fix s e t
  assume "P s" and "bindE m k s = (Inl e, t)"
  then show "E t"
    by (auto simp: bindE_eq_Inl dest: triple_okD [OF assms(1)] triple_errD [OF assms(1)] triple_errD [OF assms(2)])
qed

lemma triple_ret: "(\<And>s. P s \<Longrightarrow> Q a s) \<Longrightarrow> triple P (ret a) Q E"
  by (rule tripleI) (auto simp: ret_def)

lemma triple_fail: "(\<And>s. P s \<Longrightarrow> E s) \<Longrightarrow> triple P (fail e) Q E"
  by (rule tripleI) (auto simp: fail_def)

lemma triple_map_err: "triple P m Q E \<Longrightarrow> triple P (map_err f m) Q E"
  by (rule tripleI) (auto simp: map_err_eq_Inl dest: triple_okD triple_errD)

lemma triple_post: "triple P m R E \<Longrightarrow> (\<And>a s. R a s \<Longrightarrow> Q a s) \<Longrightarrow> triple P m Q E"
  by (rule tripleI) (auto dest: triple_okD triple_errD)

lemma triple_weaken_err: "triple P m Q R \<Longrightarrow> (\<And>s. R s \<Longrightarrow> E s) \<Longrightarrow> triple P m Q E"
  by (rule tripleI) (auto dest: triple_okD triple_errD)

lemma triple_pure:
  assumes "A \<Longrightarrow> triple P m Q E"
  shows "triple (\<lambda>s. P s \<and> A) m Q E"
  by (rule tripleI) (auto dest: triple_okD [OF assms] triple_errD [OF assms])

lemma collectE_Cons: "collectE f (x # xs) = bindE (f x) (\<lambda>y. bindE (collectE f xs) (\<lambda>ys. ret (y # ys)))"
  by (intro ext) (simp add: bindE_def ret_def split: prod.split sum.split)

lemma forE_Cons: "forE f (x # xs) = bindE (f x) (\<lambda>_. forE f xs)"
  by (intro ext) (simp add: bindE_def split: prod.split sum.split)

lemma triple_collect:
  assumes "\<And>pre ys x. triple (I pre ys) (f x) (\<lambda>y. I (pre @ [x]) (ys @ [y])) E"
  shows "triple (I pre ys) (collectE f xs) (\<lambda>zs. I (pre @ xs) (ys @ zs)) E"
proof (induction xs arbitrary: pre ys)
  case Nil
  show ?case by (rule tripleI) auto
next
  case (Cons x xs)
  show ?case
    unfolding collectE_Cons
  proof (rule triple_bind [OF assms], rule triple_bind [OF Cons.IH], rule triple_ret)
    fix y zs s
    assume "I ((pre @ [x]) @ xs) ((ys @ [y]) @ zs) s"
    then show "I (pre @ x # xs) (ys @ y # zs) s" by simp
  qed
qed

lemma triple_for:
  assumes "\<And>pre x. triple (I pre) (f x) (\<lambda>_. I (pre @ [x])) E"
  shows "triple (I pre) (forE f xs) (\<lambda>_. I (pre @ xs)) E"
proof (induction xs arbitrary: pre)
  case Nil
  show ?case by (rule tripleI) auto
next
  case (Cons x xs)
  have "triple (I (pre @ [x])) (forE f xs) (\<lambda>_. I (pre @ x # xs)) E" using Cons.IH [of "pre @ [x]"] by simp
  with assms show ?case unfolding forE_Cons by (rule triple_bind)
qed

section \<open>The contract of a provisioning environment\<close>

text \<open>
  What can be observed of a run: the servers created so far, those the provider
  has confirmed to be gone, and the steps reported. \<open>at_step\<close> says how far a
  run that started with the observation \<open>b\<close> has come: the first \<open>n\<close> of the
  planned steps reported and the servers \<open>c\<close> created.
\<close>

type_synonym observation = "server_id list \<times> server_id set \<times> string list"

definition at_step ::
    "('s \<Rightarrow> bool) \<Rightarrow> ('s \<Rightarrow> observation) \<Rightarrow> observation \<Rightarrow> string list \<Rightarrow> nat \<Rightarrow> server_id list \<Rightarrow> 's \<Rightarrow> bool" where
  "at_step ok obs b plan n c s \<longleftrightarrow>
     ok s \<and> n \<le> length plan \<and> obs s = (fst b @ c, fst (snd b), snd (snd b) @ take n plan)"

definition stopped ::
    "('s \<Rightarrow> bool) \<Rightarrow> ('s \<Rightarrow> observation) \<Rightarrow> observation \<Rightarrow> string list \<Rightarrow> 's \<Rightarrow> bool" where
  "stopped ok obs b plan s \<longleftrightarrow> (\<exists>n c. at_step ok obs b plan n c s)"

text \<open>One round of the poll loop, after the server has been read.\<close>

definition poll_round ::
    "nat \<Rightarrow> 's runtime \<Rightarrow> 's hetzner_provider \<Rightarrow> server_id \<Rightarrow> hetzner_server \<Rightarrow> ('s, activity_error, hetzner_server) op" where
  "poll_round n rt prov i server =
     (case hs_status server of
        ServerReady \<Rightarrow> ret server
      | ServerFailed \<Rightarrow> fail (ActOther (''server '' @ show_server_id i @ '' reported Failed status during boot''))
      | ServerInitializing \<Rightarrow> (\<lambda>t. cloud_init_poll n rt prov i (rt_sleep rt CLOUD_INIT_POLL_INTERVAL t)))"

lemma cloud_init_poll_Suc:
  "cloud_init_poll (Suc n) rt prov i = bindE (map_err ActHetzner (get_server prov i)) (poll_round n rt prov i)"
  by (intro ext)
    (simp add: poll_round_def bindE_def map_err_def ret_def fail_def split: prod.split sum.split server_status.split)

lemma at_step_stopped: "at_step ok obs b plan n c s \<Longrightarrow> stopped ok obs b plan s"
  by (auto simp: stopped_def)

locale provision_env =
  fixes rt :: "'s runtime"
    and prov :: "'s hetzner_provider"
    and ssh :: "'s ssh_executor"
    and sink :: "'s progress_sink"
    and ok :: "'s \<Rightarrow> bool"
    and obs :: "'s \<Rightarrow> observation"
  assumes create_ok: "ok s \<Longrightarrow> create_server prov p s = (Inr i, t) \<Longrightarrow>
        ok t \<and> obs t = (fst (obs s) @ [i], snd (obs s))"
    and create_err: "ok s \<Longrightarrow> create_server prov p s = (Inl e, t) \<Longrightarrow> ok t \<and> obs t = obs s"
    and get_keeps: "ok s \<Longrightarrow> get_server prov i s = (gr, t) \<Longrightarrow> ok t \<and> obs t = obs s"
    and get_id: "ok s \<Longrightarrow> get_server prov i s = (Inr sv, t) \<Longrightarrow> hs_id sv = i"
    and delete_gone: "ok s \<Longrightarrow> delete_server prov i s = (dr, t) \<Longrightarrow>
        ok t \<and> obs t = (fst (obs s),
          (if dr = Inr () \<or> (\<exists>body. dr = Inl (HetznerStatus 404 body)) then insert i (fst (snd (obs s))) else fst (snd (obs s))),
          snd (snd (obs s)))"
    and ssh_keeps: "ok s \<Longrightarrow> ssh_run ssh target cmd s = (sr, t) \<Longrightarrow> ok t \<and> obs t = obs s"
    and sleep_keeps: "ok s \<Longrightarrow> ok (rt_sleep rt k s) \<and> obs (rt_sleep rt k s) = obs s"
    and step_logs: "ok s \<Longrightarrow> ok (sink_step sink x s)
        \<and> obs (sink_step sink x s) = (fst (obs s), fst (snd (obs s)), snd (snd (obs s)) @ [x])"
begin

lemma report_at:
  assumes "n < length plan" and "plan ! n = x"
  shows "triple (at_step ok obs b plan n c) (report sink x) (\<lambda>_. at_step ok obs b plan (Suc n) c) (stopped ok obs b plan)"
proof (rule tripleI)
  fix s t and u :: unit
  assume s: "at_step ok obs b plan n c s" and "report sink x s = (Inr u, t)"
  then have "t = sink_step sink x s" by (simp add: report_def liftS_def)
  with s step_logs [of s x] assms show "at_step ok obs b plan (Suc n) c t"
    by (auto simp: at_step_def take_Suc_conv_app_nth)
qed (simp add: report_def liftS_def)

lemma create_at:
  "triple (at_step ok obs b plan n c) (hetzner_create_server prov p) (\<lambda>i. at_step ok obs b plan n (c @ [i]))
     (stopped ok obs b plan)"
  unfolding hetzner_create_server_def
proof (rule triple_map_err, rule tripleI)
  fix s i t
  assume s: "at_step ok obs b plan n c s" and run: "create_server prov p s = (Inr i, t)"
  then have "ok s" by (simp add: at_step_def)
  from create_ok [OF this run] s show "at_step ok obs b plan n (c @ [i]) t" by (simp add: at_step_def)
next
  fix s e t
  assume s: "at_step ok obs b plan n c s" and run: "create_server prov p s = (Inl e, t)"
  then have "ok s" by (simp add: at_step_def)
  from create_err [OF this run] s show "stopped ok obs b plan t" by (auto simp: stopped_def at_step_def)
qed

lemma poll_at:
  "triple (at_step ok obs b plan n c) (cloud_init_poll k rt prov i)
     (\<lambda>sv s. at_step ok obs b plan n c s \<and> hs_id sv = i \<and> hs_status sv = ServerReady) (stopped ok obs b plan)"
proof (induction k)
  case 0
  show ?case by (rule tripleI) (auto intro: at_step_stopped)
next
  case (Suc k)
  have get: "triple (at_step ok obs b plan n c) (map_err ActHetzner (get_server prov i))
      (\<lambda>sv s. at_step ok obs b plan n c s \<and> hs_id sv = i) (stopped ok obs b plan)"
  proof (rule triple_map_err, rule tripleI)
    fix s sv t
    assume "at_step ok obs b plan n c s" and "get_server prov i s = (Inr sv, t)"
    with get_keeps [of s i "Inr sv" t] get_id [of s i sv t] show "at_step ok obs b plan n c t \<and> hs_id sv = i"
      by (simp add: at_step_def)
  next
    fix s e t
    assume "at_step ok obs b plan n c s" and "get_server prov i s = (Inl e, t)"
    with get_keeps [of s i "Inl e" t] show "stopped ok obs b plan t" by (auto simp: at_step_def stopped_def)
  qed
  have again: "triple (at_step ok obs b plan n c) (\<lambda>s. cloud_init_poll k rt prov i (rt_sleep rt m s))
      (\<lambda>sv s. at_step ok obs b plan n c s \<and> hs_id sv = i \<and> hs_status sv = ServerReady) (stopped ok obs b plan)" for m
  proof -
    have "at_step ok obs b plan n c (rt_sleep rt m s)" if "at_step ok obs b plan n c s" for s
      using that sleep_keeps [of s m] by (simp add: at_step_def)
    with Suc.IH show ?thesis by (simp add: triple_def)
  qed
  show ?case
    unfolding cloud_init_poll_Suc
  proof (rule triple_bind [OF get], rule triple_pure)
    fix sv :: hetzner_server
    assume "hs_id sv = i"
    then show "triple (at_step ok obs b plan n c) (poll_round k rt prov i sv)
      (\<lambda>sv s. at_step ok obs b plan n c s \<and> hs_id sv = i \<and> hs_status sv = ServerReady) (stopped ok obs b plan)"
      using again by (cases "hs_status sv") (auto simp: poll_round_def intro!: triple_ret triple_fail at_step_stopped)
  qed
qed

lemma wait_at:
  "triple (at_step ok obs b plan n c) (wait_for_cloud_init rt prov i)
     (\<lambda>sv s. at_step ok obs b plan n c s \<and> hs_id sv = i \<and> hs_status sv = ServerReady) (stopped ok obs b plan)"
  unfolding wait_for_cloud_init_def by (rule poll_at)

lemma ssh_at:
  "triple (at_step ok obs b plan n c) (map_err ActSsh (ssh_run ssh target cmd)) (\<lambda>_. at_step ok obs b plan n c)
     (stopped ok obs b plan)"
proof (rule triple_map_err, rule tripleI)
  fix s a t
  assume s: "at_step ok obs b plan n c s" and run: "ssh_run ssh target cmd s = (Inr a, t)"
  with ssh_keeps [of s target cmd] show "at_step ok obs b plan n c t" by (auto simp: at_step_def)
next
  fix s e t
  assume s: "at_step ok obs b plan n c s" and run: "ssh_run ssh target cmd s = (Inl e, t)"
  with ssh_keeps [of s target cmd] show "stopped ok obs b plan t" by (auto simp: at_step_def stopped_def)
qed

lemma target_at:
  "triple (at_step ok obs b plan n c) (ssh_target_of sv) (\<lambda>_. at_step ok obs b plan n c) (stopped ok obs b plan)"
  by (rule tripleI) (auto simp: ssh_target_of_def ret_def fail_def split: option.splits intro: at_step_stopped)

lemma install_at:
  "triple (at_step ok obs b plan n c) (ssh_install_k3s_server ssh target v) (\<lambda>_. at_step ok obs b plan n c)
     (stopped ok obs b plan)"
  "triple (at_step ok obs b plan n c) (ssh_install_k3s_agent ssh target cp tok v) (\<lambda>_. at_step ok obs b plan n c)
     (stopped ok obs b plan)"
  "triple (at_step ok obs b plan n c) (collect_kubeconfig ssh target ep) (\<lambda>_. at_step ok obs b plan n c)
     (stopped ok obs b plan)"
  unfolding ssh_install_k3s_server_def ssh_install_k3s_agent_def collect_kubeconfig_def
  by (rule triple_bind [OF ssh_at], (rule triple_bind [OF ssh_at])?, rule triple_ret, assumption)+

lemma create_all_at:
  "triple (at_step ok obs b plan n c) (collectE (\<lambda>k. hetzner_create_server prov (p k)) ks)
     (\<lambda>ids s. at_step ok obs b plan n (c @ ids) s \<and> length ids = length ks) (stopped ok obs b plan)"
proof -
  have "triple (\<lambda>s. at_step ok obs b plan n (c @ ids) s \<and> length ids = length pre) (hetzner_create_server prov (p k))
     (\<lambda>i s. at_step ok obs b plan n (c @ ids @ [i]) s \<and> length (ids @ [i]) = length (pre @ [k])) (stopped ok obs b plan)"
    for pre ids k
    by (rule triple_pure, rule triple_post, rule create_at) simp
  then have "triple (\<lambda>s. at_step ok obs b plan n (c @ []) s \<and> length ([] :: server_id list) = length (take 0 ks))
     (collectE (\<lambda>k. hetzner_create_server prov (p k)) ks)
     (\<lambda>ids s. at_step ok obs b plan n (c @ [] @ ids) s \<and> length ([] @ ids) = length (take 0 ks @ ks)) (stopped ok obs b plan)"
    by (intro triple_collect [where I = "\<lambda>pre ids s. at_step ok obs b plan n (c @ ids) s \<and> length ids = length pre"]) simp
  then show ?thesis by simp
qed

lemma wait_all_at:
  "triple (at_step ok obs b plan n c) (collectE (wait_for_cloud_init rt prov) ids)
     (\<lambda>svs s. at_step ok obs b plan n c s \<and> map hs_id svs = ids) (stopped ok obs b plan)"
proof -
  have "triple (\<lambda>s. at_step ok obs b plan n c s \<and> map hs_id svs = pre) (wait_for_cloud_init rt prov i)
     (\<lambda>sv s. at_step ok obs b plan n c s \<and> map hs_id (svs @ [sv]) = pre @ [i]) (stopped ok obs b plan)"
    for pre svs i
    by (rule triple_pure, rule triple_post, rule wait_at) simp
  then have "triple (\<lambda>s. at_step ok obs b plan n c s \<and> map hs_id ([] :: hetzner_server list) = [])
     (collectE (wait_for_cloud_init rt prov) ids)
     (\<lambda>svs s. at_step ok obs b plan n c s \<and> map hs_id ([] @ svs) = [] @ ids) (stopped ok obs b plan)"
    by (intro triple_collect [where I = "\<lambda>pre svs s. at_step ok obs b plan n c s \<and> map hs_id svs = pre"])
  then show ?thesis by simp
qed

lemma join_all_at:
  "triple (at_step ok obs b plan n c)
     (forE (\<lambda>w. bindE (ssh_target_of w) (\<lambda>target. ssh_install_k3s_agent ssh target cp tok v)) ws)
     (\<lambda>_. at_step ok obs b plan n c) (stopped ok obs b plan)"
  by (rule triple_for [where I = "\<lambda>_. at_step ok obs b plan n c" and pre = "[]"], rule triple_bind [OF target_at install_at(2)])

end

subsection \<open>Provisioning and scaling out\<close>

definition PROVISION_STEPS :: "string list" where
  "PROVISION_STEPS =
     [''creating_control_plane'', ''waiting_cloud_init_cp'', ''installing_k3s_server'', ''creating_workers'',
      ''waiting_cloud_init_workers'', ''installing_k3s_agents'', ''collecting_kubeconfig'', ''done'']"

definition SCALE_OUT_STEPS :: "string list" where
  "SCALE_OUT_STEPS = [''creating_workers'', ''waiting_cloud_init_workers'', ''installing_k3s_agents'', ''done'']"

context provision_env
begin

lemma provision_run:
  assumes "pd_hetzner deps = prov" and "pd_ssh deps = ssh" and "pd_progress deps = sink"
  shows "triple (at_step ok obs b PROVISION_STEPS 0 []) (provision_cluster rt deps input)
    (\<lambda>out s. at_step ok obs b PROVISION_STEPS 8 (hs_id (po_control_plane out) # map hs_id (po_workers out)) s
       \<and> length (po_workers out) = pi_worker_count input)
    (stopped ok obs b PROVISION_STEPS)"
  unfolding provision_cluster_def assms
  apply (rule triple_bind [OF report_at], simp add: PROVISION_STEPS_def, simp add: PROVISION_STEPS_def)
  apply (rule triple_bind [OF create_at])
  apply (rule triple_bind [OF report_at], simp add: PROVISION_STEPS_def, simp add: PROVISION_STEPS_def)
  apply (rule triple_bind [OF wait_at], rule triple_pure)
  apply (rule triple_bind [OF target_at])
  apply (rule triple_bind [OF report_at], simp add: PROVISION_STEPS_def, simp add: PROVISION_STEPS_def)
  apply (rule triple_bind [OF install_at(1)])
  apply (rule triple_bind [OF report_at], simp add: PROVISION_STEPS_def, simp add: PROVISION_STEPS_def)
  apply (rule triple_bind [OF create_all_at], rule triple_pure)
  apply (rule triple_bind [OF report_at], simp add: PROVISION_STEPS_def, simp add: PROVISION_STEPS_def)
  apply (rule triple_bind [OF wait_all_at], rule triple_pure)
  apply (rule triple_bind [OF report_at], simp add: PROVISION_STEPS_def, simp add: PROVISION_STEPS_def)
  apply (rule triple_bind [OF join_all_at])
  apply (rule triple_bind [OF report_at], simp add: PROVISION_STEPS_def, simp add: PROVISION_STEPS_def)
  apply (rule triple_bind [OF install_at(3)])
  apply (rule triple_bind [OF report_at], simp add: PROVISION_STEPS_def, simp add: PROVISION_STEPS_def)
  apply (rule triple_ret)
  apply (auto simp: numeral_eq_Suc)
  done

lemma scale_out_run:
  assumes "pd_hetzner deps = prov" and "pd_ssh deps = ssh" and "pd_progress deps = sink"
  shows "triple (at_step ok obs b SCALE_OUT_STEPS 0 []) (scale_out rt deps input)
    (\<lambda>ws s. at_step ok obs b SCALE_OUT_STEPS 4 (map hs_id ws) s \<and> length ws = so_count input)
    (stopped ok obs b SCALE_OUT_STEPS)"
  unfolding scale_out_def assms
  apply (rule triple_bind [OF report_at], simp add: SCALE_OUT_STEPS_def, simp add: SCALE_OUT_STEPS_def)
  apply (rule triple_bind [OF create_all_at], rule triple_pure)
  apply (rule triple_bind [OF report_at], simp add: SCALE_OUT_STEPS_def, simp add: SCALE_OUT_STEPS_def)
  apply (rule triple_bind [OF wait_all_at], rule triple_pure)
  apply (rule triple_bind [OF report_at], simp add: SCALE_OUT_STEPS_def, simp add: SCALE_OUT_STEPS_def)
  apply (rule triple_bind [OF join_all_at])
  apply (rule triple_bind [OF report_at], simp add: SCALE_OUT_STEPS_def, simp add: SCALE_OUT_STEPS_def)
  apply (rule triple_ret)
  apply (auto simp: numeral_eq_Suc)
  done

end

subsection \<open>Destroying and scaling in\<close>

lemma triple_for_prefix:
  assumes "\<And>pre x rest. ids = pre @ x # rest \<Longrightarrow> triple (I pre) (f x) (\<lambda>_. I (pre @ [x])) E"
  shows "triple (I []) (forE f ids) (\<lambda>_. I ids) E"
proof -
  have "ids = pre @ xs \<Longrightarrow> triple (I pre) (forE f xs) (\<lambda>_. I ids) E" for pre xs
  proof (induction xs arbitrary: pre)
    case Nil
    then show ?case by (intro tripleI) auto
  next
    case (Cons x xs)
    then have "ids = (pre @ [x]) @ xs" by simp
    from Cons.IH [OF this] assms [OF Cons.prems] show ?case unfolding forE_Cons by (intro triple_bind)
  qed
  from this [of "[]" ids] show ?thesis by simp
qed

lemma delete_idempotent_outcome:
  assumes "delete_server prov i s = (dr, u)" and "hetzner_delete_server_idempotent prov i s = (r, t)"
  shows "t = u \<and> (r = Inr () \<longleftrightarrow> dr = Inr () \<or> (\<exists>body. dr = Inl (HetznerStatus 404 body)))"
proof (cases dr)
  case (Inl e)
  with assms show ?thesis by (cases e) (auto simp: hetzner_delete_server_idempotent_def split: if_splits)
next
  case (Inr v)
  with assms show ?thesis by (simp add: hetzner_delete_server_idempotent_def)
qed

context provision_env
begin

lemma delete_idempotent:
  assumes "ok s" and "hetzner_delete_server_idempotent prov i s = (r, t)"
  shows "ok t \<and> fst (obs t) = fst (obs s) \<and> snd (snd (obs t)) = snd (snd (obs s))
    \<and> fst (snd (obs t)) = (if r = Inr () then insert i (fst (snd (obs s))) else fst (snd (obs s)))"
proof -
  obtain dr u where d: "delete_server prov i s = (dr, u)" by fastforce
  show ?thesis
    using delete_gone [OF assms(1) d] delete_idempotent_outcome [OF d assms(2)] by simp
qed

lemma delete_all:
  "triple (\<lambda>s. ok s \<and> obs s = (c, g, st)) (forE (hetzner_delete_server_idempotent prov) ids)
     (\<lambda>_ s. ok s \<and> obs s = (c, g \<union> set ids, st))
     (\<lambda>s. ok s \<and> (\<exists>k < length ids. obs s = (c, g \<union> set (take k ids), st)))"
proof -
  have "triple (\<lambda>s. ok s \<and> obs s = (c, g \<union> set pre, st)) (hetzner_delete_server_idempotent prov x)
     (\<lambda>_ s. ok s \<and> obs s = (c, g \<union> set (pre @ [x]), st))
     (\<lambda>s. ok s \<and> (\<exists>k < length ids. obs s = (c, g \<union> set (take k ids), st)))"
    if "ids = pre @ x # rest" for pre x rest
  proof (rule tripleI)
    fix s t and u :: unit
    assume "ok s \<and> obs s = (c, g \<union> set pre, st)" and "hetzner_delete_server_idempotent prov x s = (Inr u, t)"
    with delete_idempotent [of s x "Inr u" t] show "ok t \<and> obs t = (c, g \<union> set (pre @ [x]), st)"
      by (auto simp: prod_eq_iff)
  next
    fix s e t
    assume "ok s \<and> obs s = (c, g \<union> set pre, st)" and "hetzner_delete_server_idempotent prov x s = (Inl e, t)"
    with delete_idempotent [of s x "Inl e" t] that
    show "ok t \<and> (\<exists>k < length ids. obs t = (c, g \<union> set (take k ids), st))"
      by (auto simp: prod_eq_iff intro!: exI [of _ "length pre"])
  qed
  from triple_for_prefix [where I = "\<lambda>pre s. ok s \<and> obs s = (c, g \<union> set pre, st)", OF this]
  show ?thesis by simp
qed

lemma report_logs:
  "triple (\<lambda>s. ok s \<and> obs s = (c, g, st)) (report sink x) (\<lambda>_ s. ok s \<and> obs s = (c, g, st @ [x])) E"
  by (rule tripleI) (auto simp: report_def liftS_def step_logs)

lemma destroy_run:
  assumes "dd_hetzner deps = prov" and "dd_progress deps = sink"
  shows "triple (\<lambda>s. ok s \<and> obs s = (c, g, st)) (destroy_cluster deps input)
    (\<lambda>_ s. ok s \<and> obs s = (c, g \<union> set (di_server_ids input), st @ [''destroying_servers'', ''done'']))
    (\<lambda>s. ok s \<and> (\<exists>k < length (di_server_ids input).
        obs s = (c, g \<union> set (take k (di_server_ids input)), st @ [''destroying_servers''])))"
  unfolding destroy_cluster_def assms
  by (rule triple_bind [OF report_logs], rule triple_bind [OF delete_all], rule triple_bind [OF report_logs])
    (rule triple_ret, simp)

end

datatype kube_call = Drained string | NodeDeleted string

text \<open>A run that scales in also has a log of the nodes drained and removed.\<close>

locale scale_in_env = provision_env rt prov ssh sink ok obs
  for rt :: "'s runtime" and prov ssh sink ok obs +
  fixes kubectl :: "'s kubectl_executor"
    and klog :: "'s \<Rightarrow> kube_call list"
  assumes drain_log: "ok s \<Longrightarrow> drain_node kubectl path node s = (kr, t) \<Longrightarrow>
        ok t \<and> obs t = obs s \<and> (kr = Inr () \<longrightarrow> klog t = klog s @ [Drained node]) \<and> (kr \<noteq> Inr () \<longrightarrow> klog t = klog s)"
    and delete_log: "ok s \<Longrightarrow> delete_node kubectl path node s = (kr, t) \<Longrightarrow>
        ok t \<and> obs t = obs s \<and> (kr = Inr () \<longrightarrow> klog t = klog s @ [NodeDeleted node]) \<and> (kr \<noteq> Inr () \<longrightarrow> klog t = klog s)"
    and server_log: "ok s \<Longrightarrow> delete_server prov i s = (dr, t) \<Longrightarrow> klog t = klog s"
    and step_log: "ok s \<Longrightarrow> klog (sink_step sink x s) = klog s"
begin

lemma kube_all:
  assumes "\<And>s x r t. ok s \<Longrightarrow> f x s = (r, t) \<Longrightarrow>
      ok t \<and> obs t = obs s \<and> (r = Inr () \<longrightarrow> klog t = klog s @ [h x]) \<and> (r \<noteq> Inr () \<longrightarrow> klog t = klog s)"
  shows "triple (\<lambda>s. ok s \<and> obs s = ob \<and> klog s = kl) (forE (\<lambda>x. map_err ActKubectl (f x)) xs)
     (\<lambda>_ s. ok s \<and> obs s = ob \<and> klog s = kl @ map h xs) (\<lambda>s. ok s \<and> obs s = ob)"
proof -
  have "triple (\<lambda>s. ok s \<and> obs s = ob \<and> klog s = kl @ map h pre) (map_err ActKubectl (f x))
     (\<lambda>_ s. ok s \<and> obs s = ob \<and> klog s = kl @ map h (pre @ [x])) (\<lambda>s. ok s \<and> obs s = ob)" for pre x
    by (rule triple_map_err, rule tripleI) (auto dest: assms)
  from triple_for [where I = "\<lambda>pre s. ok s \<and> obs s = ob \<and> klog s = kl @ map h pre" and pre = "[]", OF this]
  show ?thesis by simp
qed

lemma report_kube:
  "triple (\<lambda>s. ok s \<and> obs s = (c, g, st) \<and> klog s = kl) (report sink x)
     (\<lambda>_ s. ok s \<and> obs s = (c, g, st @ [x]) \<and> klog s = kl) E"
  by (rule tripleI) (auto simp: report_def liftS_def step_logs step_log)

text \<open>Deleting servers comes last: an error before it leaves every server alone,
  and from then on all nodes have been drained and removed.\<close>

lemma delete_all_kube:
  "triple (\<lambda>s. ok s \<and> obs s = (c, g, st) \<and> klog s = kl) (forE (\<lambda>t. hetzner_delete_server_idempotent prov (d t)) xs)
     (\<lambda>_ s. ok s \<and> obs s = (c, g \<union> d ` set xs, st) \<and> klog s = kl)
     (\<lambda>s. klog s = kl)"
proof -
  have "triple (\<lambda>s. ok s \<and> obs s = (c, g \<union> d ` set pre, st) \<and> klog s = kl) (hetzner_delete_server_idempotent prov (d x))
     (\<lambda>_ s. ok s \<and> obs s = (c, g \<union> d ` set (pre @ [x]), st) \<and> klog s = kl) (\<lambda>s. klog s = kl)" for pre x
  proof -
    have kl: "klog t = klog s" if "ok s" "hetzner_delete_server_idempotent prov (d x) s = (r, t)" for s r t
    proof -
      obtain dr u where du: "delete_server prov (d x) s = (dr, u)" by fastforce
      from server_log [OF that(1) du] delete_idempotent_outcome [OF du that(2)] show ?thesis by simp
    qed
    show ?thesis
    proof (rule tripleI)
      fix s t and u :: unit
      assume "ok s \<and> obs s = (c, g \<union> d ` set pre, st) \<and> klog s = kl"
        and "hetzner_delete_server_idempotent prov (d x) s = (Inr u, t)"
      with delete_idempotent [of s "d x" "Inr u" t] kl [of s "Inr u" t]
      show "ok t \<and> obs t = (c, g \<union> d ` set (pre @ [x]), st) \<and> klog t = kl" by (auto simp: prod_eq_iff)
    qed (auto dest: kl)
  qed
  from triple_for [where I = "\<lambda>pre s. ok s \<and> obs s = (c, g \<union> d ` set pre, st) \<and> klog s = kl" and pre = "[]", OF this]
  show ?thesis by simp
qed

lemma scale_in_run:
  fixes input :: scale_in_input
  defines "nodes \<equiv> map wr_node_name (si_targets input)"
  assumes "sd_hetzner deps = prov" and "sd_kubectl deps = kubectl" and "sd_progress deps = sink"
  shows "triple (\<lambda>s. ok s \<and> obs s = (c, g, st) \<and> klog s = kl) (scale_in deps input)
    (\<lambda>_ s. ok s \<and> obs s = (c, g \<union> wr_server_id ` set (si_targets input),
         st @ [''draining_nodes'', ''deleting_nodes'', ''destroying_servers'', ''done''])
       \<and> klog s = kl @ map Drained nodes @ map NodeDeleted nodes)
    (\<lambda>s. fst (snd (obs s)) = g \<or> klog s = kl @ map Drained nodes @ map NodeDeleted nodes)"
  unfolding scale_in_def assms kubectl_drain_node_def kubectl_delete_node_def
  apply (rule triple_bind [OF report_kube])
  apply (rule triple_bind)
   apply (rule triple_weaken_err [OF kube_all [where h = "\<lambda>t. Drained (wr_node_name t)"]])
    apply (erule (1) drain_log)
   apply simp
  apply (rule triple_bind [OF report_kube])
  apply (rule triple_bind)
   apply (rule triple_weaken_err [OF kube_all [where h = "\<lambda>t. NodeDeleted (wr_node_name t)"]])
    apply (erule (1) delete_log)
   apply simp
  apply (rule triple_bind [OF report_kube])
  apply (rule triple_bind)
   apply (rule triple_weaken_err [OF delete_all_kube])
   apply (simp add: comp_def)
  apply (rule triple_bind [OF report_kube])
  apply (rule triple_ret)
  apply (simp add: comp_def)
  done

end

section \<open>Failure texts and their categories\<close>

lemma show_nat_3:
  assumes "100 \<le> n" and "n < 1000"
  shows "show_nat n = [digit_char (n div 100), digit_char (n div 10 mod 10), digit_char (n mod 10)]"
proof -
  have "show_nat (n div 100) = [digit_char (n div 100)]" using assms by (simp add: show_nat.simps)
  moreover have "show_nat (n div 10) = show_nat (n div 100) @ [digit_char (n div 10 mod 10)]"
  proof -
    have "\<not> n div 10 < 10" using assms by linarith
    then show ?thesis by (subst show_nat.simps) (simp add: div_mult2_eq [symmetric])
  qed
  moreover have "show_nat n = show_nat (n div 10) @ [digit_char (n mod 10)]"
    using assms by (subst show_nat.simps) simp
  ultimately show ?thesis by simp
qed

lemma lower_digit: "d < 10 \<Longrightarrow> lower_char (digit_char d) = digit_char d"
  by (simp add: lower_char_def Let_def of_char_digit)

lemma digit_char_eq:
  assumes "d < 10"
  shows "digit_char d = CHR ''0'' \<longleftrightarrow> d = 0" "digit_char d = CHR ''1'' \<longleftrightarrow> d = 1"
    "digit_char d = CHR ''2'' \<longleftrightarrow> d = 2" "digit_char d = CHR ''3'' \<longleftrightarrow> d = 3"
    "digit_char d = CHR ''4'' \<longleftrightarrow> d = 4" "digit_char d = CHR ''5'' \<longleftrightarrow> d = 5" "digit_char d = CHR ''9'' \<longleftrightarrow> d = 9"
    "digit_char d \<noteq> CHR ''q''" "digit_char d \<noteq> CHR ''f''" "digit_char d \<noteq> CHR ''t''"
proof -
  have "d \<in> {0, 1, 2, 3, 4, 5, 6, 7, 8, 9}" using assms by auto
  then show "digit_char d = CHR ''0'' \<longleftrightarrow> d = 0" "digit_char d = CHR ''1'' \<longleftrightarrow> d = 1"
    "digit_char d = CHR ''2'' \<longleftrightarrow> d = 2" "digit_char d = CHR ''3'' \<longleftrightarrow> d = 3"
    "digit_char d = CHR ''4'' \<longleftrightarrow> d = 4" "digit_char d = CHR ''5'' \<longleftrightarrow> d = 5" "digit_char d = CHR ''9'' \<longleftrightarrow> d = 9"
    "digit_char d \<noteq> CHR ''q''" "digit_char d \<noteq> CHR ''f''" "digit_char d \<noteq> CHR ''t''"
    by (auto simp: digit_char_def char_of_def bit_Suc_0_iff)
qed

lemma contains_digits:
  "x \<notin> set pre \<Longrightarrow> contains_str (pre @ [p, q, r]) [x, y, z] \<longleftrightarrow> p = x \<and> q = y \<and> r = z"
  by (induction pre) (auto simp: starts_with_def)

definition status_category :: "nat \<Rightarrow> error_category" where
  "status_category n = (if n \<in> {429, 502, 503, 504} then NetworkError else ProviderError)"

lemma status_category_of:
  assumes "100 \<le> n" and "n < 1000"
  shows "error_category_of Failed (Some (''hetzner: '' @ show_nat n)) = Some (status_category n)"
proof -
  define a b c where "a = n div 100" and "b = n div 10 mod 10" and "c = n mod 10"
  have lt: "a < 10" "b < 10" "c < 10" using assms by (auto simp: a_def b_def c_def)
  have "n div 10 div 10 = n div 100" by (simp add: div_mult2_eq [symmetric])
  moreover have "n = n div 10 * 10 + n mod 10" "n div 10 = n div 10 div 10 * 10 + n div 10 mod 10"
    by (simp_all only: div_mult_mod_eq)
  ultimately have n: "n = 100 * a + 10 * b + c" unfolding a_def b_def c_def by linarith
  have low: "to_ascii_lowercase (''hetzner: '' @ show_nat n) = ''hetzner: '' @ [digit_char a, digit_char b, digit_char c]"
    using lt by (simp add: show_nat_3 [OF assms] to_ascii_lowercase_def lower_digit a_def [symmetric] b_def [symmetric]
        c_def [symmetric]) (simp add: lower_char_def Let_def)
  have pat: "contains_str (''hetzner: '' @ [digit_char a, digit_char b, digit_char c]) [x, y, z] \<longleftrightarrow>
      digit_char a = x \<and> digit_char b = y \<and> digit_char c = z"
    if "[x, y, z] \<in> set [''401'', ''403'', ''429'', ''502'', ''503'', ''504'']" for x y z
    using that by (intro contains_digits) auto
  have words: "\<not> contains_str (''hetzner: '' @ [digit_char a, digit_char b, digit_char c]) w"
    if "w \<in> set [''quota'', ''forbidden'', ''transport'', ''timeout'']" for w
    using that by (auto simp: starts_with_def)
  have pre: "starts_with (''hetzner: '' @ [digit_char a, digit_char b, digit_char c]) ''hetzner:''"
    by (simp add: starts_with_def)
  have num: "n = 401 \<longleftrightarrow> a = 4 \<and> b = 0 \<and> c = 1" "n = 403 \<longleftrightarrow> a = 4 \<and> b = 0 \<and> c = 3" "n = 429 \<longleftrightarrow> a = 4 \<and> b = 2 \<and> c = 9"
    "n = 502 \<longleftrightarrow> a = 5 \<and> b = 0 \<and> c = 2" "n = 503 \<longleftrightarrow> a = 5 \<and> b = 0 \<and> c = 3" "n = 504 \<longleftrightarrow> a = 5 \<and> b = 0 \<and> c = 4"
    by (rule iffI, simp add: a_def b_def c_def, use n in simp)+
  show ?thesis
    unfolding error_category_of_def option.case low Let_def
    using pre lt
    by (simp only: simp_thms if_False if_True pre contains_any_def list.set bex_simps pat words list.set_intros
        empty_iff insert_iff)
      (auto simp: contains_any_def pat words status_category_def num digit_char_eq)
qed

definition category_table :: "activity_error \<Rightarrow> error_category" where
  "category_table e =
     (case e of
        ActHetzner (HetznerStatus n _) \<Rightarrow> status_category n
      | ActHetzner (HetznerTransport _) \<Rightarrow> NetworkError
      | ActHetzner (Credential _) \<Rightarrow> ProviderError
      | ActSsh _ \<Rightarrow> InstallationError
      | CloudInitTimeout _ \<Rightarrow> BootTimeout
      | _ \<Rightarrow> UnknownError)"

lemma contains_prefix: "contains_str (p @ x) p"
  by (rule contains_starts) simp

lemma lowercase_append: "to_ascii_lowercase (x @ y) = to_ascii_lowercase x @ to_ascii_lowercase y"
  by (simp add: to_ascii_lowercase_def)

lemma starts_with_app: "length p \<le> length x \<Longrightarrow> starts_with (x @ y) p = starts_with x p"
  by (simp add: starts_with_def)

text \<open>A sign or a digit is no lower-case letter, so an exit code never completes
  one of the words the category looks for.\<close>

lemma show_nat_digits: "set (show_nat n) \<subseteq> digit_char ` {..<10}"
proof (induction n rule: show_nat.induct)
  case (1 n)
  show ?case
  proof (cases "n < 10")
    case True
    then show ?thesis by (subst show_nat.simps) auto
  next
    case False
    then have "set (show_nat (n div 10)) \<subseteq> digit_char ` {..<10}" using 1 by blast
    with False show ?thesis by (subst show_nat.simps) auto
  qed
qed

definition word_char :: "char \<Rightarrow> bool" where
  "word_char c \<longleftrightarrow> c = CHR ''-'' \<or> is_digit c"

lemma show_int_chars: "c \<in> set (show_int i) \<Longrightarrow> word_char c"
proof -
  have "word_char d" if "d \<in> set (show_nat n)" for d n
    using subsetD [OF show_nat_digits that] is_digit_digit_char by (auto simp: word_char_def)
  then show "c \<in> set (show_int i) \<Longrightarrow> word_char c"
    by (auto simp: show_int_def word_char_def split: if_splits)
qed

lemma lower_word_char: "word_char c \<Longrightarrow> lower_char c = c"
  by (auto simp: word_char_def is_digit_def lower_char_def Let_def)

lemma contains_split:
  assumes "\<forall>c \<in> set y. word_char c" and "contains_str (x @ y) p" and "\<not> contains_str x p"
  shows "\<exists>a b. p = a @ b \<and> b \<noteq> [] \<and> (\<exists>x'. x = x' @ a) \<and> (\<forall>c \<in> set b. word_char c)"
  using assms(2,3)
proof (induction x)
  case Nil
  have "\<exists>k. take (length p) (drop k y) = p" using Nil(1)
    by (induction y) (force simp: starts_with_def intro: exI [of _ 0] exI [of _ "Suc _"])+
  then have "set p \<subseteq> set y" by (metis in_set_dropD in_set_takeD subsetI)
  moreover have "p \<noteq> []" using Nil(2) by auto
  ultimately show ?case using assms(1) by (intro exI [of _ "[]"] exI [of _ p]) auto
next
  case (Cons c x)
  show ?case
  proof (cases "starts_with (c # x @ y) p")
    case True
    have n: "\<not> starts_with (c # x) p" and "p \<noteq> []" using Cons.prems(2) by (auto simp: starts_with_def)
    have "length (c # x) < length p"
      using True n starts_with_app [of p "c # x" y] by (metis append_Cons not_le)
    with True have "p = (c # x) @ take (length p - length (c # x)) y"
      by (auto simp: starts_with_def take_Cons' split: if_splits)
    moreover have "take (length p - length (c # x)) y \<noteq> []"
      using \<open>length (c # x) < length p\<close> calculation by (metis append_Nil2 less_irrefl)
    ultimately show ?thesis using assms(1)
      by (intro exI [of _ "c # x"] exI [of _ "take (length p - length (c # x)) y"]) (auto dest: in_set_takeD)
  next
    case False
    then obtain a b x' where "p = a @ b" "b \<noteq> []" "x = x' @ a" "\<forall>c \<in> set b. word_char c"
      using Cons by auto
    then show ?thesis by (intro exI [of _ a] exI [of _ b]) (auto intro: exI [of _ "c # x'"])
  qed
qed

lemma not_contains_append:
  assumes "\<forall>c \<in> set y. word_char c" and "\<not> contains_str x p" and "p \<noteq> []" and "\<not> word_char (last p)"
  shows "\<not> contains_str (x @ y) p"
proof
  assume "contains_str (x @ y) p"
  from contains_split [OF assms(1) this assms(2)] obtain a b where "p = a @ b" "b \<noteq> []" "\<forall>c \<in> set b. word_char c" by blast
  then have "word_char (last p)" by auto
  with assms(4) show False by simp
qed

lemma exit_code_category:
  assumes "low = to_ascii_lowercase pre" and "\<not> starts_with low ''hetzner:''" and "\<not> starts_with low ''ssh:''"
    and "length pre \<ge> 8" and "\<not> contains_str low ''cloud-init''" and "\<not> contains_str low ''cloudinittimeout''"
  shows "error_category_of Failed (Some (pre @ show_int i)) = Some UnknownError"
proof -
  have low: "to_ascii_lowercase (pre @ show_int i) = low @ show_int i"
    using show_int_chars lower_word_char
    by (simp add: assms(1) to_ascii_lowercase_def) (metis map_idI)
  have len: "length low = length pre" by (simp add: assms(1) to_ascii_lowercase_def)
  have "\<not> word_char (CHR ''t'')" "\<not> word_char (CHR ''e'')" by (auto simp: word_char_def is_digit_def)
  then have "\<not> contains_str (low @ show_int i) ''cloud-init''" "\<not> contains_str (low @ show_int i) ''cloudinittimeout''"
    using show_int_chars assms(5,6) by (intro not_contains_append; simp)+
  moreover have "\<not> starts_with (low @ show_int i) ''hetzner:''" "\<not> starts_with (low @ show_int i) ''ssh:''"
    using assms(2-4) len by (simp_all add: starts_with_app)
  ultimately show ?thesis unfolding error_category_of_def option.case low Let_def by simp
qed

lemma tool_category:
  "error_category_of Failed (Some (''helm: NonZeroExit code='' @ show_int i)) = Some UnknownError"
  "error_category_of Failed (Some (''kubectl: NonZeroExit code='' @ show_int i)) = Some UnknownError"
  by (rule exit_code_category [OF refl]; code_simp)+

lemma ssh_category:
  assumes "starts_with (to_ascii_lowercase pre) ''ssh:''" and "length pre \<ge> 8" and "\<not> starts_with (to_ascii_lowercase pre) ''hetzner:''"
  shows "error_category_of Failed (Some (pre @ x)) = Some InstallationError"
proof -
  have "length (to_ascii_lowercase pre) = length pre" by (simp add: to_ascii_lowercase_def)
  then show ?thesis using assms by (simp add: error_category_of_def lowercase_append starts_with_app Let_def)
qed

lemma boot_category: "error_category_of Failed (Some (''cloud-init timed out after '' @ x)) = Some BootTimeout"
proof -
  have low: "to_ascii_lowercase (''cloud-init timed out after '' @ x) = ''cloud-init'' @ '' timed out after '' @ to_ascii_lowercase x"
    by (simp add: to_ascii_lowercase_def lower_char_def Let_def)
  have "contains_str (''cloud-init'' @ '' timed out after '' @ to_ascii_lowercase x) ''cloud-init''" by (rule contains_prefix)
  then show ?thesis
    unfolding error_category_of_def option.case low Let_def by (simp add: starts_with_def)
qed

section \<open>Properties of the pure parts\<close>

text \<open>What a failed run shows: the category derived from the stored failure
  text is a function of the error that stopped the run. Hetzner answers count
  as network errors only for 429, 502, 503 and 504 (so the retryable 408, 425
  and 500 are shown as provider errors), every SSH failure is an installation
  error, a boot that never ends is a boot timeout, and Helm, kubectl and all
  other failures are unknown.\<close>

theorem failure_category:
  assumes "\<And>n body. e = ActHetzner (HetznerStatus n body) \<Longrightarrow> 100 \<le> n \<and> n < 1000"
  shows "error_category_of Failed (Some (format_activity_reason e)) = Some (category_table e)"
proof (cases e)
  case (ActHetzner x)
  then show ?thesis
  proof (cases x)
    case (HetznerStatus n body)
    with ActHetzner assms [of n body] show ?thesis
      using status_category_of [of n] by (simp add: format_activity_reason_def category_table_def)
  qed (simp_all add: format_activity_reason_def category_table_def error_category_of_def contains_any_def
      to_ascii_lowercase_def lower_char_def Let_def starts_with_def)
next
  case (ActSsh x)
  then show ?thesis
  proof (cases x)
    case (SshNonZeroExit code err)
    with ActSsh show ?thesis
      using ssh_category [of "''ssh: NonZeroExit code=''"]
      by (simp add: format_activity_reason_def category_table_def to_ascii_lowercase_def lower_char_def Let_def starts_with_def)
  qed (simp_all add: format_activity_reason_def category_table_def error_category_of_def
      to_ascii_lowercase_def lower_char_def Let_def starts_with_def)
next
  case (ActHelm x)
  then show ?thesis
  proof (cases x)
    case (HelmNonZeroExit code err)
    with ActHelm show ?thesis
      using tool_category by (simp add: format_activity_reason_def category_table_def)
  qed (simp_all add: format_activity_reason_def category_table_def error_category_of_def
      to_ascii_lowercase_def lower_char_def Let_def starts_with_def)
next
  case (ActKubectl x)
  then show ?thesis
  proof (cases x)
    case (KubectlNonZeroExit code err)
    with ActKubectl show ?thesis
      using tool_category by (simp add: format_activity_reason_def category_table_def)
  qed (simp_all add: format_activity_reason_def category_table_def error_category_of_def
      to_ascii_lowercase_def lower_char_def Let_def starts_with_def)
next
  case (CloudInitTimeout n)
  then show ?thesis
    using boot_category by (simp add: format_activity_reason_def category_table_def)
qed (simp add: format_activity_reason_def category_table_def error_category_of_def
      to_ascii_lowercase_def lower_char_def Let_def starts_with_def)

theorem failure_category_witness:
  "error_category_of Failed (Some (format_activity_reason (ActHetzner (HetznerStatus 503 ''unavailable'')))) = Some NetworkError
   \<and> error_category_of Failed (Some (format_activity_reason (ActHetzner (HetznerStatus 500 ''boom'')))) = Some ProviderError
   \<and> is_retryable (ActHetzner (HetznerStatus 500 ''boom''))"
  using failure_category [of "ActHetzner (HetznerStatus 503 ''unavailable'')"]
    failure_category [of "ActHetzner (HetznerStatus 500 ''boom'')"]
  by (simp add: category_table_def status_category_def is_retryable_def)

section \<open>Shell words\<close>

text \<open>
  How a POSIX shell reads the next word of a command line: outside quotes a
  backslash takes the next character literally and blanks and operators end the
  word; between single quotes every character stands for itself. The flag says
  whether a quote is open.
\<close>

definition sh_ends :: "char \<Rightarrow> bool" where
  "sh_ends c \<longleftrightarrow> is_ws c \<or> c \<in> set '';&|<>()$`*?[#~=%!{}'' \<or> c = CHR 0x22"

fun sh_read :: "bool \<Rightarrow> string \<Rightarrow> (string \<times> string) option" where
  "sh_read False [] = Some ([], [])"
| "sh_read False (c # cs) =
     (if sh_ends c then Some ([], c # cs)
      else if c = quote then sh_read True cs
      else if c = CHR 0x5C
      then (case cs of [] \<Rightarrow> None | d # ds \<Rightarrow> map_option (\<lambda>(w, r). (d # w, r)) (sh_read False ds))
      else map_option (\<lambda>(w, r). (c # w, r)) (sh_read False cs))"
| "sh_read True [] = None"
| "sh_read True (c # cs) =
     (if c = quote then sh_read False cs else map_option (\<lambda>(w, r). (c # w, r)) (sh_read True cs))"

lemma replace_char: "replace_str [q] r v = concat (map (\<lambda>c. if c = q then r else [c]) v)"
  by (induction v) (auto simp: starts_with_def)

lemma quote_plain: "\<not> sh_ends quote" "\<not> sh_ends (CHR 0x5C)" "quote \<noteq> CHR 0x5C" "CHR 0x5C \<noteq> quote"
  by code_simp+

lemma sh_read_quoted:
  "sh_read True (replace_str [quote] [quote, CHR 0x5C, quote, quote] v @ rest) =
     map_option (\<lambda>(w, r). (v @ w, r)) (sh_read True rest)"
  unfolding replace_char
proof (induction v)
  case Nil
  show ?case by (cases "sh_read True rest") auto
next
  case (Cons c v)
  then show ?case
    by (cases "sh_read True rest") (auto simp: quote_plain)
qed

lemma sh_read_end: "rest = [] \<or> sh_ends (hd rest) \<Longrightarrow> sh_read False rest = Some ([], rest)"
  by (cases rest) auto

text \<open>(C15) Escaping is sound: whatever text is escaped, the shell reads it back as
  exactly one word with that value and leaves the rest of the command line
  alone, so no version, address or token can inject a command into the lines
  the activities send over SSH.\<close>

theorem shell_escape_reads_back:
  assumes "rest = [] \<or> sh_ends (hd rest)"
  shows "sh_read False (shell_escape v @ rest) = Some (v, rest)"
  using sh_read_quoted [of v "quote # rest"] sh_read_end [OF assms]
  by (simp add: shell_escape_def quote_plain)

theorem shell_escape_reads_back_witness:
  "sh_read False (shell_escape ''a'' @ '' --token x'') = Some (''a'', '' --token x'')
   \<and> sh_read False (shell_escape (quote # ''; reboot #'')) = Some (quote # ''; reboot #'', [])"
proof -
  have "sh_ends (hd '' --token x'')" by code_simp
  then show ?thesis
    using shell_escape_reads_back [of "'' --token x''" "''a''"] shell_escape_reads_back [of "[]" "quote # ''; reboot #''"]
    by simp
qed

section \<open>Names and idempotency keys\<close>

definition all_params ::
    "'s runtime \<Rightarrow> uuid \<Rightarrow> string \<Rightarrow> string \<Rightarrow> string \<Rightarrow> string \<Rightarrow> string \<Rightarrow> nat list \<Rightarrow> create_server_params list" where
  "all_params rt cid name ty loc key ud is =
     control_plane_params cid name ty loc key ud # map (\<lambda>i. worker_params rt cid name i ty loc key ud) is"

definition worker_texts :: "'s runtime \<Rightarrow> uuid \<Rightarrow> nat list \<Rightarrow> string set" where
  "worker_texts rt cid is = (\<lambda>i. ''kubinate.worker:'' @ rt_uuid_text rt cid @ '':'' @ show_nat i) ` set is"

text \<open>Server identities: the control plane and the workers of one cluster get
  pairwise distinct host names, for every range of worker indices, and distinct
  idempotency keys as long as the name-based UUIDs of the worker texts differ
  from one another and from the cluster id.\<close>

theorem server_identities_distinct:
  assumes "distinct is" and "inj_on (rt_uuid_v5 rt) (worker_texts rt cid is)"
    and "cid \<notin> rt_uuid_v5 rt ` worker_texts rt cid is"
  shows "distinct (map sp_name (all_params rt cid name ty loc key ud is))
    \<and> distinct (map sp_idempotency_key (all_params rt cid name ty loc key ud is))"
proof -
  have "inj_on (\<lambda>i. name @ ''-worker-'' @ show_pad2 i) (set is)" by (auto simp: inj_on_def show_pad2_inj)
  then have "distinct (map sp_name (all_params rt cid name ty loc key ud is))"
    using assms(1) by (auto simp: all_params_def control_plane_params_def worker_params_def distinct_map comp_def)
  moreover have "inj_on (\<lambda>i. rt_uuid_v5 rt (''kubinate.worker:'' @ rt_uuid_text rt cid @ '':'' @ show_nat i)) (set is)"
    using assms(2) by (auto simp: inj_on_def worker_texts_def show_nat_inj)
  then have "distinct (map sp_idempotency_key (all_params rt cid name ty loc key ud is))"
    using assms(1,3)
    by (auto simp: all_params_def worker_texts_def control_plane_params_def worker_params_def distinct_map comp_def)
  ultimately show ?thesis by simp
qed

definition demo_runtime :: "unit runtime" where
  "demo_runtime = \<lparr>rt_uuid_text = show_nat, rt_uuid_v5 = (\<lambda>x. 1000 + of_char (last x)),
     rt_sleep = (\<lambda>_ s. s)\<rparr>"

theorem server_identities_distinct_witness:
  "map sp_name (all_params demo_runtime 7 ''c'' ''cpx11'' ''nbg1'' ''k'' ''u'' [0, 1]) = [''c-cp-01'', ''c-worker-00'', ''c-worker-01'']
   \<and> distinct (map sp_idempotency_key (all_params demo_runtime 7 ''c'' ''cpx11'' ''nbg1'' ''k'' ''u'' [0, 1]))"
proof -
  have "inj_on (rt_uuid_v5 demo_runtime) (worker_texts demo_runtime 7 [0, 1])"
    "7 \<notin> rt_uuid_v5 demo_runtime ` worker_texts demo_runtime 7 [0, 1]"
    "map sp_name (all_params demo_runtime 7 ''c'' ''cpx11'' ''nbg1'' ''k'' ''u'' [0, 1]) = [''c-cp-01'', ''c-worker-00'', ''c-worker-01'']"
    by code_simp+
  with server_identities_distinct [of "[0, 1]" demo_runtime 7 "''c''" "''cpx11''" "''nbg1''" "''k''" "''u''"]
  show ?thesis by simp
qed

section \<open>Invariants of a run\<close>

lemma keeps_liftS: "(\<And>s. P s \<Longrightarrow> P (f s)) \<Longrightarrow> keeps P (liftS f)"
  by (simp add: keeps_def liftS_def)

lemma keeps_target: "keeps P (ssh_target_of sv)"
  by (auto simp: ssh_target_of_def keeps_def ret_def fail_def split: option.split)

lemma keeps_poll:
  assumes "\<And>i. keeps P (get_server prov i)" and "\<And>n s. P s \<Longrightarrow> P (rt_sleep rt n s)"
  shows "keeps P (cloud_init_poll k rt prov i)"
proof (induction k)
  case 0
  show ?case by (simp add: keeps_def)
next
  case (Suc k)
  have "keeps P (poll_round k rt prov i sv)" for sv
    using Suc assms(2) by (auto simp: poll_round_def keeps_def ret_def fail_def split: server_status.split)
  then show ?case unfolding cloud_init_poll_Suc by (intro keeps_intros assms)
qed

lemmas workflow_activity_defs = hetzner_create_server_def ssh_install_k3s_server_def ssh_install_k3s_agent_def
  collect_kubeconfig_def wait_for_cloud_init_def report_def kubectl_drain_node_def kubectl_delete_node_def
  helm_install_chart_def

lemma keeps_delete_idempotent:
  "(\<And>i. keeps P (delete_server prov i)) \<Longrightarrow> keeps P (hetzner_delete_server_idempotent prov i)"
proof (rule keepsI)
  fix s
  assume k: "\<And>i. keeps P (delete_server prov i)" and "P s"
  obtain dr u where d: "delete_server prov i s = (dr, u)" by fastforce
  obtain r t where r: "hetzner_delete_server_idempotent prov i s = (r, t)" by fastforce
  from keeps_run [OF k \<open>P s\<close> d] delete_idempotent_outcome [OF d r] r
  show "P (snd (hetzner_delete_server_idempotent prov i s))" by simp
qed

text \<open>What every dependency keeps, every workflow keeps.\<close>

lemma keeps_provision_cluster:
  assumes "\<And>p. keeps P (create_server (pd_hetzner deps) p)" and "\<And>i. keeps P (get_server (pd_hetzner deps) i)"
    and "\<And>n s. P s \<Longrightarrow> P (rt_sleep rt n s)" and "\<And>g c. keeps P (ssh_run (pd_ssh deps) g c)"
    and "\<And>x s. P s \<Longrightarrow> P (sink_step (pd_progress deps) x s)"
  shows "keeps P (provision_cluster rt deps input)" and "keeps P (scale_out rt deps soi)"
  unfolding provision_cluster_def scale_out_def workflow_activity_defs
  by (intro keeps_intros keeps_liftS keeps_target keeps_poll assms; assumption?)+

lemma keeps_destroy_cluster:
  assumes "\<And>i. keeps P (delete_server (dd_hetzner deps) i)" and "\<And>x s. P s \<Longrightarrow> P (sink_step (dd_progress deps) x s)"
  shows "keeps P (destroy_cluster deps input)"
  unfolding destroy_cluster_def workflow_activity_defs
  by (intro keeps_intros keeps_liftS keeps_delete_idempotent assms)

lemma keeps_scale_in:
  assumes "\<And>i. keeps P (delete_server (sd_hetzner deps) i)" and "\<And>x s. P s \<Longrightarrow> P (sink_step (sd_progress deps) x s)"
    and "\<And>p n. keeps P (drain_node (sd_kubectl deps) p n)" and "\<And>p n. keeps P (delete_node (sd_kubectl deps) p n)"
  shows "keeps P (scale_in deps input)"
  unfolding scale_in_def workflow_activity_defs
  by (intro keeps_intros keeps_liftS keeps_delete_idempotent assms)

lemma keeps_install_addon:
  assumes "\<And>p x. keeps P (upgrade_install (id_helm deps) p x)" and "\<And>x s. P s \<Longrightarrow> P (sink_step (id_progress deps) x s)"
  shows "keeps P (install_addon deps input)"
  unfolding install_addon_def workflow_activity_defs by (intro keeps_intros keeps_liftS assms)

end
