(* ===== verification/Runner.thy ===== *)
theory Runner
  imports Workflows
begin

text \<open>
  The in-process runner (\<open>workflows/src/runner.rs\<close>): it drives the workflows
  against the database, the secret store and the external tools, mirrors their
  progress into \<open>provisioning_workflows\<close> and the event hub, and settles the
  status of the cluster or addon at the end.
\<close>

section \<open>The runner\<close>

text \<open>The dependencies of \<open>LocalRunner\<close>: the secret store of the cluster service
  and the executors. The pool, the repositories and the hub live in the state.\<close>

record 's local_runner =
  lr_secrets :: "'s secret_ops"
  lr_ssh :: "'s ssh_executor"
  lr_helm :: "'s helm_executor"
  lr_kubectl :: "'s kubectl_executor"
  lr_uuid_v5 :: "string \<Rightarrow> uuid"

text \<open>\<open>anyhow::Error\<close>: a converted error of the platform, of the database, or a
  message.\<close>

datatype run_error = RunPlatform platform_error | RunDb sqlx_error | RunMessage string

definition publish :: "uuid \<Rightarrow> cluster_event \<Rightarrow> 'z world_scheme \<Rightarrow> 'z world_scheme" where
  "publish cid e = emit (EvPublish cid e)"

definition publish_terminal ::
    "uuid \<Rightarrow> cluster_status \<Rightarrow> string option \<Rightarrow> 'z world_scheme \<Rightarrow> 'z world_scheme" where
  "publish_terminal cid status reason s =
     (let category = (if status = Failed then map_option error_category_str (error_category_of status reason) else None)
      in case status of
           Ready \<Rightarrow> publish cid (TerminalEvent ''ready'' category) s
         | Failed \<Rightarrow> publish cid (TerminalEvent ''failed'' category) s
         | Destroyed \<Rightarrow> publish cid (TerminalEvent ''destroyed'' category) s
         | _ \<Rightarrow> s)"

subsection \<open>The workflow shadow rows\<close>

definition PROVISIONING_STEP :: "string list" where
  "PROVISIONING_STEP =
     [''queued'', ''creating_control_plane'', ''waiting_cloud_init_cp'', ''installing_k3s_server'',
      ''creating_workers'', ''waiting_cloud_init_workers'', ''installing_k3s_agents'',
      ''collecting_kubeconfig'', ''done'', ''failed'']"

definition insert_workflow_row ::
    "uuid \<Rightarrow> uuid \<Rightarrow> uuid \<Rightarrow> ('z world_scheme, run_error, unit) op" where
  "insert_workflow_row wid org cid =
     tx RunDb (\<lambda>s.
       if wid \<in> pw_id ` set (workflow_rows s) then (Inl (RunDb SqlxUnique), s)
       else if cid \<notin> cl_id ` set (clusters s) then (Inl (RunDb SqlxForeignKey), s)
       else (Inr (), s\<lparr>workflow_rows := workflow_rows s @
              [\<lparr>pw_id = wid, pw_cluster = cid, pw_org = org, pw_step = ''queued'', pw_error_reason = None,
                pw_started_at = now s, pw_finished_at = None\<rparr>]\<rparr>))"

text \<open>\<open>$2::provisioning_step\<close> rejects a text that is no label of the type.\<close>

definition bad_step :: sqlx_error where
  "bad_step = SqlxOther ''invalid input value for enum provisioning_step''"

text \<open>This statement runs on the pool, outside a tenant-scoped transaction.\<close>

definition finalize_workflow_row ::
    "uuid \<Rightarrow> string \<Rightarrow> string option \<Rightarrow> ('z world_scheme, run_error, unit) op" where
  "finalize_workflow_row wid final_step reason =
     tx RunDb (\<lambda>s.
       if final_step \<notin> set PROVISIONING_STEP then (Inl (RunDb bad_step), s)
       else (Inr (), s\<lparr>workflow_rows :=
              sql_update (\<lambda>r. rls s None (pw_org r) \<and> pw_id r = wid)
                (\<lambda>r. r\<lparr>pw_step := final_step, pw_error_reason := reason, pw_finished_at := Some (now s)\<rparr>)
                (workflow_rows s)\<rparr>))"

definition update_step :: "uuid \<Rightarrow> uuid \<Rightarrow> string \<Rightarrow> ('z world_scheme, sqlx_error, unit) op" where
  "update_step org wid st =
     tx id (\<lambda>s.
       if st \<notin> set PROVISIONING_STEP then (Inl bad_step, s)
       else (Inr (), s\<lparr>workflow_rows :=
              sql_update (\<lambda>r. rls s (Some org) (pw_org r) \<and> pw_id r = wid)
                (\<lambda>r. r\<lparr>pw_step := st\<rparr>) (workflow_rows s)\<rparr>))"

definition workflow_progress :: "uuid \<Rightarrow> uuid \<Rightarrow> uuid \<Rightarrow> 'z world_scheme progress_sink" where
  "workflow_progress org wid cid =
     \<lparr>sink_step = (\<lambda>st s. publish cid (StepEvent st) (snd (update_step org wid st s)))\<rparr>"

definition hub_only_progress :: "uuid \<Rightarrow> 'z world_scheme progress_sink" where
  "hub_only_progress cid = \<lparr>sink_step = (\<lambda>st s. publish cid (StepEvent st) s)\<rparr>"

text \<open>The runtime the workflows see.\<close>

definition world_sleep :: "nat \<Rightarrow> 'z world_scheme \<Rightarrow> 'z world_scheme" where
  "world_sleep n = emit (EvSleep n)"

definition world_runtime :: "'z world_scheme local_runner \<Rightarrow> 'z world_scheme \<Rightarrow> 'z world_scheme runtime" where
  "world_runtime lr s =
     \<lparr>rt_uuid_text = pg_uuid_text s, rt_uuid_v5 = lr_uuid_v5 lr, rt_sleep = world_sleep\<rparr>"

definition runner_audit :: "string \<Rightarrow> string \<Rightarrow> audit_ctx" where
  "runner_audit request agent =
     \<lparr>actor_user_id = None, request_id = Some request, ip = None, user_agent = Some agent\<rparr>"

section \<open>Provisioning\<close>

definition record_servers ::
    "uuid \<Rightarrow> uuid \<Rightarrow> hetzner_server list \<Rightarrow> audit_ctx \<Rightarrow> ('z world_scheme, run_error, unit) op" where
  "record_servers org cid ws audit =
     forE (\<lambda>w. map_err RunPlatform (record_server org cid (i64_of_u64 (hs_id w)) Worker (hs_ipv4 w)
       (hs_private_ipv4 w) audit)) ws"

text \<open>The success arm, up to \<open>Ok(())\<close>.\<close>

definition provision_succeeded ::
    "'z world_scheme local_runner \<Rightarrow> uuid \<Rightarrow> uuid \<Rightarrow> uuid \<Rightarrow> audit_ctx \<Rightarrow> provision_cluster_output
      \<Rightarrow> ('z world_scheme, run_error, unit) op" where
  "provision_succeeded lr org cid wid audit out =
     bindE (map_err RunPlatform (record_server org cid (i64_of_u64 (hs_id (po_control_plane out))) ControlPlane
       (hs_ipv4 (po_control_plane out)) (hs_private_ipv4 (po_control_plane out)) audit)) (\<lambda>_.
     bindE (record_servers org cid (po_workers out) audit) (\<lambda>_.
     bindE (map_err RunPlatform (store_kubeconfig (lr_secrets lr) org cid (po_kubeconfig out) audit)) (\<lambda>_.
     bindE (map_err RunPlatform (update_status org cid Ready None audit)) (\<lambda>_.
     bindE (finalize_workflow_row wid ''done'' None) (\<lambda>_.
     liftS (publish_terminal cid Ready None))))))"

definition provision_failed ::
    "uuid \<Rightarrow> uuid \<Rightarrow> uuid \<Rightarrow> audit_ctx \<Rightarrow> activity_error \<Rightarrow> ('z world_scheme, run_error, unit) op" where
  "provision_failed org cid wid audit err =
     (let reason = format_activity_reason err in
      bindE (ignoreE (update_status org cid Failed (Some reason) audit)) (\<lambda>_.
      bindE (ignoreE (finalize_workflow_row wid ''failed'' (Some reason))) (\<lambda>_.
      bindE (liftS (publish_terminal cid Failed (Some reason))) (\<lambda>_.
      fail (RunMessage (''provisioning failed: '' @ reason))))))"

definition run_provision ::
    "'z world_scheme local_runner \<Rightarrow> uuid \<Rightarrow> 'z world_scheme hetzner_provider \<Rightarrow> provision_cluster_input
      \<Rightarrow> ('z world_scheme, run_error, unit) op" where
  "run_provision lr org hetzner input =
     bindE new_id (\<lambda>wid.
     bindE (getS (\<lambda>s. runner_audit (pg_uuid_text s wid) ''runner/provision'')) (\<lambda>audit.
     bindE (map_err RunPlatform (update_status org (pi_cluster_id input) Provisioning None audit)) (\<lambda>_.
     bindE (insert_workflow_row wid org (pi_cluster_id input)) (\<lambda>_.
     catchE (\<lambda>s. provision_cluster (world_runtime lr s)
         \<lparr>pd_hetzner = hetzner, pd_ssh = lr_ssh lr, pd_progress = workflow_progress org wid (pi_cluster_id input)\<rparr>
         input s)
       (provision_failed org (pi_cluster_id input) wid audit)
       (provision_succeeded lr org (pi_cluster_id input) wid audit)))))"

text \<open>\<open>spawn_*\<close>: the task logs an error and drops it.\<close>

definition spawn_provision ::
    "'z world_scheme local_runner \<Rightarrow> uuid \<Rightarrow> 'z world_scheme hetzner_provider \<Rightarrow> provision_cluster_input
      \<Rightarrow> 'z world_scheme \<Rightarrow> 'z world_scheme" where
  "spawn_provision lr org hetzner input s = snd (run_provision lr org hetzner input s)"

section \<open>Destroying\<close>

definition destroy_failed ::
    "uuid \<Rightarrow> uuid \<Rightarrow> audit_ctx \<Rightarrow> activity_error \<Rightarrow> ('z world_scheme, run_error, unit) op" where
  "destroy_failed org cid audit err =
     (let reason = format_activity_reason err in
      bindE (ignoreE (mark_destroy_failed org cid reason audit)) (\<lambda>_.
      bindE (liftS (publish_terminal cid Failed (Some reason))) (\<lambda>_.
      fail (RunMessage (''destroy failed: '' @ reason)))))"

definition destroy_succeeded ::
    "'z world_scheme local_runner \<Rightarrow> uuid \<Rightarrow> uuid \<Rightarrow> audit_ctx \<Rightarrow> ('z world_scheme, run_error, unit) op" where
  "destroy_succeeded lr org cid audit =
     bindE (map_err RunPlatform (soft_delete_servers org cid audit)) (\<lambda>_.
     bindE (map_err RunPlatform (finalize_destroy (lr_secrets lr) org cid audit)) (\<lambda>_.
     liftS (publish_terminal cid Destroyed None)))"

definition run_destroy ::
    "'z world_scheme local_runner \<Rightarrow> uuid \<Rightarrow> 'z world_scheme hetzner_provider \<Rightarrow> uuid
      \<Rightarrow> ('z world_scheme, run_error, unit) op" where
  "run_destroy lr org hetzner cid =
     bindE new_id (\<lambda>wid.
     bindE (getS (\<lambda>s. runner_audit (pg_uuid_text s wid) ''runner/destroy'')) (\<lambda>audit.
     bindE (map_err RunPlatform (begin_destroy org cid audit)) (\<lambda>_.
     bindE (map_err RunPlatform (list_servers org cid)) (\<lambda>servers.
     catchE (destroy_cluster \<lparr>dd_hetzner = hetzner, dd_progress = hub_only_progress cid\<rparr>
         \<lparr>di_cluster_id = cid, di_server_ids = map (\<lambda>x. u64_of_i64 (sv_hetzner_server_id x)) servers\<rparr>)
       (destroy_failed org cid audit)
       (\<lambda>_. destroy_succeeded lr org cid audit)))))"

definition spawn_destroy ::
    "'z world_scheme local_runner \<Rightarrow> uuid \<Rightarrow> 'z world_scheme hetzner_provider \<Rightarrow> uuid
      \<Rightarrow> 'z world_scheme \<Rightarrow> 'z world_scheme" where
  "spawn_destroy lr org hetzner cid s = snd (run_destroy lr org hetzner cid s)"

section \<open>Addons\<close>

definition run_install_addon ::
    "'z world_scheme local_runner \<Rightarrow> uuid \<Rightarrow> uuid \<Rightarrow> install_params \<Rightarrow> string
      \<Rightarrow> ('z world_scheme, run_error, unit) op" where
  "run_install_addon lr org aid params path =
     bindE new_id (\<lambda>rid.
     bindE (getS (\<lambda>s. runner_audit (pg_uuid_text s rid) ''runner/install-addon'')) (\<lambda>audit.
     bindE (map_err RunPlatform (addon_update_status org aid AddonInstalling None audit)) (\<lambda>_.
     catchE (install_addon \<lparr>id_helm = lr_helm lr, id_progress = noop_progress\<rparr>
         \<lparr>ii_params = params, ii_kubeconfig_path = path\<rparr>)
       (\<lambda>err. bindE (remove_file path) (\<lambda>_.
          let reason = format_activity_reason err in
          bindE (ignoreE (addon_update_status org aid AddonFailed (Some reason) audit)) (\<lambda>_.
          fail (RunMessage (''addon install failed: '' @ reason)))))
       (\<lambda>_. bindE (remove_file path) (\<lambda>_.
          map_err RunPlatform (addon_update_status org aid AddonReady None audit))))))"

definition spawn_install_addon ::
    "'z world_scheme local_runner \<Rightarrow> uuid \<Rightarrow> uuid \<Rightarrow> install_params \<Rightarrow> string
      \<Rightarrow> 'z world_scheme \<Rightarrow> 'z world_scheme" where
  "spawn_install_addon lr org aid params path s = snd (run_install_addon lr org aid params path s)"

definition run_uninstall_addon ::
    "'z world_scheme local_runner \<Rightarrow> uuid \<Rightarrow> uuid \<Rightarrow> string \<Rightarrow> string \<Rightarrow> string
      \<Rightarrow> ('z world_scheme, run_error, unit) op" where
  "run_uninstall_addon lr org aid release ns path =
     bindE new_id (\<lambda>rid.
     bindE (getS (\<lambda>s. runner_audit (pg_uuid_text s rid) ''runner/uninstall-addon'')) (\<lambda>audit.
     catchE (uninstall (lr_helm lr) path release ns)
       (\<lambda>err. bindE (remove_file path) (\<lambda>_.
          let reason = helm_error_text err in
          bindE (ignoreE (addon_update_status org aid AddonFailed (Some reason) audit)) (\<lambda>_.
          fail (RunMessage (''addon uninstall failed: '' @ reason)))))
       (\<lambda>_. bindE (remove_file path) (\<lambda>_.
          map_err RunPlatform (addon_update_status org aid AddonUninstalled None audit)))))"

definition spawn_uninstall_addon ::
    "'z world_scheme local_runner \<Rightarrow> uuid \<Rightarrow> uuid \<Rightarrow> string \<Rightarrow> string \<Rightarrow> string
      \<Rightarrow> 'z world_scheme \<Rightarrow> 'z world_scheme" where
  "spawn_uninstall_addon lr org aid release ns path s = snd (run_uninstall_addon lr org aid release ns path s)"

section \<open>Scaling\<close>

definition scale_failed ::
    "uuid \<Rightarrow> uuid \<Rightarrow> string \<Rightarrow> audit_ctx \<Rightarrow> activity_error \<Rightarrow> ('z world_scheme, run_error, unit) op" where
  "scale_failed org cid what audit err =
     (let reason = format_activity_reason err in
      bindE (ignoreE (update_status org cid Failed (Some reason) audit)) (\<lambda>_.
      bindE (liftS (publish_terminal cid Failed (Some reason))) (\<lambda>_.
      fail (RunMessage (what @ '' failed: '' @ reason)))))"

record scale_out_args =
  sa_count :: nat
  sa_cluster_name :: string
  sa_location :: string
  sa_server_type :: string
  sa_ssh_key :: string
  sa_user_data :: string
  sa_k3s_version :: string

definition ssh_error_text :: "ssh_error \<Rightarrow> string" where
  "ssh_error_text e =
     (case e of
        SshNonZeroExit code err \<Rightarrow> ''remote command failed with exit code '' @ show_int code @ '': '' @ err
      | SshConnect x \<Rightarrow> ''ssh connect: '' @ x
      | SshTransport x \<Rightarrow> x)"

definition workers_of :: "cluster_server list \<Rightarrow> cluster_server list" where
  "workers_of servers = filter (\<lambda>x. sv_role x = Worker) servers"

definition run_scale_out ::
    "'z world_scheme local_runner \<Rightarrow> uuid \<Rightarrow> 'z world_scheme hetzner_provider \<Rightarrow> uuid \<Rightarrow> scale_out_args
      \<Rightarrow> ('z world_scheme, run_error, unit) op" where
  "run_scale_out lr org hetzner cid args =
     bindE new_id (\<lambda>wid.
     bindE (getS (\<lambda>s. runner_audit (pg_uuid_text s wid) ''runner/scale-out'')) (\<lambda>audit.
     bindE (map_err RunPlatform (update_status org cid Scaling None audit)) (\<lambda>_.
     bindE (map_err RunPlatform (list_servers org cid)) (\<lambda>servers.
     bindE (of_option (RunMessage ''cluster has no control-plane server recorded'')
       (find (\<lambda>x. sv_role x = ControlPlane) servers)) (\<lambda>cp.
     bindE (of_option (RunMessage ''control-plane row has no public IPv4'') (sv_public_ipv4 cp)) (\<lambda>cp_ipv4.
     bindE (map_err (\<lambda>e. RunMessage (''read join token: '' @ ssh_error_text e))
       (ssh_run (lr_ssh lr) \<lparr>st_host = cp_ipv4, st_user = ''kubinate''\<rparr>
          ''sudo cat /var/lib/rancher/k3s/server/node-token'')) (\<lambda>token.
     catchE (\<lambda>s. scale_out (world_runtime lr s)
         \<lparr>pd_hetzner = hetzner, pd_ssh = lr_ssh lr, pd_progress = hub_only_progress cid\<rparr>
         \<lparr>so_cluster_id = cid, so_cluster_name = sa_cluster_name args, so_location = sa_location args,
          so_server_type = sa_server_type args, so_ssh_key = sa_ssh_key args, so_user_data = sa_user_data args,
          so_k3s_version = sa_k3s_version args, so_control_plane_endpoint = cp_ipv4, so_join_token = trim token,
          so_start_index = length (workers_of servers), so_count = sa_count args\<rparr> s)
       (scale_failed org cid ''scale-out'' audit)
       (\<lambda>ws. bindE (record_servers org cid ws audit) (\<lambda>_.
          bindE (map_err RunPlatform (update_status org cid Ready None audit)) (\<lambda>_.
          liftS (publish_terminal cid Ready None))))))))))) "

definition spawn_scale_out ::
    "'z world_scheme local_runner \<Rightarrow> uuid \<Rightarrow> 'z world_scheme hetzner_provider \<Rightarrow> uuid \<Rightarrow> scale_out_args
      \<Rightarrow> 'z world_scheme \<Rightarrow> 'z world_scheme" where
  "spawn_scale_out lr org hetzner cid args s = snd (run_scale_out lr org hetzner cid args s)"

text \<open>The workers to drop: the \<open>count\<close> highest server ids, each with the node name
  of its position in ascending id order.\<close>

definition to_remove :: "cluster_server list \<Rightarrow> nat \<Rightarrow> cluster_server list" where
  "to_remove servers count = take count (sort_key (\<lambda>x. - sv_hetzner_server_id x) (workers_of servers))"

definition index_for_id :: "cluster_server list \<Rightarrow> int \<Rightarrow> nat option" where
  "index_for_id servers =
     map_of (rev (zip (map sv_hetzner_server_id (sort_key sv_hetzner_server_id (workers_of servers)))
       [0..<length (workers_of servers)]))"

definition scale_in_targets :: "cluster_server list \<Rightarrow> string \<Rightarrow> nat \<Rightarrow> worker_to_remove list" where
  "scale_in_targets servers name count =
     map (\<lambda>x. \<lparr>wr_server_id = u64_of_i64 (sv_hetzner_server_id x),
               wr_node_name = name @ ''-worker-''
                 @ show_pad2 (opt_or (index_for_id servers (sv_hetzner_server_id x)) 0)\<rparr>)
       (to_remove servers count)"

text \<open>The row of a removed server; again a statement outside a tenant scope, whose
  outcome is dropped.\<close>

definition forget_server :: "uuid \<Rightarrow> ('z world_scheme, sqlx_error, unit) op" where
  "forget_server i =
     tx id (\<lambda>s. (Inr (), s\<lparr>cluster_servers :=
        sql_update (\<lambda>r. rls s None (cs_org r) \<and> cs_id r = i \<and> cs_deleted_at r = None)
          (\<lambda>r. r\<lparr>cs_deleted_at := Some (now s)\<rparr>) (cluster_servers s)\<rparr>))"

definition run_scale_in ::
    "'z world_scheme local_runner \<Rightarrow> uuid \<Rightarrow> 'z world_scheme hetzner_provider \<Rightarrow> uuid \<Rightarrow> string \<Rightarrow> nat
      \<Rightarrow> ('z world_scheme, run_error, unit) op" where
  "run_scale_in lr org hetzner cid name count =
     bindE new_id (\<lambda>wid.
     bindE (getS (\<lambda>s. runner_audit (pg_uuid_text s wid) ''runner/scale-in'')) (\<lambda>audit.
     bindE (map_err RunPlatform (update_status org cid Scaling None audit)) (\<lambda>_.
     bindE (map_err RunPlatform (list_servers org cid)) (\<lambda>servers.
     bindE (map_err RunPlatform (fetch_kubeconfig (lr_secrets lr) org cid)) (\<lambda>kubeconfig.
     bindE new_id (\<lambda>fid.
     bindE (getS (\<lambda>s. temp_dir s @ ''/kubinate-scale-in-'' @ pg_uuid_text s fid @ ''.yaml'')) (\<lambda>path.
     bindE (map_err (\<lambda>e. RunMessage (''stage kubeconfig: '' @ e)) (write_file path kubeconfig)) (\<lambda>_.
     catchE (scale_in \<lparr>sd_hetzner = hetzner, sd_kubectl = lr_kubectl lr, sd_progress = hub_only_progress cid\<rparr>
         \<lparr>si_cluster_id = cid, si_targets = scale_in_targets servers name count, si_kubeconfig_path = path\<rparr>)
       (\<lambda>err. bindE (remove_file path) (\<lambda>_. scale_failed org cid ''scale-in'' audit err))
       (\<lambda>_. bindE (remove_file path) (\<lambda>_.
          bindE (forE (\<lambda>x. ignoreE (forget_server (sv_id x))) (to_remove servers count)) (\<lambda>_.
          bindE (map_err RunPlatform (update_status org cid Ready None audit)) (\<lambda>_.
          liftS (publish_terminal cid Ready None))))))))))))) "

definition spawn_scale_in ::
    "'z world_scheme local_runner \<Rightarrow> uuid \<Rightarrow> 'z world_scheme hetzner_provider \<Rightarrow> uuid \<Rightarrow> string \<Rightarrow> nat
      \<Rightarrow> 'z world_scheme \<Rightarrow> 'z world_scheme" where
  "spawn_scale_in lr org hetzner cid name count s = snd (run_scale_in lr org hetzner cid name count s)"

section \<open>What the trace shows\<close>

text \<open>Documented behaviour of the provider: reading a server answers with the
  server that was asked for.\<close>

definition api_echoes_id :: "'z world_scheme \<Rightarrow> bool" where
  "api_echoes_id s \<longleftrightarrow>
     (\<forall>tr rq r j i. http_env s tr rq = HttpReply r \<and> rq_method rq = GET
        \<and> rq_url rq = HETZNER_API_BASE @ server_path i \<and> is_success (hr_status r) \<and> hr_json r = Inr j
        \<longrightarrow> sj_id j = i)"

text \<open>The server a request created, the servers a reply confirms to be gone, the
  steps reported for a cluster, the node operations kubectl accepted.\<close>

definition created_id :: "ext_event \<Rightarrow> server_id option" where
  "created_id ev =
     (case ev of
        EvHttp rq (HttpReply r) \<Rightarrow>
          if rq_method rq = POST \<and> is_success (hr_status r)
          then (case hr_json r of Inr j \<Rightarrow> Some (sj_id j) | Inl _ \<Rightarrow> None) else None
      | _ \<Rightarrow> None)"

definition confirms_gone :: "server_id \<Rightarrow> ext_event \<Rightarrow> bool" where
  "confirms_gone i ev =
     (case ev of
        EvHttp rq (HttpReply r) \<Rightarrow>
          rq_method rq = DELETE \<and> rq_url rq = HETZNER_API_BASE @ server_path i
          \<and> (is_success (hr_status r) \<or> hr_status r = 404)
      | _ \<Rightarrow> False)"

definition step_of :: "uuid \<Rightarrow> ext_event \<Rightarrow> string option" where
  "step_of cid ev =
     (case ev of EvPublish d (StepEvent x) \<Rightarrow> if d = cid then Some x else None | _ \<Rightarrow> None)"

definition kubectl_accepts :: "proc_outcome \<Rightarrow> bool" where
  "kubectl_accepts out =
     (case out of
        Exited code _ err \<Rightarrow> code = Some 0 \<or> contains_str err ''NotFound'' \<or> contains_str err ''not found''
      | _ \<Rightarrow> False)"

definition kube_of :: "ext_event \<Rightarrow> kube_call option" where
  "kube_of ev =
     (case ev of
        EvProc pc out \<Rightarrow>
          if \<not> kubectl_accepts out then None
          else if take 1 (pc_args pc) = [''drain''] then Some (Drained (pc_args pc ! 1))
          else if take 2 (pc_args pc) = [''delete'', ''node''] then Some (NodeDeleted (pc_args pc ! 2))
          else None
      | _ \<Rightarrow> None)"

definition observe :: "uuid \<Rightarrow> 'z world_scheme \<Rightarrow> observation" where
  "observe cid s =
     (List.map_filter created_id (ext_trace s), {i. \<exists>ev \<in> set (ext_trace s). confirms_gone i ev},
      List.map_filter (step_of cid) (ext_trace s))"

definition kube_log :: "'z world_scheme \<Rightarrow> kube_call list" where
  "kube_log s = List.map_filter kube_of (ext_trace s)"

lemma map_filter_snoc: "List.map_filter f (xs @ [x]) = List.map_filter f xs @ (case f x of None \<Rightarrow> [] | Some y \<Rightarrow> [y])"
  by (simp add: map_filter_def split: option.split)

lemma observe_tick [simp]: "observe cid (tick s) = observe cid s" "kube_log (tick s) = kube_log s"
  by (simp_all add: observe_def kube_log_def)

lemma observe_cong: "ext_trace t = ext_trace s \<Longrightarrow> observe cid t = observe cid s"
  by (simp add: observe_def)

lemma kube_log_cong: "ext_trace t = ext_trace s \<Longrightarrow> kube_log t = kube_log s"
  by (simp add: kube_log_def)

lemma api_cong: "http_env t = http_env s \<Longrightarrow> api_echoes_id t = api_echoes_id s"
  by (simp add: api_echoes_id_def)

lemma emit_fields [simp]:
  "ext_trace (emit e s) = ext_trace s @ [e]" "http_env (emit e s) = http_env s"
  by (simp_all add: emit_def)

lemma api_emit [simp]: "api_echoes_id (emit e s) = api_echoes_id s"
  by (rule api_cong) simp

lemma observe_emit:
  "observe cid (emit e s) =
     (fst (observe cid s) @ (case created_id e of None \<Rightarrow> [] | Some i \<Rightarrow> [i]),
      fst (snd (observe cid s)) \<union> {i. confirms_gone i e},
      snd (snd (observe cid s)) @ (case step_of cid e of None \<Rightarrow> [] | Some x \<Rightarrow> [x]))"
  by (auto simp: observe_def map_filter_snoc)

lemma kube_log_emit: "kube_log (emit e s) = kube_log s @ (case kube_of e of None \<Rightarrow> [] | Some x \<Rightarrow> [x])"
  by (simp add: kube_log_def map_filter_snoc)

lemma server_path_inj: "server_path i = server_path j \<longleftrightarrow> i = j"
  by (simp add: server_path_def show_nat_inj)

lemma gone_of_delete:
  "rq_method rq = DELETE \<Longrightarrow> rq_url rq = HETZNER_API_BASE @ server_path i \<Longrightarrow>
     {j. confirms_gone j (EvHttp rq (HttpReply r))} = (if is_success (hr_status r) \<or> hr_status r = 404 then {i} else {})"
  by (auto simp: confirms_gone_def server_path_inj)

section \<open>The client, the shell and the sinks keep the contract\<close>

lemma observe_quiet [simp]:
  "observe cid (emit (EvProc pc out) s) = observe cid s"
  "observe cid (emit (EvSleep n) s) = observe cid s"
  "kube_log (emit (EvSleep n) s) = kube_log s"
  "kube_log (emit (EvPublish d x) s) = kube_log s"
  "kube_log (emit (EvHttp rq o') s) = kube_log s"
  "kube_log (emit (EvProc (ssh_build_command cfg target cmd) out) s) = kube_log s"
  by (simp_all add: observe_emit kube_log_emit created_id_def confirms_gone_def step_of_def kube_of_def
      ssh_build_command_def)

lemma observe_http_error [simp]: "observe cid (emit (EvHttp rq (HttpError e)) s) = observe cid s"
  by (simp add: observe_emit created_id_def confirms_gone_def step_of_def)

lemma openssh_quiet:
  "openssh_attempt cfg left target cmd s = (r, t) \<Longrightarrow>
     http_env t = http_env s \<and> observe cid t = observe cid s \<and> kube_log t = kube_log s"
proof (induction left arbitrary: s)
  case 0
  then show ?case
    by (auto simp: run_process_def Let_def split: proc_outcome.splits if_splits)
next
  case (Suc left)
  obtain out where out: "proc_env s (ext_trace s) (ssh_build_command cfg target cmd) = out" by blast
  let ?s1 = "emit (EvProc (ssh_build_command cfg target cmd) out) s"
  let ?s2 = "emit (EvSleep (connect_backoff cfg)) ?s1"
  have "t = ?s1 \<or> openssh_attempt cfg left target cmd ?s2 = (r, t)"
    using Suc.prems out
    by (auto simp: run_process_def Let_def sleep_def liftS_def simp del: openssh_attempt.simps(1)
        simp add: openssh_attempt.simps(1) [of cfg "Suc left"] split: proc_outcome.splits if_splits)
  then show ?case
  proof
    assume "openssh_attempt cfg left target cmd ?s2 = (r, t)"
    from Suc.IH [OF this] show ?thesis by simp
  qed simp
qed

lemma openssh_run_quiet:
  "openssh_run cfg target cmd s = (r, t) \<Longrightarrow>
     http_env t = http_env s \<and> observe cid t = observe cid s \<and> kube_log t = kube_log s"
  unfolding openssh_run_def by (rule openssh_quiet)

lemma sinks_log:
  "observe cid (sink_step (hub_only_progress cid) x s)
     = (fst (observe cid s), fst (snd (observe cid s)), snd (snd (observe cid s)) @ [x])"
  "observe cid (sink_step (workflow_progress org wid cid) x s)
     = (fst (observe cid s), fst (snd (observe cid s)), snd (snd (observe cid s)) @ [x])"
proof -
  have pub: "observe cid (publish cid (StepEvent x) u)
     = (fst (observe cid u), fst (snd (observe cid u)), snd (snd (observe cid u)) @ [x])" for u :: "'b world_scheme"
    by (simp add: publish_def observe_emit created_id_def confirms_gone_def step_of_def)
  show "observe cid (sink_step (hub_only_progress cid) x s)
     = (fst (observe cid s), fst (snd (observe cid s)), snd (snd (observe cid s)) @ [x])"
    by (simp add: hub_only_progress_def publish_def observe_emit created_id_def confirms_gone_def step_of_def)
  have "ext_trace (snd (update_step org wid x s)) = ext_trace s" by (simp add: update_step_def tx_def)
  from observe_cong [OF this] show "observe cid (sink_step (workflow_progress org wid cid) x s)
     = (fst (observe cid s), fst (snd (observe cid s)), snd (snd (observe cid s)) @ [x])"
    by (simp add: workflow_progress_def publish_def observe_emit created_id_def confirms_gone_def step_of_def)
qed

lemma sinks_quiet:
  "http_env (sink_step (hub_only_progress cid) x s) = http_env s"
  "http_env (sink_step (workflow_progress org wid cid) x s) = http_env s"
  "kube_log (sink_step (hub_only_progress cid) x s) = kube_log s"
  "kube_log (sink_step (workflow_progress org wid cid) x s) = kube_log s"
  using kube_log_cong [of "snd (update_step org wid x s)" s]
  by (simp_all add: hub_only_progress_def workflow_progress_def publish_def update_step_def tx_def)

text \<open>A secret store whose reads cost a round trip to the database and nothing else.\<close>

locale quiet_secrets =
  fixes store :: "'z world_scheme secret_ops"
  assumes get_tick: "ss_get store h s = (r, t) \<Longrightarrow> t = tick s"
begin

text \<open>Every request of the client: nothing is sent, or one exchange is logged.\<close>

lemma resolve_quiet:
  assumes "resolve_token store handle s = (r, t)"
  shows "http_env t = http_env s \<and> observe cid t = observe cid s \<and> kube_log t = kube_log s"
proof -
  obtain r' where "ss_get store handle s = (r', t)"
    using assms by (auto simp: resolve_token_def map_err_def split: prod.splits sum.splits)
  from get_tick [OF this] show ?thesis by simp
qed

lemma request_cases:
  assumes "bindE (resolve_token store handle) (\<lambda>tok. bindE (send_request (rq tok)) k) s = (r, t)"
    and "\<And>x. \<exists>y. k x = (\<lambda>u. (y, u))"
  obtains (unsent) e where "r = Inl e" "\<nexists>n b. e = HetznerStatus n b" "http_env t = http_env s" "observe cid t = observe cid s"
      "kube_log t = kube_log s"
  | (sent) tok u x where "http_env u (ext_trace u) (rq tok) = HttpReply x" "t = emit (EvHttp (rq tok) (HttpReply x)) u"
      "k x t = (r, t)" "http_env u = http_env s" "observe cid u = observe cid s" "kube_log u = kube_log s"
proof -
  obtain a u where res: "resolve_token store handle s = (a, u)" by fastforce
  have q: "http_env u = http_env s" "observe cid u = observe cid s" "kube_log u = kube_log s"
    using resolve_quiet [OF res] by auto
  show thesis
  proof (cases a)
    case (Inl e)
    moreover from Inl res have "\<nexists>n b. e = HetznerStatus n b"
      by (auto simp: resolve_token_def map_err_def split: prod.splits sum.splits)
    ultimately show thesis using unsent [of e] res q assms(1) by (simp add: bindE_def)
  next
    case (Inr tok)
    show thesis
    proof (cases "http_env u (ext_trace u) (rq tok)")
      case (HttpError e)
      with Inr res q assms(1) show thesis
        using unsent [of "HetznerTransport e"] by (auto simp: bindE_def send_request_def)
    next
      case (HttpReply x)
      obtain y where y: "k x = (\<lambda>u. (y, u))" using assms(2) by blast
      with HttpReply Inr res q assms(1) show thesis
        using sent [of u tok x] by (auto simp: bindE_def send_request_def)
    qed
  qed
qed

end

lemma bindE_assoc: "bindE (bindE m k) h = bindE m (\<lambda>a. bindE (k a) h)"
  by (intro ext) (simp add: bindE_def split: prod.split sum.split)

text \<open>What a decoded answer is, for a request that expects a server.\<close>

definition server_answer :: "http_response \<Rightarrow> hetzner_error + server_json" where
  "server_answer r =
     (if \<not> is_success (hr_status r) then Inl (HetznerStatus (hr_status r) (truncate_str (hr_text r) 512))
      else case hr_json r of Inl e \<Rightarrow> Inl (HetznerTransport e) | Inr j \<Rightarrow> Inr j)"

lemma answer_run:
  "(if \<not> is_success (hr_status r) then fail (HetznerStatus (hr_status r) (truncate_str (hr_text r) 512))
    else of_sum HetznerTransport (hr_json r)) = (\<lambda>u. (server_answer r, u))"
  by (intro ext) (simp add: server_answer_def fail_def of_sum_def ret_def split: sum.split)

lemma answer_then:
  "bindE (if \<not> is_success (hr_status r) then fail (HetznerStatus (hr_status r) (truncate_str (hr_text r) 512))
    else of_sum HetznerTransport (hr_json r)) (\<lambda>j. ret (f j))
   = (\<lambda>u. (case server_answer r of Inl e \<Rightarrow> Inl e | Inr j \<Rightarrow> Inr (f j), u))"
  unfolding answer_run by (intro ext) (simp add: bindE_def ret_def split: sum.split)

context quiet_secrets
begin

lemma client_create:
  assumes "client_create_server store handle p s = (r, t)"
  shows "http_env t = http_env s \<and> kube_log t = kube_log s \<and>
    observe cid t = (fst (observe cid s) @ (case r of Inl _ \<Rightarrow> [] | Inr i \<Rightarrow> [i]), snd (observe cid s))"
proof -
  define body where "body = \<lparr>cb_name = sp_name p, cb_server_type = sp_server_type p,
      cb_location = sp_location p, cb_image = ''debian-12'', cb_ssh_keys = [sp_ssh_key p], cb_user_data = sp_user_data p,
      cb_start_after_create = True,
      cb_labels = [(''kubinate.idempotency_key'', pg_uuid_text s (sp_idempotency_key p))]\<rparr>"
  let ?rq = "\<lambda>token. \<lparr>rq_method = POST, rq_url = HETZNER_API_BASE @ ''/servers'', rq_bearer = token, rq_body = Some body\<rparr>"
  have run: "bindE (resolve_token store handle) (\<lambda>tok. bindE (send_request (?rq tok))
      (\<lambda>x u. (case server_answer x of Inl e \<Rightarrow> Inl e | Inr j \<Rightarrow> Inr (sj_id j), u))) s = (r, t)"
    using assms by (simp add: client_create_server_def post_json_def bindE_assoc answer_then body_def [symmetric] Let_def)
  show ?thesis
  proof (rule request_cases [OF run, of cid])
    fix tok u x
    assume "http_env u (ext_trace u) (?rq tok) = HttpReply x" and t: "t = emit (EvHttp (?rq tok) (HttpReply x)) u"
      and "(case server_answer x of Inl e \<Rightarrow> Inl e | Inr j \<Rightarrow> Inr (sj_id j), t) = (r, t)"
      and "http_env u = http_env s" "observe cid u = observe cid s" "kube_log u = kube_log s"
    then show ?thesis
      by (auto simp: observe_emit created_id_def confirms_gone_def step_of_def server_answer_def prod_eq_iff
          split: sum.splits if_splits)
  qed auto
qed

lemma client_get:
  assumes "client_get_server store handle i s = (r, t)"
  shows "http_env t = http_env s \<and> kube_log t = kube_log s \<and> observe cid t = observe cid s
    \<and> (\<forall>sv. api_echoes_id s \<and> r = Inr sv \<longrightarrow> hs_id sv = i)"
proof -
  let ?rq = "\<lambda>token. \<lparr>rq_method = GET, rq_url = HETZNER_API_BASE @ server_path i, rq_bearer = token, rq_body = None\<rparr>"
  have run: "bindE (resolve_token store handle) (\<lambda>tok. bindE (send_request (?rq tok))
      (\<lambda>x u. (case server_answer x of Inl e \<Rightarrow> Inl e | Inr j \<Rightarrow> Inr (into_view j), u))) s = (r, t)"
    using assms by (simp add: client_get_server_def get_json_def bindE_assoc answer_then)
  show ?thesis
  proof (rule request_cases [OF run, of cid])
    fix tok u x
    assume env: "http_env u (ext_trace u) (?rq tok) = HttpReply x" and t: "t = emit (EvHttp (?rq tok) (HttpReply x)) u"
      and r: "(case server_answer x of Inl e \<Rightarrow> Inl e | Inr j \<Rightarrow> Inr (into_view j), t) = (r, t)"
      and q: "http_env u = http_env s" "observe cid u = observe cid s" "kube_log u = kube_log s"
    have "hs_id sv = i" if echo: "api_echoes_id s" and rs: "r = Inr sv" for sv
    proof -
      obtain j where "is_success (hr_status x)" "hr_json x = Inr j" "sv = into_view j"
        using r rs by (auto simp: server_answer_def split: sum.splits if_splits)
      moreover from this have "sj_id j = i"
        using echo env q(1) unfolding api_echoes_id_def by (metis http_request.select_convs(1,2))
      ultimately show ?thesis by (simp add: into_view_def)
    qed
    then show ?thesis
      using t q by (simp add: observe_emit created_id_def confirms_gone_def step_of_def)
  qed auto
qed

lemma client_delete:
  assumes "client_delete_server store handle i s = (r, t)"
  shows "http_env t = http_env s \<and> kube_log t = kube_log s \<and> observe cid t = (fst (observe cid s),
    (if r = Inr () \<or> (\<exists>body. r = Inl (HetznerStatus 404 body)) then insert i (fst (snd (observe cid s)))
     else fst (snd (observe cid s))), snd (snd (observe cid s)))"
proof -
  let ?rq = "\<lambda>token. \<lparr>rq_method = DELETE, rq_url = HETZNER_API_BASE @ server_path i, rq_bearer = token, rq_body = None\<rparr>"
  let ?y = "\<lambda>x. if \<not> is_success (hr_status x) then Inl (HetznerStatus (hr_status x) (truncate_str (hr_text x) 512)) else Inr ()"
  have k: "(if \<not> is_success (hr_status x) then fail (HetznerStatus (hr_status x) (truncate_str (hr_text x) 512)) else ret ())
      = (\<lambda>u. (?y x, u))" for x
    by (intro ext) (simp add: fail_def ret_def)
  have run: "bindE (resolve_token store handle) (\<lambda>tok. bindE (send_request (?rq tok)) (\<lambda>x u. (?y x, u))) s = (r, t)"
    using assms unfolding client_delete_server_def delete_path_def k .
  show ?thesis
  proof (rule request_cases [OF run, of cid])
    fix tok u x
    assume "t = emit (EvHttp (?rq tok) (HttpReply x)) u" and r: "(?y x, t) = (r, t)"
      and "http_env u = http_env s" "observe cid u = observe cid s" "kube_log u = kube_log s"
    then show ?thesis
      using gone_of_delete [of "?rq tok" i x]
      by (auto simp: observe_emit created_id_def step_of_def is_success_def split: if_splits)
  qed (auto simp: prod_eq_iff)
qed

end

lemma kubectl_logs:
  assumes "kubectl_run cfg pc True s = (r, t)"
  shows "\<exists>out. t = emit (EvProc pc out) s \<and> (r = Inr () \<longleftrightarrow> kubectl_accepts out)"
proof (cases "proc_env s (ext_trace s) pc")
  case (Exited code out err)
  with assms show ?thesis
    by (intro exI [of _ "Exited code out err"])
      (auto simp: kubectl_run_def bindE_def run_process_def Let_def ret_def fail_def kubectl_accepts_def split: if_splits)
qed (use assms in \<open>auto simp: kubectl_run_def bindE_def run_process_def Let_def fail_def kubectl_accepts_def\<close>)

text \<open>The same with a sink that logs its steps under a cluster id.\<close>

locale logged_run = quiet_secrets store
  for store :: "'z world_scheme secret_ops" +
  fixes sink :: "'z world_scheme progress_sink"
    and cid :: uuid
  assumes sink_log: "http_env (sink_step sink x s) = http_env s \<and> kube_log (sink_step sink x s) = kube_log s
      \<and> observe cid (sink_step sink x s) = (fst (observe cid s), fst (snd (observe cid s)), snd (snd (observe cid s)) @ [x])"

sublocale logged_run \<subseteq> env: scale_in_env "world_runtime lr s0" "hetzner_client store handle" "openssh_ssh cfg"
  sink api_echoes_id "observe cid" "kubectl_cli_executor kcfg" kube_log
  for lr :: "'z world_scheme local_runner" and s0 handle cfg kcfg
proof (unfold_locales, goal_cases)
  case (1 s p i t)
  then show ?case using client_create [of handle p s "Inr i" t cid] api_cong [of t s] by (simp add: hetzner_client_def)
next
  case (2 s p e t)
  then show ?case using client_create [of handle p s "Inl e" t cid] api_cong [of t s] by (simp add: hetzner_client_def)
next
  case (3 s i gr t)
  then show ?case using client_get [of handle i s gr t cid] api_cong [of t s] by (simp add: hetzner_client_def)
next
  case (4 s i sv t)
  then show ?case using client_get [of handle i s "Inr sv" t cid] by (simp add: hetzner_client_def)
next
  case (5 s i dr t)
  then show ?case using client_delete [of handle i s dr t cid] api_cong [of t s] by (simp add: hetzner_client_def)
next
  case (6 s target cmd sr t)
  then show ?case using openssh_run_quiet [of cfg target cmd s sr t cid] api_cong [of t s] by (simp add: openssh_ssh_def)
next
  case (7 s k)
  then show ?case by (simp add: world_runtime_def world_sleep_def)
next
  case (8 s x)
  then show ?case using sink_log [of x s] api_cong [of "sink_step sink x s" s] by simp
next
  case (9 s path node kr t)
  then show ?case
    using kubectl_logs [of kcfg "kubectl_build_command kcfg path [''drain'', node, ''--ignore-daemonsets'', ''--delete-emptydir-data'', ''--force'', ''--timeout=180s'']" s kr t]
    by (auto simp: kubectl_cli_executor_def cli_drain_node_def kubectl_build_command_def kube_log_emit kube_of_def)
next
  case (10 s path node kr t)
  then show ?case
    using kubectl_logs [of kcfg "kubectl_build_command kcfg path [''delete'', ''node'', node]" s kr t]
    by (auto simp: kubectl_cli_executor_def cli_delete_node_def kubectl_build_command_def kube_log_emit kube_of_def)
next
  case (11 s i dr t)
  then show ?case using client_delete [of handle i s dr t cid] by (simp add: hetzner_client_def)
next
  case (12 s x)
  then show ?case using sink_log [of x s] by simp
qed

sublocale quiet_secrets \<subseteq> wfp: logged_run store "workflow_progress org wid cid" cid for org wid cid
  by unfold_locales (simp add: sinks_log sinks_quiet)

sublocale quiet_secrets \<subseteq> hub: logged_run store "hub_only_progress cid" cid for cid
  by unfold_locales (simp add: sinks_log sinks_quiet)

interpretation pgq: quiet_secrets "pgcrypto_store secret_refs kek" for kek :: string
  by unfold_locales (simp add: pgcrypto_store_def pgcrypto_get_state)

interpretation vltq: quiet_secrets "vault_store secret_refs in_memory_transit prefix" for prefix :: string
  by unfold_locales (simp add: vault_store_def vault_get_state)

section \<open>Facts the outside world cannot change\<close>

text \<open>A property of the state that neither a round trip nor an event touches.\<close>

definition calm :: "('z world_scheme \<Rightarrow> bool) \<Rightarrow> bool" where
  "calm P \<longleftrightarrow> (\<forall>s. P (tick s) = P s) \<and> (\<forall>e s. P (emit e s) = P s)"

lemma calmD: "calm P \<Longrightarrow> P s \<Longrightarrow> P (tick s)" "calm P \<Longrightarrow> P s \<Longrightarrow> P (emit e s)"
  by (auto simp: calm_def)

lemma calm_run_process: "calm P \<Longrightarrow> keeps P (run_process pc)"
  by (simp add: keeps_def run_process_def Let_def calmD)

lemma calm_send: "calm P \<Longrightarrow> keeps P (send_request rq)"
  by (simp add: keeps_def send_request_def calmD split: http_outcome.split)

lemma calm_openssh:
  assumes "calm P"
  shows "keeps P (openssh_attempt cfg left target cmd)"
proof (rule keepsI)
  fix s :: "'a world_scheme"
  assume "P s"
  then show "P (snd (openssh_attempt cfg left target cmd s))"
  proof (induction left arbitrary: s)
    case 0
    then show ?case using assms by (simp add: run_process_def Let_def calmD split: proc_outcome.split)
  next
    case (Suc left)
    let ?u = "emit (EvSleep (connect_backoff cfg))
      (emit (EvProc (ssh_build_command cfg target cmd) (proc_env s (ext_trace s) (ssh_build_command cfg target cmd))) s)"
    have "P (snd (openssh_attempt cfg left target cmd ?u))" using Suc assms by (simp add: calmD)
    then show ?case
      using Suc.prems assms
      by (subst openssh_attempt.simps)
        (auto simp: run_process_def Let_def calmD sleep_def liftS_def simp del: openssh_attempt.simps split: proc_outcome.split)
  qed
qed

lemma calm_ssh: "calm P \<Longrightarrow> keeps P (ssh_run (openssh_ssh cfg) target cmd)"
  by (simp add: openssh_ssh_def openssh_run_def calm_openssh)

lemma calm_kubectl:
  assumes "calm P"
  shows "keeps P (drain_node (kubectl_cli_executor cfg) path node)"
    and "keeps P (delete_node (kubectl_cli_executor cfg) path node)"
proof -
  have "keeps P (kubectl_run cfg pc b)" for pc b
    unfolding kubectl_run_def
    by (intro keeps_intros calm_run_process assms) (auto split: proc_outcome.split intro!: keeps_intros)
  then show "keeps P (drain_node (kubectl_cli_executor cfg) path node)"
    and "keeps P (delete_node (kubectl_cli_executor cfg) path node)"
    by (simp_all add: kubectl_cli_executor_def cli_drain_node_def cli_delete_node_def)
qed

lemma calm_hub: "calm P \<Longrightarrow> P s \<Longrightarrow> P (sink_step (hub_only_progress cid) x s)"
  by (simp add: hub_only_progress_def publish_def calmD)

lemma calm_runtime: "calm P \<Longrightarrow> P s \<Longrightarrow> P (rt_sleep (world_runtime lr s0) n s)"
  by (simp add: world_runtime_def world_sleep_def calmD)

context quiet_secrets
begin

lemma calm_token: "calm P \<Longrightarrow> keeps P (resolve_token store handle)"
  unfolding resolve_token_def
  by (intro keeps_intros keepsI) (metis calmD(1) get_tick prod.collapse)

lemma calm_client:
  assumes "calm P"
  shows "keeps P (create_server (hetzner_client store handle) p)"
    and "keeps P (get_server (hetzner_client store handle) i)"
    and "keeps P (delete_server (hetzner_client store handle) i)"
proof -
  show "keeps P (get_server (hetzner_client store handle) i)" "keeps P (delete_server (hetzner_client store handle) i)"
    unfolding hetzner_client_def hetzner_provider.select_convs client_get_server_def client_delete_server_def get_json_def delete_path_def
    by (intro keeps_intros calm_token calm_send keeps_of_sum assms)+
  have "keeps P (bindE (post_json store handle path body) (\<lambda>j. ret (sj_id j)))" for path body
    unfolding post_json_def by (intro keeps_intros calm_token calm_send keeps_of_sum assms)
  then show "keeps P (create_server (hetzner_client store handle) p)"
    by (simp add: hetzner_client_def client_create_server_def Let_def keeps_def)
qed

end

section \<open>Destroying a cluster\<close>

text \<open>The rows of an organization's cluster that are still live.\<close>

definition live_servers :: "'z cluster_db_scheme \<Rightarrow> uuid \<Rightarrow> uuid \<Rightarrow> cluster_server_row list" where
  "live_servers s org cid =
     filter (\<lambda>r. cs_org r = org \<and> cs_cluster r = cid \<and> cs_deleted_at r = None) (cluster_servers s)"

lemma list_servers_ids:
  assumes "list_servers org cid s = (Inr svs, t)" and "\<not> pg_bypass s"
  shows "t = tick s" and "sv_hetzner_server_id ` set svs = cs_hetzner_id ` set (live_servers s org cid)"
  using assms by (auto simp: list_servers_def tx_eq_Inr)
    (simp_all add: rls_app_role live_servers_def row_to_server_def image_image)

text \<open>A cluster row that reads still find.\<close>

definition still_live :: "uuid \<Rightarrow> uuid \<Rightarrow> 'z cluster_db_scheme \<Rightarrow> bool" where
  "still_live org cid s \<longleftrightarrow> live_cluster s org cid \<noteq> None"

lemma live_cluster_cong:
  "clusters t = clusters s \<Longrightarrow> pg_bypass t = pg_bypass s \<Longrightarrow> live_cluster t = live_cluster s"
  by (intro ext) (simp add: live_cluster_def cluster_visible_def rls_def)

lemma still_live_simps [simp]:
  "still_live org cid (tick s) = still_live org cid s"
  "still_live org cid (emit e w) = still_live org cid w"
  "still_live org cid (s\<lparr>pg_uuid_ctr := n\<rparr>) = still_live org cid s"
  by (simp_all add: still_live_def live_cluster_def cluster_visible_def rls_def emit_def)

lemma calm_still_live: "calm (still_live org cid)"
  by (simp add: calm_def)

lemma update_status_still_live: "keeps (still_live org cid) (update_status o' i st reason ctx)"
proof (rule keepsI)
  fix s :: "'a cluster_db_scheme"
  assume live: "still_live org cid s"
  show "still_live org cid (snd (update_status o' i st reason ctx s))"
  proof (cases "db_faulty s")
    case True
    then show ?thesis using live by (simp add: update_status_def bindE_def tx_def db_faulty_def)
  next
    case False
    with live show ?thesis by (simp add: update_status_run still_live_def live_cluster_update)
  qed
qed

lemma cluster_get_still_live: "keeps (still_live org cid) (cluster_get o' i)"
  by (auto simp: keeps_def cluster_get_def bindE_def tx_def split: option.split)

lemma begin_destroy_still_live: "keeps (still_live org cid) (begin_destroy o' i ctx)"
  unfolding begin_destroy_def by (intro keeps_intros cluster_get_still_live update_status_still_live)

lemma list_servers_still_live: "keeps (still_live org cid) (list_servers o' i)"
  by (simp add: keeps_def list_servers_def tx_def)

lemma terminal_emits: "\<exists>e. publish_terminal cid st reason s = emit e s \<or> publish_terminal cid st reason s = s"
  by (cases st) (auto simp: publish_terminal_def publish_def Let_def)

lemma calm_terminal: "calm P \<Longrightarrow> P s \<Longrightarrow> P (publish_terminal cid st reason s)"
  using terminal_emits [of cid st reason s] by (auto simp: calm_def)

lemma destroy_failed_still_live: "keeps (still_live org cid) (destroy_failed o' i audit err)"
  unfolding destroy_failed_def Let_def mark_destroy_failed_def
  by (intro keeps_intros update_status_still_live keeps_liftS calm_terminal [OF calm_still_live])

lemma triple_keeps: "keeps P m \<Longrightarrow> triple P m (\<lambda>_. P) P"
  by (rule tripleI) (auto dest: keeps_run)

lemma triple_conseq:
  "triple P m Q E \<Longrightarrow> (\<And>s. P' s \<Longrightarrow> P s) \<Longrightarrow> (\<And>a s. Q a s \<Longrightarrow> Q' a s) \<Longrightarrow> (\<And>s. E s \<Longrightarrow> E' s) \<Longrightarrow> triple P' m Q' E'"
  by (rule tripleI) (blast dest: triple_okD triple_errD)+

lemma triple_catch:
  assumes "triple P m R F" and "\<And>e. triple F (h e) Q E" and "\<And>a. triple (R a) (k a) Q E"
  shows "triple P (catchE m h k) Q E"
proof (rule tripleI)
  fix s a t
  assume s: "P s" and run: "catchE m h k s = (Inr a, t)"
  obtain x u where m: "m s = (x, u)" by fastforce
  show "Q a t"
  proof (cases x)
    case (Inl e)
    with m run have "F u" "h e u = (Inr a, t)" using triple_errD [OF assms(1) s] by (auto simp: catchE_def)
    then show ?thesis by (rule triple_okD [OF assms(2)])
  next
    case (Inr b)
    with m run have "R b u" "k b u = (Inr a, t)" using triple_okD [OF assms(1) s] by (auto simp: catchE_def)
    then show ?thesis by (rule triple_okD [OF assms(3)])
  qed
next
  fix s e' t
  assume s: "P s" and run: "catchE m h k s = (Inl e', t)"
  obtain x u where m: "m s = (x, u)" by fastforce
  show "E t"
  proof (cases x)
    case (Inl e)
    with m run have "F u" "h e u = (Inl e', t)" using triple_errD [OF assms(1) s] by (auto simp: catchE_def)
    then show ?thesis by (rule triple_errD [OF assms(2)])
  next
    case (Inr b)
    with m run have "R b u" "k b u = (Inl e', t)" using triple_okD [OF assms(1) s] by (auto simp: catchE_def)
    then show ?thesis by (rule triple_errD [OF assms(3)])
  qed
qed

section \<open>What the repositories leave alone\<close>

lemma update_clusters_world [simp]:
  "ext_trace (snd (update_clusters ctx hit f s)) = ext_trace s"
  "http_env (snd (update_clusters ctx hit f s)) = http_env s"
  "proc_env (snd (update_clusters ctx hit f s)) = proc_env s"
  "tmp_files (snd (update_clusters ctx hit f s)) = tmp_files s"
  "workflow_rows (snd (update_clusters ctx hit f s)) = workflow_rows s"
  "cluster_addons (snd (update_clusters ctx hit f s)) = cluster_addons s"
  "idempotency_keys (snd (update_clusters ctx hit f s)) = idempotency_keys s"
  by (simp_all add: update_clusters_state)

lemma emit_rows [simp]:
  "pg_bypass (emit e s) = pg_bypass s" "clusters (emit e s) = clusters s" "cluster_servers (emit e s) = cluster_servers s"
  "workflow_rows (emit e s) = workflow_rows s" "tmp_files (emit e s) = tmp_files s" "proc_env (emit e s) = proc_env s"
  "idempotency_keys (emit e s) = idempotency_keys s" "fs_write (emit e s) = fs_write s" "temp_dir (emit e s) = temp_dir s"
  by (simp_all add: emit_def)

text \<open>The part of the world that no repository call touches, and the part that a
  secret store does not touch either.\<close>

type_synonym outside = "ext_event list \<times> (ext_event list \<Rightarrow> http_request \<Rightarrow> http_outcome)
  \<times> (ext_event list \<Rightarrow> proc_call \<Rightarrow> proc_outcome) \<times> (string \<times> string) list \<times> bool \<times> idempotency_row list"

definition outer :: "'z world_scheme \<Rightarrow> outside" where
  "outer s = (ext_trace s, http_env s, proc_env s, tmp_files s, pg_bypass s, idempotency_keys s)"

definition frame :: "'z world_scheme \<Rightarrow> outside \<times> cluster_row list \<times> cluster_server_row list \<times> workflow_row list" where
  "frame s = (outer s, clusters s, cluster_servers s, workflow_rows s)"

lemma outer_simps [simp]:
  "outer (tick s) = outer s" "outer (s\<lparr>pg_uuid_ctr := n\<rparr>) = outer s" "outer (s\<lparr>clusters := cl\<rparr>) = outer s"
  "outer (s\<lparr>cluster_servers := sv\<rparr>) = outer s" "outer (s\<lparr>workflow_rows := wr\<rparr>) = outer s"
  "outer (s\<lparr>secrets := sx\<rparr>) = outer s" "outer (s\<lparr>rnd_ctr := n\<rparr>) = outer s" "outer (s\<lparr>vault := v\<rparr>) = outer s"
  "outer (audit_rows c tb v' rows s) = outer s" "outer (snd (update_clusters ctx hit f s)) = outer s"
  by (simp_all add: outer_def)

lemma frame_simps [simp]:
  "frame (tick s) = frame s" "frame (s\<lparr>pg_uuid_ctr := n\<rparr>) = frame s"
  "frame (s\<lparr>secrets := sx\<rparr>) = frame s" "frame (s\<lparr>rnd_ctr := n\<rparr>) = frame s" "frame (s\<lparr>vault := v\<rparr>) = frame s"
  by (simp_all add: frame_def)

lemma outer_observe:
  "outer t = outer s \<Longrightarrow> observe cid t = observe cid s \<and> kube_log t = kube_log s \<and> api_echoes_id t = api_echoes_id s"
  using observe_cong [of t s cid] kube_log_cong [of t s] api_cong [of t s] by (simp add: outer_def)

lemma keeps_outer_update: "keeps (\<lambda>s. outer s = w) (tx Database (\<lambda>s. update_clusters ctx (hit s) (f s) s))"
  by (rule keeps_tx) (auto simp: update_clusters_eq)

lemma repo_outer:
  "keeps (\<lambda>s. outer s = w) (update_status org i st reason ctx)"
  "keeps (\<lambda>s. outer s = w) (cluster_soft_delete org i ctx)"
  "keeps (\<lambda>s. outer s = w) (soft_delete_servers org i ctx)"
  "keeps (\<lambda>s. outer s = w) (list_servers org i)"
  "keeps (\<lambda>s. outer s = w) (cluster_get org i)"
  "keeps (\<lambda>s. outer s = w) (kubeconfig_secret org i)"
  "keeps (\<lambda>s. outer s = w) (record_server org i hid role pub priv ctx)"
proof -
  show "keeps (\<lambda>s. outer s = w) (update_status org i st reason ctx)" "keeps (\<lambda>s. outer s = w) (cluster_soft_delete org i ctx)"
    unfolding update_status_def cluster_soft_delete_def
    by (intro keeps_intros keeps_outer_update)+
  show "keeps (\<lambda>s. outer s = w) (soft_delete_servers org i ctx)" "keeps (\<lambda>s. outer s = w) (list_servers org i)"
    "keeps (\<lambda>s. outer s = w) (cluster_get org i)" "keeps (\<lambda>s. outer s = w) (kubeconfig_secret org i)"
    by (auto simp: keeps_def soft_delete_servers_def list_servers_def cluster_get_def kubeconfig_secret_def tx_def bindE_def
        cluster_not_found_def ret_def split: option.split)
  show "keeps (\<lambda>s. outer s = w) (record_server org i hid role pub priv ctx)"
    by (simp add: keeps_def record_server_def bindE_def new_id_def tx_def)
qed

text \<open>A store whose writes stay inside the secrets table.\<close>

locale framed_secrets = quiet_secrets +
  assumes put_frame: "keeps (\<lambda>s. frame s = w) (ss_put store org k)"
    and delete_frame: "keeps (\<lambda>s. frame s = w) (ss_delete store h)"

lemma pgcrypto_put_frame: "keeps (\<lambda>s. frame s = w) (pgcrypto_put kek org k)"
  unfolding pgcrypto_put_def
  by (intro keeps_intros keeps_new_id keeps_tx) (auto simp: Let_def insert_secret_def split: if_splits)

lemma vault_put_frame: "keeps (\<lambda>s. frame s = w) (vault_put in_memory_transit prefix org k)"
  unfolding vault_put_def in_memory_transit_def vault_transit.select_convs
  by (intro keeps_intros keeps_new_id keeps_tx)
    (auto simp: keeps_def Let_def insert_secret_def im_ensure_key_def im_encrypt_def split: if_splits)

lemma secret_delete_frame: "keeps (\<lambda>s. frame s = w) (secret_delete refs h)"
  unfolding secret_delete_def by (rule keeps_tx) (auto simp: Let_def split: if_splits)

interpretation pgq: framed_secrets "pgcrypto_store secret_refs kek" for kek :: string
  by unfold_locales (simp_all add: pgcrypto_store_def pgcrypto_put_frame secret_delete_frame)

interpretation vltq: framed_secrets "vault_store secret_refs in_memory_transit prefix" for prefix :: string
  by unfold_locales (simp_all add: vault_store_def vault_put_frame secret_delete_frame)

section \<open>Destroying a cluster\<close>

lemma keeps_via:
  assumes "\<And>w. keeps (\<lambda>s. g s = w) m" and "\<And>s t. g t = g s \<Longrightarrow> P s \<Longrightarrow> P t"
  shows "keeps P m"
proof (rule keepsI)
  fix s
  assume "P s"
  have "g (snd (m s)) = g s" by (rule keepsD [OF assms(1)]) (rule refl)
  from assms(2) [OF this \<open>P s\<close>] show "P (snd (m s))" .
qed

text \<open>Before and during the provider calls: the row of the cluster is where it was
  and no server row has changed.\<close>

definition holding :: "bool \<Rightarrow> uuid \<Rightarrow> uuid \<Rightarrow> cluster_server_row list \<Rightarrow> 'z world_scheme \<Rightarrow> bool" where
  "holding live org cid rows s \<longleftrightarrow>
     \<not> pg_bypass s \<and> cluster_servers s = rows \<and> (live \<longrightarrow> still_live org cid s)"

lemma calm_holding: "calm (holding live org cid rows)"
  by (simp add: calm_def holding_def)

lemma update_status_servers: "keeps (\<lambda>s. cluster_servers s = rows \<and> pg_bypass s = b) (update_status o' i st reason ctx)"
  unfolding update_status_def
  by (intro keeps_intros keeps_tx) (auto simp: update_clusters_eq keeps_def cluster_not_found_def)

lemma holding_update_status: "keeps (holding live org cid rows) (update_status o' i st reason ctx)"
proof (rule keepsI)
  fix s :: "'a world_scheme"
  assume "holding live org cid rows s"
  then show "holding live org cid rows (snd (update_status o' i st reason ctx s))"
    using keepsD [OF update_status_servers [of rows False], of s o' i st reason ctx]
      keepsD [OF update_status_still_live [of org cid], of s o' i st reason ctx]
    by (simp add: holding_def)
qed

lemma holding_reads:
  "keeps (holding live org cid rows) (cluster_get o' i)"
  "keeps (holding live org cid rows) (list_servers o' i)"
  by (auto simp: keeps_def cluster_get_def list_servers_def bindE_def tx_def holding_def split: option.split)

lemma holding_begin: "keeps (holding live org cid rows) (begin_destroy o' i ctx)"
  unfolding begin_destroy_def by (intro keeps_intros holding_reads holding_update_status)

text \<open>The provider has confirmed that the given servers are gone.\<close>

definition confirmed :: "uuid \<Rightarrow> server_id set \<Rightarrow> 'z world_scheme \<Rightarrow> bool" where
  "confirmed cid ids s \<longleftrightarrow> ids \<subseteq> fst (snd (observe cid s))"

lemma confirmed_emit: "confirmed cid ids s \<Longrightarrow> confirmed cid ids (emit e s)"
  by (auto simp: confirmed_def observe_emit)

lemma confirmed_terminal: "confirmed cid ids s \<Longrightarrow> confirmed cid ids (publish_terminal d st reason s)"
  using terminal_emits [of d st reason s] by (auto intro: confirmed_emit)

lemma confirmed_cong: "outer t = outer s \<Longrightarrow> confirmed cid ids t = confirmed cid ids s"
  using outer_observe [of t s cid] by (simp add: confirmed_def)

lemma confirmed_keeps:
  fixes m :: "('z world_scheme, 'e, 'a) op"
  assumes "\<And>w. keeps (\<lambda>s. outer s = w) m"
  shows "keeps (confirmed cid ids) m"
  by (rule keeps_via [OF assms]) (blast dest: confirmed_cong [THEN iffD2])

context framed_secrets
begin

lemma finalize_outer: "keeps (\<lambda>s. outer s = w) (finalize_destroy store org i ctx)"
proof -
  have del: "keeps (\<lambda>s. outer s = w) (ss_delete store h)" for h
    by (rule keeps_via [OF delete_frame]) (simp add: frame_def)
  have "keeps (\<lambda>s. outer s = w) (case x of Some sid \<Rightarrow> ignoreE (ss_delete store (h sid)) | None \<Rightarrow> ret ())"
    for x :: "uuid option" and h
    by (cases x) (auto intro!: keeps_intros del)
  then show ?thesis unfolding finalize_destroy_def by (intro keeps_intros repo_outer)
qed

lemma finalize_servers: "keeps (\<lambda>s. cluster_servers s = rows) (finalize_destroy store org i ctx)"
proof -
  have del: "keeps (\<lambda>s. cluster_servers s = rows) (ss_delete store h)" for h
    by (rule keeps_via [OF delete_frame]) (simp add: frame_def)
  have reads: "keeps (\<lambda>s. cluster_servers s = rows) (kubeconfig_secret org i)"
    by (auto simp: keeps_def kubeconfig_secret_def bindE_def tx_def ret_def cluster_not_found_def split: option.split)
  have "keeps (\<lambda>s. cluster_servers s = rows) (case x of Some sid \<Rightarrow> ignoreE (ss_delete store (h sid)) | None \<Rightarrow> ret ())"
    for x :: "uuid option" and h
    by (cases x) (auto intro!: keeps_intros del)
  moreover have "keeps (\<lambda>s. cluster_servers s = rows) (cluster_soft_delete org i ctx)"
    unfolding cluster_soft_delete_def by (intro keeps_intros keeps_tx) (auto simp: update_clusters_eq)
  moreover have "keeps (\<lambda>s. cluster_servers s = rows) (update_status org i Destroyed None ctx)"
    unfolding update_status_def by (intro keeps_intros keeps_tx) (auto simp: update_clusters_eq keeps_def cluster_not_found_def)
  ultimately show ?thesis unfolding finalize_destroy_def by (intro keeps_intros reads)
qed

lemma finalize_retires:
  assumes "finalize_destroy store org i ctx s = (Inr (), t)"
  shows "\<not> still_live org i t"
proof -
  obtain u v where del: "cluster_soft_delete org i ctx u = (Inr (), v)" and upd: "update_status org i Destroyed None ctx v = (Inr (), t)"
    using assms by (auto simp: finalize_destroy_def bindE_eq_Inr ret_def)
  have "\<not> db_faulty u" using del by (auto simp: cluster_soft_delete_def bindE_eq_Inr tx_eq_Inr db_faulty_def)
  moreover from this del have v: "v = tick (snd (update_clusters ctx
        (\<lambda>r. cluster_visible u org r \<and> cl_id r = i \<and> cl_deleted_at r = None) (\<lambda>r. r\<lparr>cl_deleted_at := Some (now u)\<rparr>) u))"
    by (simp add: cluster_soft_delete_run)
  moreover have "\<not> db_faulty v" using upd by (auto simp: update_status_def bindE_eq_Inr tx_eq_Inr db_faulty_def)
  ultimately have "t = retire u org i ctx"
    using upd by (simp add: update_status_run retire_def Let_def)
  then show ?thesis by (simp add: still_live_def retire_gone)
qed

end

lemma triple_keeps_weak: "keeps P m \<Longrightarrow> (\<And>s. P s \<Longrightarrow> E s) \<Longrightarrow> triple P m (\<lambda>_. P) E"
  by (rule triple_weaken_err [OF triple_keeps])

lemma api_keeps:
  fixes m :: "('z world_scheme, 'e, 'a) op"
  assumes "\<And>w. keeps (\<lambda>s. outer s = w) m"
  shows "keeps api_echoes_id m"
  by (rule keeps_via [OF assms]) (auto dest: outer_observe [of _ _ 0])

lemma begin_destroy_outer: "keeps (\<lambda>s. outer s = w) (begin_destroy org i ctx)"
  unfolding begin_destroy_def by (intro keeps_intros repo_outer)

definition server_ids :: "cluster_server_row list \<Rightarrow> uuid \<Rightarrow> uuid \<Rightarrow> server_id set" where
  "server_ids rows org cid =
     (\<lambda>r. u64_of_i64 (cs_hetzner_id r)) ` {r \<in> set rows. cs_org r = org \<and> cs_cluster r = cid \<and> cs_deleted_at r = None}"

lemma server_ids_live: "server_ids (cluster_servers s) org cid = u64_of_i64 ` cs_hetzner_id ` set (live_servers s org cid)"
  by (simp add: server_ids_def live_servers_def image_image)

lemma destroy_failed_errs: "triple P (destroy_failed o' i audit err) (\<lambda>_ _. False) (\<lambda>_. True)"
  by (rule tripleI) (auto simp: destroy_failed_def Let_def bindE_eq_Inr fail_def)

lemma soft_delete_clears:
  assumes "soft_delete_servers org cid ctx s = (Inr u, t)" and "\<not> pg_bypass s"
  shows "live_servers t org cid = []"
proof -
  have "cluster_servers t = sql_update (\<lambda>r. cs_org r = org \<and> cs_cluster r = cid \<and> cs_deleted_at r = None)
      (\<lambda>r. r\<lparr>cs_deleted_at := Some (now s)\<rparr>) (cluster_servers s)"
    using assms by (auto simp: soft_delete_servers_def tx_eq_Inr rls_app_role)
  then show ?thesis by (simp add: live_servers_def filter_empty_conv ball_sql_update)
qed

context framed_secrets
begin

lemma destroy_calls:
  "triple (\<lambda>s. holding live org cid rows s \<and> api_echoes_id s)
     (destroy_cluster \<lparr>dd_hetzner = hetzner_client store handle, dd_progress = hub_only_progress cid\<rparr> input)
     (\<lambda>_ s. (holding live org cid rows s \<and> api_echoes_id s) \<and> confirmed cid (set (di_server_ids input)) s)
     (\<lambda>s. holding live org cid rows s \<and> api_echoes_id s)"
proof -
  let ?m = "destroy_cluster \<lparr>dd_hetzner = hetzner_client store handle, dd_progress = hub_only_progress cid\<rparr> input"
  have hold: "keeps (holding live org cid rows) ?m"
    by (rule keeps_destroy_cluster) (simp_all add: calm_client calm_hub calm_holding)
  show ?thesis
  proof (rule tripleI)
    fix s t and u :: unit
    assume s: "holding live org cid rows s \<and> api_echoes_id s" and run: "?m s = (Inr u, t)"
    obtain c g st where "observe cid s = (c, g, st)" by (cases "observe cid s") auto
    with s run have "api_echoes_id t \<and> observe cid t = (c, g \<union> set (di_server_ids input), st @ [''destroying_servers'', ''done''])"
      by (intro triple_okD [OF hub.env.destroy_run, rotated 3]) auto
    with keeps_run [OF hold] s run show "(holding live org cid rows t \<and> api_echoes_id t) \<and> confirmed cid (set (di_server_ids input)) t"
      by (auto simp: confirmed_def)
  next
    fix s e t
    assume s: "holding live org cid rows s \<and> api_echoes_id s" and run: "?m s = (Inl e, t)"
    obtain c g st where "observe cid s = (c, g, st)" by (cases "observe cid s") auto
    with s run have "api_echoes_id t \<and> (\<exists>k < length (di_server_ids input).
        observe cid t = (c, g \<union> set (take k (di_server_ids input)), st @ [''destroying_servers'']))"
      by (intro triple_errD [OF hub.env.destroy_run, rotated 3]) auto
    with keeps_run [OF hold] s run show "holding live org cid rows t \<and> api_echoes_id t" by auto
  qed
qed

lemma destroy_cleanup:
  assumes "lr_secrets lr = store"
  shows "triple (\<lambda>s. \<not> pg_bypass s \<and> confirmed cid ids s) (destroy_succeeded lr org cid audit)
     (\<lambda>_ s. confirmed cid ids s \<and> \<not> still_live org cid s \<and> live_servers s org cid = []) (confirmed cid ids)"
proof (rule tripleI)
  fix s t and u :: unit
  assume s: "\<not> pg_bypass s \<and> confirmed cid ids s" and run: "destroy_succeeded lr org cid audit s = (Inr u, t)"
  then obtain v w where soft: "soft_delete_servers org cid audit s = (Inr (), v)"
    and fin: "finalize_destroy store org cid audit v = (Inr (), w)" and t: "t = publish_terminal cid Destroyed None w"
    using assms by (auto simp: destroy_succeeded_def bindE_eq_Inr liftS_def)
  have "confirmed cid ids w"
    using keeps_run [OF confirmed_keeps [OF repo_outer(3)] _ soft] keeps_run [OF confirmed_keeps [OF finalize_outer] _ fin] s
    by blast
  moreover have "\<not> still_live org cid w" by (rule finalize_retires [OF fin])
  moreover have "live_servers w org cid = []"
    using soft_delete_clears [OF soft] s keeps_run [OF finalize_servers refl fin] by (simp add: live_servers_def)
  moreover have "live_servers t org cid = live_servers w org cid" "still_live org cid t = still_live org cid w"
    using terminal_emits [of cid Destroyed None w] t by (auto simp: live_servers_def)
  ultimately show "confirmed cid ids t \<and> \<not> still_live org cid t \<and> live_servers t org cid = []"
    using confirmed_terminal t by simp
next
  fix s e t
  assume "\<not> pg_bypass s \<and> confirmed cid ids s" and "destroy_succeeded lr org cid audit s = (Inl e, t)"
  moreover have "keeps (confirmed cid ids) (destroy_succeeded lr org cid audit)"
    unfolding destroy_succeeded_def assms
    by (intro keeps_intros keeps_liftS confirmed_terminal confirmed_keeps repo_outer finalize_outer)
  ultimately show "confirmed cid ids t" by (auto dest: keeps_run)
qed

end

context framed_secrets
begin

lemma run_destroy_triple:
  assumes lr: "lr_secrets lr = store"
  shows "triple (\<lambda>s. holding live org cid rows s \<and> api_echoes_id s) (run_destroy lr org (hetzner_client store handle) cid)
     (\<lambda>_ s. confirmed cid (server_ids rows org cid) s \<and> \<not> still_live org cid s \<and> live_servers s org cid = [])
     (\<lambda>s. (live \<longrightarrow> still_live org cid s) \<or> confirmed cid (server_ids rows org cid) s)"
    (is "triple ?H _ ?Q ?E")
proof -
  let ?run = "\<lambda>svs. destroy_cluster \<lparr>dd_hetzner = hetzner_client store handle, dd_progress = hub_only_progress cid\<rparr>
    \<lparr>di_cluster_id = cid, di_server_ids = map (\<lambda>x. u64_of_i64 (sv_hetzner_server_id x)) svs\<rparr>"
  have weak: "\<And>s. ?H s \<Longrightarrow> ?E s" by (simp add: holding_def)
  have new: "triple ?H new_id (\<lambda>_. ?H) ?E"
    by (intro triple_keeps_weak keeps_conj keeps_new_id weak) (simp_all add: holding_def api_echoes_id_def)
  have audit: "triple ?H (getS f) (\<lambda>_. ?H) ?E" for f :: "'a world_scheme \<Rightarrow> audit_ctx"
    by (intro triple_keeps_weak keeps_getS weak)
  have begin_step: "triple ?H (map_err RunPlatform (begin_destroy org cid ctx)) (\<lambda>_. ?H) ?E" for ctx
    by (intro triple_map_err triple_keeps_weak keeps_conj holding_begin api_keeps begin_destroy_outer weak)
  have read: "triple ?H (map_err RunPlatform (list_servers org cid))
      (\<lambda>svs s. ?H s \<and> (\<lambda>x. u64_of_i64 (sv_hetzner_server_id x)) ` set svs = server_ids rows org cid) ?E"
  proof (rule triple_map_err, rule tripleI)
    fix s svs t
    assume s: "?H s" and run: "list_servers org cid s = (Inr svs, t)"
    from s have "\<not> pg_bypass s" by (simp add: holding_def)
    from list_servers_ids [OF run this] s
    show "?H t \<and> (\<lambda>x. u64_of_i64 (sv_hetzner_server_id x)) ` set svs = server_ids rows org cid"
      using server_ids_live [of s org cid]
      by (auto simp: holding_def api_echoes_id_def simp flip: image_image)
  next
    fix s e t
    assume "?H s" and "list_servers org cid s = (Inl e, t)"
    then show "?E t" using keeps_run [OF holding_reads(2) [of live org cid rows org cid], of s "Inl e" t] by (simp add: holding_def)
  qed
  have failed: "triple ?H (destroy_failed org cid ctx err) ?Q ?E" for ctx err
  proof -
    have "keeps (still_live org cid) (destroy_failed org cid ctx err)" by (rule destroy_failed_still_live)
    then show ?thesis
      using destroy_failed_errs [of "\<lambda>_. True" org cid ctx err]
      by (intro tripleI) (auto simp: holding_def dest: keeps_run triple_okD)
  qed
  have cleanup: "triple (\<lambda>s. ?H s \<and> confirmed cid (server_ids rows org cid) s) (destroy_succeeded lr org cid ctx) ?Q ?E" for ctx
    by (rule triple_conseq [OF destroy_cleanup [OF lr]]) (auto simp: holding_def)
  have act: "triple ?H (catchE (?run svs) (destroy_failed org cid ctx) (\<lambda>_. destroy_succeeded lr org cid ctx)) ?Q ?E"
    if "(\<lambda>x. u64_of_i64 (sv_hetzner_server_id x)) ` set svs = server_ids rows org cid" for svs ctx
    by (rule triple_catch [OF _ failed cleanup], rule triple_post [OF destroy_calls]) (simp add: that)
  show ?thesis
    unfolding run_destroy_def
    by (rule triple_bind [OF new], rule triple_bind [OF audit], rule triple_bind [OF begin_step],
        rule triple_bind [OF read], rule triple_pure, rule act)
qed

end

section \<open>A small world\<close>

text \<open>A provider that numbers the servers it creates from 1001, answers a read with
  the server that was asked for and confirms every deletion; processes that
  succeed.\<close>

definition is_post :: "ext_event \<Rightarrow> bool" where
  "is_post ev = (case ev of EvHttp rq _ \<Rightarrow> rq_method rq = POST | _ \<Rightarrow> False)"

definition demo_server :: "nat \<Rightarrow> server_json" where
  "demo_server i = \<lparr>sj_id = i, sj_status = ''running'', sj_ipv4 = Some (Some (''192.0.2.'' @ show_nat (i - 1000))), sj_private_net = []\<rparr>"

definition demo_http :: "ext_event list \<Rightarrow> http_request \<Rightarrow> http_outcome" where
  "demo_http tr rq =
     (case rq_method rq of
        POST \<Rightarrow> HttpReply \<lparr>hr_status = 201, hr_text = [], hr_json = Inr (demo_server (1001 + length (filter is_post tr)))\<rparr>
      | GET \<Rightarrow> (case parse_nat (drop (length (HETZNER_API_BASE @ ''/servers/'')) (rq_url rq)) of
                   None \<Rightarrow> HttpError ''no such path''
                 | Some i \<Rightarrow> HttpReply \<lparr>hr_status = 200, hr_text = [], hr_json = Inr (demo_server i)\<rparr>)
      | DELETE \<Rightarrow> HttpReply \<lparr>hr_status = 204, hr_text = [], hr_json = Inl ''''\<rparr>)"

definition demo_proc :: "ext_event list \<Rightarrow> proc_call \<Rightarrow> proc_outcome" where
  "demo_proc tr pc = Exited (Some 0) ''out'' ''''"

definition demo_server_row :: "uuid \<Rightarrow> int \<Rightarrow> cluster_node_role \<Rightarrow> cluster_server_row" where
  "demo_server_row i hid role =
     \<lparr>cs_id = i, cs_org = 1, cs_cluster = 71, cs_hetzner_id = hid, cs_role = role, cs_public_ipv4 = Some ''192.0.2.1'',
      cs_private_ipv4 = None, cs_created_at = 0, cs_deleted_at = None\<rparr>"

definition demo_world :: world where
  "demo_world = addon_db.extend
     (demo_addons\<lparr>cluster_servers := [demo_server_row 80 500 ControlPlane, demo_server_row 81 501 Worker,
         demo_server_row 82 502 Worker]\<rparr>)
     (world.fields [] demo_http demo_proc (\<lambda>_ _. None) [] ''/tmp'')"

definition demo_store :: "world secret_ops" where
  "demo_store = pgcrypto_store secret_refs ''kek''"

definition demo_runner :: "world local_runner" where
  "demo_runner = \<lparr>lr_secrets = demo_store, lr_ssh = openssh_ssh (openssh_new None), lr_helm = helm_cli_executor (helm_new None),
     lr_kubectl = kubectl_cli_executor (kubectl_new None), lr_uuid_v5 = (\<lambda>x. 1000 + length x)\<rparr>"

definition demo_hetzner :: "world hetzner_provider" where
  "demo_hetzner = hetzner_client demo_store \<lparr>sr_id = 60, sr_org = 1\<rparr>"

lemma demo_http_echoes: "http_env s = demo_http \<Longrightarrow> api_echoes_id s"
  by (auto simp: api_echoes_id_def demo_http_def demo_server_def server_path_def parse_show_nat drop_Cons'
      split: option.splits)

lemma demo_world_fields [simp]:
  "http_env demo_world = demo_http" "pg_bypass demo_world = False" "ext_trace demo_world = []" "tmp_files demo_world = []"
  by (simp_all add: demo_world_def demo_addons_def addon_db.defs cluster_db.defs world.defs)

lemma demo_world_echoes: "api_echoes_id demo_world"
  by (simp add: demo_http_echoes)

end
