(* ===== verification/Liveness.thy ===== *)
theory Liveness
  imports Runner
begin

text \<open>
  Provisioning completes when its surroundings cooperate. The conditions are stated
  once for any clients (a provider that accepts every create and boots a server
  within the polling budget, an SSH executor that succeeds) and then discharged
  for the real clients from what the HTTP service and the child processes answer.
\<close>

section \<open>Total correctness\<close>

definition runs :: "('s \<Rightarrow> bool) \<Rightarrow> ('s, 'e, 'a) op \<Rightarrow> ('a \<Rightarrow> 's \<Rightarrow> bool) \<Rightarrow> bool" where
  "runs P m Q \<longleftrightarrow> (\<forall>s. P s \<longrightarrow> (\<exists>a t. m s = (Inr a, t) \<and> Q a t))"

lemma runsI: "(\<And>s. P s \<Longrightarrow> \<exists>a t. m s = (Inr a, t) \<and> Q a t) \<Longrightarrow> runs P m Q"
  by (simp add: runs_def)

lemma runsD: "runs P m Q \<Longrightarrow> P s \<Longrightarrow> \<exists>a t. m s = (Inr a, t) \<and> Q a t"
  by (simp add: runs_def)

lemma runs_bind:
  assumes "runs P m Q" and "\<And>a. runs (Q a) (k a) R"
  shows "runs P (bindE m k) R"
proof (rule runsI)
  fix s
  assume "P s"
  then obtain a t where "m s = (Inr a, t)" "Q a t" using runsD [OF assms(1)] by blast
  moreover from this(2) obtain b u where "k a t = (Inr b, u)" "R b u" using runsD [OF assms(2)] by blast
  ultimately show "\<exists>a t. bindE m k s = (Inr a, t) \<and> R a t" by (simp add: bindE_def)
qed

lemma runs_ret: "(\<And>s. P s \<Longrightarrow> Q a s) \<Longrightarrow> runs P (ret a) Q"
  by (simp add: runs_def ret_def)

lemma runs_map_err: "runs P m Q \<Longrightarrow> runs P (map_err f m) Q"
  by (fastforce simp: runs_def map_err_def)

lemma runs_pure: "(B \<Longrightarrow> runs P m Q) \<Longrightarrow> runs (\<lambda>s. P s \<and> B) m Q"
  by (auto simp: runs_def)

lemma runs_collect:
  assumes "\<And>ys x. x \<in> set xs \<Longrightarrow> runs (I ys) (f x) (\<lambda>y. I (ys @ [y]))"
  shows "runs (I ys) (collectE f xs) (\<lambda>zs s. I (ys @ zs) s \<and> length zs = length xs)"
  using assms
proof (induction xs arbitrary: ys)
  case Nil
  show ?case by (simp add: runs_def ret_def)
next
  case (Cons x xs)
  have "runs (I (ys @ [y])) (bindE (collectE f xs) (\<lambda>zs. ret (y # zs))) (\<lambda>zs s. I (ys @ zs) s \<and> length zs = length (x # xs))" for y
    by (rule runs_bind [OF Cons.IH]) (auto simp: Cons.prems intro!: runs_ret)
  from runs_bind [OF Cons.prems [of x] this] show ?case unfolding collectE_Cons by simp
qed

lemma runs_for:
  assumes "\<And>x. x \<in> set xs \<Longrightarrow> runs I (f x) (\<lambda>_. I)"
  shows "runs I (forE f xs) (\<lambda>_. I)"
  using assms
proof (induction xs)
  case Nil
  show ?case by (simp add: runs_def)
next
  case (Cons x xs)
  have "runs I (forE f xs) (\<lambda>_. I)" by (rule Cons.IH) (simp add: Cons.prems)
  from runs_bind [OF Cons.prems [of x] this] show ?case unfolding forE_Cons by simp
qed

section \<open>A cooperative environment\<close>

text \<open>\<open>waits s i\<close> is the number of polls after which server \<open>i\<close> will have booted.\<close>

locale cooperative_env =
  fixes rt :: "'s runtime"
    and prov :: "'s hetzner_provider"
    and ssh :: "'s ssh_executor"
    and sink :: "'s progress_sink"
    and good :: "'s \<Rightarrow> bool"
    and waits :: "'s \<Rightarrow> server_id \<Rightarrow> nat"
  assumes create_runs: "good s \<Longrightarrow> \<exists>i t. create_server prov p s = (Inr i, t) \<and> good t
        \<and> waits t i < CLOUD_INIT_MAX_ATTEMPTS \<and> (\<forall>j. j \<noteq> i \<longrightarrow> waits t j \<le> waits s j)"
    and get_runs: "good s \<Longrightarrow> \<exists>sv t. get_server prov i s = (Inr sv, t) \<and> good t \<and> (\<forall>j. waits t j \<le> waits s j)
        \<and> (if waits s i = 0 then hs_status sv = ServerReady \<and> hs_ipv4 sv \<noteq> None else hs_status sv = ServerInitializing)"
    and ssh_runs: "good s \<Longrightarrow> \<exists>out t. ssh_run ssh target cmd s = (Inr out, t) \<and> good t \<and> (\<forall>j. waits t j \<le> waits s j)"
    and sleep_good: "good s \<Longrightarrow> good (rt_sleep rt CLOUD_INIT_POLL_INTERVAL s)
        \<and> (\<forall>j. waits (rt_sleep rt CLOUD_INIT_POLL_INTERVAL s) j \<le> waits s j - 1)"
    and step_good: "good s \<Longrightarrow> good (sink_step sink x s) \<and> (\<forall>j. waits (sink_step sink x s) j \<le> waits s j)"
begin

definition soon :: "server_id list \<Rightarrow> 's \<Rightarrow> bool" where
  "soon ids s \<longleftrightarrow> good s \<and> (\<forall>i \<in> set ids. waits s i < CLOUD_INIT_MAX_ATTEMPTS)"

lemma soon_mono: "good t \<Longrightarrow> (\<And>j. waits t j \<le> waits s j) \<Longrightarrow> soon ids s \<Longrightarrow> soon ids t"
  unfolding soon_def by (meson le_less_trans)

lemma report_runs: "runs (soon ids) (report sink x) (\<lambda>_. soon ids)"
proof (rule runsI)
  fix s
  assume "soon ids s"
  then show "\<exists>u t. report sink x s = (Inr u, t) \<and> soon ids t"
    using step_good [of s x] soon_mono [of "sink_step sink x s" s ids] by (simp add: report_def liftS_def soon_def)
qed

lemma create_step: "runs (soon ids) (hetzner_create_server prov p) (\<lambda>i. soon (ids @ [i]))"
  unfolding hetzner_create_server_def
proof (rule runs_map_err, rule runsI)
  fix s
  assume "soon ids s"
  then obtain i t where run: "create_server prov p s = (Inr i, t)" and t: "good t" "waits t i < CLOUD_INIT_MAX_ATTEMPTS"
      "\<forall>j. j \<noteq> i \<longrightarrow> waits t j \<le> waits s j"
    using create_runs [of s p] by (auto simp: soon_def)
  have "waits t j < CLOUD_INIT_MAX_ATTEMPTS" if "j \<in> set ids" for j
    using that t \<open>soon ids s\<close> by (cases "j = i") (auto simp: soon_def intro: le_less_trans)
  with run t show "\<exists>i t. create_server prov p s = (Inr i, t) \<and> soon (ids @ [i]) t" by (auto simp: soon_def)
qed

lemma poll_runs: "runs (\<lambda>s. soon ids s \<and> waits s i < n) (cloud_init_poll n rt prov i) (\<lambda>sv s. soon ids s \<and> hs_ipv4 sv \<noteq> None)"
proof (induction n)
  case (Suc n)
  show ?case
  proof (rule runsI)
    fix s
    assume s: "soon ids s \<and> waits s i < Suc n"
    then obtain sv t where get: "get_server prov i s = (Inr sv, t)" and t: "good t" "\<forall>j. waits t j \<le> waits s j"
      and st: "if waits s i = 0 then hs_status sv = ServerReady \<and> hs_ipv4 sv \<noteq> None else hs_status sv = ServerInitializing"
      using get_runs [of s i] by (auto simp: soon_def)
    have soon: "soon ids t" using s t by (intro soon_mono [of t s]) auto
    let ?u = "rt_sleep rt CLOUD_INIT_POLL_INTERVAL t"
    show "\<exists>sv t. cloud_init_poll (Suc n) rt prov i s = (Inr sv, t) \<and> soon ids t \<and> hs_ipv4 sv \<noteq> None"
    proof (cases "waits s i = 0")
      case True
      with get st soon show ?thesis by simp
    next
      case False
      have u: "good ?u" "\<And>j. waits ?u j \<le> waits t j - 1" using sleep_good [OF t(1)] by auto
      have "waits ?u j \<le> waits t j" for j using u(2) [of j] by linarith
      then have "soon ids ?u" using soon u(1) by (intro soon_mono [of ?u t])
      moreover have "waits ?u i < n" using u(2) [of i] t(2) [rule_format, of i] s False by linarith
      ultimately show ?thesis using runsD [OF Suc.IH, of ?u] get st False by simp
    qed
  qed
qed (simp add: runs_def)

lemma wait_runs: "i \<in> set ids \<Longrightarrow> runs (soon ids) (wait_for_cloud_init rt prov i) (\<lambda>sv s. soon ids s \<and> hs_ipv4 sv \<noteq> None)"
  using poll_runs [of ids i CLOUD_INIT_MAX_ATTEMPTS] by (auto simp: runs_def wait_for_cloud_init_def soon_def)

lemma ssh_step: "runs (soon ids) (map_err ActSsh (ssh_run ssh target cmd)) (\<lambda>_. soon ids)"
proof (rule runs_map_err, rule runsI)
  fix s
  assume "soon ids s"
  then show "\<exists>out t. ssh_run ssh target cmd s = (Inr out, t) \<and> soon ids t"
    using ssh_runs [of s target cmd] soon_mono [of _ s ids] by (auto simp: soon_def)
qed

lemma target_runs: "hs_ipv4 sv \<noteq> None \<Longrightarrow> runs P (ssh_target_of sv) (\<lambda>_. P)"
  by (auto simp: runs_def ssh_target_of_def ret_def)

lemma k3s_runs:
  "runs (soon ids) (ssh_install_k3s_server ssh target v) (\<lambda>_. soon ids)"
  "runs (soon ids) (ssh_install_k3s_agent ssh target addr token v) (\<lambda>_. soon ids)"
  "runs (soon ids) (collect_kubeconfig ssh target ep) (\<lambda>_. soon ids)"
  unfolding ssh_install_k3s_server_def ssh_install_k3s_agent_def collect_kubeconfig_def
  by (rule runs_bind [OF ssh_step] runs_ret, (assumption | rule runs_bind [OF ssh_step] runs_ret)+)+

lemma provision_completes:
  "runs good (provision_cluster rt \<lparr>pd_hetzner = prov, pd_ssh = ssh, pd_progress = sink\<rparr> input)
     (\<lambda>out s. length (po_workers out) = pi_worker_count input)"
proof -
  have start: "runs good (report sink x) (\<lambda>_. soon [])" for x
    using step_good by (auto simp: runs_def report_def liftS_def soon_def)
  have workers: "runs (soon c) (collectE (\<lambda>k. hetzner_create_server prov (p k)) xs) (\<lambda>ys s. soon (c @ ys) s \<and> length ys = length xs)" for c p and xs :: "nat list"
    by (rule runs_collect [of xs "\<lambda>ys. soon (c @ ys)" _ "[]", simplified]) (use create_step [of "c @ ys" for ys] in simp)
  have boots: "runs (soon (c @ ids)) (collectE (wait_for_cloud_init rt prov) ids)
      (\<lambda>ys s. (soon (c @ ids) s \<and> (\<forall>y \<in> set ys. hs_ipv4 y \<noteq> None)) \<and> length ys = length ids)" for c ids
    using runs_collect [of ids "\<lambda>ys s. soon (c @ ids) s \<and> (\<forall>y \<in> set ys. hs_ipv4 y \<noteq> None)" "wait_for_cloud_init rt prov" "[]"] wait_runs [of _ "c @ ids"]
    by (fastforce simp: runs_def)
  have agents: "runs (soon ids) (forE (\<lambda>w. bindE (ssh_target_of w) (\<lambda>target. ssh_install_k3s_agent ssh target addr token v)) ws) (\<lambda>_. soon ids)"
    if "\<forall>y \<in> set ws. hs_ipv4 y \<noteq> None" for ids addr token v ws
    using that by (intro runs_for runs_bind [OF target_runs] k3s_runs) auto
  note step = runs_bind [OF report_runs]
  have tail: "runs (\<lambda>s. (soon (c @ ids) s \<and> (\<forall>y \<in> set ws. hs_ipv4 y \<noteq> None)) \<and> length ws = length ids)
      (bindE (report sink a) (\<lambda>_. bindE (forE (\<lambda>w. bindE (ssh_target_of w) (\<lambda>target. ssh_install_k3s_agent ssh target addr token v)) ws) (\<lambda>_.
        bindE (report sink b) (\<lambda>_. bindE (collect_kubeconfig ssh target ep) (\<lambda>k. bindE (report sink d) (\<lambda>_.
          ret \<lparr>po_control_plane = cp, po_workers = ws, po_kubeconfig = k\<rparr>))))))
      (\<lambda>out s. length (po_workers out) = n)" if "length ids = n" for c ids ws a b d addr token v target ep cp n
    using that by (intro runs_pure step runs_bind [OF agents] runs_bind [OF k3s_runs(3)] runs_ret) auto
  show ?thesis
    unfolding provision_cluster_def provision_deps.select_convs
    by (rule runs_bind [OF start], rule runs_bind [OF create_step], rule step, rule runs_bind [OF wait_runs], simp,
        rule runs_pure, rule runs_bind [OF target_runs], assumption, rule step, rule runs_bind [OF k3s_runs(1)], rule step,
        rule runs_bind [OF workers], rule runs_pure, rule step, rule runs_bind [OF boots], rule tail, simp)
qed

end

section \<open>The real clients\<close>

text \<open>What the outside answers, as a function of the calls made so far: every create
  is accepted and the new server boots within the polling budget, every read of a
  server answers its state, a pause of the polling interval brings every server one
  poll closer, and every command succeeds. \<open>boot tr i\<close> is the number of polls server
  \<open>i\<close> still needs after the calls \<open>tr\<close>.\<close>

definition accepts_creates :: "(ext_event list \<Rightarrow> server_id \<Rightarrow> nat) \<Rightarrow> (ext_event list \<Rightarrow> http_request \<Rightarrow> http_outcome) \<Rightarrow> bool" where
  "accepts_creates boot env \<longleftrightarrow> (\<forall>tr rq. rq_method rq = POST \<longrightarrow>
     (\<exists>r j. env tr rq = HttpReply r \<and> is_success (hr_status r) \<and> hr_json r = Inr j
        \<and> boot (tr @ [EvHttp rq (HttpReply r)]) (sj_id j) < CLOUD_INIT_MAX_ATTEMPTS))"

definition answers_reads :: "(ext_event list \<Rightarrow> server_id \<Rightarrow> nat) \<Rightarrow> (ext_event list \<Rightarrow> http_request \<Rightarrow> http_outcome) \<Rightarrow> bool" where
  "answers_reads boot env \<longleftrightarrow> (\<forall>tr rq i. rq_method rq = GET \<and> rq_url rq = HETZNER_API_BASE @ server_path i \<longrightarrow>
     (\<exists>r j. env tr rq = HttpReply r \<and> is_success (hr_status r) \<and> hr_json r = Inr j
        \<and> (if boot tr i = 0 then sj_status j = ''running'' \<and> (\<exists>addr. sj_ipv4 j = Some (Some addr))
           else sj_status j \<in> {''starting'', ''initializing''})))"

definition boots_on :: "(ext_event list \<Rightarrow> server_id \<Rightarrow> nat) \<Rightarrow> bool" where
  "boots_on boot \<longleftrightarrow> (\<forall>tr e i. created_id e \<noteq> Some i \<longrightarrow> boot (tr @ [e]) i \<le> boot tr i)
     \<and> (\<forall>tr i. boot (tr @ [EvSleep CLOUD_INIT_POLL_INTERVAL]) i \<le> boot tr i - 1)"

definition commands_succeed :: "(ext_event list \<Rightarrow> proc_call \<Rightarrow> proc_outcome) \<Rightarrow> bool" where
  "commands_succeed env \<longleftrightarrow> (\<forall>tr pc. \<exists>out err. env tr pc = Exited (Some 0) out err)"

definition cooperative :: "(ext_event list \<Rightarrow> server_id \<Rightarrow> nat) \<Rightarrow> string \<Rightarrow> secret_ref \<Rightarrow> 'z world_scheme \<Rightarrow> bool" where
  "cooperative boot kek handle s \<longleftrightarrow>
     pgcrypto_inv s \<and> pgcrypto_live kek s handle \<noteq> None \<and> reliable s
     \<and> accepts_creates boot (http_env s) \<and> answers_reads boot (http_env s) \<and> boots_on boot \<and> commands_succeed (proc_env s)"

lemma coop_emit: "cooperative boot kek handle (emit e s) = cooperative boot kek handle s"
proof -
  have "pgcrypto_live kek (emit e s) = pgcrypto_live kek s" by (rule pgcrypto_live_cong) (simp_all add: emit_def)
  moreover have "pgcrypto_inv (emit e s) = pgcrypto_inv s" by (simp add: pgcrypto_inv_def secret_inv_def pgp_law_def emit_def)
  ultimately show ?thesis by (simp add: cooperative_def reliable_def emit_def)
qed

lemma coop_tick: "cooperative boot kek handle s \<Longrightarrow> cooperative boot kek handle (tick s)"
proof -
  have "pgcrypto_live kek (tick s) = pgcrypto_live kek s" by (rule pgcrypto_live_cong) simp_all
  then show "cooperative boot kek handle s \<Longrightarrow> cooperative boot kek handle (tick s)"
    by (simp add: cooperative_def reliable_tick pgcrypto_inv_def secret_inv_def pgp_law_def)
qed

lemma coop_rows: "cooperative boot kek handle (s\<lparr>workflow_rows := rows\<rparr>) = cooperative boot kek handle s"
proof -
  have "pgcrypto_live kek (s\<lparr>workflow_rows := rows\<rparr>) = pgcrypto_live kek s" by (rule pgcrypto_live_cong) simp_all
  then show ?thesis by (simp add: cooperative_def reliable_def pgcrypto_inv_def secret_inv_def pgp_law_def)
qed

lemma coop_token:
  assumes "cooperative boot kek handle s"
  shows "\<exists>token. resolve_token (pgcrypto_store secret_refs kek) handle s = (Inr token, tick s)"
proof -
  obtain p where p: "pgcrypto_live kek s handle = Some p" using assms by (auto simp: cooperative_def)
  have inv: "pgcrypto_inv s" and up: "\<not> db_faulty s" using assms by (auto simp: cooperative_def reliable_not_faulty)
  from pgc.get_run [OF inv up p, of secret_refs] obtain t where get: "pgcrypto_get kek handle s = (Inr p, t)"
    by (auto simp: pgcrypto_store_def)
  with pgcrypto_get_state [OF get] show ?thesis by (simp add: resolve_token_def map_err_def pgcrypto_store_def)
qed

lemma boots_onD: "boots_on boot \<Longrightarrow> created_id e \<noteq> Some i \<Longrightarrow> boot (tr @ [e]) i \<le> boot tr i"
  by (simp add: boots_on_def)

lemma coop_create:
  assumes "cooperative boot kek handle s"
  shows "\<exists>i t. client_create_server (pgcrypto_store secret_refs kek) handle p s = (Inr i, t) \<and> cooperative boot kek handle t
    \<and> boot (ext_trace t) i < CLOUD_INIT_MAX_ATTEMPTS \<and> (\<forall>j. j \<noteq> i \<longrightarrow> boot (ext_trace t) j \<le> boot (ext_trace s) j)"
proof -
  obtain token where token: "resolve_token (pgcrypto_store secret_refs kek) handle s = (Inr token, tick s)"
    using coop_token [OF assms] by blast
  define body where "body = \<lparr>cb_name = sp_name p, cb_server_type = sp_server_type p, cb_location = sp_location p, cb_image = ''debian-12'',
      cb_ssh_keys = [sp_ssh_key p], cb_user_data = sp_user_data p, cb_start_after_create = True,
      cb_labels = [(''kubinate.idempotency_key'', pg_uuid_text s (sp_idempotency_key p))]\<rparr>"
  define rq where "rq = \<lparr>rq_method = POST, rq_url = HETZNER_API_BASE @ ''/servers'', rq_bearer = token, rq_body = Some body\<rparr>"
  have "rq_method rq = POST" by (simp add: rq_def)
  then obtain r j where r: "http_env s (ext_trace s) rq = HttpReply r" "is_success (hr_status r)" "hr_json r = Inr j"
      "boot (ext_trace s @ [EvHttp rq (HttpReply r)]) (sj_id j) < CLOUD_INIT_MAX_ATTEMPTS"
    using assms unfolding cooperative_def accepts_creates_def by blast
  let ?t = "emit (EvHttp rq (HttpReply r)) (tick s)"
  have "client_create_server (pgcrypto_store secret_refs kek) handle p s = (Inr (sj_id j), ?t)"
    using r by (simp add: client_create_server_def post_json_def bindE_def token send_request_def Let_def body_def [symmetric] rq_def [symmetric]
        of_sum_def ret_def)
  moreover have "created_id (EvHttp rq (HttpReply r)) = Some (sj_id j)" using r by (simp add: created_id_def rq_def)
  then have "\<forall>i. i \<noteq> sj_id j \<longrightarrow> boot (ext_trace ?t) i \<le> boot (ext_trace s) i"
    using assms by (auto simp: cooperative_def intro!: boots_onD)
  ultimately show ?thesis using r(4) coop_tick [OF assms] by (auto simp: coop_emit)
qed

lemma coop_get:
  assumes "cooperative boot kek handle s"
  shows "\<exists>sv t. client_get_server (pgcrypto_store secret_refs kek) handle i s = (Inr sv, t) \<and> cooperative boot kek handle t
    \<and> (\<forall>j. boot (ext_trace t) j \<le> boot (ext_trace s) j)
    \<and> (if boot (ext_trace s) i = 0 then hs_status sv = ServerReady \<and> hs_ipv4 sv \<noteq> None else hs_status sv = ServerInitializing)"
proof -
  obtain token where token: "resolve_token (pgcrypto_store secret_refs kek) handle s = (Inr token, tick s)"
    using coop_token [OF assms] by blast
  define rq where "rq = \<lparr>rq_method = GET, rq_url = HETZNER_API_BASE @ server_path i, rq_bearer = token, rq_body = None\<rparr>"
  have "rq_method rq = GET \<and> rq_url rq = HETZNER_API_BASE @ server_path i" by (simp add: rq_def)
  then obtain r j where r: "http_env s (ext_trace s) rq = HttpReply r" "is_success (hr_status r)" "hr_json r = Inr j"
      and st: "if boot (ext_trace s) i = 0 then sj_status j = ''running'' \<and> (\<exists>addr. sj_ipv4 j = Some (Some addr))
           else sj_status j \<in> {''starting'', ''initializing''}"
    using assms unfolding cooperative_def answers_reads_def by blast
  let ?t = "emit (EvHttp rq (HttpReply r)) (tick s)"
  have "client_get_server (pgcrypto_store secret_refs kek) handle i s = (Inr (into_view j), ?t)"
    using r by (simp add: client_get_server_def get_json_def bindE_def token send_request_def rq_def [symmetric] of_sum_def ret_def)
  moreover have "created_id (EvHttp rq (HttpReply r)) = None" by (simp add: created_id_def rq_def)
  then have "\<forall>k. boot (ext_trace ?t) k \<le> boot (ext_trace s) k"
    using assms by (auto simp: cooperative_def intro!: boots_onD)
  moreover have "if boot (ext_trace s) i = 0 then hs_status (into_view j) = ServerReady \<and> hs_ipv4 (into_view j) \<noteq> None
      else hs_status (into_view j) = ServerInitializing"
    using st by (auto simp: into_view_def split: if_splits)
  ultimately show ?thesis using coop_tick [OF assms] by (auto simp: coop_emit)
qed

lemma coop_ssh:
  assumes "cooperative boot kek handle s"
  shows "\<exists>out t. openssh_run cfg target cmd s = (Inr out, t) \<and> cooperative boot kek handle t
    \<and> (\<forall>j. boot (ext_trace t) j \<le> boot (ext_trace s) j)"
proof -
  obtain out err where out: "proc_env s (ext_trace s) (ssh_build_command cfg target cmd) = Exited (Some 0) out err"
    using assms unfolding cooperative_def commands_succeed_def by meson
  have "openssh_run cfg target cmd s = (Inr out, emit (EvProc (ssh_build_command cfg target cmd) (Exited (Some 0) out err)) s)"
    by (simp add: openssh_run_def run_process_def out Let_def)
  moreover have "boot (ext_trace s @ [EvProc pc o']) j \<le> boot (ext_trace s) j" for pc o' j
    using assms by (auto simp: cooperative_def created_id_def intro!: boots_onD)
  ultimately show ?thesis using assms by (auto simp: coop_emit)
qed

lemma coop_step:
  assumes "cooperative boot kek handle s"
  shows "cooperative boot kek handle (sink_step (workflow_progress org wid cid) x s)
    \<and> (\<forall>j. boot (ext_trace (sink_step (workflow_progress org wid cid) x s)) j \<le> boot (ext_trace s) j)"
proof -
  have "boot (ext_trace s @ [EvPublish cid ev]) j \<le> boot (ext_trace s) j" for ev j
    using assms by (auto simp: cooperative_def created_id_def intro!: boots_onD)
  moreover have "cooperative boot kek handle (snd (update_step org wid x s)) \<and> ext_trace (snd (update_step org wid x s)) = ext_trace s"
    using assms coop_tick [OF assms] by (auto simp: update_step_def tx_def coop_rows coop_tick)
  ultimately show ?thesis by (simp add: workflow_progress_def publish_def coop_emit)
qed

interpretation real: cooperative_env "world_runtime lr s0" "hetzner_client (pgcrypto_store secret_refs kek) handle" "openssh_ssh cfg"
  "workflow_progress org wid cid" "cooperative boot kek handle" "\<lambda>s. boot (ext_trace s)"
  for lr :: "'z world_scheme local_runner" and s0 kek handle cfg org wid cid boot
proof (unfold_locales, goal_cases)
  case (1 s p)
  from coop_create [OF this] show ?case by (simp add: hetzner_client_def)
next
  case (2 s i)
  from coop_get [OF this] show ?case by (simp add: hetzner_client_def)
next
  case (3 s target cmd)
  from coop_ssh [OF this] show ?case by (simp add: openssh_ssh_def)
next
  case (4 s)
  then show ?case
    by (auto simp: world_runtime_def world_sleep_def coop_emit) (auto simp: emit_def cooperative_def boots_on_def)
next
  case (5 s x)
  from coop_step [OF this] show ?case .
qed

text \<open>(C3) Provisioning completes: when the database is up and holds the credential's
  token, the provider accepts every create, each server it creates boots within
  the sixty polls the workflow is willing to make, and every remote command
  succeeds, then the provisioning workflow, run with the real clients, ends
  successfully with the control plane and the requested number of workers.\<close>

theorem provisioning_completes:
  assumes "cooperative boot kek handle s"
  shows "\<exists>out t. provision_cluster (world_runtime lr s)
      \<lparr>pd_hetzner = hetzner_client (pgcrypto_store secret_refs kek) handle, pd_ssh = openssh_ssh cfg, pd_progress = workflow_progress org wid cid\<rparr>
      input s = (Inr out, t) \<and> length (po_workers out) = pi_worker_count input"
  using runsD [OF real.provision_completes assms] by blast

text \<open>A provider whose servers take two polls to boot.\<close>

definition sleeps :: "ext_event list \<Rightarrow> nat" where
  "sleeps tr = length (filter (\<lambda>e. case e of EvSleep _ \<Rightarrow> True | _ \<Rightarrow> False) tr)"

definition slow_http :: "ext_event list \<Rightarrow> http_request \<Rightarrow> http_outcome" where
  "slow_http tr rq =
     (case demo_http tr rq of
        HttpReply r \<Rightarrow>
          if rq_method rq = GET \<and> sleeps tr < 2
          then HttpReply (r\<lparr>hr_json := map_sum id (\<lambda>j. j\<lparr>sj_status := ''initializing''\<rparr>) (hr_json r)\<rparr>) else HttpReply r
      | out \<Rightarrow> out)"

lemma slow_cooperates: "cooperative (\<lambda>tr i. 2 - sleeps tr) ''kek'' \<lparr>sr_id = 60, sr_org = 1\<rparr> (demo_world\<lparr>http_env := slow_http\<rparr>)"
proof -
  let ?s = "demo_world\<lparr>http_env := slow_http\<rparr>"
  have demo: "pgcrypto_inv demo_clusters" "reliable demo_clusters" by (rule demo_clusters_ok)+
  have "secrets ?s = secrets demo_clusters" "pg_bypass ?s = pg_bypass demo_clusters" "pgp_dec ?s = pgp_dec demo_clusters"
    "pgp_enc ?s = pgp_enc demo_clusters" "pg_uuid ?s = pg_uuid demo_clusters" "pg_uuid_ctr ?s = pg_uuid_ctr demo_clusters"
    "pg_fault ?s = pg_fault demo_clusters"
    by (simp_all add: demo_world_def demo_addons_def addon_db.defs cluster_db.defs world.defs)
  with demo have "pgcrypto_inv ?s" "reliable ?s" by (simp_all add: pgcrypto_inv_def secret_inv_def pgp_law_def reliable_def)
  moreover have "pgcrypto_live ''kek'' ?s \<lparr>sr_id = 60, sr_org = 1\<rparr> \<noteq> None" by code_simp
  moreover have "accepts_creates (\<lambda>tr i. 2 - sleeps tr) slow_http"
    by (simp add: accepts_creates_def slow_http_def demo_http_def is_success_def CLOUD_INIT_MAX_ATTEMPTS_def less_imp_diff_less)
  moreover have "answers_reads (\<lambda>tr i. 2 - sleeps tr) slow_http"
    by (auto simp: answers_reads_def slow_http_def demo_http_def demo_server_def server_path_def parse_show_nat is_success_def)
  moreover have "boots_on (\<lambda>tr i. 2 - sleeps tr)" by (auto simp: boots_on_def sleeps_def)
  moreover have "commands_succeed (proc_env ?s)"
    by (simp add: commands_succeed_def demo_world_def world.defs addon_db.defs demo_proc_def)
  ultimately show ?thesis by (simp add: cooperative_def)
qed

theorem provisioning_completes_witness:
  "\<exists>out t. provision_cluster (world_runtime demo_runner (demo_world\<lparr>http_env := slow_http\<rparr>))
      \<lparr>pd_hetzner = hetzner_client (pgcrypto_store secret_refs ''kek'') \<lparr>sr_id = 60, sr_org = 1\<rparr>, pd_ssh = openssh_ssh (openssh_new None),
       pd_progress = workflow_progress 1 5 70\<rparr>
      \<lparr>pi_cluster_id = 70, pi_cluster_name = ''a'', pi_location = ''nbg1'', pi_server_type = ''cpx11'', pi_worker_count = 3,
       pi_ssh_key = ''key'', pi_user_data = '''', pi_k3s_version = ''v1.30''\<rparr>
      (demo_world\<lparr>http_env := slow_http\<rparr>) = (Inr out, t) \<and> length (po_workers out) = 3"
  using provisioning_completes [OF slow_cooperates, of demo_runner "openssh_new None" 1 5 70
      "\<lparr>pi_cluster_id = 70, pi_cluster_name = ''a'', pi_location = ''nbg1'', pi_server_type = ''cpx11'', pi_worker_count = 3,
       pi_ssh_key = ''key'', pi_user_data = '''', pi_k3s_version = ''v1.30''\<rparr>"]
  by simp

end
