(* ===== verification/Runs.thy ===== *)
theory Runs
  imports Runner
begin

text \<open>
  What the runs of \<open>workflows/src/runner.rs\<close> guarantee end to end: the provider
  calls, the rows, the events and the staged files together.
\<close>

section \<open>Destroying\<close>

text \<open>(C1) Destroying never orphans a server: a run that takes the cluster's row out
  of service has had every server recorded for the cluster confirmed gone by the
  provider, whatever failed on the way; and a run that reports success leaves
  the cluster retired and none of its server rows live.\<close>

theorem destroy_orphans_no_server:
  assumes "run_destroy lr org (hetzner_client (pgcrypto_store secret_refs kek) handle) cid s = (r, t)"
    and "lr_secrets lr = pgcrypto_store secret_refs kek" and "\<not> pg_bypass s" and "api_echoes_id s"
  shows "(still_live org cid s \<and> \<not> still_live org cid t \<longrightarrow> confirmed cid (server_ids (cluster_servers s) org cid) t)
    \<and> (r = Inr () \<longrightarrow> confirmed cid (server_ids (cluster_servers s) org cid) t \<and> \<not> still_live org cid t
        \<and> live_servers t org cid = [])"
proof -
  let ?live = "still_live org cid s"
  have s: "holding ?live org cid (cluster_servers s) s \<and> api_echoes_id s" using assms(3,4) by (simp add: holding_def)
  note run = pgq.run_destroy_triple [OF assms(2), of ?live org cid "cluster_servers s" handle]
  show ?thesis
  proof (cases r)
    case (Inl e)
    with triple_errD [OF run s] assms(1) show ?thesis by blast
  next
    case (Inr u)
    with triple_okD [OF run s] assms(1) show ?thesis by blast
  qed
qed

theorem destroy_orphans_no_server_witness:
  "let t = snd (run_destroy demo_runner 1 demo_hetzner 71 demo_world)
   in confirmed 71 {500, 501, 502} t \<and> \<not> still_live 1 71 t \<and> live_servers t 1 71 = []"
proof -
  let ?run = "run_destroy demo_runner 1 demo_hetzner 71 demo_world"
  have "fst ?run = Inr ()" by code_simp
  then have "?run = (Inr (), snd ?run)" by (metis prod.collapse)
  moreover have "lr_secrets demo_runner = pgcrypto_store secret_refs ''kek''" by (simp add: demo_runner_def demo_store_def)
  moreover have "server_ids (cluster_servers demo_world) 1 71 = {500, 501, 502}" by code_simp
  ultimately show ?thesis
    using destroy_orphans_no_server [of demo_runner 1 "''kek''" "\<lparr>sr_id = 60, sr_org = 1\<rparr>" 71 demo_world] demo_world_echoes
    by (simp add: demo_hetzner_def demo_store_def Let_def)
qed

section \<open>Provisioning\<close>

lemma terminal_observe: "observe cid (publish_terminal d st reason s) = observe cid s"
  by (cases st) (simp_all add: publish_terminal_def publish_def Let_def observe_emit created_id_def confirms_gone_def step_of_def)

lemma terminal_rows [simp]:
  "cluster_servers (publish_terminal d st reason s) = cluster_servers s" "clusters (publish_terminal d st reason s) = clusters s"
  using terminal_emits [of d st reason s] by auto

lemma row_ops_outer:
  "keeps (\<lambda>s. outer s = w) (insert_workflow_row wid org cid)"
  "keeps (\<lambda>s. outer s = w) (finalize_workflow_row wid st reason)"
  "keeps (\<lambda>s. outer s = w) (update_step org wid st)"
  by (simp_all add: keeps_def insert_workflow_row_def finalize_workflow_row_def update_step_def tx_def)

lemma row_ops_rows:
  "keeps (\<lambda>s. cluster_servers s = rows \<and> clusters s = cl) (insert_workflow_row wid org cid)"
  "keeps (\<lambda>s. cluster_servers s = rows \<and> clusters s = cl) (finalize_workflow_row wid st reason)"
  "keeps (\<lambda>s. cluster_servers s = rows) (insert_workflow_row wid org cid)"
  "keeps (\<lambda>s. cluster_servers s = rows) (finalize_workflow_row wid st reason)"
  by (simp_all add: keeps_def insert_workflow_row_def finalize_workflow_row_def tx_def)

lemma update_status_rows: "keeps (\<lambda>s. cluster_servers s = rows) (update_status org i st reason ctx)"
  using update_status_servers by (fastforce simp: keeps_def)

lemma observe_keeps:
  fixes m :: "('z world_scheme, 'e, 'a) op"
  assumes "\<And>w. keeps (\<lambda>s. outer s = w) m"
  shows "keeps (\<lambda>s. observe cid s = ob) m"
  by (rule keeps_via [OF assms]) (auto dest: outer_observe [of _ _ cid])

lemma bypass_keeps:
  fixes m :: "('z world_scheme, 'e, 'a) op"
  assumes "\<And>w. keeps (\<lambda>s. outer s = w) m"
  shows "keeps (\<lambda>s. \<not> pg_bypass s) m"
  by (rule keeps_via [OF assms]) (simp add: outer_def)

text \<open>The state a provisioning run starts its workflow in.\<close>

definition starting :: "uuid \<Rightarrow> observation \<Rightarrow> cluster_server_row list \<Rightarrow> 'z world_scheme \<Rightarrow> bool" where
  "starting cid ob rows s \<longleftrightarrow> api_echoes_id s \<and> observe cid s = ob \<and> cluster_servers s = rows \<and> \<not> pg_bypass s"

lemma starting_keeps:
  fixes m :: "('z world_scheme, 'e, 'a) op"
  assumes "\<And>w. keeps (\<lambda>s. outer s = w) m" and "keeps (\<lambda>s. cluster_servers s = rows) m"
  shows "keeps (starting cid ob rows) m"
  unfolding starting_def [abs_def] by (intro keeps_conj api_keeps observe_keeps bypass_keeps assms)

definition unfinished :: "uuid \<Rightarrow> observation \<Rightarrow> cluster_server_row list \<Rightarrow> 'z world_scheme \<Rightarrow> bool" where
  "unfinished cid b rows s \<longleftrightarrow>
     cluster_servers s = rows \<and> (\<exists>n c. observe cid s = (fst b @ c, fst (snd b), snd (snd b) @ take n PROVISION_STEPS))"

lemma unfinished_keeps:
  fixes m :: "('z world_scheme, 'e, 'a) op"
  assumes "\<And>w. keeps (\<lambda>s. outer s = w) m" and "keeps (\<lambda>s. cluster_servers s = rows) m"
  shows "keeps (unfinished cid b rows) m"
proof (rule keepsI)
  fix s :: "'z world_scheme"
  assume "unfinished cid b rows s"
  with keepsD [OF observe_keeps [OF assms(1), of cid "observe cid s"], of s] keepsD [OF assms(2), of s]
  show "unfinished cid b rows (snd (m s))" by (simp add: unfinished_def)
qed

lemma provision_failed_errs:
  "provision_failed org cid wid audit err s = (r, t) \<Longrightarrow> \<exists>x. r = Inl (RunMessage x)"
  by (auto simp: provision_failed_def Let_def bindE_def ignoreE_def liftS_def fail_def)

lemma provision_failed_keeps: "keeps (unfinished cid b rows) (provision_failed org d wid audit err)"
  unfolding provision_failed_def Let_def
  by (intro keeps_intros keeps_liftS unfinished_keeps repo_outer row_ops_outer row_ops_rows update_status_rows)
    (simp add: unfinished_def terminal_observe)

lemma calm_servers: "calm (\<lambda>s. cluster_servers s = rows \<and> \<not> pg_bypass s)"
  by (simp add: calm_def)

lemma workflow_sink_servers:
  "cluster_servers (sink_step (workflow_progress org wid cid) x s) = cluster_servers s"
  "pg_bypass (sink_step (workflow_progress org wid cid) x s) = pg_bypass s"
  by (simp_all add: workflow_progress_def publish_def update_step_def tx_def)

context framed_secrets
begin

lemma provision_calls:
  fixes lr :: "'a world_scheme local_runner"
  shows "triple (starting cid b rows)
     (\<lambda>s. provision_cluster (world_runtime lr s)
        \<lparr>pd_hetzner = hetzner_client store handle, pd_ssh = openssh_ssh cfg, pd_progress = workflow_progress org wid cid\<rparr> input s)
     (\<lambda>out s. starting cid (fst b @ hs_id (po_control_plane out) # map hs_id (po_workers out), fst (snd b), snd (snd b) @ PROVISION_STEPS) rows s
        \<and> length (po_workers out) = pi_worker_count input)
     (unfinished cid b rows)"
proof -
  let ?m = "\<lambda>s0. provision_cluster (world_runtime lr s0)
    \<lparr>pd_hetzner = hetzner_client store handle, pd_ssh = openssh_ssh cfg, pd_progress = workflow_progress org wid cid\<rparr> input"
  have rows: "keeps (\<lambda>s. cluster_servers s = rows \<and> \<not> pg_bypass s) (?m s0)" for s0
    by (rule keeps_provision_cluster)
      (simp_all add: calm_client calm_ssh calm_servers workflow_sink_servers world_runtime_def world_sleep_def)
  have run: "triple (at_step api_echoes_id (observe cid) b PROVISION_STEPS 0 []) (?m s0)
    (\<lambda>out s. at_step api_echoes_id (observe cid) b PROVISION_STEPS 8 (hs_id (po_control_plane out) # map hs_id (po_workers out)) s
       \<and> length (po_workers out) = pi_worker_count input)
    (stopped api_echoes_id (observe cid) b PROVISION_STEPS)" for s0
    by (rule wfp.env.provision_run) simp_all
  have start: "at_step api_echoes_id (observe cid) b PROVISION_STEPS 0 [] s" if "starting cid b rows s" for s
    using that by (simp add: starting_def at_step_def)
  have all: "take 8 PROVISION_STEPS = PROVISION_STEPS" by (simp add: PROVISION_STEPS_def)
  show ?thesis
  proof (rule tripleI)
    fix s out t
    assume s: "starting cid b rows s" and m: "?m s s = (Inr out, t)"
    from triple_okD [OF run start [OF s] m] keeps_run [OF rows _ m] s
    show "starting cid (fst b @ hs_id (po_control_plane out) # map hs_id (po_workers out), fst (snd b), snd (snd b) @ PROVISION_STEPS) rows t
        \<and> length (po_workers out) = pi_worker_count input"
      by (simp add: starting_def at_step_def all)
  next
    fix s e t
    assume s: "starting cid b rows s" and m: "?m s s = (Inl e, t)"
    from triple_errD [OF run start [OF s] m] keeps_run [OF rows _ m] s
    show "unfinished cid b rows t"
      by (auto simp: starting_def unfinished_def at_step_def stopped_def)
  qed
qed

end

lemma record_server_ok:
  assumes "record_server org i hid role pub priv ctx s = (Inr u, t)"
  shows "(\<exists>r \<in> set (cluster_servers t). cs_hetzner_id r = hid \<and> cs_deleted_at r = None)
    \<and> set (cluster_servers s) \<subseteq> set (cluster_servers t)"
  using assms by (auto simp: record_server_def bindE_eq_Inr new_id_def tx_eq_Inr split: if_splits)

text \<open>A server is on record when a live row carries its id.\<close>

definition on_record :: "server_id \<Rightarrow> 'z cluster_db_scheme \<Rightarrow> bool" where
  "on_record i s \<longleftrightarrow> (\<exists>r \<in> set (cluster_servers s). cs_hetzner_id r = i64_of_u64 i \<and> cs_deleted_at r = None)"

lemma record_servers_ok:
  "record_servers org cid ws ctx s = (Inr u, t) \<Longrightarrow>
     (\<forall>w \<in> set ws. on_record (hs_id w) t) \<and> set (cluster_servers s) \<subseteq> set (cluster_servers t)"
  unfolding record_servers_def
proof (induction ws arbitrary: s)
  case (Cons w ws)
  then obtain v where v: "record_server org cid (i64_of_u64 (hs_id w)) Worker (hs_ipv4 w) (hs_private_ipv4 w) ctx s = (Inr (), v)"
    "forE (\<lambda>w. map_err RunPlatform (record_server org cid (i64_of_u64 (hs_id w)) Worker (hs_ipv4 w) (hs_private_ipv4 w) ctx)) ws v = (Inr u, t)"
    by (auto simp: forE_Cons bindE_eq_Inr simp del: forE.simps)
  from record_server_ok [OF v(1)] Cons.IH [OF v(2)] show ?case by (auto simp: on_record_def)
qed simp

lemma record_servers_outer: "keeps (\<lambda>s. outer s = w) (record_servers org cid ws ctx)"
  unfolding record_servers_def by (intro keeps_intros repo_outer)

lemma set_kubeconfig_outer: "keeps (\<lambda>s. outer s = w) (set_kubeconfig_secret org i sid ctx)"
  unfolding set_kubeconfig_secret_def
  by (intro keeps_intros keeps_tx) (auto simp: Let_def update_clusters_eq split: if_splits)

lemma set_kubeconfig_rows: "keeps (\<lambda>s. cluster_servers s = rows) (set_kubeconfig_secret org i sid ctx)"
  unfolding set_kubeconfig_secret_def
  by (intro keeps_intros keeps_tx) (auto simp: Let_def update_clusters_eq split: if_splits)

text \<open>The row of a cluster that is in service.\<close>

definition equipped :: "uuid \<Rightarrow> uuid \<Rightarrow> cluster_row \<Rightarrow> bool" where
  "equipped org cid r \<longleftrightarrow> cl_org r = org \<and> cl_id r = cid \<and> cl_deleted_at r = None \<and> cl_kubeconfig_secret_id r \<noteq> None"

lemma set_kubeconfig_ok:
  assumes "set_kubeconfig_secret org i sid ctx s = (Inr (), t)" and "\<not> pg_bypass s"
  shows "\<exists>r \<in> set (clusters t). equipped org i r"
proof -
  let ?hit = "\<lambda>r. cluster_visible s org r \<and> cl_id r = i \<and> cl_deleted_at r = None
     \<and> (cl_kubeconfig_secret_id r = None \<or> cl_kubeconfig_secret_id r = Some sid)"
  have "\<exists>r \<in> set (clusters s). ?hit r" and
    "clusters t = sql_update ?hit (\<lambda>r. r\<lparr>cl_kubeconfig_secret_id := Some sid, cl_updated_at := now s, cl_version := cl_version r + 1\<rparr>) (clusters s)"
    using assms(1)
    by (auto simp: set_kubeconfig_secret_def bindE_eq_Inr tx_eq_Inr Let_def update_clusters_def sql_count_zero fail_def ret_def
        split: if_splits)
  then show ?thesis using assms(2)
    by (auto simp: bex_sql_update equipped_def cluster_visible_def rls_app_role)
qed

lemma update_status_ok:
  assumes "update_status org i st reason ctx s = (Inr (), t)" and "\<not> pg_bypass s" and "\<exists>r \<in> set (clusters s). equipped org i r"
  shows "\<exists>r \<in> set (clusters t). equipped org i r \<and> cl_status r = st"
proof -
  have "\<not> db_faulty s" using assms(1) by (auto simp: update_status_def bindE_eq_Inr tx_eq_Inr db_faulty_def)
  from update_status_run [OF this, of org i st reason ctx] assms
  have "clusters t = clusters (snd (update_clusters ctx (\<lambda>r. cluster_visible s org r \<and> cl_id r = i)
        (\<lambda>r. r\<lparr>cl_status := st, cl_status_reason := reason\<rparr>) s))"
    by simp
  then show ?thesis using assms(2,3)
    by (simp add: update_clusters_eq bex_sql_update) (force simp: equipped_def cluster_visible_def rls_app_role)
qed

lemma catchE_eq:
  "catchE m h k s = (r, t) \<longleftrightarrow>
     (\<exists>e u. m s = (Inl e, u) \<and> h e u = (r, t)) \<or> (\<exists>a u. m s = (Inr a, u) \<and> k a u = (r, t))"
  by (auto simp: catchE_def split: prod.splits sum.splits)

context framed_secrets
begin

lemma store_kubeconfig_outer: "keeps (\<lambda>s. outer s = w) (store_kubeconfig store org i k ctx)"
proof -
  have "keeps (\<lambda>s. outer s = w) (ss_delete store h)" "keeps (\<lambda>s. outer s = w) (ss_put store org k)" for h
    by (rule keeps_via [OF delete_frame] keeps_via [OF put_frame], simp add: frame_def)+
  then show ?thesis unfolding store_kubeconfig_def by (intro keeps_intros set_kubeconfig_outer)
qed

lemma store_kubeconfig_rows: "keeps (\<lambda>s. cluster_servers s = rows) (store_kubeconfig store org i k ctx)"
proof -
  have "keeps (\<lambda>s. cluster_servers s = rows) (ss_delete store h)" "keeps (\<lambda>s. cluster_servers s = rows) (ss_put store org k)" for h
    by (rule keeps_via [OF delete_frame] keeps_via [OF put_frame], simp add: frame_def)+
  then show ?thesis unfolding store_kubeconfig_def by (intro keeps_intros set_kubeconfig_rows)
qed

lemma store_kubeconfig_ok:
  assumes "store_kubeconfig store org i k ctx s = (Inr (), t)" and "\<not> pg_bypass s"
  shows "\<exists>r \<in> set (clusters t). equipped org i r"
proof -
  obtain h u where put: "ss_put store org k s = (Inr h, u)" and set: "set_kubeconfig_secret org i (sr_id h) ctx u = (Inr (), t)"
    using assms(1)
    by (auto simp: store_kubeconfig_def bindE_eq_Inr catchE_eq fail_def ret_def)
  have "frame u = frame s" by (rule keeps_run [OF put_frame refl put])
  with assms(2) have "\<not> pg_bypass u" by (simp add: frame_def outer_def)
  from set_kubeconfig_ok [OF set this] show ?thesis .
qed

end

text \<open>Operations that never answer with a message of the runner's own.\<close>

definition plain :: "('s, run_error, 'a) op \<Rightarrow> bool" where
  "plain m \<longleftrightarrow> (\<forall>s x t. m s \<noteq> (Inl (RunMessage x), t))"

lemma plain_bind: "plain m \<Longrightarrow> (\<And>a. plain (k a)) \<Longrightarrow> plain (bindE m k)"
  by (auto simp: plain_def bindE_eq_Inl)

lemma plain_ops:
  "plain (map_err RunPlatform m)" "plain (liftS f)" "plain new_id" "plain (getS g)"
  by (auto simp: plain_def map_err_eq_Inl liftS_def new_id_def getS_def)

lemma plain_rows: "plain (insert_workflow_row wid org cid)" "plain (finalize_workflow_row wid st reason)"
  by (auto simp: plain_def insert_workflow_row_def finalize_workflow_row_def tx_def split: if_splits)

lemma plain_for: "(\<And>x. plain (f x)) \<Longrightarrow> plain (forE f xs)"
  by (induction xs) (simp add: plain_def, simp only: forE_Cons plain_bind)

lemma plain_succeeded: "plain (provision_succeeded lr org cid wid audit out)"
  unfolding provision_succeeded_def record_servers_def by (intro plain_bind plain_ops plain_rows plain_for)

lemma plain_step:
  assumes "bindE m k s = (r, t)" and "P s" and "plain m" and "keeps P m"
    and "\<And>a u. P u \<Longrightarrow> k a u = (r, t) \<Longrightarrow> G r t" and "\<And>e. \<nexists>x. e = RunMessage x \<Longrightarrow> G (Inl e) t"
  shows "G r t"
proof (cases "m s")
  case (Pair x u)
  with keeps_run [OF assms(4,2)] have "P u" by simp
  show ?thesis
  proof (cases x)
    case (Inl e)
    with Pair assms(1) have "m s = (Inl e, t)" "r = Inl e" by (auto simp: bindE_def)
    moreover from this have "\<nexists>x. e = RunMessage x" using assms(3) by (auto simp: plain_def)
    ultimately show ?thesis using assms(6) by simp
  next
    case (Inr a)
    with Pair assms(1) have "k a u = (r, t)" by (simp add: bindE_def)
    with \<open>P u\<close> show ?thesis by (rule assms(5))
  qed
qed

lemma plainD: "plain m \<Longrightarrow> m s = (Inl e, t) \<Longrightarrow> \<nexists>x. e = RunMessage x"
  by (auto simp: plain_def)

context framed_secrets
begin

lemma provision_settles:
  assumes "provision_succeeded lr org cid wid audit out s = (Inr u, t)" and "lr_secrets lr = store" and "starting cid b rows s"
  shows "observe cid t = b \<and> set rows \<subseteq> set (cluster_servers t)
    \<and> (\<forall>sv \<in> set (po_control_plane out # po_workers out). on_record (hs_id sv) t)
    \<and> (\<exists>r \<in> set (clusters t). equipped org cid r \<and> cl_status r = Ready)
    \<and> last (ext_trace t) = EvPublish cid (TerminalEvent ''ready'' None)"
proof -
  let ?cp = "po_control_plane out"
  obtain s1 s2 s3 s4 s5 where
    r1: "record_server org cid (i64_of_u64 (hs_id ?cp)) ControlPlane (hs_ipv4 ?cp) (hs_private_ipv4 ?cp) audit s = (Inr (), s1)"
    and r2: "record_servers org cid (po_workers out) audit s1 = (Inr (), s2)"
    and r3: "store_kubeconfig store org cid (po_kubeconfig out) audit s2 = (Inr (), s3)"
    and r4: "update_status org cid Ready None audit s3 = (Inr (), s4)"
    and r5: "finalize_workflow_row wid ''done'' None s4 = (Inr (), s5)"
    and t: "t = publish_terminal cid Ready None s5"
    using assms(1,2) by (auto simp: provision_succeeded_def bindE_eq_Inr liftS_def)
  have out: "outer s1 = outer s" "outer s2 = outer s" "outer s3 = outer s" "outer s5 = outer s"
    using keeps_run [OF repo_outer(7) refl r1] keeps_run [OF record_servers_outer _ r2] keeps_run [OF store_kubeconfig_outer _ r3]
      keeps_run [OF repo_outer(1) _ r4] keeps_run [OF row_ops_outer(2) _ r5] by (metis (no_types))+
  have nb: "\<not> pg_bypass s2" "\<not> pg_bypass s3" using out assms(3) by (simp_all add: outer_def starting_def)
  have rows5: "cluster_servers s5 = cluster_servers s2" "clusters s5 = clusters s4"
    using keeps_run [OF store_kubeconfig_rows refl r3] keeps_run [OF update_status_rows _ r4] keeps_run [OF row_ops_rows(2) _ r5]
    by auto
  have "set (cluster_servers s1) \<subseteq> set (cluster_servers s2)" "\<forall>w \<in> set (po_workers out). on_record (hs_id w) s2"
    using record_servers_ok [OF r2] by auto
  moreover have "on_record (hs_id ?cp) s1" "set rows \<subseteq> set (cluster_servers s1)"
    using record_server_ok [OF r1] assms(3) by (auto simp: on_record_def starting_def)
  ultimately have rec: "set rows \<subseteq> set (cluster_servers s2)" "\<forall>sv \<in> set (?cp # po_workers out). on_record (hs_id sv) s2"
    by (auto simp: on_record_def)
  have "\<exists>r \<in> set (clusters s4). equipped org cid r \<and> cl_status r = Ready"
    by (rule update_status_ok [OF r4 nb(2) store_kubeconfig_ok [OF r3 nb(1)]])
  moreover have "observe cid s5 = b" using outer_observe [OF out(4), of cid] assms(3) by (simp add: starting_def)
  moreover have "t = emit (EvPublish cid (TerminalEvent ''ready'' None)) s5"
    using t by (simp add: publish_terminal_def publish_def Let_def)
  ultimately show ?thesis
    using rec rows5 terminal_observe [of cid cid Ready None s5] t by (simp add: on_record_def)
qed

lemma run_provision_outcome:
  assumes lr: "lr_secrets lr = store" and ssh: "lr_ssh lr = openssh_ssh cfg" and s: "starting (pi_cluster_id input) b rows s"
    and run: "run_provision lr org (hetzner_client store handle) input s = (r, t)"
  shows "case r of
      Inl e \<Rightarrow> (\<exists>x. e = RunMessage x) \<longrightarrow> unfinished (pi_cluster_id input) b rows t
    | Inr _ \<Rightarrow> \<exists>ids. length ids = Suc (pi_worker_count input)
        \<and> observe (pi_cluster_id input) t = (fst b @ ids, fst (snd b), snd (snd b) @ PROVISION_STEPS)
        \<and> (\<forall>i \<in> set ids. on_record i t) \<and> set rows \<subseteq> set (cluster_servers t)
        \<and> (\<exists>r \<in> set (clusters t). equipped org (pi_cluster_id input) r \<and> cl_status r = Ready)
        \<and> last (ext_trace t) = EvPublish (pi_cluster_id input) (TerminalEvent ''ready'' None)"
    (is "?goal r t")
proof -
  let ?cid = "pi_cluster_id input"
  have new: "keeps (starting ?cid b rows) new_id"
    by (rule keeps_new_id) (simp add: starting_def api_echoes_id_def observe_def)
  have other: "?goal (Inl e) u" if "\<nexists>x. e = RunMessage x" for e u using that by simp
  have call: "?goal r t" if v: "starting ?cid b rows v" and c: "catchE (\<lambda>s. provision_cluster (world_runtime lr s)
      \<lparr>pd_hetzner = hetzner_client store handle, pd_ssh = lr_ssh lr, pd_progress = workflow_progress org wid ?cid\<rparr> input s)
      (provision_failed org ?cid wid audit) (provision_succeeded lr org ?cid wid audit) v = (r, t)" for wid audit v
    using c unfolding catchE_eq
  proof (elim disjE exE conjE)
    fix e u
    assume "provision_cluster (world_runtime lr v)
      \<lparr>pd_hetzner = hetzner_client store handle, pd_ssh = lr_ssh lr, pd_progress = workflow_progress org wid ?cid\<rparr> input v = (Inl e, u)"
    then have "unfinished ?cid b rows u" using triple_errD [OF provision_calls v] ssh by metis
    moreover assume f: "provision_failed org ?cid wid audit e u = (r, t)"
    ultimately have "unfinished ?cid b rows t" by (metis keeps_run [OF provision_failed_keeps])
    with provision_failed_errs [OF f] show ?thesis by auto
  next
    fix out u
    assume "provision_cluster (world_runtime lr v)
      \<lparr>pd_hetzner = hetzner_client store handle, pd_ssh = lr_ssh lr, pd_progress = workflow_progress org wid ?cid\<rparr> input v = (Inr out, u)"
    then have u: "starting ?cid (fst b @ hs_id (po_control_plane out) # map hs_id (po_workers out), fst (snd b), snd (snd b) @ PROVISION_STEPS) rows u
        \<and> length (po_workers out) = pi_worker_count input"
      using triple_okD [OF provision_calls v] ssh by metis
    assume p: "provision_succeeded lr org ?cid wid audit out u = (r, t)"
    show ?thesis
    proof (cases r)
      case (Inl e)
      then have "\<nexists>x. e = RunMessage x" using p by (intro plainD [OF plain_succeeded]) simp
      then show ?thesis using Inl other by simp
    next
      case (Inr x)
      with p provision_settles [OF _ lr conjunct1 [OF u], of org wid audit out x t] u show ?thesis
        by simp
    qed
  qed
  show ?thesis
    using run unfolding run_provision_def
  proof (rule plain_step [where P = "starting ?cid b rows" and G = ?goal, OF _ s plain_ops(3) new], goal_cases)
    case (1 wid s1)
    from 1(2,1) show ?case
    proof (rule plain_step [where P = "starting ?cid b rows" and G = ?goal, OF _ _ plain_ops(4) keeps_getS], goal_cases)
      case (1 audit s2)
      from 1(2,1) show ?case
      proof (rule plain_step [where P = "starting ?cid b rows" and G = ?goal, OF _ _ plain_ops(1)], goal_cases)
        case 1
        show ?case by (intro keeps_map_err starting_keeps repo_outer update_status_rows)
      next
        case (2 x s3)
        from 2(2,1) show ?case
        proof (rule plain_step [where P = "starting ?cid b rows" and G = ?goal, OF _ _ plain_rows(1)], goal_cases)
          case 1
          show ?case by (intro starting_keeps row_ops_outer row_ops_rows)
        next
          case (2 x s4)
          then show ?case by (rule call)
        qed (rule other)
      qed (rule other)
    qed (rule other)
  qed (rule other)
qed

end


definition demo_input :: provision_cluster_input where
  "demo_input = \<lparr>pi_cluster_id = 70, pi_cluster_name = ''a'', pi_location = ''nbg1'', pi_server_type = ''cpx11'', pi_worker_count = 2,
     pi_ssh_key = ''key'', pi_user_data = '''', pi_k3s_version = ''v1.30''\<rparr>"

lemma demo_runner_parts:
  "lr_secrets demo_runner = pgcrypto_store secret_refs ''kek''" "lr_ssh demo_runner = openssh_ssh (openssh_new None)"
  "demo_hetzner = hetzner_client (pgcrypto_store secret_refs ''kek'') \<lparr>sr_id = 60, sr_org = 1\<rparr>"
  by (simp_all add: demo_runner_def demo_store_def demo_hetzner_def)



text \<open>A provider that never assigns a public address: the run stops with the
  control plane created.\<close>

definition addressless :: "ext_event list \<Rightarrow> http_request \<Rightarrow> http_outcome" where
  "addressless tr rq =
     (case demo_http tr rq of
        HttpReply r \<Rightarrow> HttpReply (r\<lparr>hr_json := map_sum id (\<lambda>j. j\<lparr>sj_ipv4 := None\<rparr>) (hr_json r)\<rparr>)
      | out \<Rightarrow> out)"

lemma addressless_echoes: "http_env s = addressless \<Longrightarrow> api_echoes_id s"
  using demo_http_echoes [of demo_world] unfolding api_echoes_id_def
  by (auto simp: addressless_def demo_http_def demo_server_def server_path_def parse_show_nat
      split: option.splits http_method.splits)


section \<open>Scaling in\<close>

lemma outcome_step:
  assumes "bindE m k s = (r, t)" and "P s" and "keeps P m"
    and "\<And>e. P t \<Longrightarrow> m s = (Inl e, t) \<Longrightarrow> G (Inl e) t"
    and "\<And>a u. P u \<Longrightarrow> m s = (Inr a, u) \<Longrightarrow> k a u = (r, t) \<Longrightarrow> G r t"
  shows "G r t"
proof (cases "m s")
  case (Pair x u)
  with keeps_run [OF assms(3,2)] have "P u" by simp
  with Pair assms(1,4,5) show ?thesis by (cases x) (auto simp: bindE_def)
qed

lemma forget_server_app_role:
  assumes "\<not> pg_bypass s" and "\<forall>r \<in> set (cluster_servers s). cs_org r \<noteq> nil_uuid"
  shows "snd (forget_server i s) = tick s"
proof -
  have "sql_update (\<lambda>r. rls s None (cs_org r) \<and> cs_id r = i \<and> cs_deleted_at r = None) f (cluster_servers s) = cluster_servers s" for f
    using assms by (intro sql_update_none) (auto simp: rls_unscoped)
  then show ?thesis by (simp add: forget_server_def tx_def)
qed

text \<open>The rows, the trace and the files a scaling run has to leave alone until its
  workflow starts.\<close>

definition at_rest ::
    "observation \<Rightarrow> kube_call list \<Rightarrow> cluster_server_row list \<Rightarrow> (string \<times> string) list \<Rightarrow> uuid \<Rightarrow> 'z world_scheme \<Rightarrow> bool" where
  "at_rest ob kl rows files cid s \<longleftrightarrow>
     api_echoes_id s \<and> observe cid s = ob \<and> kube_log s = kl \<and> cluster_servers s = rows \<and> tmp_files s = files \<and> \<not> pg_bypass s"

lemma at_rest_keeps:
  fixes m :: "('z world_scheme, 'e, 'a) op"
  assumes "\<And>w. keeps (\<lambda>s. outer s = w) m" and "keeps (\<lambda>s. cluster_servers s = rows) m"
  shows "keeps (at_rest ob kl rows files cid) m"
proof (rule keepsI)
  fix s :: "'z world_scheme"
  assume "at_rest ob kl rows files cid s"
  moreover have "outer (snd (m s)) = outer s" by (rule keepsD [OF assms(1) refl])
  ultimately show "at_rest ob kl rows files cid (snd (m s))"
    using keepsD [OF assms(2), of s] outer_observe [of "snd (m s)" s cid] by (auto simp: at_rest_def outer_def)
qed

lemma at_rest_simps [simp]:
  "at_rest ob kl rows files cid (tick s) = at_rest ob kl rows files cid s"
  "at_rest ob kl rows files cid (s\<lparr>pg_uuid_ctr := n\<rparr>) = at_rest ob kl rows files cid s"
  by (simp_all add: at_rest_def api_echoes_id_def observe_def kube_log_def)

lemma at_rest_forget:
  assumes "\<forall>r \<in> set rows. cs_org r \<noteq> nil_uuid"
  shows "keeps (at_rest ob kl rows files cid) (forget_server i)"
proof (rule keepsI)
  fix s :: "'z world_scheme"
  assume s: "at_rest ob kl rows files cid s"
  with assms forget_server_app_role [of s i] have "snd (forget_server i s) = tick s" by (simp add: at_rest_def)
  with s show "at_rest ob kl rows files cid (snd (forget_server i s))" by simp
qed

lemma terminal_outside [simp]:
  "tmp_files (publish_terminal d st reason s) = tmp_files s" "pg_bypass (publish_terminal d st reason s) = pg_bypass s"
  "api_echoes_id (publish_terminal d st reason s) = api_echoes_id s"
  using terminal_emits [of d st reason s] by auto

lemma terminal_kube: "kube_log (publish_terminal d st reason s) = kube_log s"
  by (cases st) (simp_all add: publish_terminal_def publish_def Let_def)

lemma at_rest_terminal: "at_rest ob kl rows files cid s \<Longrightarrow> at_rest ob kl rows files cid (publish_terminal d st reason s)"
  by (simp add: at_rest_def terminal_observe terminal_kube)

lemma at_rest_scale_failed: "keeps (at_rest ob kl rows files cid) (scale_failed org d what audit err)"
  unfolding scale_failed_def Let_def
  by (intro keeps_intros keeps_liftS at_rest_keeps repo_outer update_status_rows at_rest_terminal)

lemma at_rest_reads:
  "keeps (at_rest ob kl rows files cid) (list_servers org i)"
  "keeps (at_rest ob kl rows files cid) (kubeconfig_secret org i)"
  by (auto simp: keeps_def list_servers_def kubeconfig_secret_def bindE_def tx_def ret_def cluster_not_found_def split: option.split)

lemma at_rest_remove: "at_rest ob kl rows files cid s \<Longrightarrow>
    at_rest ob kl rows (filter (\<lambda>f. fst f \<noteq> path) files) cid (s\<lparr>tmp_files := filter (\<lambda>f. fst f \<noteq> path) (tmp_files s)\<rparr>)"
  by (simp add: at_rest_def api_echoes_id_def observe_def kube_log_def)

definition recorded_servers :: "cluster_server_row list \<Rightarrow> uuid \<Rightarrow> uuid \<Rightarrow> cluster_server list" where
  "recorded_servers rows org cid =
     map row_to_server (sort_key (\<lambda>r. (role_rank (cs_role r), cs_created_at r))
       (filter (\<lambda>r. cs_org r = org \<and> cs_cluster r = cid \<and> cs_deleted_at r = None) rows))"

lemma list_servers_recorded:
  assumes "list_servers org cid s = (Inr svs, t)" and "\<not> pg_bypass s"
  shows "svs = recorded_servers (cluster_servers s) org cid"
  using assms by (auto simp: list_servers_def tx_eq_Inr recorded_servers_def rls_app_role)

definition removals :: "worker_to_remove list \<Rightarrow> kube_call list" where
  "removals targets = map Drained (map wr_node_name targets) @ map NodeDeleted (map wr_node_name targets)"

lemma calm_at_rest_rows: "calm (\<lambda>s. api_echoes_id s \<and> cluster_servers s = rows \<and> tmp_files s = files \<and> \<not> pg_bypass s)"
  by (simp add: calm_def api_echoes_id_def)

context framed_secrets
begin

lemma fetch_at_rest: "keeps (at_rest ob kl rows files cid) (fetch_kubeconfig store org i)"
proof -
  have get: "keeps (at_rest ob kl rows files cid) (ss_get store h)" for h
    by (rule keepsI) (metis at_rest_simps(1) get_tick prod.collapse)
  have "keeps (at_rest ob kl rows files cid)
      (case found of None \<Rightarrow> (\<lambda>s. (Inl (x s), s)) | Some sid \<Rightarrow> map_err Secret (ss_get store (h sid)))"
    for found :: "uuid option" and x h
    by (cases found) (auto intro!: keeps_intros get)
  then show ?thesis unfolding fetch_kubeconfig_def by (intro keeps_intros at_rest_reads)
qed

lemma scale_in_calls:
  fixes input :: scale_in_input
  assumes "at_rest ob kl rows files cid s"
    and "scale_in \<lparr>sd_hetzner = hetzner_client store handle, sd_kubectl = kubectl_cli_executor kcfg,
      sd_progress = hub_only_progress cid\<rparr> input s = (r, t)"
  shows "\<exists>ob' kl'. at_rest ob' kl' rows files cid t
    \<and> (fst (snd ob') = fst (snd ob) \<or> kl' = kl @ removals (si_targets input))
    \<and> (r = Inr () \<longrightarrow> fst (snd ob') = fst (snd ob) \<union> wr_server_id ` set (si_targets input) \<and> kl' = kl @ removals (si_targets input))"
proof -
  let ?deps = "\<lparr>sd_hetzner = hetzner_client store handle, sd_kubectl = kubectl_cli_executor kcfg, sd_progress = hub_only_progress cid\<rparr>"
  obtain c g st where ob: "ob = (c, g, st)" by (cases ob) auto
  have "keeps (\<lambda>s. api_echoes_id s \<and> cluster_servers s = rows \<and> tmp_files s = files \<and> \<not> pg_bypass s) (scale_in ?deps input)"
    by (rule keeps_scale_in)
      (simp_all only: scale_in_deps.select_convs calm_client calm_kubectl calm_at_rest_rows, simp add: hub_only_progress_def publish_def)
  from keeps_run [OF this _ assms(2)] assms(1) have frame: "at_rest (observe cid t) (kube_log t) rows files cid t"
    by (auto simp: at_rest_def)
  show ?thesis
  proof (cases r)
    case (Inl e)
    have "fst (snd (observe cid t)) = g \<or> kube_log t = kl @ removals (si_targets input)"
      unfolding removals_def
      by (rule triple_errD [OF hub.env.scale_in_run _ assms(2) [unfolded Inl]]) (use assms(1) ob in \<open>auto simp: at_rest_def\<close>)
    with frame Inl ob show ?thesis by (intro exI [of _ "observe cid t"] exI [of _ "kube_log t"]) auto
  next
    case (Inr u)
    have "api_echoes_id t \<and> observe cid t = (c, g \<union> wr_server_id ` set (si_targets input),
        st @ [''draining_nodes'', ''deleting_nodes'', ''destroying_servers'', ''done'']) \<and> kube_log t = kl @ removals (si_targets input)"
      unfolding removals_def
      by (rule triple_okD [OF hub.env.scale_in_run _ assms(2) [unfolded Inr]]) (use assms(1) ob in \<open>auto simp: at_rest_def\<close>)
    with frame ob show ?thesis by (intro exI [of _ "observe cid t"] exI [of _ "kube_log t"]) auto
  qed
qed

end

definition stage_failed :: "run_error + unit \<Rightarrow> bool" where
  "stage_failed r \<longleftrightarrow> (\<exists>e. r = Inl (RunMessage (''stage kubeconfig: '' @ e)))"

text \<open>What a scaling-in run comes to.\<close>

definition scaled_in ::
    "uuid \<Rightarrow> server_id set \<Rightarrow> kube_call list \<Rightarrow> cluster_server_row list \<Rightarrow> (string \<times> string) list \<Rightarrow> worker_to_remove list
      \<Rightarrow> run_error + unit \<Rightarrow> 'z world_scheme \<Rightarrow> bool" where
  "scaled_in cid g kl rows files targets r t \<longleftrightarrow>
     cluster_servers t = rows
     \<and> (fst (snd (observe cid t)) = g \<or> kube_log t = kl @ removals targets)
     \<and> (r = Inr () \<longrightarrow> fst (snd (observe cid t)) = g \<union> wr_server_id ` set targets \<and> kube_log t = kl @ removals targets)
     \<and> (\<not> stage_failed r \<longrightarrow> set (tmp_files t) \<subseteq> set files)"

lemma at_rest_scaled_in:
  assumes "at_rest ob' kl' rows files' cid t" and "set files' \<subseteq> set files"
    and "fst (snd ob') = g \<or> kl' = kl @ removals targets"
    and "r = Inr () \<longrightarrow> fst (snd ob') = g \<union> wr_server_id ` set targets \<and> kl' = kl @ removals targets"
  shows "scaled_in cid g kl rows files targets r t"
  using assms by (auto simp: at_rest_def scaled_in_def)

lemma scale_failed_errs: "scale_failed org cid what audit err s = (r, t) \<Longrightarrow> \<exists>e. r = Inl e"
  by (auto simp: scale_failed_def Let_def bindE_def ignoreE_def liftS_def fail_def)

context framed_secrets
begin

lemma scale_in_finish:
  assumes u: "at_rest ob kl rows files' cid u" and nil: "\<forall>r \<in> set rows. cs_org r \<noteq> nil_uuid"
    and files: "files' = (path, k) # filter (\<lambda>f. fst f \<noteq> path) files"
    and run: "catchE (scale_in \<lparr>sd_hetzner = hetzner_client store handle, sd_kubectl = kubectl_cli_executor kcfg,
        sd_progress = hub_only_progress cid\<rparr> input)
      (\<lambda>err. bindE (remove_file path) (\<lambda>_. scale_failed org cid ''scale-in'' audit err))
      (\<lambda>_. bindE (remove_file path) (\<lambda>_. bindE (forE (\<lambda>x. ignoreE (forget_server (sv_id x))) gone) (\<lambda>_.
          bindE (map_err RunPlatform (update_status org cid Ready None audit)) (\<lambda>_. liftS (publish_terminal cid Ready None))))) u = (r, t)"
  shows "scaled_in cid (fst (snd ob)) kl rows files (si_targets input) r t"
proof -
  have sub: "set (filter (\<lambda>f. fst f \<noteq> path) files') \<subseteq> set files" by (auto simp: files)
  let ?tail = "bindE (forE (\<lambda>x. ignoreE (forget_server (sv_id x))) gone) (\<lambda>_.
          bindE (map_err RunPlatform (update_status org cid Ready None audit)) (\<lambda>_. liftS (publish_terminal cid Ready None)))"
  have tail: "keeps (at_rest ob' kl' rows fs cid) ?tail" for ob' kl' fs
    by (intro keeps_intros keeps_liftS at_rest_forget nil at_rest_keeps repo_outer update_status_rows at_rest_terminal)
  have bind_remove: "bindE (remove_file path) m v = m () (v\<lparr>tmp_files := filter (\<lambda>f. fst f \<noteq> path) (tmp_files v)\<rparr>)" for m :: "unit \<Rightarrow> ('a world_scheme, run_error, unit) op" and v
    by (simp add: bindE_def remove_file_def)
  from run consider (failed) e v where "scale_in \<lparr>sd_hetzner = hetzner_client store handle, sd_kubectl = kubectl_cli_executor kcfg,
        sd_progress = hub_only_progress cid\<rparr> input u = (Inl e, v)" "scale_failed org cid ''scale-in'' audit e (v\<lparr>tmp_files := filter (\<lambda>f. fst f \<noteq> path) (tmp_files v)\<rparr>) = (r, t)"
    | (finished) x v where "scale_in \<lparr>sd_hetzner = hetzner_client store handle, sd_kubectl = kubectl_cli_executor kcfg,
        sd_progress = hub_only_progress cid\<rparr> input u = (Inr x, v)" "?tail (v\<lparr>tmp_files := filter (\<lambda>f. fst f \<noteq> path) (tmp_files v)\<rparr>) = (r, t)"
    unfolding catchE_eq bind_remove by blast
  then show ?thesis
  proof cases
    case (failed e v)
    from scale_in_calls [OF u failed(1)] obtain ob' kl' where v: "at_rest ob' kl' rows files' cid v"
      "fst (snd ob') = fst (snd ob) \<or> kl' = kl @ removals (si_targets input)" by auto
    from keeps_run [OF at_rest_scale_failed at_rest_remove [OF v(1)] failed(2)] sub v(2)
    show ?thesis by (rule at_rest_scaled_in) (use scale_failed_errs [OF failed(2)] in auto)
  next
    case (finished x v)
    from scale_in_calls [OF u finished(1)] obtain ob' kl' where v: "at_rest ob' kl' rows files' cid v"
      "fst (snd ob') = fst (snd ob) \<union> wr_server_id ` set (si_targets input)" "kl' = kl @ removals (si_targets input)" by auto
    from keeps_run [OF tail at_rest_remove [OF v(1)] finished(2)] sub show ?thesis
      by (rule at_rest_scaled_in) (use v in auto)
  qed
qed

end

lemma at_rest_files: "at_rest ob kl rows files cid s \<Longrightarrow> at_rest ob kl rows fs cid (s\<lparr>tmp_files := fs\<rparr>)"
  by (simp add: at_rest_def api_echoes_id_def observe_def kube_log_def)

lemma stage_step:
  assumes "bindE (map_err (\<lambda>e. RunMessage (''stage kubeconfig: '' @ e)) (write_file path content)) k s = (r, t)"
    and s: "at_rest ob kl rows files cid s"
    and ok: "\<And>u. at_rest ob kl rows ((path, content) # filter (\<lambda>f. fst f \<noteq> path) files) cid u \<Longrightarrow> k () u = (r, t)
      \<Longrightarrow> scaled_in cid (fst (snd ob)) kl rows files targets r t"
  shows "scaled_in cid (fst (snd ob)) kl rows files targets r t"
proof (cases "fs_write s (ext_trace s) path")
  case None
  then have "k () (s\<lparr>tmp_files := (path, content) # filter (\<lambda>f. fst f \<noteq> path) files\<rparr>) = (r, t)"
    using assms(1) s by (simp add: bindE_def map_err_def write_file_def at_rest_def)
  then show ?thesis using at_rest_files [OF s] ok by blast
next
  case (Some x)
  obtain err left where x: "x = (err, left)" by fastforce
  then obtain fs where "t = s\<lparr>tmp_files := fs\<rparr>" "r = Inl (RunMessage (''stage kubeconfig: '' @ err))"
    using Some assms(1) by (auto simp: bindE_def map_err_def write_file_def split: option.splits)
  with at_rest_files [OF s, of fs] show ?thesis by (auto simp: scaled_in_def at_rest_def stage_failed_def)
qed

context framed_secrets
begin

lemma run_scale_in_outcome:
  assumes kubectl: "lr_kubectl lr = kubectl_cli_executor kcfg" and lr: "lr_secrets lr = store"
    and s: "at_rest ob kl rows files cid s" and nil: "\<forall>r \<in> set rows. cs_org r \<noteq> nil_uuid"
    and run: "run_scale_in lr org (hetzner_client store handle) cid name count s = (r, t)"
  shows "scaled_in cid (fst (snd ob)) kl rows files (scale_in_targets (recorded_servers rows org cid) name count) r t"
    (is "?G r t")
proof -
  let ?P = "at_rest ob kl rows files cid"
  have early: "?P u \<Longrightarrow> ?G (Inl e) u" for e u by (rule at_rest_scaled_in) auto
  have new: "keeps ?P new_id" by (rule keeps_new_id) simp
  have upd: "keeps ?P (map_err RunPlatform (update_status org cid Scaling None audit))" for audit
    by (intro keeps_map_err at_rest_keeps repo_outer update_status_rows)
  have lst: "keeps ?P (map_err RunPlatform (list_servers org cid))"
    by (intro keeps_map_err at_rest_reads)
  have fet: "keeps ?P (map_err RunPlatform (fetch_kubeconfig (lr_secrets lr) org cid))"
    unfolding lr by (intro keeps_map_err fetch_at_rest)
  note step = outcome_step [where P = ?P and G = ?G]
  from run [unfolded run_scale_in_def] s show ?thesis
  proof (rule step [OF _ _ new], goal_cases)
    case (2 wid s1)
    from 2(3,1) show ?case
    proof (rule step [OF _ _ keeps_getS], goal_cases)
      case (2 audit s2)
      from 2(3,1) show ?case
      proof (rule step [OF _ _ upd], goal_cases)
        case (2 x s3)
        from 2(3,1) show ?case
        proof (rule step [OF _ _ lst], goal_cases)
          case (2 svs s4)
          have svs: "svs = recorded_servers rows org cid"
            using list_servers_recorded [of org cid s3 svs s4] 2(2) \<open>?P s3\<close> by (auto simp: at_rest_def)
          from 2(3,1) show ?case
          proof (rule step [OF _ _ fet], goal_cases)
            case (2 kubeconfig s5)
            from 2(3,1) show ?case
            proof (rule step [OF _ _ new], goal_cases)
              case (2 fid s6)
              from 2(3,1) show ?case
              proof (rule step [OF _ _ keeps_getS], goal_cases)
                case (2 path s7)
                from 2(3,1) show ?case
                proof (rule stage_step, goal_cases)
                  case (1 u)
                  from scale_in_finish [OF 1(1) nil refl 1(2) [unfolded kubectl]] svs show ?case by simp
                qed
              qed (rule early)
            qed (rule early)
          qed (rule early)
        qed (rule early)
      qed (rule early)
    qed (rule early)
  qed (rule early)
qed

end



section \<open>Which workers are removed\<close>

lemma sort_key_neg_take:
  assumes "distinct (map f xs)" and "x \<in> set (take n (sort_key (\<lambda>x. - f x) xs))" and "y \<in> set xs"
    and "y \<notin> set (take n (sort_key (\<lambda>x. - f x) xs))"
  shows "f y < (f x :: int)"
proof -
  let ?ys = "sort_key (\<lambda>x. - f x) xs"
  have "y \<in> set (drop n ?ys)" using assms(3,4) by (metis Un_iff append_take_drop_id set_append set_sort)
  moreover have "sorted (map (\<lambda>x. - f x) (take n ?ys @ drop n ?ys))" by simp
  ultimately have "f y \<le> f x" using assms(2) by (auto simp: sorted_append simp del: append_take_drop_id)
  moreover have "x \<in> set xs" using assms(2) by (metis in_set_takeD set_sort)
  with assms(1-4) have "f x \<noteq> f y" by (metis distinct_map inj_onD)
  ultimately show ?thesis by simp
qed

lemma index_for_sorted:
  assumes "distinct (map sv_hetzner_server_id (workers_of svs))" and "w \<in> set (workers_of svs)"
  shows "index_for_id svs (sv_hetzner_server_id w)
    = Some (card {v \<in> set (workers_of svs). sv_hetzner_server_id v < sv_hetzner_server_id w})"
proof -
  let ?f = sv_hetzner_server_id
  define zs where "zs = sort_key ?f (workers_of svs)"
  have len: "length (workers_of svs) = length zs" and set: "set (workers_of svs) = set zs" by (simp_all add: zs_def)
  have dist: "distinct (map ?f zs)" using assms(1) by (simp add: zs_def distinct_map)
  moreover have "sorted (map ?f zs)" by (simp add: zs_def)
  ultimately have less: "?f (zs ! j) < ?f (zs ! i)" if "j < i" "i < length zs" for i j
    using sorted_wrt_nth_less [of "(<)" "map ?f zs" j i] that by (simp add: strict_sorted_iff)
  obtain i where i: "i < length zs" "zs ! i = w" using assms(2) set by (metis in_set_conv_nth)
  have "{v \<in> set zs. ?f v < ?f w} = set (take i zs)"
  proof (intro set_eqI iffI)
    fix v
    assume "v \<in> {v \<in> set zs. ?f v < ?f w}"
    then obtain j where j: "j < length zs" "zs ! j = v" "?f v < ?f w" by (auto simp: in_set_conv_nth)
    then have "j < i" using less [of i j] i by (metis less_asym not_less_iff_gr_or_eq order_less_irrefl)
    with j i show "v \<in> set (take i zs)" by (auto simp: in_set_conv_nth intro!: exI [of _ j])
  next
    fix v
    assume "v \<in> set (take i zs)"
    then obtain j where "j < i" "zs ! j = v" using i(1) by (auto simp: in_set_conv_nth)
    with less [of j i] i show "v \<in> {v \<in> set zs. ?f v < ?f w}" by auto
  qed
  moreover have "distinct zs" using dist by (simp add: distinct_map)
  ultimately have card: "card {v \<in> set zs. ?f v < ?f w} = i" using i(1) by (simp add: distinct_card)
  have "map_of (rev (zip (map ?f zs) [0..<length zs])) (?f w) = Some i"
    using i dist by (intro map_of_is_SomeI) (auto simp: rev_map [symmetric] in_set_zip intro!: exI [of _ i])
  then show ?thesis using card by (simp add: index_for_id_def zs_def [symmetric] len set)
qed

text \<open>Scaling in by \<open>count\<close> chooses the youngest workers: as many as there are up
  to \<open>count\<close>, all of them workers of the cluster, no worker that is kept having a
  higher server id than one that goes; and the node name of a removed server
  carries its rank among the workers by server id.\<close>

theorem scale_in_picks_youngest:
  assumes "distinct (map sv_hetzner_server_id (workers_of svs))"
  shows "length (to_remove svs count) = min count (length (workers_of svs))
    \<and> (\<forall>w \<in> set (to_remove svs count). w \<in> set (workers_of svs)
         \<and> (\<forall>v \<in> set (workers_of svs) - set (to_remove svs count). sv_hetzner_server_id v < sv_hetzner_server_id w))
    \<and> map wr_node_name (scale_in_targets svs name count) =
        map (\<lambda>w. name @ ''-worker-'' @ show_pad2 (card {v \<in> set (workers_of svs). sv_hetzner_server_id v < sv_hetzner_server_id w}))
          (to_remove svs count)"
proof -
  have sub: "w \<in> set (workers_of svs)" if "w \<in> set (to_remove svs count)" for w
    using that by (metis in_set_takeD set_sort to_remove_def)
  have "sv_hetzner_server_id v < sv_hetzner_server_id w"
    if "w \<in> set (to_remove svs count)" "v \<in> set (workers_of svs) - set (to_remove svs count)" for w v
    using sort_key_neg_take [OF assms, of w count v] that by (simp add: to_remove_def)
  moreover have "index_for_id svs (sv_hetzner_server_id w)
      = Some (card {v \<in> set (workers_of svs). sv_hetzner_server_id v < sv_hetzner_server_id w})"
    if "w \<in> set (to_remove svs count)" for w
    by (rule index_for_sorted [OF assms sub [OF that]])
  ultimately show ?thesis
    using sub by (auto simp: scale_in_targets_def opt_or_def) (simp add: to_remove_def min.commute)
qed

theorem scale_in_picks_youngest_witness:
  "let svs = recorded_servers (cluster_servers demo_world) 1 71
   in map sv_hetzner_server_id (to_remove svs 1) = [502]
    \<and> map wr_node_name (scale_in_targets svs ''b'' 1) =
        map (\<lambda>w. ''b-worker-'' @ show_pad2 (card {v \<in> set (workers_of svs). sv_hetzner_server_id v < sv_hetzner_server_id w})) (to_remove svs 1)"
proof -
  let ?svs = "recorded_servers (cluster_servers demo_world) 1 71"
  have "distinct (map sv_hetzner_server_id (workers_of ?svs))" "map sv_hetzner_server_id (to_remove ?svs 1) = [502]" by code_simp+
  with scale_in_picks_youngest [of ?svs 1 "''b''"] show ?thesis by (simp add: Let_def)
qed

section \<open>Waiting is bounded\<close>

definition slept :: "ext_event list \<Rightarrow> nat" where
  "slept tr = sum_list (map (\<lambda>e. case e of EvSleep n \<Rightarrow> n | _ \<Rightarrow> 0) tr)"

definition exchanges :: "ext_event list \<Rightarrow> nat" where
  "exchanges tr = length (filter (\<lambda>e. case e of EvHttp _ _ \<Rightarrow> True | EvProc _ _ \<Rightarrow> True | _ \<Rightarrow> False) tr)"

lemma trace_counts [simp]:
  "slept [] = 0" "slept (a @ b) = slept a + slept b" "exchanges [] = 0" "exchanges (a @ b) = exchanges a + exchanges b"
  "slept (EvSleep n # tr) = n + slept tr" "slept (EvHttp q o' # tr) = slept tr" "slept (EvProc p o'' # tr) = slept tr"
  "exchanges (EvSleep n # tr) = exchanges tr" "exchanges (EvHttp q o' # tr) = Suc (exchanges tr)"
  "exchanges (EvProc p o'' # tr) = Suc (exchanges tr)"
  by (simp_all add: slept_def exchanges_def)

context quiet_secrets
begin

lemma client_get_trace:
  assumes "client_get_server store handle i s = (r, t)"
  shows "\<exists>tr. ext_trace t = ext_trace s @ tr \<and> exchanges tr \<le> 1 \<and> slept tr = 0 \<and> (\<forall>sv. r = Inr sv \<longrightarrow> exchanges tr = 1)"
proof -
  obtain a u where res: "resolve_token store handle s = (a, u)" by fastforce
  then have u: "ext_trace u = ext_trace s"
    by (auto simp: resolve_token_def map_err_def split: prod.splits sum.splits dest!: get_tick)
  show ?thesis
  proof (cases a)
    case (Inl e)
    with res assms have "t = u" "r = Inl e" by (simp_all add: client_get_server_def get_json_def bindE_def)
    with u show ?thesis by (intro exI [of _ "[]"]) simp
  next
    case (Inr tok)
    define rq where "rq = \<lparr>rq_method = GET, rq_url = HETZNER_API_BASE @ server_path i, rq_bearer = tok, rq_body = None\<rparr>"
    have "\<exists>out. t = emit (EvHttp rq out) u"
      using res Inr assms
      by (auto simp: client_get_server_def get_json_def bindE_def send_request_def rq_def [symmetric] of_sum_def fail_def ret_def
          split: http_outcome.splits sum.splits if_splits)
    with u show ?thesis by auto
  qed
qed

lemma poll_trace:
  "cloud_init_poll n (world_runtime lr s0) (hetzner_client store handle) i s = (r, t) \<Longrightarrow>
     \<exists>tr. ext_trace t = ext_trace s @ tr \<and> exchanges tr \<le> n \<and> slept tr \<le> CLOUD_INIT_POLL_INTERVAL * n
       \<and> (\<forall>k. r = Inl (CloudInitTimeout k) \<longrightarrow> exchanges tr = n \<and> slept tr = CLOUD_INIT_POLL_INTERVAL * n)"
proof (induction n arbitrary: s)
  case 0
  then show ?case by (intro exI [of _ "[]"]) auto
next
  case (Suc n)
  obtain g u where g: "client_get_server store handle i s = (g, u)" by fastforce
  obtain tr where tr: "ext_trace u = ext_trace s @ tr" "exchanges tr \<le> 1" "slept tr = 0" "\<forall>sv. g = Inr sv \<longrightarrow> exchanges tr = 1"
    using client_get_trace [OF g] by auto
  let ?v = "world_sleep CLOUD_INIT_POLL_INTERVAL u"
  consider (stop) "t = u" "\<nexists>k. r = Inl (CloudInitTimeout k)"
    | (again) sv where "g = Inr sv" "cloud_init_poll n (world_runtime lr s0) (hetzner_client store handle) i ?v = (r, t)"
    using Suc.prems g by (auto simp: hetzner_client_def world_runtime_def split: sum.splits server_status.splits)
  then show ?case
  proof cases
    case stop
    with tr show ?thesis by (intro exI [of _ tr]) auto
  next
    case (again sv)
    from Suc.IH [OF again(2)] obtain tr' where "ext_trace t = ext_trace ?v @ tr'" "exchanges tr' \<le> n"
      "slept tr' \<le> CLOUD_INIT_POLL_INTERVAL * n"
      "\<forall>k. r = Inl (CloudInitTimeout k) \<longrightarrow> exchanges tr' = n \<and> slept tr' = CLOUD_INIT_POLL_INTERVAL * n" by blast
    with tr again(1) show ?thesis
      by (intro exI [of _ "tr @ [EvSleep CLOUD_INIT_POLL_INTERVAL] @ tr'"]) (simp add: world_sleep_def)
  qed
qed

end

lemma ssh_trace:
  "openssh_attempt cfg left target cmd s = (r, t) \<Longrightarrow>
     \<exists>tr. ext_trace t = ext_trace s @ tr \<and> exchanges tr \<le> Suc left \<and> slept tr \<le> left * connect_backoff cfg
       \<and> (\<forall>e. r = Inl (SshConnect e) \<longrightarrow> exchanges tr = Suc left \<and> slept tr = left * connect_backoff cfg)"
proof (induction left arbitrary: s)
  case 0
  obtain out where "t = emit (EvProc (ssh_build_command cfg target cmd) out) s"
    using 0 by (auto simp: run_process_def Let_def split: proc_outcome.splits if_splits)
  then show ?case by auto
next
  case (Suc left)
  obtain out where out: "proc_env s (ext_trace s) (ssh_build_command cfg target cmd) = out" by blast
  let ?s1 = "emit (EvProc (ssh_build_command cfg target cmd) out) s"
  let ?s2 = "emit (EvSleep (connect_backoff cfg)) ?s1"
  have "(t = ?s1 \<and> (\<nexists>e. r = Inl (SshConnect e))) \<or> openssh_attempt cfg left target cmd ?s2 = (r, t)"
    using Suc.prems out
    by (auto simp: run_process_def Let_def sleep_def liftS_def simp del: openssh_attempt.simps(1)
        simp add: openssh_attempt.simps(1) [of cfg "Suc left"] split: proc_outcome.splits if_splits)
  then show ?case
  proof
    assume "t = ?s1 \<and> (\<nexists>e. r = Inl (SshConnect e))"
    then show ?thesis by (intro exI [of _ "[EvProc (ssh_build_command cfg target cmd) out]"]) auto
  next
    assume "openssh_attempt cfg left target cmd ?s2 = (r, t)"
    from Suc.IH [OF this] obtain tr' where "ext_trace t = ext_trace ?s2 @ tr'" "exchanges tr' \<le> Suc left"
      "slept tr' \<le> left * connect_backoff cfg"
      "\<forall>e. r = Inl (SshConnect e) \<longrightarrow> exchanges tr' = Suc left \<and> slept tr' = left * connect_backoff cfg" by blast
    then show ?thesis
      by (intro exI [of _ "[EvProc (ssh_build_command cfg target cmd) out, EvSleep (connect_backoff cfg)] @ tr'"])
        auto
  qed
qed

text \<open>Waiting for a server is bounded: the wait for cloud-init asks the provider
  at most 60 times and sleeps at most 300 seconds in all, and it gives up with a
  timeout only after exactly 60 questions and 300 seconds; a command over SSH is
  tried at most 7 times with at most 60 seconds of backoff, and a connection
  error is reported only after all of them.\<close>

theorem waiting_is_bounded:
  assumes "wait_for_cloud_init (world_runtime lr s0) (hetzner_client (pgcrypto_store secret_refs kek) handle) i s = (r, t)"
    and "openssh_run (openssh_new key) target cmd u = (q, v)"
  shows "(\<exists>tr. ext_trace t = ext_trace s @ tr \<and> exchanges tr \<le> 60 \<and> slept tr \<le> 300
        \<and> (\<forall>k. r = Inl (CloudInitTimeout k) \<longrightarrow> exchanges tr = 60 \<and> slept tr = 300))
    \<and> (\<exists>tr. ext_trace v = ext_trace u @ tr \<and> exchanges tr \<le> 7 \<and> slept tr \<le> 60
        \<and> (\<forall>e. q = Inl (SshConnect e) \<longrightarrow> exchanges tr = 7 \<and> slept tr = 60))"
  using pgq.poll_trace [OF assms(1) [unfolded wait_for_cloud_init_def]] ssh_trace [OF assms(2) [unfolded openssh_run_def]]
  by (simp add: openssh_new_def CLOUD_INIT_MAX_ATTEMPTS_def CLOUD_INIT_POLL_INTERVAL_def)

definition refusing :: "ext_event list \<Rightarrow> proc_call \<Rightarrow> proc_outcome" where
  "refusing tr pc = Exited (Some 255) [] ''Connection refused''"

theorem waiting_is_bounded_witness:
  "(\<exists>tr. ext_trace (snd (wait_for_cloud_init (world_runtime demo_runner demo_world) demo_hetzner 500 demo_world)) = tr \<and> exchanges tr \<le> 60)
   \<and> (\<exists>tr. ext_trace (snd (openssh_run (openssh_new None) \<lparr>st_host = ''h'', st_user = ''u''\<rparr> ''ls'' (demo_world\<lparr>proc_env := refusing\<rparr>))) = tr
        \<and> exchanges tr = 7 \<and> slept tr = 60)"
proof -
  let ?w = "wait_for_cloud_init (world_runtime demo_runner demo_world) demo_hetzner 500 demo_world"
  let ?o = "openssh_run (openssh_new None) \<lparr>st_host = ''h'', st_user = ''u''\<rparr> ''ls'' (demo_world\<lparr>proc_env := refusing\<rparr>)"
  have "fst ?o = Inl (SshConnect ''Connection refused'')" by code_simp
  then have o: "?o = (Inl (SshConnect ''Connection refused''), snd ?o)" by (metis prod.collapse)
  from waiting_is_bounded [OF surjective_pairing [of ?w, unfolded demo_runner_parts(3)] o]
  show ?thesis by (auto simp: demo_runner_parts(3))
qed

end
