(* ===== verification/Api_Auth.thy ===== *)
theory Api_Auth
  imports Runner
begin

text \<open>
  The edge of the API crate: request headers, the three actor extractors
  (\<open>api/src/actor.rs\<close>), the audit context of a request (\<open>audit_ctx.rs\<close>), problem
  responses (\<open>problem.rs\<close>), API keys (\<open>api_keys.rs\<close>) and the rate limiter
  (\<open>rate_limit.rs\<close>).
\<close>

section \<open>Requests and responses\<close>

text \<open>A header map with lower-case names. \<open>HeaderValue::to_str\<close> accepts visible
  ASCII, blanks and tabs.\<close>

type_synonym headers = "(string \<times> string) list"

definition visible_ascii :: "char \<Rightarrow> bool" where
  "visible_ascii c \<longleftrightarrow> (let n = of_char c :: nat in 32 \<le> n \<and> n < 127 \<or> n = 9)"

definition header_str :: "headers \<Rightarrow> string \<Rightarrow> string option" where
  "header_str h name =
     (case map_of h name of
        None \<Rightarrow> None
      | Some v \<Rightarrow> if list_all visible_ascii v then Some v else None)"

definition strip_prefix :: "string \<Rightarrow> string \<Rightarrow> string option" where
  "strip_prefix p s = (if starts_with s p then Some (drop (length p) s) else None)"

fun split_on :: "char \<Rightarrow> string \<Rightarrow> string list" where
  "split_on d [] = [[]]"
| "split_on d (c # s) =
     (if c = d then [] # split_on d s
      else case split_on d s of [] \<Rightarrow> [[c]] | w # ws \<Rightarrow> (c # w) # ws)"

text \<open>What a handler or an extractor ends with when it does not succeed: a bare
  status with a text, or an \<open>ApiError\<close>.\<close>

datatype api_error = Rejected nat string | Problem platform_error

record problem =
  pb_kind :: string
  pb_title :: string
  pb_status :: nat
  pb_detail :: string
  pb_code :: "string option"

definition into_problem :: "platform_error \<Rightarrow> problem" where
  "into_problem e =
     (case e of
        NotFound msg \<Rightarrow> \<lparr>pb_kind = ''about:blank'', pb_title = ''Not Found'', pb_status = 404, pb_detail = msg, pb_code = None\<rparr>
      | Forbidden msg \<Rightarrow> \<lparr>pb_kind = ''about:blank'', pb_title = ''Forbidden'', pb_status = 403, pb_detail = msg, pb_code = None\<rparr>
      | MfaRequired msg \<Rightarrow> \<lparr>pb_kind = ''https://kubinate.dev/problems/mfa-required'', pb_title = ''MFA Required'', pb_status = 401,
                           pb_detail = msg, pb_code = Some ''mfa_required''\<rparr>
      | Invalid msg \<Rightarrow> \<lparr>pb_kind = ''about:blank'', pb_title = ''Invalid Input'', pb_status = 400, pb_detail = msg, pb_code = None\<rparr>
      | Conflict msg \<Rightarrow> \<lparr>pb_kind = ''about:blank'', pb_title = ''Conflict'', pb_status = 409, pb_detail = msg, pb_code = None\<rparr>
      | Database _ \<Rightarrow> \<lparr>pb_kind = ''about:blank'', pb_title = ''Internal Server Error'', pb_status = 500,
                       pb_detail = ''an unexpected error occurred'', pb_code = None\<rparr>
      | Secret _ \<Rightarrow> \<lparr>pb_kind = ''about:blank'', pb_title = ''Internal Server Error'', pb_status = 500,
                     pb_detail = ''secret-store failure'', pb_code = None\<rparr>
      | Internal _ \<Rightarrow> \<lparr>pb_kind = ''about:blank'', pb_title = ''Internal Server Error'', pb_status = 500,
                       pb_detail = ''an unexpected error occurred'', pb_code = None\<rparr>)"

definition response_status :: "api_error \<Rightarrow> nat" where
  "response_status e = (case e of Rejected st _ \<Rightarrow> st | Problem p \<Rightarrow> pb_status (into_problem p))"

section \<open>State of the API process\<close>

record api_key_row =
  ak_id :: uuid
  ak_org :: uuid
  ak_user :: "uuid option"
  ak_name :: string
  ak_token_hash :: string
  ak_token_prefix :: string
  ak_created_at :: timestamp
  ak_last_used_at :: "timestamp option"
  ak_expires_at :: "timestamp option"
  ak_revoked_at :: "timestamp option"

text \<open>\<open>mono\<close> is the monotonic clock, read with \<open>Instant::now()\<close>.\<close>

record api = world +
  api_keys :: "api_key_row list"
  kube_limiter :: "(uuid \<times> int list) list"
  mono :: "nat \<Rightarrow> int"

lemma api_frame_tick [simp]:
  "api_keys (tick s) = api_keys s" "kube_limiter (tick s) = kube_limiter s" "mono (tick s) = mono s"
  by (simp_all add: tick_def)

text \<open>The parts of \<open>AppState\<close> the handlers use. The UUID parser and the JSON codecs
  belong to other crates.\<close>

record cluster_settings =
  cset_ssh_key :: string
  cset_user_data :: string
  cset_k3s_version :: string

record 's app_state =
  app_runner :: "'s local_runner"
  app_secret_store :: "'s secret_ops"
  app_settings :: cluster_settings
  app_allow_header_actor :: bool
  app_parse_uuid :: "string \<Rightarrow> uuid option"

section \<open>Actors\<close>

definition SESSION_COOKIE :: string where
  "SESSION_COOKIE = ''kubinate_session''"

record actor =
  act_user :: uuid
  act_session :: uuid
  act_org :: uuid

definition extract_session_cookie :: "(string \<Rightarrow> uuid option) \<Rightarrow> headers \<Rightarrow> uuid option" where
  "extract_session_cookie parse h =
     (case header_str h ''cookie'' of
        None \<Rightarrow> None
      | Some raw \<Rightarrow>
          (case List.map_filter (\<lambda>pair. strip_prefix (SESSION_COOKIE @ ''='') (trim pair)) (split_on (CHR '';'') raw) of
             [] \<Rightarrow> None
           | rest # _ \<Rightarrow> parse rest))"

definition extract_bearer_token :: "headers \<Rightarrow> string option" where
  "extract_bearer_token h =
     (case header_str h ''authorization'' of None \<Rightarrow> None | Some v \<Rightarrow> strip_prefix ''Bearer '' v)"

definition header_uuid :: "(string \<Rightarrow> uuid option) \<Rightarrow> headers \<Rightarrow> string \<Rightarrow> uuid option" where
  "header_uuid parse h name = (case header_str h name of None \<Rightarrow> None | Some v \<Rightarrow> parse v)"

text \<open>Both membership queries run on the pool, outside a tenant scope.\<close>

definition resolve_organization ::
    "(string \<Rightarrow> uuid option) \<Rightarrow> headers \<Rightarrow> uuid \<Rightarrow> ('z api_scheme, api_error, uuid) op" where
  "resolve_organization parse h u =
     (case header_uuid parse h ''x-organization-id'' of
        Some org \<Rightarrow>
          bindE (tx (\<lambda>_. Rejected 500 ''membership check failed'') (\<lambda>s.
            (Inr (sql_count (\<lambda>m. rls s None (m_org m) \<and> m_user m = u \<and> m_org m = org \<and> m_deleted_at m = None)
               (memberships s)), s))) (\<lambda>count.
          if count = 0 then fail (Rejected 403 ''not a member of that organization'') else ret org)
      | None \<Rightarrow>
          bindE (tx (\<lambda>_. Rejected 500 ''membership lookup failed'') (\<lambda>s.
            (Inr (map m_org (order_desc m_created_at (filter (\<lambda>m. rls s None (m_org m) \<and> m_user m = u \<and> m_deleted_at m = None)
               (memberships s)))), s))) (\<lambda>rows.
          case rows of
            [] \<Rightarrow> fail (Rejected 403 ''user has no active organization membership'')
          | org # _ \<Rightarrow> ret org))"

text \<open>The lookup by hash sees every tenant's keys (the bypass policy); the update
  is subject to the tenant policy. The stored hash is the SHA-256 of the token,
  written here as text.\<close>

definition key_valid :: "'z api_scheme \<Rightarrow> string \<Rightarrow> api_key_row \<Rightarrow> bool" where
  "key_valid s h k \<longleftrightarrow> ak_token_hash k = h \<and> ak_revoked_at k = None
     \<and> (case ak_expires_at k of None \<Rightarrow> True | Some e \<Rightarrow> e > now s)"

definition resolve_api_key :: "string \<Rightarrow> ('z api_scheme, api_error, actor option) op" where
  "resolve_api_key token =
     tx (\<lambda>_. Rejected 500 ''api key auth: db begin failed'') (\<lambda>s.
       case find (key_valid s (sha256_hex s token)) (api_keys s) of
         None \<Rightarrow> (Inr None, s)
       | Some k \<Rightarrow>
           (case ak_user k of
              None \<Rightarrow> (Inl (Rejected 500 ''api key lookup failed''), s)
            | Some u \<Rightarrow>
                (Inr (Some \<lparr>act_user = u, act_session = nil_uuid, act_org = ak_org k\<rparr>),
                 s\<lparr>api_keys := sql_update (\<lambda>r. rls s (Some (ak_org k)) (ak_org r) \<and> ak_id r = ak_id k)
                      (\<lambda>r. r\<lparr>ak_last_used_at := Some (now s)\<rparr>) (api_keys s)\<rparr>)))"

definition header_actor :: "'s app_state \<Rightarrow> headers \<Rightarrow> ('z api_scheme, api_error, actor) op" where
  "header_actor st h =
     (if app_allow_header_actor st
      then (case header_uuid (app_parse_uuid st) h ''x-organization-id'' of
              None \<Rightarrow> fail (Rejected 401 ''dev header actor: X-Organization-Id missing or not a UUID'')
            | Some org \<Rightarrow>
                ret \<lparr>act_user = opt_or (header_uuid (app_parse_uuid st) h ''x-actor-user-id'') nil_uuid,
                     act_session = nil_uuid, act_org = org\<rparr>)
      else fail (Rejected 401 ''authentication required''))"

definition bearer_actor :: "'s app_state \<Rightarrow> headers \<Rightarrow> ('z api_scheme, api_error, actor) op" where
  "bearer_actor st h =
     (case extract_bearer_token h of
        None \<Rightarrow> header_actor st h
      | Some token \<Rightarrow>
          if starts_with token ''kpat_''
          then bindE (resolve_api_key token) (\<lambda>found.
               case found of
                 Some a \<Rightarrow> ret a
               | None \<Rightarrow> fail (Rejected 401 ''invalid or revoked API key''))
          else header_actor st h)"

text \<open>\<open>session::resolve\<close> with its error replaced; the activity bump is a task of its
  own whose outcome is dropped.\<close>

definition session_of_cookie ::
    "'s app_state \<Rightarrow> headers \<Rightarrow> ('z api_scheme, api_error, session option) op" where
  "session_of_cookie st h =
     (case extract_session_cookie (app_parse_uuid st) h of
        None \<Rightarrow> ret None
      | Some sid \<Rightarrow> map_err (\<lambda>_. Rejected 500 ''session lookup failed'') (session_resolve sid))"

definition extract_actor :: "'s app_state \<Rightarrow> headers \<Rightarrow> ('z api_scheme, api_error, actor) op" where
  "extract_actor st h =
     bindE (session_of_cookie st h) (\<lambda>found.
     case found of
       Some session \<Rightarrow>
         bindE (resolve_organization (app_parse_uuid st) h (ses_user_id session)) (\<lambda>org.
         bindE (ignoreE (bump_activity (ses_id session))) (\<lambda>_.
         ret \<lparr>act_user = ses_user_id session, act_session = ses_id session, act_org = org\<rparr>))
     | None \<Rightarrow> bearer_actor st h)"

record session_user =
  su_user :: uuid
  su_session :: uuid

definition extract_session_user :: "'s app_state \<Rightarrow> headers \<Rightarrow> ('z api_scheme, api_error, session_user) op" where
  "extract_session_user st h =
     bindE (session_of_cookie st h) (\<lambda>found.
     case found of
       Some session \<Rightarrow> ret \<lparr>su_user = ses_user_id session, su_session = ses_id session\<rparr>
     | None \<Rightarrow>
         if app_allow_header_actor st
         then (case header_uuid (app_parse_uuid st) h ''x-actor-user-id'' of
                 None \<Rightarrow> fail (Rejected 401 ''dev header actor: X-Actor-User-Id required for SessionUser'')
               | Some u \<Rightarrow> ret \<lparr>su_user = u, su_session = nil_uuid\<rparr>)
         else fail (Rejected 401 ''authentication required''))"

record owner_actor =
  own_inner :: actor
  own_role :: membership_role

definition mfa_gate :: "actor \<Rightarrow> ('z api_scheme, api_error, unit) op" where
  "mfa_gate a =
     (if act_session a = nil_uuid then ret ()
      else bindE (tx (\<lambda>_. Rejected 500 ''session mfa-state lookup failed'') (\<lambda>s.
             (Inr (find (\<lambda>r. s_id r = act_session a \<and> session_live s r) (sessions s)), s))) (\<lambda>row.
           if (case row of Some r \<Rightarrow> s_mfa_satisfied r | None \<Rightarrow> False) then ret ()
           else fail (Problem (MfaRequired ''WebAuthn assertion required for this action''))))"

definition role_gate :: "actor \<Rightarrow> ('z api_scheme, api_error, membership_role) op" where
  "role_gate a =
     bindE (tx (\<lambda>_. Rejected 500 ''role lookup failed'') (\<lambda>s.
       (Inr (map_option m_role (find (\<lambda>m. rls s None (m_org m) \<and> m_user m = act_user a \<and> m_org m = act_org a
          \<and> m_deleted_at m = None) (memberships s))), s))) (\<lambda>found.
     case found of
       None \<Rightarrow> fail (Rejected 403 ''no membership in the active organization'')
     | Some role \<Rightarrow>
         if role = Owner \<or> role = Admin then ret role
         else fail (Rejected 403 ''this action requires Owner or Admin role''))"

definition extract_owner_actor :: "'s app_state \<Rightarrow> headers \<Rightarrow> ('z api_scheme, api_error, owner_actor) op" where
  "extract_owner_actor st h =
     bindE (extract_actor st h) (\<lambda>a.
     bindE (mfa_gate a) (\<lambda>_.
     bindE (role_gate a) (\<lambda>role.
     ret \<lparr>own_inner = a, own_role = role\<rparr>)))"

section \<open>Audit context of a request\<close>

definition some_user :: "uuid \<Rightarrow> uuid option" where
  "some_user u = (if u = nil_uuid then None else Some u)"

definition from_user_id_and_headers :: "uuid \<Rightarrow> headers \<Rightarrow> audit_ctx" where
  "from_user_id_and_headers u h =
     \<lparr>actor_user_id = some_user u, request_id = header_str h ''x-request-id'', ip = None,
      user_agent = header_str h ''user-agent''\<rparr>"

definition from_actor_and_headers :: "actor \<Rightarrow> headers \<Rightarrow> audit_ctx" where
  "from_actor_and_headers a h =
     \<lparr>actor_user_id = some_user (act_user a), request_id = header_str h ''x-request-id'', ip = None,
      user_agent = header_str h ''user-agent''\<rparr>"

section \<open>API keys\<close>

definition TOKEN_PREFIX :: string where
  "TOKEN_PREFIX = ''kpat_''"

record api_key_view =
  kv_id :: uuid
  kv_name :: string
  kv_token_prefix :: string
  kv_created_at :: timestamp
  kv_last_used_at :: "timestamp option"
  kv_expires_at :: "timestamp option"

definition api_key_view_of :: "api_key_row \<Rightarrow> api_key_view" where
  "api_key_view_of r =
     \<lparr>kv_id = ak_id r, kv_name = ak_name r, kv_token_prefix = ak_token_prefix r, kv_created_at = ak_created_at r,
      kv_last_used_at = ak_last_used_at r, kv_expires_at = ak_expires_at r\<rparr>"

definition list_api_keys :: "actor \<Rightarrow> ('z api_scheme, api_error, api_key_view list) op" where
  "list_api_keys a =
     tx (\<lambda>e. Problem (Database e)) (\<lambda>s.
       (Inr (map api_key_view_of (order_desc ak_created_at
          (filter (\<lambda>r. rls s (Some (act_org a)) (ak_org r) \<and> ak_user r = Some (act_user a) \<and> ak_revoked_at r = None)
             (api_keys s)))), s))"

definition generate_api_token :: "('z api_scheme, 'e, string) op" where
  "generate_api_token s = (Inr (TOKEN_PREFIX @ rand_token s (rnd_ctr s)), s\<lparr>rnd_ctr := Suc (rnd_ctr s)\<rparr>)"

definition api_token_prefix :: "string \<Rightarrow> string" where
  "api_token_prefix t = take (min (length TOKEN_PREFIX + 4) (length t)) t"

record api_key_request =
  kr_name :: string
  kr_expires_in_days :: "nat option"

definition insert_api_key ::
    "actor \<Rightarrow> string \<Rightarrow> string \<Rightarrow> uuid \<Rightarrow> timestamp option \<Rightarrow> ('z api_scheme, api_error, api_key_row) op" where
  "insert_api_key a name token i expires =
     tx (\<lambda>e. Problem (Database e)) (\<lambda>s.
       let row = \<lparr>ak_id = i, ak_org = act_org a, ak_user = Some (act_user a), ak_name = name,
                  ak_token_hash = sha256_hex s token, ak_token_prefix = api_token_prefix token,
                  ak_created_at = now s, ak_last_used_at = None, ak_expires_at = expires, ak_revoked_at = None\<rparr> in
       if (\<exists>r \<in> set (api_keys s). ak_id r = i \<or> ak_token_hash r = sha256_hex s token)
       then (Inl (Problem (Database SqlxUnique)), s)
       else if act_user a \<notin> u_id ` set (users s) \<or> act_org a \<notin> o_id ` set (organizations s)
       then (Inl (Problem (Database SqlxForeignKey)), s)
       else (Inr row, s\<lparr>api_keys := api_keys s @ [row]\<rparr>))"

definition create_api_key ::
    "actor \<Rightarrow> api_key_request \<Rightarrow> ('z api_scheme, api_error, nat \<times> api_key_view \<times> string) op" where
  "create_api_key a req =
     (let name = trim (kr_name req) in
      if name = [] then fail (Problem (Invalid ''name must not be empty''))
      else if length name > 64 then fail (Problem (Invalid ''name must be 64 characters or fewer''))
      else bindE generate_api_token (\<lambda>token.
           bindE new_id (\<lambda>i.
           bindE (getS (\<lambda>s. map_option (\<lambda>n. now s + days (int n)) (kr_expires_in_days req))) (\<lambda>expires.
           bindE (insert_api_key a name token i expires) (\<lambda>row.
           ret (201, api_key_view_of row, token))))))"

definition revoke_api_key :: "actor \<Rightarrow> uuid \<Rightarrow> ('z api_scheme, api_error, nat) op" where
  "revoke_api_key a i =
     bindE (tx (\<lambda>e. Problem (Database e)) (\<lambda>s.
       let hit = \<lambda>r. rls s (Some (act_org a)) (ak_org r) \<and> ak_id r = i \<and> ak_user r = Some (act_user a) \<and> ak_revoked_at r = None in
       (Inr (sql_count hit (api_keys s)),
        s\<lparr>api_keys := sql_update hit (\<lambda>r. r\<lparr>ak_revoked_at := Some (now s)\<rparr>) (api_keys s)\<rparr>))) (\<lambda>affected s.
     if affected = 0 then (Inl (Problem (NotFound (''api_key/'' @ pg_uuid_text s i))), s) else (Inr 204, s))"

section \<open>Rate limiting\<close>

record rate_limiter =
  rl_window :: int
  rl_max :: nat

text \<open>\<open>check_at\<close> on the deque of one key, and on the map of all keys. Subtracting the
  window from an \<open>Instant\<close> never fails on the platforms the service runs on.\<close>

definition check_entry :: "rate_limiter \<Rightarrow> int list \<Rightarrow> int \<Rightarrow> bool \<times> int list" where
  "check_entry rl entry t =
     (let kept = dropWhile (\<lambda>x. x < t - rl_window rl) entry in
      if length kept \<ge> rl_max rl then (False, kept) else (True, kept @ [t]))"

definition check_at :: "rate_limiter \<Rightarrow> uuid \<Rightarrow> int \<Rightarrow> (uuid \<times> int list) list \<Rightarrow> bool \<times> (uuid \<times> int list) list" where
  "check_at rl key t m =
     (let (ok, entry) = check_entry rl (opt_or (map_of m key) []) t in (ok, AList.update key entry m))"

text \<open>The limiter of kubeconfig downloads (\<open>main.rs\<close>): five per minute, in seconds.\<close>

definition kubeconfig_rate_limit :: rate_limiter where
  "kubeconfig_rate_limit = \<lparr>rl_window = 60, rl_max = 5\<rparr>"

definition rate_check :: "uuid \<Rightarrow> ('z api_scheme, 'e, bool) op" where
  "rate_check key s =
     (let (ok, m) = check_at kubeconfig_rate_limit key (mono s (pg_calls s)) (kube_limiter s)
      in (Inr ok, s\<lparr>kube_limiter := m\<rparr>))"

section \<open>The limiter never admits more than its maximum in a window\<close>

text \<open>The calls one key makes, in order: the times that were admitted and the deque
  that is left.\<close>

fun admit :: "rate_limiter \<Rightarrow> int list \<Rightarrow> int list \<Rightarrow> int list \<times> int list" where
  "admit rl entry [] = ([], entry)"
| "admit rl entry (t # ts) =
     (let (ok, e) = check_entry rl entry t; (adm, e') = admit rl e ts in (if ok then t # adm else adm, e'))"

definition in_window :: "rate_limiter \<Rightarrow> int \<Rightarrow> int list \<Rightarrow> nat" where
  "in_window rl t xs = length (filter (\<lambda>x. t \<le> x \<and> x \<le> t + rl_window rl) xs)"

lemma dropWhile_less_filter: "sorted xs \<Longrightarrow> dropWhile (\<lambda>x. x < c) xs = filter (\<lambda>x. c \<le> x) (xs :: int list)"
  by (induction xs) (auto intro!: filter_True [symmetric])

text \<open>The deque is the part of the admitted times that the last cut-off kept.\<close>

lemma admit_bound:
  assumes "sorted (past @ ts)" and "sorted (entry @ ts)" and "0 \<le> rl_window rl"
    and "\<And>t. in_window rl t past \<le> rl_max rl"
    and "\<And>c x. x \<in> set ts \<Longrightarrow> c = x - rl_window rl \<Longrightarrow> filter (\<lambda>y. c \<le> y) entry = filter (\<lambda>y. c \<le> y) past"
  shows "in_window rl t (past @ fst (admit rl entry ts)) \<le> rl_max rl"
  using assms
proof (induction ts arbitrary: past entry)
  case Nil
  then show ?case by simp
next
  case (Cons x ts)
  let ?c = "x - rl_window rl"
  let ?kept = "filter (\<lambda>y. ?c \<le> y) past"
  have kept: "dropWhile (\<lambda>y. y < ?c) entry = ?kept"
    using Cons.prems(2) Cons.prems(5) [of x ?c] by (simp add: dropWhile_less_filter sorted_append)
  have later: "filter (\<lambda>y. c \<le> y) ?kept = filter (\<lambda>y. c \<le> y) past" if "z \<in> set ts" "c = z - rl_window rl" for c z
  proof -
    have "x \<le> z" using Cons.prems(1) that(1) by (simp add: sorted_append)
    then show ?thesis using that(2) by (auto intro: filter_cong)
  qed
  have s: "sorted past" "sorted (x # ts)" "\<forall>y \<in> set past. \<forall>z \<in> set (x # ts). y \<le> z"
    using Cons.prems(1) by (auto simp: sorted_append)
  show ?case
  proof (cases "length ?kept \<ge> rl_max rl")
    case True
    have "in_window rl t (past @ fst (admit rl ?kept ts)) \<le> rl_max rl"
      using Cons.prems(1,3,4) later s by (intro Cons.IH) (auto simp: sorted_append sorted_filter [of id, simplified])
    then show ?thesis using True by (simp add: check_entry_def kept split: prod.split)
  next
    case False
    have win: "in_window rl t (past @ [x]) \<le> rl_max rl" for t
    proof (cases "t \<le> x \<and> x \<le> t + rl_window rl")
      case True
      have "length (filter (\<lambda>y. t \<le> y \<and> y \<le> t + rl_window rl) past) \<le> length (filter (\<lambda>y. t \<le> y \<and> y \<le> t + rl_window rl) ?kept)"
        using True by (simp, intro eq_refl arg_cong [where f = length] filter_cong) auto
      also have "\<dots> \<le> length ?kept" by (rule length_filter_le)
      finally show ?thesis using True False by (simp add: in_window_def)
    next
      case False
      then show ?thesis using Cons.prems(4) [of t] by (auto simp: in_window_def)
    qed
    have "in_window rl t ((past @ [x]) @ fst (admit rl (?kept @ [x]) ts)) \<le> rl_max rl"
      using Cons.prems(3) later s win
      by (intro Cons.IH) (auto simp: sorted_append sorted_filter [of id, simplified])
    then show ?thesis using False by (auto simp: check_entry_def kept split: prod.split)
  qed
qed



section \<open>Who passes the gate\<close>

lemma mfa_gate_ok:
  assumes "mfa_gate a s = (Inr u, t)" and "act_session a \<noteq> nil_uuid"
  shows "\<exists>r \<in> set (sessions s). s_id r = act_session a \<and> session_live s r \<and> s_mfa_satisfied r"
  using assms
  by (auto simp: mfa_gate_def bindE_eq_Inr tx_eq_Inr ret_def fail_def split: if_splits option.splits dest!: find_Some_iff2)

lemma mfa_gate_rows: "mfa_gate a s = (r, t) \<Longrightarrow> memberships t = memberships s \<and> pg_bypass t = pg_bypass s"
  by (auto simp: mfa_gate_def bindE_def tx_def ret_def fail_def split: if_splits option.splits prod.splits sum.splits)

lemma role_gate_ok:
  assumes "role_gate a s = (Inr role, t)"
  shows "(role = Owner \<or> role = Admin) \<and> (\<exists>m \<in> set (memberships s). rls s None (m_org m) \<and> m_user m = act_user a
    \<and> m_org m = act_org a \<and> m_deleted_at m = None \<and> m_role m = role)"
  using assms
  by (auto simp: role_gate_def bindE_eq_Inr tx_eq_Inr ret_def fail_def split: if_splits option.splits dest!: find_Some_iff2)

lemma resolve_organization_rows:
  "resolve_organization parse h u s = (r, t) \<Longrightarrow> memberships t = memberships s \<and> pg_bypass t = pg_bypass s \<and> sessions t = sessions s"
  by (auto simp: resolve_organization_def bindE_def tx_def ret_def fail_def split: if_splits option.splits list.splits)

lemma bump_rows:
  "memberships (snd (bump_activity sid s)) = memberships s" "pg_bypass (snd (bump_activity sid s)) = pg_bypass s"
  by (simp_all add: bump_activity_def tx_def)

lemma bump_sessions:
  "r \<in> set (sessions (snd (bump_activity sid s))) \<Longrightarrow>
     \<exists>q \<in> set (sessions s). s_id q = s_id r \<and> s_user q = s_user r \<and> s_mfa_satisfied q = s_mfa_satisfied r \<and> s_revoked_at q = s_revoked_at r"
  by (auto simp: bump_activity_def tx_def set_sql_update split: if_splits)

text \<open>Where an actor comes from when the development header is off: a live session, or
  an API key, which carries no session.\<close>

lemma extract_actor_cases:
  assumes "extract_actor st h s = (Inr a, t)" and "\<not> app_allow_header_actor st"
  shows "memberships t = memberships s \<and> pg_bypass t = pg_bypass s \<and>
    ((\<exists>r \<in> set (sessions s). s_id r = act_session a \<and> s_user r = act_user a \<and> session_live s r
        \<and> (\<forall>q \<in> set (sessions t). \<exists>q' \<in> set (sessions s). s_id q' = s_id q \<and> s_user q' = s_user q
             \<and> s_mfa_satisfied q' = s_mfa_satisfied q \<and> s_revoked_at q' = s_revoked_at q))
     \<or> (\<exists>k \<in> set (api_keys s). \<exists>token. extract_bearer_token h = Some token \<and> ak_token_hash k = sha256_hex s token
          \<and> ak_revoked_at k = None \<and> act_session a = nil_uuid \<and> ak_user k = Some (act_user a) \<and> ak_org k = act_org a))"
proof -
  obtain found u where found: "session_of_cookie st h s = (Inr found, u)"
    using assms(1) by (auto simp: extract_actor_def bindE_eq_Inr)
  then have u: "u = s \<or> u = tick s"
    by (auto simp: session_of_cookie_def session_resolve_def tx_eq_Inr ret_def split: option.splits)
  then have rows: "memberships u = memberships s" "pg_bypass u = pg_bypass s" "sessions u = sessions s" "api_keys u = api_keys s"
    "sha256_hex u = sha256_hex s"
    by (auto simp: sha256_hex_def fun_eq_iff)
  show ?thesis
  proof (cases found)
    case (Some ses)
    then obtain r where r: "r \<in> set (sessions s)" "session_live s r" "ses = session_of_row r"
      using found by (auto simp: session_of_cookie_def session_resolve_def tx_eq_Inr ret_def split: option.splits dest!: find_Some_iff2)
    obtain org v where org: "resolve_organization (app_parse_uuid st) h (ses_user_id ses) u = (Inr org, v)"
      and t: "t = snd (bump_activity (ses_id ses) v)"
      and a: "a = \<lparr>act_user = ses_user_id ses, act_session = ses_id ses, act_org = org\<rparr>"
      using assms(1) found Some by (auto simp: extract_actor_def bindE_eq_Inr ignoreE_def ret_def)
    have v: "memberships v = memberships s" "pg_bypass v = pg_bypass s" "sessions v = sessions s"
      using resolve_organization_rows [OF org] rows by auto
    have "\<exists>q' \<in> set (sessions s). s_id q' = s_id q \<and> s_user q' = s_user q \<and> s_mfa_satisfied q' = s_mfa_satisfied q \<and> s_revoked_at q' = s_revoked_at q"
      if "q \<in> set (sessions t)" for q
      using bump_sessions [of q "ses_id ses" v] that t v(3) by simp
    then show ?thesis using r a t v bump_rows [of "ses_id ses" v] by (auto simp: session_of_row_def)
  next
    case None
    then have "bearer_actor st h u = (Inr a, t)" using assms(1) found by (auto simp: extract_actor_def bindE_eq_Inr)
    then obtain token k where k: "extract_bearer_token h = Some token" "find (key_valid u (sha256_hex u token)) (api_keys u) = Some k"
      "a = \<lparr>act_user = the (ak_user k), act_session = nil_uuid, act_org = ak_org k\<rparr>" "ak_user k \<noteq> None"
      "memberships t = memberships u" "pg_bypass t = pg_bypass u"
      using assms(2)
      by (auto simp: bearer_actor_def header_actor_def fail_def ret_def bindE_eq_Inr resolve_api_key_def tx_eq_Inr
          split: option.splits if_splits)
    from find_Some_iff2 [OF k(2)] rows have "k \<in> set (api_keys s)" "ak_token_hash k = sha256_hex s token" "ak_revoked_at k = None"
      by (auto simp: key_valid_def)
    with k rows show ?thesis by auto
  qed
qed


definition demo_session :: "uuid \<Rightarrow> uuid \<Rightarrow> bool \<Rightarrow> session_row" where
  "demo_session i u mfa = \<lparr>s_id = i, s_user = u, s_created_at = 0, s_last_used_at = 0, s_expires_at = days 30, s_revoked_at = None,
     s_user_agent = None, s_ip_address = None, s_mfa_satisfied = mfa\<rparr>"

definition demo_org_row :: organization_row where
  "demo_org_row = \<lparr>o_id = 1, o_slug = ''acme'', o_display_name = ''Acme'', o_plan = Free, o_stripe_customer_id = None, o_created_at = 0,
     o_updated_at = 0, o_version = 1\<rparr>"

definition demo_api :: api where
  "demo_api = world.extend
     (demo_world\<lparr>pg_bypass := True, organizations := [demo_org_row], sessions := [demo_session 20 10 True, demo_session 21 11 False]\<rparr>)
     (api.fields [\<lparr>ak_id = 30, ak_org = 1, ak_user = Some 11, ak_name = ''ci'', ak_token_hash = ''kpat_ci'', ak_token_prefix = ''kpat_'',
        ak_created_at = 0, ak_last_used_at = None, ak_expires_at = None, ak_revoked_at = None\<rparr>] [] int)"

definition demo_app :: "api app_state" where
  "demo_app = \<lparr>app_runner = \<lparr>lr_secrets = pgcrypto_store secret_refs ''kek'', lr_ssh = openssh_ssh (openssh_new None),
        lr_helm = helm_cli_executor (helm_new None), lr_kubectl = kubectl_cli_executor (kubectl_new None), lr_uuid_v5 = length\<rparr>,
     app_secret_store = pgcrypto_store secret_refs ''kek'',
     app_settings = \<lparr>cset_ssh_key = ''key'', cset_user_data = '''', cset_k3s_version = ''v1.30''\<rparr>,
     app_allow_header_actor = False, app_parse_uuid = parse_nat\<rparr>"


section \<open>The life of an API key\<close>

lemma create_api_key_ok:
  assumes "create_api_key a req s = (Inr (st, v, token), t)"
  shows "\<exists>row. v = api_key_view_of row \<and> starts_with token ''kpat_'' \<and> ak_token_hash row = sha256_hex t token
    \<and> ak_user row = Some (act_user a) \<and> ak_org row = act_org a \<and> ak_revoked_at row = None
    \<and> (\<exists>rows. api_keys t = rows @ [row] \<and> (\<forall>r \<in> set rows. ak_id r \<noteq> ak_id row \<and> ak_token_hash r \<noteq> ak_token_hash row))"
  using assms
  by (auto simp: create_api_key_def insert_api_key_def generate_api_token_def new_id_def getS_def Let_def bindE_eq_Inr tx_eq_Inr
      ret_def fail_def TOKEN_PREFIX_def starts_with_def sha256_hex_def split: if_splits)

text \<open>An API key works until it is revoked: the token handed out on creation
  starts with the prefix the bearer path looks for and authenticates exactly the
  user and organization it was created for, as long as it has not expired; once
  the owner has revoked it, it authenticates no one.\<close>

theorem api_key_life:
  assumes "create_api_key a req s = (Inr (st, v, token), t)" and "\<not> db_faulty t"
    and "\<And>e. kv_expires_at v = Some e \<Longrightarrow> now t < e"
  shows "starts_with token ''kpat_''
    \<and> fst (resolve_api_key token t) = Inr (Some \<lparr>act_user = act_user a, act_session = nil_uuid, act_org = act_org a\<rparr>)
    \<and> (\<forall>u. revoke_api_key a (kv_id v) t = (Inr 204, u) \<and> \<not> db_faulty u \<longrightarrow> fst (resolve_api_key token u) = Inr None)"
proof -
  obtain row rows where row: "v = api_key_view_of row" "starts_with token ''kpat_''" "ak_token_hash row = sha256_hex t token"
      "ak_user row = Some (act_user a)" "ak_org row = act_org a" "ak_revoked_at row = None"
    and t: "api_keys t = rows @ [row]" "\<forall>r \<in> set rows. ak_id r \<noteq> ak_id row \<and> ak_token_hash r \<noteq> ak_token_hash row"
    using create_api_key_ok [OF assms(1)] by blast
  have "key_valid t (sha256_hex t token) row"
    using row assms(3) by (auto simp: key_valid_def api_key_view_of_def split: option.splits)
  moreover have "find (key_valid t (sha256_hex t token)) rows = None"
    using t(2) row(3) by (auto simp: find_None_iff_all key_valid_def)
  ultimately have "find (key_valid t (sha256_hex t token)) (api_keys t) = Some row"
    by (simp add: t(1) find_append)
  then have "fst (resolve_api_key token t) = Inr (Some \<lparr>act_user = act_user a, act_session = nil_uuid, act_org = act_org a\<rparr>)"
    using assms(2) row(4,5) by (simp add: resolve_api_key_def tx_def db_faulty_def)
  moreover have "fst (resolve_api_key token u) = Inr None" if "revoke_api_key a (kv_id v) t = (Inr 204, u)" and "\<not> db_faulty u" for u
  proof -
    let ?hit = "\<lambda>r. rls t (Some (act_org a)) (ak_org r) \<and> ak_id r = ak_id row \<and> ak_user r = Some (act_user a) \<and> ak_revoked_at r = None"
    have "?hit row" using that(1) row t
      by (auto simp: revoke_api_key_def bindE_eq_Inr tx_eq_Inr Let_def sql_count_zero api_key_view_of_def split: if_splits)
    moreover have u: "api_keys u = sql_update ?hit (\<lambda>r. r\<lparr>ak_revoked_at := Some (now t)\<rparr>) (api_keys t)" "sha256_hex u = sha256_hex t"
      using that(1) row(1)
      by (auto simp: revoke_api_key_def bindE_eq_Inr tx_eq_Inr Let_def api_key_view_of_def sha256_hex_def fun_eq_iff split: if_splits)
    moreover have "\<not> key_valid u (sha256_hex t token) r" if "r \<in> set rows" for r using that t(2) row(3) by (simp add: key_valid_def)
    moreover have "sql_update ?hit (\<lambda>r. r\<lparr>ak_revoked_at := Some (now t)\<rparr>) rows = rows" using t(2) by (intro sql_update_none) auto
    ultimately have "\<forall>r \<in> set (api_keys u). \<not> key_valid u (sha256_hex u token) r"
      by (simp add: t(1)) (simp add: key_valid_def)
    then have "find (key_valid u (sha256_hex u token)) (api_keys u) = None" by (simp only: find_None_iff_all)
    then show ?thesis using \<open>\<not> db_faulty u\<close> by (simp add: resolve_api_key_def tx_def db_faulty_def)
  qed
  ultimately show ?thesis using row(2) by blast
qed

theorem api_key_life_witness:
  "let (r, t) = create_api_key \<lparr>act_user = 10, act_session = 20, act_org = 1\<rparr> \<lparr>kr_name = '' deploy '', kr_expires_in_days = None\<rparr> demo_api
   in case r of
        Inr (st, v, token) \<Rightarrow> token = ''kpat_AAAA0''
          \<and> fst (resolve_api_key token t) = Inr (Some \<lparr>act_user = 10, act_session = nil_uuid, act_org = 1\<rparr>)
      | Inl _ \<Rightarrow> False"
proof -
  let ?a = "\<lparr>act_user = 10, act_session = 20, act_org = 1\<rparr>"
  let ?run = "create_api_key ?a \<lparr>kr_name = '' deploy '', kr_expires_in_days = None\<rparr> demo_api"
  let ?v = "\<lparr>kv_id = 100, kv_name = ''deploy'', kv_token_prefix = ''kpat_AAAA'', kv_created_at = 1000, kv_last_used_at = None, kv_expires_at = None\<rparr>"
  have "fst ?run = Inr (201, ?v, ''kpat_AAAA0'')" by code_simp
  then have run: "?run = (Inr (201, ?v, ''kpat_AAAA0''), snd ?run)" by (metis prod.collapse)
  have ok: "\<not> db_faulty (snd ?run)" by code_simp
  from api_key_life [OF run ok] show ?thesis by (subst run) (simp add: Let_def)
qed

end
