(* ===== verification/Api_Clusters.thy ===== *)
theory Api_Clusters
  imports Api_Auth
begin

text \<open>
  The handlers of \<open>api/src/clusters.rs\<close> and \<open>api/src/integrations.rs\<close>. A handler takes
  the actor its extractor produced. A task handed to \<open>tokio::spawn\<close> runs to its
  end at the point where it is spawned.
\<close>

section \<open>Views\<close>

record create_request =
  cq_name :: string
  cq_region :: string
  cq_server_type :: string
  cq_control_plane_count :: int
  cq_worker_count :: int
  cq_credential_id :: uuid

record cluster_view =
  cv_id :: uuid
  cv_name :: string
  cv_region :: string
  cv_server_type :: string
  cv_control_plane_count :: int
  cv_worker_count :: int
  cv_status :: cluster_status
  cv_current_step :: "string option"
  cv_started_at :: timestamp
  cv_error_category :: "string option"
  cv_terminal :: bool
  cv_kubeconfig_available :: bool
  cv_created_at :: timestamp
  cv_updated_at :: timestamp
  cv_agent_last_seen_at :: "timestamp option"
  cv_agent_version :: string

definition from_parts :: "cluster \<Rightarrow> string option \<Rightarrow> timestamp option \<Rightarrow> cluster_view" where
  "from_parts c step started =
     \<lparr>cv_id = c_id c, cv_name = c_name c, cv_region = c_region c, cv_server_type = c_server_type c,
      cv_control_plane_count = c_control_plane_count c, cv_worker_count = c_worker_count c, cv_status = c_status c,
      cv_current_step = step, cv_started_at = opt_or started (c_created_at c),
      cv_error_category = map_option error_category_str (error_category_of (c_status c) (c_status_reason c)),
      cv_terminal = (c_status c \<in> {Ready, Failed, Destroyed}), cv_kubeconfig_available = (c_status c = Ready),
      cv_created_at = c_created_at c, cv_updated_at = c_updated_at c, cv_agent_last_seen_at = c_agent_last_seen_at c,
      cv_agent_version = c_agent_version c\<rparr>"

definition cluster_view_of :: "cluster \<Rightarrow> cluster_view" where
  "cluster_view_of c = from_parts c None None"

record addon_view =
  av_id :: uuid
  av_addon :: string
  av_version :: string
  av_helm_release :: string
  av_status :: addon_status
  av_status_reason :: "string option"
  av_created_at :: timestamp
  av_updated_at :: timestamp

definition addon_view_of :: "cluster_addon \<Rightarrow> addon_view" where
  "addon_view_of a =
     \<lparr>av_id = ad_id a, av_addon = ad_addon a, av_version = ad_version a, av_helm_release = ad_helm_release a,
      av_status = ad_status a, av_status_reason = ad_status_reason a, av_created_at = ad_created_at a,
      av_updated_at = ad_updated_at a\<rparr>"

text \<open>The JSON codecs of the create handler.\<close>

record 's cluster_app = "'s app_state" +
  ca_parse_create :: "string \<Rightarrow> string + create_request"
  ca_view_json :: "cluster_view \<Rightarrow> string"

section \<open>Idempotency keys\<close>

definition IDEMPOTENCY_HEADER :: string where
  "IDEMPOTENCY_HEADER = ''idempotency-key''"

definition IDEMPOTENCY_TTL :: int where
  "IDEMPOTENCY_TTL = days 1"

definition idem_row :: "'z cluster_db_scheme \<Rightarrow> uuid \<Rightarrow> string \<Rightarrow> idempotency_row \<Rightarrow> bool" where
  "idem_row s org key r \<longleftrightarrow> rls s (Some org) (ik_org r) \<and> ik_org r = org \<and> ik_key r = key"

definition lookup_idempotency ::
    "uuid \<Rightarrow> string \<Rightarrow> string \<Rightarrow> ('z api_scheme, platform_error, (int \<times> string) option) op" where
  "lookup_idempotency org key body_hash =
     bindE (tx Database (\<lambda>s. (Inr (find (idem_row s org key) (idempotency_keys s)), s))) (\<lambda>row s.
     case row of
       None \<Rightarrow> (Inr None, s)
     | Some r \<Rightarrow>
         if ik_expires_at r < now s then (Inr None, s)
         else if ik_request_hash r \<noteq> body_hash
         then (Inl (Conflict ''Idempotency-Key reused with a different request body''), s)
         else (Inr (Some (ik_status r, ik_body r)), s))"

text \<open>\<open>i16::try_from(status).unwrap_or(0)\<close>; the primary key is (organization, key).\<close>

definition store_idempotency ::
    "uuid \<Rightarrow> string \<Rightarrow> string \<Rightarrow> nat \<Rightarrow> string \<Rightarrow> uuid option \<Rightarrow> ('z api_scheme, platform_error, unit) op" where
  "store_idempotency org key body_hash status body resource =
     tx Database (\<lambda>s.
       if (\<exists>r \<in> set (idempotency_keys s). ik_org r = org \<and> ik_key r = key) then (Inr (), s)
       else (Inr (), s\<lparr>idempotency_keys := idempotency_keys s @
              [\<lparr>ik_org = org, ik_key = key, ik_request_hash = body_hash,
                ik_status = (if status \<le> 32767 then int status else 0), ik_body = body, ik_resource_id = resource,
                ik_expires_at = now s + IDEMPOTENCY_TTL\<rparr>]\<rparr>))"

text \<open>\<open>StatusCode::from_u16(u16::try_from(..).unwrap_or(200)).unwrap_or(OK)\<close>.\<close>

definition cached_status :: "int \<Rightarrow> nat" where
  "cached_status i =
     (let n = if 0 \<le> i \<and> i \<le> 65535 then nat i else 200 in if 100 \<le> n \<and> n \<le> 999 then n else 200)"

section \<open>Create, read, list, destroy\<close>

definition client_of :: "'z api_scheme app_state \<Rightarrow> hetzner_credential \<Rightarrow> 'z api_scheme hetzner_provider" where
  "client_of st cred = hetzner_client (app_secret_store st) (hc_secret_ref cred)"

definition provision_input :: "cluster_settings \<Rightarrow> cluster \<Rightarrow> provision_cluster_input" where
  "provision_input cs c =
     \<lparr>pi_cluster_id = c_id c, pi_cluster_name = c_name c, pi_location = c_region c, pi_server_type = c_server_type c,
      pi_worker_count = nat (max (c_worker_count c) 0), pi_ssh_key = cset_ssh_key cs, pi_user_data = cset_user_data cs,
      pi_k3s_version = cset_k3s_version cs\<rparr>"

definition new_cluster_of :: "create_request \<Rightarrow> new_cluster" where
  "new_cluster_of req =
     \<lparr>nc_name = cq_name req, nc_region = cq_region req, nc_server_type = cq_server_type req,
      nc_control_plane_count = cq_control_plane_count req, nc_worker_count = cq_worker_count req,
      nc_credential_id = cq_credential_id req\<rparr>"

definition create_fresh ::
    "'z api_scheme app_state \<Rightarrow> actor \<Rightarrow> headers \<Rightarrow> create_request \<Rightarrow> ('z api_scheme, api_error, cluster) op" where
  "create_fresh st a h req =
     bindE (map_err Problem (cluster_create (act_org a) (new_cluster_of req) (from_actor_and_headers a h))) (\<lambda>cluster.
     bindE (map_err Problem (hcs_get (act_org a) (cq_credential_id req))) (\<lambda>credential.
     bindE (liftS (spawn_provision (app_runner st) (act_org a) (client_of st credential)
       (provision_input (app_settings st) cluster))) (\<lambda>_.
     ret cluster)))"

definition clusters_create ::
    "'z api_scheme cluster_app \<Rightarrow> owner_actor \<Rightarrow> headers \<Rightarrow> string \<Rightarrow> ('z api_scheme, api_error, nat \<times> string) op" where
  "clusters_create st owner h body =
     (let a = own_inner owner; key = header_str h IDEMPOTENCY_HEADER in
      bindE (of_sum (\<lambda>e. Problem (Invalid (''invalid JSON body: '' @ e))) (ca_parse_create st body)) (\<lambda>req.
      bindE (getS (\<lambda>s. sha256_hex s body)) (\<lambda>body_hash.
      bindE (case key of
               None \<Rightarrow> ret None
             | Some k \<Rightarrow> map_err Problem (lookup_idempotency (act_org a) k body_hash)) (\<lambda>cached.
      case cached of
        Some (status, response) \<Rightarrow> ret (cached_status status, response)
      | None \<Rightarrow>
          bindE (create_fresh (app_state.truncate st) a h req) (\<lambda>cluster.
          let response_body = ca_view_json st (cluster_view_of cluster) in
          bindE (case key of
                   None \<Rightarrow> ret ()
                 | Some k \<Rightarrow> map_err Problem (store_idempotency (act_org a) k body_hash 202 response_body (Some (c_id cluster)))) (\<lambda>_.
          ret (202, response_body)))))))"

definition clusters_read :: "actor \<Rightarrow> uuid \<Rightarrow> ('z api_scheme, api_error, cluster_view) op" where
  "clusters_read a i =
     bindE (map_err Problem (service_get (act_org a) i)) (\<lambda>cluster.
     bindE (tx (\<lambda>e. Problem (Database e)) (\<lambda>s.
       (Inr (case order_desc pw_started_at (filter (\<lambda>w. rls s (Some (act_org a)) (pw_org w) \<and> pw_cluster w = i) (workflow_rows s)) of
               [] \<Rightarrow> (None, None)
             | w # _ \<Rightarrow> (Some (pw_step w), Some (pw_started_at w))), s))) (\<lambda>(step, started).
     ret (from_parts cluster step started)))"

definition clusters_list :: "actor \<Rightarrow> ('z api_scheme, api_error, cluster_view list) op" where
  "clusters_list a = bindE (map_err Problem (service_list (act_org a))) (\<lambda>rows. ret (map cluster_view_of rows))"

definition clusters_destroy ::
    "'z api_scheme app_state \<Rightarrow> owner_actor \<Rightarrow> uuid \<Rightarrow> ('z api_scheme, api_error, nat) op" where
  "clusters_destroy st owner i =
     (let a = own_inner owner in
      bindE (map_err Problem (service_get (act_org a) i)) (\<lambda>cluster.
      bindE (map_err Problem (hcs_get (act_org a) (c_credential_id cluster))) (\<lambda>credential.
      bindE (liftS (spawn_destroy (app_runner st) (act_org a) (client_of st credential) i)) (\<lambda>_.
      ret 202))))"

section \<open>Kubeconfig download\<close>

definition record_kubeconfig_audit ::
    "actor \<Rightarrow> headers \<Rightarrow> uuid \<Rightarrow> ('z api_scheme, platform_error, unit) op" where
  "record_kubeconfig_audit a h i =
     tx Database (\<lambda>s. bindE (append_explicit (from_actor_and_headers a h) (act_org a) ''kubeconfig.retrieved'' ''cluster''
       (Some (pg_uuid_text s i)) ''allowed'' ''{}'') (\<lambda>_. ret ()) s)"

record file_response =
  fr_status :: nat
  fr_headers :: "(string \<times> string) list"
  fr_body :: string

definition download_kubeconfig ::
    "'z api_scheme app_state \<Rightarrow> actor \<Rightarrow> headers \<Rightarrow> uuid \<Rightarrow> ('z api_scheme, api_error, file_response) op" where
  "download_kubeconfig st a h i =
     bindE (rate_check (act_user a)) (\<lambda>admitted.
     if \<not> admitted then fail (Problem (Forbidden ''kubeconfig downloads are rate-limited to 5 per minute''))
     else
       bindE (map_err Problem (fetch_kubeconfig (lr_secrets (app_runner st)) (act_org a) i)) (\<lambda>kubeconfig.
       bindE (map_err Problem (record_kubeconfig_audit a h i)) (\<lambda>_.
       bindE (getS (\<lambda>s. ''kubinate-'' @ pg_uuid_text s i @ ''.yaml'')) (\<lambda>filename.
       ret \<lparr>fr_status = 200,
            fr_headers = [(''content-type'', ''application/yaml''),
              (''content-disposition'', ''attachment; filename='' @ [CHR 0x22] @ filename @ [CHR 0x22]),
              (''cache-control'', ''no-store, max-age=0'')],
            fr_body = kubeconfig\<rparr>))))"

section \<open>Addons\<close>

text \<open>Staging the kubeconfig for a Helm run.\<close>

definition stage_kubeconfig :: "string \<Rightarrow> ('z api_scheme, api_error, string) op" where
  "stage_kubeconfig kubeconfig =
     bindE new_id (\<lambda>fid.
     bindE (getS (\<lambda>s. temp_dir s @ ''/kubinate-kc-'' @ pg_uuid_text s fid @ ''.yaml'')) (\<lambda>path.
     bindE (map_err (\<lambda>e. Problem (Internal (''stage kubeconfig: '' @ e))) (write_file path kubeconfig)) (\<lambda>_.
     ret path)))"

definition install_params_of :: "cluster_addon \<Rightarrow> addon_spec \<Rightarrow> install_params" where
  "install_params_of row spec =
     \<lparr>ip_release = ad_helm_release row, ip_chart = chart_name spec, ip_repo = chart_repo spec, ip_version = ad_version row,
      ip_namespace = namespace spec, ip_values_yaml = default_values_yaml spec\<rparr>"

definition handle_install_addon ::
    "'z api_scheme app_state \<Rightarrow> owner_actor \<Rightarrow> headers \<Rightarrow> uuid \<Rightarrow> new_addon \<Rightarrow> ('z api_scheme, api_error, nat \<times> addon_view) op" where
  "handle_install_addon st owner h cid req =
     (let a = own_inner owner in
      bindE (map_err Problem (service_get (act_org a) cid)) (\<lambda>cluster.
      if c_status cluster \<noteq> Ready then fail (Problem (Conflict ''cluster must be Ready before installing addons''))
      else
        bindE (map_err Problem (request_install (act_org a) cid req (from_actor_and_headers a h))) (\<lambda>row.
        bindE (map_err Problem (fetch_kubeconfig (lr_secrets (app_runner st)) (act_org a) cid)) (\<lambda>kubeconfig.
        bindE (stage_kubeconfig kubeconfig) (\<lambda>path.
        bindE (of_sum Problem (catalog_lookup (ad_addon row))) (\<lambda>spec.
        bindE (liftS (spawn_install_addon (app_runner st) (act_org a) (ad_id row) (install_params_of row spec) path)) (\<lambda>_.
        ret (202, addon_view_of row))))))))"

definition handle_list_addons :: "actor \<Rightarrow> uuid \<Rightarrow> ('z api_scheme, api_error, addon_view list) op" where
  "handle_list_addons a cid =
     bindE (map_err Problem (service_list_for_cluster (act_org a) cid)) (\<lambda>rows. ret (map addon_view_of rows))"

definition addon_status_debug :: "addon_status \<Rightarrow> string" where
  "addon_status_debug st =
     (case st of AddonPending \<Rightarrow> ''Pending'' | AddonInstalling \<Rightarrow> ''Installing'' | AddonReady \<Rightarrow> ''Ready'' | AddonFailed \<Rightarrow> ''Failed''
      | AddonUninstalling \<Rightarrow> ''Uninstalling'' | AddonUninstalled \<Rightarrow> ''Uninstalled'')"

definition handle_uninstall_addon ::
    "'z api_scheme app_state \<Rightarrow> owner_actor \<Rightarrow> headers \<Rightarrow> uuid \<Rightarrow> uuid \<Rightarrow> ('z api_scheme, api_error, nat \<times> addon_view) op" where
  "handle_uninstall_addon st owner h cid aid =
     (let a = own_inner owner; missing = (\<lambda>s. (Inl (Problem (NotFound (''addon/'' @ pg_uuid_text s aid))), s)) in
      bindE (map_err Problem (service_get_by_id (act_org a) aid)) (\<lambda>found.
      case found of
        None \<Rightarrow> missing
      | Some addon \<Rightarrow>
          if ad_cluster_id addon \<noteq> cid then missing
          else if ad_status addon \<notin> {AddonReady, AddonFailed}
          then fail (Problem (Conflict (''addon must be ready or failed to uninstall (current: ''
                 @ addon_status_debug (ad_status addon) @ '')'')))
          else
            bindE (map_err Problem (service_update_status (act_org a) aid AddonUninstalling None (from_actor_and_headers a h))) (\<lambda>_.
            bindE (of_sum Problem (catalog_lookup (ad_addon addon))) (\<lambda>spec.
            bindE (map_err Problem (fetch_kubeconfig (lr_secrets (app_runner st)) (act_org a) cid)) (\<lambda>kubeconfig.
            bindE (stage_kubeconfig kubeconfig) (\<lambda>path.
            bindE (liftS (spawn_uninstall_addon (app_runner st) (act_org a) aid (ad_helm_release addon) (namespace spec) path)) (\<lambda>_.
            ret (202, (addon_view_of addon)\<lparr>av_status := AddonUninstalling\<rparr>))))))))"

section \<open>Scaling\<close>

definition MIN_WORKER_COUNT :: int where "MIN_WORKER_COUNT = 1"

definition MAX_WORKER_COUNT :: int where "MAX_WORKER_COUNT = 10"

text \<open>\<open>i16::saturating_add\<close>.\<close>

definition saturating_add16 :: "int \<Rightarrow> int \<Rightarrow> int" where
  "saturating_add16 x y = max (- 32768) (min 32767 (x + y))"

definition scale_args_of :: "cluster_settings \<Rightarrow> cluster \<Rightarrow> nat \<Rightarrow> scale_out_args" where
  "scale_args_of cs c n =
     \<lparr>sa_count = n, sa_cluster_name = c_name c, sa_location = c_region c, sa_server_type = c_server_type c,
      sa_ssh_key = cset_ssh_key cs, sa_user_data = cset_user_data cs, sa_k3s_version = cset_k3s_version cs\<rparr>"

definition scale_workers ::
    "'z api_scheme app_state \<Rightarrow> owner_actor \<Rightarrow> headers \<Rightarrow> uuid \<Rightarrow> int \<Rightarrow> ('z api_scheme, api_error, nat \<times> cluster_view) op" where
  "scale_workers st owner h cid delta =
     (let a = own_inner owner in
      bindE (map_err Problem (service_get (act_org a) cid)) (\<lambda>cluster.
      if c_status cluster \<noteq> Ready then fail (Problem (Conflict ''cluster must be Ready to scale''))
      else if delta = 0 then ret (200, cluster_view_of cluster)
      else
        let new_count = saturating_add16 (c_worker_count cluster) delta in
        if \<not> (MIN_WORKER_COUNT \<le> new_count \<and> new_count \<le> MAX_WORKER_COUNT)
        then fail (Problem (Invalid (''worker_count must stay between '' @ show_int MIN_WORKER_COUNT @ '' and ''
               @ show_int MAX_WORKER_COUNT @ '' (current '' @ show_int (c_worker_count cluster) @ '' + delta ''
               @ show_int delta @ '' = '' @ show_int new_count @ '')'')))
        else
          bindE (map_err Problem (hcs_get (act_org a) (c_credential_id cluster))) (\<lambda>credential.
          bindE (map_err Problem (update_worker_count (act_org a) cid new_count (from_actor_and_headers a h))) (\<lambda>_.
          bindE (liftS (if delta > 0
                        then spawn_scale_out (app_runner st) (act_org a) (client_of st credential) cid
                               (scale_args_of (app_settings st) cluster (nat delta))
                        else spawn_scale_in (app_runner st) (act_org a) (client_of st credential) cid
                               (c_name cluster) (nat (- delta)))) (\<lambda>_.
          ret (202, (cluster_view_of cluster)\<lparr>cv_worker_count := new_count, cv_status := Scaling, cv_terminal := False\<rparr>))))))"

section \<open>The event stream\<close>

text \<open>What a receiver of the broadcast channel yields: an event, or the notice that
  it fell behind.\<close>

datatype stream_item = Received cluster_event | Lagged nat

datatype sse = SseConnected | SseStep cluster_event | SseTerminal cluster_event

definition unlag :: "stream_item \<Rightarrow> cluster_event" where
  "unlag x = (case x of Received e \<Rightarrow> e | Lagged _ \<Rightarrow> StepEvent ''__lagged__'')"

definition is_terminal :: "cluster_event \<Rightarrow> bool" where
  "is_terminal e = (case e of TerminalEvent _ _ \<Rightarrow> True | _ \<Rightarrow> False)"

text \<open>\<open>take_while\<close> with the flag \<open>terminal_seen\<close>.\<close>

fun limited :: "bool \<Rightarrow> cluster_event list \<Rightarrow> cluster_event list" where
  "limited seen [] = []"
| "limited seen (e # es) = (if seen then [] else e # limited (is_terminal e) es)"

definition sse_of :: "cluster_event \<Rightarrow> sse" where
  "sse_of e = (if is_terminal e then SseTerminal e else SseStep e)"

definition event_stream :: "stream_item list \<Rightarrow> sse list" where
  "event_stream items = SseConnected # map sse_of (limited False (map unlag items))"

definition stream_events :: "actor \<Rightarrow> uuid \<Rightarrow> ('z api_scheme, api_error, stream_item list \<Rightarrow> sse list) op" where
  "stream_events a cid = bindE (map_err Problem (service_get (act_org a) cid)) (\<lambda>_. ret event_stream)"

record catalog_response =
  ct_regions :: "string list"
  ct_server_types :: "string list"
  ct_addons :: "string list"

definition catalog :: catalog_response where
  "catalog = \<lparr>ct_regions = ALLOWED_REGIONS, ct_server_types = ALLOWED_SERVER_TYPES, ct_addons = slugs\<rparr>"

section \<open>Hetzner credentials (\<open>integrations.rs\<close>)\<close>

record credential_view =
  dv_id :: uuid
  dv_alias :: string
  dv_created_at :: timestamp
  dv_updated_at :: timestamp

definition credential_view_of :: "hetzner_credential \<Rightarrow> credential_view" where
  "credential_view_of c = \<lparr>dv_id = hc_id c, dv_alias = hc_alias c, dv_created_at = hc_created_at c, dv_updated_at = hc_updated_at c\<rparr>"

definition credentials_create ::
    "'z api_scheme app_state \<Rightarrow> owner_actor \<Rightarrow> headers \<Rightarrow> string \<Rightarrow> string \<Rightarrow> ('z api_scheme, api_error, nat \<times> credential_view) op" where
  "credentials_create st owner h name token =
     (let a = own_inner owner in
      if trim name = [] then fail (Problem (Invalid ''alias must not be empty''))
      else if trim token = [] then fail (Problem (Invalid ''token must not be empty''))
      else bindE (map_err Problem (hcs_create (app_secret_store st) (act_org a) name token (from_actor_and_headers a h))) (\<lambda>c.
           ret (201, credential_view_of c)))"

definition credentials_list :: "actor \<Rightarrow> ('z api_scheme, api_error, credential_view list) op" where
  "credentials_list a = bindE (map_err Problem (hcs_list (act_org a))) (\<lambda>rows. ret (map credential_view_of rows))"

definition credentials_remove ::
    "'z api_scheme app_state \<Rightarrow> owner_actor \<Rightarrow> headers \<Rightarrow> uuid \<Rightarrow> ('z api_scheme, api_error, nat) op" where
  "credentials_remove st owner h i =
     (let a = own_inner owner in
      bindE (map_err Problem (hcs_delete (app_secret_store st) (act_org a) i (from_actor_and_headers a h))) (\<lambda>_. ret 204))"

end
