(* ===== verification/Api_Create.thy ===== *)
theory Api_Create
  imports Runs Api_Clusters
begin

text \<open>
  Creating a cluster through the API: what the \<open>Idempotency-Key\<close> header guarantees
  (\<open>create\<close>, \<open>lookup_idempotency\<close> and \<open>store_idempotency\<close> in \<open>api/src/clusters.rs\<close>), what
  is left behind when the credential belongs to another tenant, and the event
  stream of a cluster.
\<close>

section \<open>The stored keys during a create\<close>

lemma idem_create: "keeps (\<lambda>s. idempotency_keys s = ks) (cluster_create org new ctx)"
  unfolding cluster_create_def cluster_insert_def
  by (intro keeps_intros keeps_of_sum keeps_tx) (auto simp: Let_def split: if_splits)

lemma idem_credential: "keeps (\<lambda>s. idempotency_keys s = ks) (hcs_get org i)"
  by (auto simp: keeps_def hcs_get_def cred_get_def bindE_def tx_def split: option.split)

lemma idem_of_outer:
  fixes m :: "('z world_scheme, 'e, 'a) op"
  assumes "\<And>w. keeps (\<lambda>s. outer s = w) m"
  shows "keeps (\<lambda>s. idempotency_keys s = ks) m"
  by (rule keeps_via [OF assms]) (simp add: outer_def)

lemma calm_idem: "calm (\<lambda>s. idempotency_keys s = ks)"
  by (simp add: calm_def)

lemma idem_progress: "idempotency_keys s = ks \<Longrightarrow> idempotency_keys (sink_step (workflow_progress org wid cid) x s) = ks"
  using keepsD [OF idem_of_outer [OF row_ops_outer(3), of ks], of s] by (simp add: workflow_progress_def publish_def)

context framed_secrets
begin

lemma idem_provision_cluster:
  assumes "lr_ssh lr = openssh_ssh cfg"
  shows "keeps (\<lambda>s. idempotency_keys s = ks) (\<lambda>s. provision_cluster (world_runtime lr s)
         \<lparr>pd_hetzner = hetzner_client store handle, pd_ssh = lr_ssh lr, pd_progress = workflow_progress org wid cid\<rparr> input s)"
proof (rule keepsI)
  fix s :: "'a world_scheme"
  assume "idempotency_keys s = ks"
  then show "idempotency_keys (snd (provision_cluster (world_runtime lr s)
         \<lparr>pd_hetzner = hetzner_client store handle, pd_ssh = lr_ssh lr, pd_progress = workflow_progress org wid cid\<rparr> input s)) = ks"
    by (intro keepsD [where P = "\<lambda>s. idempotency_keys s = ks"] keeps_provision_cluster)
      (simp_all add: calm_client calm_idem calm_ssh assms calm_runtime [OF calm_idem] idem_progress)
qed

lemma idem_run_provision:
  assumes "lr_secrets lr = store" and "lr_ssh lr = openssh_ssh cfg"
  shows "keeps (\<lambda>s. idempotency_keys s = ks) (run_provision lr org (hetzner_client store handle) input)"
proof -
  have pub: "idempotency_keys (publish_terminal cid st reason s) = ks" if "idempotency_keys s = ks" for cid st reason and s :: "'a world_scheme"
    by (rule calm_terminal [OF calm_idem that])
  have failed: "keeps (\<lambda>s :: 'a world_scheme. idempotency_keys s = ks) (provision_failed org cid wid audit err)" for cid wid audit err
    unfolding provision_failed_def Let_def
    by (intro keeps_intros keeps_liftS pub idem_of_outer row_ops_outer repo_outer)
  have succeeded: "keeps (\<lambda>s. idempotency_keys s = ks) (provision_succeeded lr org cid wid audit out)" for cid wid audit out
    unfolding provision_succeeded_def assms(1)
    by (intro keeps_intros keeps_liftS pub idem_of_outer row_ops_outer repo_outer record_servers_outer store_kubeconfig_outer)
  have rows: "keeps (\<lambda>s :: 'a world_scheme. idempotency_keys s = ks) (update_status org cid st reason audit)"
    "keeps (\<lambda>s :: 'a world_scheme. idempotency_keys s = ks) (insert_workflow_row wid org cid)" for cid st reason audit wid
    by (intro idem_of_outer row_ops_outer repo_outer)+
  show ?thesis
    unfolding run_provision_def
    by (intro keeps_intros rows failed succeeded idem_provision_cluster [OF assms(2)]) simp_all
qed

end

section \<open>Replaying a create\<close>

lemma store_idempotency_fresh:
  assumes "store_idempotency org k bh st body res s = (Inr (), t)"
    and "\<forall>r \<in> set (idempotency_keys s). \<not> (ik_org r = org \<and> ik_key r = k)" and "st \<le> 32767"
  shows "\<exists>r. idempotency_keys t = idempotency_keys s @ [r] \<and> ik_org r = org \<and> ik_key r = k \<and> ik_request_hash r = bh
    \<and> ik_status r = int st \<and> ik_body r = body"
  using assms by (auto simp: store_idempotency_def tx_eq_Inr split: if_splits)

lemma store_idempotency_taken:
  assumes "store_idempotency org k bh st body res s = (Inr (), t)"
    and "\<exists>r \<in> set (idempotency_keys s). ik_org r = org \<and> ik_key r = k"
  shows "idempotency_keys t = idempotency_keys s"
  using assms by (auto simp: store_idempotency_def tx_eq_Inr split: if_splits)

text \<open>What an accepted create leaves in the key table: the keys it found, and then
  the insert of its own key.\<close>

lemma create_fresh_idem:
  assumes "create_fresh st a h req s = (Inr c, t)"
    and "lr_secrets (app_runner st) = pgcrypto_store secret_refs kek" and "app_secret_store st = pgcrypto_store secret_refs kek"
    and "lr_ssh (app_runner st) = openssh_ssh cfg"
  shows "idempotency_keys t = idempotency_keys s"
proof -
  have spawn: "idempotency_keys (spawn_provision (app_runner st) (act_org a) (client_of st cred) input u) = ks"
    if "idempotency_keys u = ks" for cred input ks and u :: "'a api_scheme"
    unfolding spawn_provision_def client_of_def assms(3)
    by (rule keepsD [OF pgq.idem_run_provision [OF assms(2,4)] that])
  have "keeps (\<lambda>u. idempotency_keys u = idempotency_keys s) (create_fresh st a h req)"
    unfolding create_fresh_def by (intro keeps_intros keeps_liftS idem_create idem_credential spawn)
  from keeps_run [OF this refl assms(1)] show ?thesis .
qed

lemma lookup_hit:
  assumes "find (idem_row s org k) (idempotency_keys s) = Some r" and "\<not> db_faulty s" and "now (tick s) \<le> ik_expires_at r"
  shows "lookup_idempotency org k bh s =
    (if ik_request_hash r = bh then (Inr (Some (ik_status r, ik_body r)), tick s)
     else (Inl (Conflict ''Idempotency-Key reused with a different request body''), tick s))"
  using assms by (simp add: lookup_idempotency_def bindE_def tx_def db_faulty_def)

lemma bind_pure:
  "bindE (of_sum e (Inr x)) k s = k x s" "bindE (of_sum e (Inl y)) k s = (Inl (e y), s)" "bindE (getS f) k s = k (f s) s"
  by (simp_all add: bindE_def of_sum_def getS_def)

lemma bind_map_err: "bindE (map_err f m) k s = (case m s of (Inr a, t) \<Rightarrow> k a t | (Inl e, t) \<Rightarrow> (Inl (f e), t))"
  by (simp add: bindE_def map_err_def split: prod.split sum.split)

lemma create_steps:
  assumes run: "clusters_create st owner h body s = (Inr (code, resp), t)" and key: "header_str h IDEMPOTENCY_HEADER = Some k"
    and miss: "lookup_idempotency (act_org (own_inner owner)) k (sha256_hex s body) s = (Inr None, v)"
  shows "\<exists>req c u. ca_parse_create st body = Inr req
    \<and> create_fresh (app_state.truncate st) (own_inner owner) h req v = (Inr c, u)
    \<and> code = 202 \<and> resp = ca_view_json st (cluster_view_of c)
    \<and> store_idempotency (act_org (own_inner owner)) k (sha256_hex s body) 202 resp (Some (c_id c)) u = (Inr (), t)"
proof -
  obtain req where parse: "ca_parse_create st body = Inr req"
    using run by (cases "ca_parse_create st body") (simp_all add: clusters_create_def Let_def of_sum_def bindE_def)
  have "clusters_create st owner h body s
      = bindE (create_fresh (app_state.truncate st) (own_inner owner) h req) (\<lambda>c.
          bindE (map_err Problem (store_idempotency (act_org (own_inner owner)) k (sha256_hex s body) 202
            (ca_view_json st (cluster_view_of c)) (Some (c_id c)))) (\<lambda>_. ret (202, ca_view_json st (cluster_view_of c)))) v"
    by (simp add: clusters_create_def Let_def key parse bind_pure bind_map_err miss)
  with run parse show ?thesis by (auto simp: bindE_eq_Inr map_err_eq_Inr ret_def)
qed

lemma lookup_miss:
  assumes "\<not> db_faulty s"
    and "\<forall>r \<in> set (idempotency_keys s). ik_org r = org \<and> ik_key r = k \<longrightarrow> ik_expires_at r < now (tick s)"
  shows "lookup_idempotency org k bh s = (Inr None, tick s)"
proof (cases "find (idem_row s org k) (idempotency_keys s)")
  case None
  with assms(1) show ?thesis by (simp add: lookup_idempotency_def bindE_def tx_def db_faulty_def)
next
  case (Some r)
  then have "r \<in> set (idempotency_keys s)" "idem_row s org k r" by (auto dest: find_Some_iff2)
  then have "ik_expires_at r < now (tick s)" using assms(2) by (simp add: idem_row_def)
  with Some assms(1) show ?thesis by (simp add: lookup_idempotency_def bindE_def tx_def db_faulty_def)
qed

lemma create_not_faulty:
  assumes "clusters_create st owner h body s = (Inr x, t)" and "header_str h IDEMPOTENCY_HEADER = Some k"
  shows "\<not> db_faulty s"
proof
  assume "db_faulty s"
  then have "lookup_idempotency org k bh s = (Inl (Database SqlxConnection), tick s)" for org bh
    by (simp add: lookup_idempotency_def tx_def db_faulty_def bindE_def)
  from assms this show False
    by (cases "ca_parse_create st body") (simp_all add: clusters_create_def Let_def bind_pure bind_map_err)
qed

text \<open>(C8) A create request that was accepted under an idempotency key not in use
  before can be repeated: while the stored row has not expired, the same body
  under the same key is answered with the very same response and starts nothing
  (the only effect is one read transaction), and a body with another digest under
  that key is refused as a conflict, again without effect.\<close>

theorem create_is_idempotent:
  assumes run: "clusters_create st owner h body s = (Inr (code, resp), t)" and key: "header_str h IDEMPOTENCY_HEADER = Some k"
    and fresh: "\<forall>r \<in> set (idempotency_keys s). \<not> (ik_org r = act_org (own_inner owner) \<and> ik_key r = k)"
    and stores: "lr_secrets (app_runner st) = pgcrypto_store secret_refs kek" "app_secret_store st = pgcrypto_store secret_refs kek"
      "lr_ssh (app_runner st) = openssh_ssh cfg"
    and later: "idempotency_keys u = idempotency_keys t" "sha256_hex u body = sha256_hex s body" "\<not> db_faulty u"
      "\<forall>r \<in> set (idempotency_keys u). ik_key r = k \<longrightarrow> now (tick u) \<le> ik_expires_at r"
  shows "code = 202 \<and> clusters_create st owner h body u = (Inr (202, resp), tick u)
    \<and> (\<forall>body' req. ca_parse_create st body' = Inr req \<and> sha256_hex u body' \<noteq> sha256_hex u body \<longrightarrow>
        clusters_create st owner h body' u
          = (Inl (Problem (Conflict ''Idempotency-Key reused with a different request body'')), tick u))"
proof -
  let ?org = "act_org (own_inner owner)"
  have miss: "lookup_idempotency ?org k (sha256_hex s body) s = (Inr None, tick s)"
    using create_not_faulty [OF run key] fresh by (intro lookup_miss) auto
  obtain req c v where parse: "ca_parse_create st body = Inr req"
    and new: "create_fresh (app_state.truncate st) (own_inner owner) h req (tick s) = (Inr c, v)"
    and code: "code = 202" and put: "store_idempotency ?org k (sha256_hex s body) 202 resp (Some (c_id c)) v = (Inr (), t)"
    using create_steps [OF run key miss] by blast
  have v: "idempotency_keys v = idempotency_keys s"
    using create_fresh_idem [OF new] stores by (simp add: app_state.defs)
  then obtain r where t: "idempotency_keys t = idempotency_keys s @ [r]"
    and r: "ik_org r = ?org" "ik_key r = k" "ik_request_hash r = sha256_hex s body" "ik_status r = 202" "ik_body r = resp"
    using store_idempotency_fresh [OF put] fresh by auto
  have "find (idem_row u ?org k) (idempotency_keys s) = None" using fresh by (auto simp: find_None_iff_all idem_row_def)
  then have hit: "find (idem_row u ?org k) (idempotency_keys u) = Some r"
    using r(1,2) by (simp add: later(1) t find_append idem_row_def rls_def app_current_tenant_id_def)
  have live: "now (tick u) \<le> ik_expires_at r" using later(1,4) t r(2) by auto
  have same: "lookup_idempotency ?org k (sha256_hex u body) u = (Inr (Some (202, resp)), tick u)"
    using lookup_hit [OF hit later(3) live] r later(2) by simp
  have "clusters_create st owner h body u = (Inr (202, resp), tick u)"
    by (simp add: clusters_create_def Let_def key parse bind_pure bind_map_err same
        ret_def cached_status_def)
  moreover have "clusters_create st owner h body' u
      = (Inl (Problem (Conflict ''Idempotency-Key reused with a different request body'')), tick u)"
    if "ca_parse_create st body' = Inr req'" and "sha256_hex u body' \<noteq> sha256_hex u body" for body' req'
  proof -
    have "lookup_idempotency ?org k (sha256_hex u body') u
        = (Inl (Conflict ''Idempotency-Key reused with a different request body''), tick u)"
      using lookup_hit [OF hit later(3) live] r later(2) that(2) by simp
    then show ?thesis
      by (simp add: clusters_create_def Let_def key that(1) bind_pure bind_map_err)
  qed
  ultimately show ?thesis using code by blast
qed

text \<open>A key whose row has expired is never armed again: a create under it is
  carried out, the table of keys stays as it was, and from then on every further
  request under the key is carried out too, however often it is repeated.\<close>

theorem expired_key_stays_expired:
  fixes s t :: "'z api_scheme"
  assumes run: "clusters_create st owner h body s = (Inr (code, resp), t)" and key: "header_str h IDEMPOTENCY_HEADER = Some k"
    and expired: "\<exists>r \<in> set (idempotency_keys s). ik_org r = act_org (own_inner owner) \<and> ik_key r = k"
      "\<forall>r \<in> set (idempotency_keys s). ik_org r = act_org (own_inner owner) \<and> ik_key r = k \<longrightarrow> ik_expires_at r < now (tick s)"
    and stores: "lr_secrets (app_runner st) = pgcrypto_store secret_refs kek" "app_secret_store st = pgcrypto_store secret_refs kek"
      "lr_ssh (app_runner st) = openssh_ssh cfg"
  shows "code = 202 \<and> idempotency_keys t = idempotency_keys s
    \<and> (\<forall>(u :: 'z api_scheme) bh. idempotency_keys u = idempotency_keys t \<and> now (tick s) \<le> now (tick u) \<and> \<not> db_faulty u \<longrightarrow>
        lookup_idempotency (act_org (own_inner owner)) k bh u = (Inr None, tick u))"
proof -
  let ?org = "act_org (own_inner owner)"
  have miss: "lookup_idempotency ?org k (sha256_hex s body) s = (Inr None, tick s)"
    using create_not_faulty [OF run key] expired(2) by (intro lookup_miss)
  obtain req c v where new: "create_fresh (app_state.truncate st) (own_inner owner) h req (tick s) = (Inr c, v)"
    and code: "code = 202" and put: "store_idempotency ?org k (sha256_hex s body) 202 resp (Some (c_id c)) v = (Inr (), t)"
    using create_steps [OF run key miss] by blast
  have v: "idempotency_keys v = idempotency_keys s"
    using create_fresh_idem [OF new] stores by (simp add: app_state.defs)
  have t: "idempotency_keys t = idempotency_keys s"
    using store_idempotency_taken [OF put] v expired(1) by simp
  have "lookup_idempotency ?org k bh u = (Inr None, tick u)"
    if "idempotency_keys u = idempotency_keys t" "now (tick s) \<le> now (tick u)" "\<not> db_faulty u" for bh and u :: "'z api_scheme"
  proof (rule lookup_miss [OF that(3)])
    show "\<forall>r \<in> set (idempotency_keys u). ik_org r = ?org \<and> ik_key r = k \<longrightarrow> ik_expires_at r < now (tick u)"
      using expired(2) that(1,2) t by fastforce
  qed
  with code t show ?thesis by blast
qed

section \<open>A small API state\<close>

definition demo_create :: "uuid \<Rightarrow> create_request" where
  "demo_create cred = \<lparr>cq_name = ''prod'', cq_region = ''nbg1'', cq_server_type = ''cpx21'', cq_control_plane_count = 1,
     cq_worker_count = 1, cq_credential_id = cred\<rparr>"

definition demo_cluster_app :: "api cluster_app" where
  "demo_cluster_app = app_state.extend demo_app
     (cluster_app.fields (\<lambda>body. if body = ''prod'' then Inr (demo_create 50) else if body = ''foreign'' then Inr (demo_create 51) else Inl ''eof'')
        (\<lambda>v. cv_name v))"

definition demo_owner :: owner_actor where
  "demo_owner = \<lparr>own_inner = \<lparr>act_user = 10, act_session = 20, act_org = 1\<rparr>, own_role = Owner\<rparr>"

definition demo_tenant :: api where
  "demo_tenant = demo_api\<lparr>pg_bypass := False, hetzner_credentials :=
     [\<lparr>cr_id = 50, cr_org = 1, cr_alias = ''main'', cr_secret_id = 60, cr_created_at = 0, cr_updated_at = 0, cr_deleted_at = None, cr_version = 1\<rparr>,
      \<lparr>cr_id = 51, cr_org = 2, cr_alias = ''theirs'', cr_secret_id = 61, cr_created_at = 0, cr_updated_at = 0, cr_deleted_at = None, cr_version = 1\<rparr>]\<rparr>"

lemma demo_cluster_app_parts:
  "lr_secrets (app_runner demo_cluster_app) = pgcrypto_store secret_refs ''kek''"
  "app_secret_store demo_cluster_app = pgcrypto_store secret_refs ''kek''"
  "lr_ssh (app_runner demo_cluster_app) = openssh_ssh (openssh_new None)"
  by (simp_all add: demo_cluster_app_def demo_app_def app_state.defs)

text \<open>The provider is down: the run that a create starts fails at once.\<close>

definition demo_down :: api where
  "demo_down = demo_tenant\<lparr>http_env := (\<lambda>_ _. HttpError ''down'')\<rparr>"

theorem create_is_idempotent_witness:
  "let t = snd (clusters_create demo_cluster_app demo_owner [(''idempotency-key'', ''k1'')] ''prod'' demo_down)
   in length (clusters t) = 3
    \<and> clusters_create demo_cluster_app demo_owner [(''idempotency-key'', ''k1'')] ''prod'' t = (Inr (202, ''prod''), tick t)"
proof -
  let ?h = "[(''idempotency-key'', ''k1'')]"
  let ?run = "clusters_create demo_cluster_app demo_owner ?h ''prod'' demo_down"
  have ev: "case ?run of (r, t) \<Rightarrow> r = Inr (202, ''prod'') \<and> length (clusters t) = 3 \<and> \<not> db_faulty t
      \<and> (\<forall>r \<in> set (idempotency_keys t). ik_key r = ''k1'' \<longrightarrow> now (tick t) \<le> ik_expires_at r)
      \<and> sha256_hex t ''prod'' = sha256_hex demo_down ''prod''"
    by code_simp
  obtain t where run: "?run = (Inr (202, ''prod''), t)" using ev by (cases ?run) blast
  have key: "header_str ?h IDEMPOTENCY_HEADER = Some ''k1''"
    and fresh: "\<forall>r \<in> set (idempotency_keys demo_down). \<not> (ik_org r = act_org (own_inner demo_owner) \<and> ik_key r = ''k1'')"
    by code_simp+
  from ev have rest: "length (clusters t) = 3" "\<not> db_faulty t" "sha256_hex t ''prod'' = sha256_hex demo_down ''prod''"
    "\<forall>r \<in> set (idempotency_keys t). ik_key r = ''k1'' \<longrightarrow> now (tick t) \<le> ik_expires_at r"
    unfolding run by blast+
  from create_is_idempotent [OF run key fresh demo_cluster_app_parts refl rest(3,2,4)] rest(1)
  show ?thesis unfolding run Let_def snd_conv by blast
qed

theorem expired_key_stays_expired_witness:
  "let s = demo_down\<lparr>idempotency_keys := [\<lparr>ik_org = 1, ik_key = ''k1'', ik_request_hash = ''prod'', ik_status = 202, ik_body = ''prod'',
       ik_resource_id = None, ik_expires_at = 0\<rparr>]\<rparr>;
     t = snd (clusters_create demo_cluster_app demo_owner [(''idempotency-key'', ''k1'')] ''prod'' s)
   in length (clusters t) = 3 \<and> idempotency_keys t = idempotency_keys s"
proof -
  let ?h = "[(''idempotency-key'', ''k1'')]"
  let ?s = "demo_down\<lparr>idempotency_keys := [\<lparr>ik_org = 1, ik_key = ''k1'', ik_request_hash = ''prod'', ik_status = 202, ik_body = ''prod'',
       ik_resource_id = None, ik_expires_at = 0\<rparr>]\<rparr>"
  let ?run = "clusters_create demo_cluster_app demo_owner ?h ''prod'' ?s"
  have ev: "case ?run of (r, t) \<Rightarrow> r = Inr (202, ''prod'') \<and> length (clusters t) = 3" by code_simp
  obtain t where run: "?run = (Inr (202, ''prod''), t)" using ev by (cases ?run) blast
  have key: "header_str ?h IDEMPOTENCY_HEADER = Some ''k1''"
    and old: "\<exists>r \<in> set (idempotency_keys ?s). ik_org r = act_org (own_inner demo_owner) \<and> ik_key r = ''k1''"
      "\<forall>r \<in> set (idempotency_keys ?s). ik_org r = act_org (own_inner demo_owner) \<and> ik_key r = ''k1'' \<longrightarrow> ik_expires_at r < now (tick ?s)"
    by code_simp+
  from ev have "length (clusters t) = 3" unfolding run by blast
  with expired_key_stays_expired [OF run key old demo_cluster_app_parts]
  show ?thesis unfolding Let_def run snd_conv by blast
qed

section \<open>A credential of another tenant\<close>

lemma foreign_credential:
  assumes "\<not> pg_bypass s" and "\<not> db_faulty s" and "\<forall>c \<in> set (hetzner_credentials s). cr_id c = i \<longrightarrow> cr_org c \<noteq> org"
  shows "hcs_get org i s = (Inl (NotFound (''hetzner_credential/'' @ pg_uuid_text s i)), tick s)"
proof -
  have "find (\<lambda>r. cred_visible s org r \<and> cr_id r = i \<and> cr_deleted_at r = None) (hetzner_credentials s) = None"
    using assms(1,3) by (auto simp: find_None_iff_all cred_visible_def rls_app_role)
  with assms(2) show ?thesis by (simp add: hcs_get_def cred_get_def bindE_def tx_def db_faulty_def)
qed

lemma insert_run:
  assumes "validate_allowed new = Inr ()" and "\<not> db_faulty s"
    and "\<forall>r \<in> set (clusters s). cl_id r \<noteq> pg_uuid s (pg_uuid_ctr s) \<and> \<not> (cl_org r = org \<and> cl_name r = nc_name new \<and> cl_deleted_at r = None)"
    and "nc_credential_id new \<in> cr_id ` set (hetzner_credentials s)"
  shows "\<exists>c t row. cluster_create org new ctx s = (Inr c, t) \<and> clusters t = clusters s @ [row] \<and> cl_id row = c_id c
    \<and> cl_org row = org \<and> cl_name row = nc_name new \<and> cl_status row = Pending \<and> cl_deleted_at row = None
    \<and> hetzner_credentials t = hetzner_credentials s \<and> pg_bypass t = pg_bypass s \<and> pg_fault t = pg_fault s \<and> pg_uuid_text t = pg_uuid_text s"
proof -
  have "1 \<le> nc_control_plane_count new" "1 \<le> nc_worker_count new" "nc_worker_count new \<le> 50"
    using assms(1) by (auto simp: validate_allowed_def split: if_splits)
  with assms show ?thesis
    by (auto simp: cluster_create_def of_sum_def bindE_def cluster_insert_def new_id_def tx_def db_faulty_def Let_def row_to_cluster_def)
qed

lemma cluster_create_outside: "keeps (\<lambda>s. ext_trace s = tr) (cluster_create org new ctx)"
  unfolding cluster_create_def cluster_insert_def
  by (intro keeps_intros keeps_of_sum keeps_tx) (auto simp: Let_def split: if_splits)

text \<open>A create request that names a credential of another tenant passes the
  foreign key and is only then refused: the answer is not found, but a pending
  cluster stays behind, and nothing outside the database was called, so no
  workflow will ever take it further.\<close>

theorem foreign_credential_leaves_pending:
  assumes parse: "ca_parse_create st body = Inr req" and no_key: "header_str h IDEMPOTENCY_HEADER = None"
    and valid: "validate_allowed (new_cluster_of req) = Inr ()"
    and reliable: "\<not> pg_bypass s" "\<forall>n. \<not> pg_fault s n"
    and fresh: "\<forall>r \<in> set (clusters s). cl_id r \<noteq> pg_uuid s (pg_uuid_ctr s)
        \<and> \<not> (cl_org r = act_org (own_inner owner) \<and> cl_name r = cq_name req \<and> cl_deleted_at r = None)"
    and theirs: "cq_credential_id req \<in> cr_id ` set (hetzner_credentials s)"
      "\<forall>c \<in> set (hetzner_credentials s). cr_id c = cq_credential_id req \<longrightarrow> cr_org c \<noteq> act_org (own_inner owner)"
  shows "\<exists>msg t row. clusters_create st owner h body s = (Inl (Problem (NotFound msg)), t)
    \<and> clusters t = clusters s @ [row] \<and> cl_org row = act_org (own_inner owner) \<and> cl_name row = cq_name req
    \<and> cl_status row = Pending \<and> cl_deleted_at row = None \<and> ext_trace t = ext_trace s"
proof -
  let ?org = "act_org (own_inner owner)" and ?ctx = "from_actor_and_headers (own_inner owner) h"
  have "\<exists>c t row. cluster_create ?org (new_cluster_of req) ?ctx s = (Inr c, t) \<and> clusters t = clusters s @ [row] \<and> cl_id row = c_id c
      \<and> cl_org row = ?org \<and> cl_name row = nc_name (new_cluster_of req) \<and> cl_status row = Pending \<and> cl_deleted_at row = None
      \<and> hetzner_credentials t = hetzner_credentials s \<and> pg_bypass t = pg_bypass s \<and> pg_fault t = pg_fault s \<and> pg_uuid_text t = pg_uuid_text s"
    by (rule insert_run [OF valid]) (use reliable fresh theirs(1) in \<open>simp_all add: db_faulty_def new_cluster_of_def\<close>)
  then obtain c t row where made: "cluster_create ?org (new_cluster_of req) ?ctx s = (Inr c, t)"
    and row: "clusters t = clusters s @ [row]" "cl_org row = ?org" "cl_name row = cq_name req" "cl_status row = Pending" "cl_deleted_at row = None"
    and same: "hetzner_credentials t = hetzner_credentials s" "pg_bypass t = pg_bypass s" "pg_fault t = pg_fault s"
    by (auto simp: new_cluster_of_def)
  have gone: "hcs_get ?org (cq_credential_id req) t = (Inl (NotFound (''hetzner_credential/'' @ pg_uuid_text t (cq_credential_id req))), tick t)"
    by (rule foreign_credential) (use same reliable theirs(2) in \<open>simp_all add: db_faulty_def\<close>)
  have "create_fresh (app_state.truncate st) (own_inner owner) h req s
      = (Inl (Problem (NotFound (''hetzner_credential/'' @ pg_uuid_text t (cq_credential_id req)))), tick t)"
    by (simp add: create_fresh_def bind_map_err made gone)
  then have "clusters_create st owner h body s
      = (Inl (Problem (NotFound (''hetzner_credential/'' @ pg_uuid_text t (cq_credential_id req)))), tick t)"
    by (simp add: clusters_create_def Let_def parse no_key bind_pure) (simp add: bindE_def ret_def)
  moreover have "ext_trace t = ext_trace s" by (rule keeps_run [OF cluster_create_outside refl made])
  ultimately show ?thesis using row by auto
qed

theorem foreign_credential_leaves_pending_witness:
  "\<exists>msg t row. clusters_create demo_cluster_app demo_owner [] ''foreign'' demo_tenant = (Inl (Problem (NotFound msg)), t)
    \<and> clusters t = clusters demo_tenant @ [row] \<and> cl_name row = ''prod'' \<and> cl_status row = Pending"
proof -
  have parse: "ca_parse_create demo_cluster_app ''foreign'' = Inr (demo_create 51)"
    and key: "header_str [] IDEMPOTENCY_HEADER = None" and valid: "validate_allowed (new_cluster_of (demo_create 51)) = Inr ()"
    and tenant: "\<not> pg_bypass demo_tenant"
    and fresh: "\<forall>r \<in> set (clusters demo_tenant). cl_id r \<noteq> pg_uuid demo_tenant (pg_uuid_ctr demo_tenant)
        \<and> \<not> (cl_org r = act_org (own_inner demo_owner) \<and> cl_name r = cq_name (demo_create 51) \<and> cl_deleted_at r = None)"
    and theirs: "cq_credential_id (demo_create 51) \<in> cr_id ` set (hetzner_credentials demo_tenant)"
      "\<forall>c \<in> set (hetzner_credentials demo_tenant). cr_id c = cq_credential_id (demo_create 51) \<longrightarrow> cr_org c \<noteq> act_org (own_inner demo_owner)"
    by code_simp+
  have up: "\<forall>n. \<not> pg_fault demo_tenant n"
    by (simp add: demo_tenant_def demo_api_def world.defs api.defs demo_world_def addon_db.defs demo_addons_def cluster_db.defs)
  from foreign_credential_leaves_pending [OF parse key valid tenant up fresh theirs]
  show ?thesis by (auto simp: demo_create_def)
qed

section \<open>Scaling and the event stream\<close>

text \<open>Scaling keeps the number of workers between one and ten: a request that is
  carried out answers the current count plus the delta, inside the range, and a
  delta that would leave the range, or overflow sixteen bits, is refused before
  anything is written.\<close>

theorem scale_workers_bounds:
  assumes got: "service_get (act_org (own_inner owner)) cid s = (Inr c, u)" and ready: "c_status c = Ready"
    and width: "- 32768 \<le> c_worker_count c" "c_worker_count c \<le> 32767"
  shows "(\<forall>code v t. scale_workers st owner h cid delta s = (Inr (code, v), t) \<longrightarrow>
        cv_worker_count v = c_worker_count c + delta
        \<and> (delta \<noteq> 0 \<longrightarrow> code = 202 \<and> cv_status v = Scaling \<and> 1 \<le> cv_worker_count v \<and> cv_worker_count v \<le> 10))
    \<and> (delta \<noteq> 0 \<and> c_worker_count c + delta \<notin> {1..10} \<longrightarrow>
        (\<exists>msg. scale_workers st owner h cid delta s = (Inl (Problem (Invalid msg)), u)))"
proof -
  note defs = scale_workers_def Let_def bind_map_err got ready MIN_WORKER_COUNT_def MAX_WORKER_COUNT_def fail_def saturating_add16_def
  have "cv_worker_count v = c_worker_count c + delta
      \<and> (delta \<noteq> 0 \<longrightarrow> code = 202 \<and> cv_status v = Scaling \<and> 1 \<le> cv_worker_count v \<and> cv_worker_count v \<le> 10)"
    if "scale_workers st owner h cid delta s = (Inr (code, v), t)" for code v t
  proof -
    from that have "delta = 0 \<and> v = cluster_view_of c \<or> delta \<noteq> 0 \<and> code = 202 \<and> c_worker_count c + delta \<in> {1..10}
        \<and> v = (cluster_view_of c)\<lparr>cv_worker_count := c_worker_count c + delta, cv_status := Scaling, cv_terminal := False\<rparr>"
      using width by (auto simp: defs ret_def bindE_eq_Inr split: if_splits prod.splits sum.splits)
    then show ?thesis by (auto simp: cluster_view_of_def from_parts_def)
  qed
  moreover have "\<exists>msg. scale_workers st owner h cid delta s = (Inl (Problem (Invalid msg)), u)"
    if "delta \<noteq> 0 \<and> c_worker_count c + delta \<notin> {1..10}"
    using that by (auto simp: defs)
  ultimately show ?thesis by blast
qed

theorem scale_workers_bounds_witness:
  "let s = demo_tenant\<lparr>clusters := sql_update (\<lambda>r. cl_id r = 70) (\<lambda>r. r\<lparr>cl_status := Ready, cl_worker_count := 3\<rparr>) (clusters demo_tenant)\<rparr>
   in \<exists>msg u. scale_workers demo_app demo_owner [] 70 32767 s = (Inl (Problem (Invalid msg)), u)"
proof -
  let ?s = "demo_tenant\<lparr>clusters := sql_update (\<lambda>r. cl_id r = 70) (\<lambda>r. r\<lparr>cl_status := Ready, cl_worker_count := 3\<rparr>) (clusters demo_tenant)\<rparr>"
  let ?get = "service_get (act_org (own_inner demo_owner)) 70 ?s"
  have ev: "case ?get of (Inr c, u) \<Rightarrow> c_status c = Ready \<and> c_worker_count c = 3 | (Inl e, u) \<Rightarrow> False" by code_simp
  obtain c u where get: "?get = (Inr c, u)" "c_status c = Ready" "c_worker_count c = 3"
    using ev by (cases ?get) (auto split: sum.splits)
  show ?thesis using scale_workers_bounds [OF get(1,2), of demo_app "[]" 32767] get(3) unfolding Let_def by auto
qed

text \<open>The event stream of a cluster is a greeting, then every event up to the
  first terminal one as a step, then that terminal event, and nothing after it;
  a notice that the subscriber fell behind is passed on as a step of its own.\<close>

theorem event_stream_ends:
  "event_stream items = SseConnected # map SseStep (takeWhile (\<lambda>e. \<not> is_terminal e) (map unlag items))
     @ map SseTerminal (take 1 (dropWhile (\<lambda>e. \<not> is_terminal e) (map unlag items)))"
proof -
  have seen: "limited True es = []" for es by (cases es) simp_all
  have "map sse_of (limited False es) = map SseStep (takeWhile (\<lambda>e. \<not> is_terminal e) es)
      @ map SseTerminal (take 1 (dropWhile (\<lambda>e. \<not> is_terminal e) es))" for es
    by (induction es) (simp_all add: seen sse_of_def)
  then show ?thesis by (simp add: event_stream_def)
qed

end
