(* ===== verification/Api_Common.thy ===== *)
theory Api_Common
  imports Api_Auth
begin

text \<open>
  What several handler modules of the API share: JSON values as the handlers read and
  write them, the lookup of a user's email, and the check that the organization of the
  path is the active one.
\<close>

section \<open>JSON values\<close>

text \<open>\<open>serde_json::Value\<close>, and what the handlers use of it (\<open>get\<close> on an object,
  \<open>as_str\<close>).\<close>

datatype json = JNull | JBool bool | JNum string | JStr string | JArr "json list" | JObj "(string \<times> json) list"

definition json_get :: "string \<Rightarrow> json \<Rightarrow> json option" where
  "json_get k j = (case j of JObj fs \<Rightarrow> map_of fs k | _ \<Rightarrow> None)"

definition as_str :: "json \<Rightarrow> string option" where
  "as_str j = (case j of JStr x \<Rightarrow> Some x | _ \<Rightarrow> None)"

definition str_at :: "string \<Rightarrow> json \<Rightarrow> string option" where
  "str_at k j = Option.bind (json_get k j) as_str"

definition json_text :: "string option \<Rightarrow> string" where
  "json_text v =
     (case v of None \<Rightarrow> ''null''
      | Some x \<Rightarrow> [CHR 0x22] @ concat (map (\<lambda>c. if c = CHR 0x22 \<or> c = CHR 0x5C then [CHR 0x5C, c] else [c]) x) @ [CHR 0x22])"

text \<open>\<open>json!({ key: value })\<close> for one field, the value already in its text form.\<close>

definition json_field :: "string \<Rightarrow> string \<Rightarrow> string" where
  "json_field k v = ''{'' @ json_text (Some k) @ '': '' @ v @ ''}''"

section \<open>Users and paths\<close>

definition row_not_found :: sqlx_error where
  "row_not_found = SqlxOther ''no rows returned by a query that expected to return at least one row''"

text \<open>\<open>SELECT email FROM users WHERE id = $1\<close> with \<open>fetch_one\<close>.\<close>

definition user_email :: "uuid \<Rightarrow> ('z api_scheme, platform_error, string) op" where
  "user_email u =
     tx Database (\<lambda>s. case find (\<lambda>r. u_id r = u) (users s) of
       None \<Rightarrow> (Inl (Database row_not_found), s) | Some r \<Rightarrow> (Inr (u_email r), s))"

definition require_self_org :: "actor \<Rightarrow> uuid \<Rightarrow> ('s, api_error, unit) op" where
  "require_self_org a org =
     (if act_org a \<noteq> org then fail (Problem (Forbidden ''actor's active organization does not match the path'')) else ret ())"

text \<open>The check of a display name, of a user or of an organization; \<open>len()\<close> counts bytes.\<close>

definition display_name_ok :: "string \<Rightarrow> api_error + string" where
  "display_name_ok raw =
     (let name = trim raw in
      if name = [] then Inl (Problem (Invalid ''display_name must not be empty''))
      else if length name > 100 then Inl (Problem (Invalid ''display_name must be 100 characters or fewer''))
      else Inr name)"

text \<open>\<open>chars().count()\<close>: the bytes of a text that do not continue a character.\<close>

definition char_count :: "string \<Rightarrow> nat" where
  "char_count x = length (filter (\<lambda>c. \<not> (128 \<le> (of_char c :: nat) \<and> of_char c < (192 :: nat))) x)"

lemma bind_of_option [simp]: "bindE (of_option e (Some a)) k = k a" "bindE (of_option e None) k = fail e"
  by (rule ext; simp add: bindE_def of_option_def fail_def)+

lemma bind_of_sum [simp]: "bindE (of_sum f (Inr a)) k = k a" "bindE (of_sum f (Inl e)) k = fail (f e)"
  by (rule ext; simp add: bindE_def of_sum_def fail_def)+

end
