(* ===== verification/Billing.thy ===== *)
theory Billing
  imports Api_Common
begin

text \<open>
  Billing: the Stripe client and webhook signatures (\<open>integrations/src/stripe.rs\<close>), the
  billing repository and service (\<open>billing/src\<close>) and the billing handlers
  (\<open>api/src/billing.rs\<close>). HMAC-SHA256 and the JSON parser belong to other crates
  and are arguments of the definitions that use them.
\<close>

section \<open>Webhook signatures\<close>

definition STRIPE_TIMESTAMP_TOLERANCE :: nat where
  "STRIPE_TIMESTAMP_TOLERANCE = 5 * 60"

datatype stripe_error = StripeTransport string | StripeStatus nat string

datatype signature_error = Malformed | BadTimestamp | Mismatch

text \<open>\<open>splitn(2, '=')\<close>: the key, and the value if there is a separator.\<close>

definition split_pair :: "string \<Rightarrow> string \<times> string option" where
  "split_pair part =
     (takeWhile (\<lambda>c. c \<noteq> CHR ''='') part,
      case dropWhile (\<lambda>c. c \<noteq> CHR ''='') part of [] \<Rightarrow> None | _ # rest \<Rightarrow> Some rest)"

text \<open>\<open>str::parse::<i64>\<close>: an optional sign, digits, in range.\<close>

definition parse_i64 :: "string \<Rightarrow> int option" where
  "parse_i64 s =
     (let (neg, digits) = (case s of c # cs \<Rightarrow> if c = CHR ''-'' then (True, cs) else if c = CHR ''+'' then (False, cs) else (False, s)
                           | [] \<Rightarrow> (False, []))
      in case parse_nat digits of
           None \<Rightarrow> None
         | Some n \<Rightarrow> let i = (if neg then - int n else int n) in
             if - (2 ^ 63) \<le> i \<and> i < 2 ^ 63 then Some i else None)"

text \<open>The loop over the parts of the header.\<close>

fun header_parts :: "string list \<Rightarrow> int option \<Rightarrow> string list \<Rightarrow> signature_error + (int option \<times> string list)" where
  "header_parts [] ts sigs = Inr (ts, sigs)"
| "header_parts (part # parts) ts sigs =
     (case split_pair part of
        (_, None) \<Rightarrow> Inl Malformed
      | (k, Some v) \<Rightarrow>
          if trim k = ''t'' then header_parts parts (parse_i64 (trim v)) sigs
          else if trim k = ''v1'' then header_parts parts ts (sigs @ [trim v])
          else header_parts parts ts sigs)"

definition hex_lower :: "string \<Rightarrow> string" where
  "hex_lower bytes = concat (map (\<lambda>c. let n = of_char c :: nat in [hex_char (n div 16), hex_char (n mod 16)]) bytes)"

text \<open>The difference is accumulated over all positions, whatever the outcome.\<close>

definition constant_time_eq_ignore_ascii_case :: "string \<Rightarrow> string \<Rightarrow> bool" where
  "constant_time_eq_ignore_ascii_case a b =
     (if length a \<noteq> length b then False
      else fold (\<lambda>(x, y) diff. or diff (of_bool (lower_char x \<noteq> lower_char y))) (zip a b) (0 :: 8 word) = 0)"

text \<open>\<open>(now - t).abs()\<close> on \<open>i64\<close>, which wraps in release builds.\<close>

definition drift :: "int \<Rightarrow> int \<Rightarrow> 64 word" where
  "drift now_secs ts = (let d = word_of_int now_secs - word_of_int ts :: 64 word in if sint d < 0 then - d else d)"

definition verify_signature ::
    "(string \<Rightarrow> string \<Rightarrow> string) \<Rightarrow> string \<Rightarrow> string \<Rightarrow> string \<Rightarrow> int \<Rightarrow> nat \<Rightarrow> signature_error + unit" where
  "verify_signature hmac payload header secret now_secs tolerance =
     (case header_parts (split_on (CHR '','') header) None [] of
        Inl e \<Rightarrow> Inl e
      | Inr (None, _) \<Rightarrow> Inl Malformed
      | Inr (Some ts, sigs) \<Rightarrow>
          if sigs = [] then Inl Malformed
          else if sint (drift now_secs ts) > min (int tolerance) (2 ^ 63 - 1) then Inl BadTimestamp
          else
            let expected = hex_lower (hmac (show_int ts @ ''.'' @ payload) secret) in
            if (\<exists>x \<in> set sigs. constant_time_eq_ignore_ascii_case x expected) then Inr () else Inl Mismatch)"

section \<open>Stripe client\<close>

record checkout_session_params =
  cp_price_id :: string
  cp_success_url :: string
  cp_cancel_url :: string
  cp_customer_id :: "string option"
  cp_customer_email :: "string option"
  cp_metadata :: "(string \<times> string) list"

record checkout_session =
  cks_url :: string
  cks_customer :: "string option"

record stripe_request =
  sq_url :: string
  sq_user :: string
  sq_form :: "(string \<times> string) list"

text \<open>The answer of the service: no answer, or a status with its text and the parsed
  session.\<close>

datatype stripe_outcome = StripeDown string | StripeReply nat string "string + checkout_session"

record subscription_event_row =
  se_id :: uuid
  se_stripe_event_id :: string
  se_org :: "uuid option"
  se_event_type :: string
  se_payload :: string
  se_decision :: string
  se_received_at :: timestamp

record billing = api +
  subscription_events :: "subscription_event_row list"
  stripe_env :: "stripe_request list \<Rightarrow> stripe_request \<Rightarrow> stripe_outcome"
  stripe_log :: "stripe_request list"

record http_stripe =
  hst_secret_key :: string
  hst_base_url :: string

definition http_stripe_new :: "string \<Rightarrow> http_stripe" where
  "http_stripe_new key = \<lparr>hst_secret_key = key, hst_base_url = ''https://api.stripe.com/v1''\<rparr>"

definition checkout_form :: "checkout_session_params \<Rightarrow> (string \<times> string) list" where
  "checkout_form p =
     [(''mode'', ''subscription''), (''line_items[0][price]'', cp_price_id p), (''line_items[0][quantity]'', ''1''),
      (''success_url'', cp_success_url p), (''cancel_url'', cp_cancel_url p)]
     @ (case cp_customer_id p of None \<Rightarrow> [] | Some c \<Rightarrow> [(''customer'', c)])
     @ (case cp_customer_email p of None \<Rightarrow> [] | Some e \<Rightarrow> [(''customer_email'', e)])
     @ map (\<lambda>(k, v). (''metadata['' @ k @ '']'', v)) (cp_metadata p)"

definition create_checkout_session ::
    "http_stripe \<Rightarrow> checkout_session_params \<Rightarrow> ('z billing_scheme, stripe_error, checkout_session) op" where
  "create_checkout_session cl params s =
     (let rq = \<lparr>sq_url = hst_base_url cl @ ''/checkout/sessions'', sq_user = hst_secret_key cl, sq_form = checkout_form params\<rparr>;
          t = s\<lparr>stripe_log := stripe_log s @ [rq]\<rparr>
      in case stripe_env s (stripe_log s) rq of
           StripeDown e \<Rightarrow> (Inl (StripeTransport e), t)
         | StripeReply status text json \<Rightarrow>
             if \<not> is_success status then (Inl (StripeStatus status (take 512 text)), t)
             else (case json of Inl e \<Rightarrow> (Inl (StripeTransport e), t) | Inr session \<Rightarrow> (Inr session, t)))"

section \<open>Repository\<close>

text \<open>Every statement of this repository runs on the pool, outside a tenant scope;
  \<open>organizations\<close> is under row-level security by id, \<open>subscription_events\<close> is not.\<close>

definition org_visible :: "'z billing_scheme \<Rightarrow> organization_row \<Rightarrow> bool" where
  "org_visible s r \<longleftrightarrow> rls s None (o_id r)"

record org_billing_state =
  ob_organization_id :: uuid
  ob_plan :: plan
  ob_stripe_customer_id :: "string option"

definition billing_get :: "uuid \<Rightarrow> ('z billing_scheme, platform_error, org_billing_state) op" where
  "billing_get org =
     bindE (tx Database (\<lambda>s. (Inr (find (\<lambda>r. org_visible s r \<and> o_id r = org) (organizations s)), s))) (\<lambda>row s.
     case row of
       None \<Rightarrow> (Inl (NotFound (''organization/'' @ pg_uuid_text s org)), s)
     | Some r \<Rightarrow> (Inr \<lparr>ob_organization_id = org, ob_plan = o_plan r, ob_stripe_customer_id = o_stripe_customer_id r\<rparr>, s))"

definition org_for_customer :: "string \<Rightarrow> ('z billing_scheme, platform_error, uuid option) op" where
  "org_for_customer c =
     tx Database (\<lambda>s. (Inr (map_option o_id (find (\<lambda>r. org_visible s r \<and> o_stripe_customer_id r = Some c) (organizations s))), s))"

definition plan_str :: "plan \<Rightarrow> string" where
  "plan_str p = (case p of Free \<Rightarrow> ''free'' | Starter \<Rightarrow> ''starter'' | Pro \<Rightarrow> ''pro'')"

text \<open>\<open>organizations_billing_audit_trigger\<close>: one entry when the plan or the customer
  changed, on the chain of the organization itself.\<close>

definition billing_audit :: "organization_row \<Rightarrow> organization_row \<Rightarrow> 'z billing_scheme \<Rightarrow> 'z billing_scheme" where
  "billing_audit old new s =
     (if o_plan new = o_plan old \<and> o_stripe_customer_id new = o_stripe_customer_id old then s
      else audit_log_append_explicit no_audit (o_id new) ''organizations.updated'' ''organizations'' (pg_uuid_text s (o_id new)) ''allowed''
        (''{'' @ json_text (Some ''new_plan'') @ '': '' @ json_text (Some (plan_str (o_plan new))) @ '', ''
           @ json_text (Some ''old_plan'') @ '': '' @ json_text (Some (plan_str (o_plan old))) @ '', ''
           @ json_text (Some ''new_stripe_customer_id'') @ '': '' @ json_text (o_stripe_customer_id new) @ '', ''
           @ json_text (Some ''old_stripe_customer_id'') @ '': '' @ json_text (o_stripe_customer_id old) @ ''}'') s)"

definition update_orgs ::
    "(organization_row \<Rightarrow> bool) \<Rightarrow> (organization_row \<Rightarrow> organization_row) \<Rightarrow> 'z billing_scheme \<Rightarrow> 'z billing_scheme" where
  "update_orgs hit f s =
     fold (\<lambda>r. billing_audit r (f r)) (filter hit (organizations s))
       (s\<lparr>organizations := sql_update hit (\<lambda>r. (f r)\<lparr>o_updated_at := now s, o_version := o_version r + 1\<rparr>) (organizations s)\<rparr>)"

definition set_stripe_customer :: "uuid \<Rightarrow> string \<Rightarrow> ('z billing_scheme, platform_error, unit) op" where
  "set_stripe_customer org c =
     bindE (tx Database (\<lambda>s.
       let hit = \<lambda>r. org_visible s r \<and> o_id r = org \<and> (o_stripe_customer_id r = None \<or> o_stripe_customer_id r = Some c) in
       if (\<exists>r \<in> set (organizations s). hit r) \<and> (\<exists>r \<in> set (organizations s). o_id r \<noteq> org \<and> o_stripe_customer_id r = Some c)
       then (Inl (Database SqlxUnique), s)
       else (Inr (sql_count hit (organizations s)), update_orgs hit (\<lambda>r. r\<lparr>o_stripe_customer_id := Some c\<rparr>) s))) (\<lambda>affected.
     if affected = 0 then fail (Conflict ''organization already linked to a different Stripe customer'') else ret ())"

definition update_plan :: "uuid \<Rightarrow> plan \<Rightarrow> ('z billing_scheme, platform_error, unit) op" where
  "update_plan org p =
     tx Database (\<lambda>s. (Inr (), update_orgs (\<lambda>r. org_visible s r \<and> o_id r = org) (\<lambda>r. r\<lparr>o_plan := p\<rparr>) s))"

definition append_event ::
    "string \<Rightarrow> uuid option \<Rightarrow> string \<Rightarrow> string \<Rightarrow> string \<Rightarrow> ('z billing_scheme, platform_error, bool) op" where
  "append_event ev org ty payload decision =
     bindE new_id (\<lambda>i.
     tx Database (\<lambda>s.
       if i \<in> se_id ` set (subscription_events s) then (Inl (Database SqlxUnique), s)
       else if ev \<in> se_stripe_event_id ` set (subscription_events s) then (Inr False, s)
       else if (case org of None \<Rightarrow> False | Some x \<Rightarrow> x \<notin> o_id ` set (organizations s)) then (Inl (Database SqlxForeignKey), s)
       else (Inr True, s\<lparr>subscription_events := subscription_events s @
              [\<lparr>se_id = i, se_stripe_event_id = ev, se_org = org, se_event_type = ty, se_payload = payload, se_decision = decision,
                se_received_at = now s\<rparr>]\<rparr>)))"

definition recent_events :: "nat \<Rightarrow> ('z billing_scheme, platform_error, subscription_event_row list) op" where
  "recent_events limit = tx Database (\<lambda>s. (Inr (take limit (order_desc se_received_at (subscription_events s))), s))"

section \<open>Service\<close>

definition price_id_for_plan :: "plan \<Rightarrow> string option" where
  "price_id_for_plan p =
     (case p of Free \<Rightarrow> None | Starter \<Rightarrow> Some ''price_starter_replace_me'' | Pro \<Rightarrow> Some ''price_pro_replace_me'')"

datatype billing_error = BillForbidden string | BillStripe stripe_error | BillPlatform platform_error

definition platform_of_billing :: "billing_error \<Rightarrow> platform_error" where
  "platform_of_billing e =
     (case e of
        BillForbidden msg \<Rightarrow> Forbidden msg
      | BillPlatform p \<Rightarrow> p
      | BillStripe (StripeStatus status _) \<Rightarrow> Internal (''stripe api status '' @ show_nat status)
      | BillStripe (StripeTransport err) \<Rightarrow> Internal (''stripe transport: '' @ err))"

record billing_service =
  bs_stripe :: http_stripe
  bs_success_url :: string
  bs_cancel_url :: string

definition billing_state :: "uuid \<Rightarrow> ('z billing_scheme, billing_error, org_billing_state) op" where
  "billing_state org = map_err BillPlatform (billing_get org)"

definition start_checkout ::
    "billing_service \<Rightarrow> uuid \<Rightarrow> plan \<Rightarrow> string \<Rightarrow> ('z billing_scheme, billing_error, checkout_session) op" where
  "start_checkout svc org target email =
     bindE (of_option (BillForbidden ''cannot upgrade to the free plan'') (price_id_for_plan target)) (\<lambda>price.
     bindE (map_err BillPlatform (billing_get org)) (\<lambda>st.
     bindE (getS (\<lambda>s. [(''organization_id'', pg_uuid_text s org), (''target_plan'', plan_str target)])) (\<lambda>metadata.
     bindE (map_err BillStripe (create_checkout_session (bs_stripe svc)
       \<lparr>cp_price_id = price, cp_success_url = bs_success_url svc, cp_cancel_url = bs_cancel_url svc,
        cp_customer_id = ob_stripe_customer_id st,
        cp_customer_email = (if ob_stripe_customer_id st = None then Some email else None), cp_metadata = metadata\<rparr>)) (\<lambda>session.
     bindE (case cks_customer session of
              None \<Rightarrow> ret ()
            | Some c \<Rightarrow> map_err BillPlatform (set_stripe_customer org c)) (\<lambda>_.
     ret session)))))"

definition apply_checkout_completion ::
    "string \<Rightarrow> uuid \<Rightarrow> plan \<Rightarrow> string \<Rightarrow> ('z billing_scheme, billing_error, unit) op" where
  "apply_checkout_completion ev org p payload =
     bindE (map_err BillPlatform (update_plan org p)) (\<lambda>_.
     bindE (map_err BillPlatform (append_event ev (Some org) ''checkout.session.completed'' payload ''plan_applied'')) (\<lambda>_.
     ret ()))"

definition apply_subscription_cancelled ::
    "string \<Rightarrow> string \<Rightarrow> string \<Rightarrow> ('z billing_scheme, billing_error, unit) op" where
  "apply_subscription_cancelled ev customer payload =
     bindE (map_err BillPlatform (org_for_customer customer)) (\<lambda>found.
     case found of
       None \<Rightarrow> ret ()
     | Some org \<Rightarrow>
         bindE (map_err BillPlatform (update_plan org Free)) (\<lambda>_.
         bindE (map_err BillPlatform (append_event ev (Some org) ''customer.subscription.deleted'' payload ''plan_applied'')) (\<lambda>_.
         ret ())))"

definition record_event ::
    "string \<Rightarrow> string \<Rightarrow> string option \<Rightarrow> string \<Rightarrow> ('z billing_scheme, billing_error, bool) op" where
  "record_event ev ty customer payload =
     bindE (case customer of None \<Rightarrow> ret None | Some c \<Rightarrow> map_err BillPlatform (org_for_customer c)) (\<lambda>org.
     map_err BillPlatform (append_event ev org ty payload ''processed''))"

section \<open>Handlers\<close>

definition parse_plan :: "string \<Rightarrow> plan option" where
  "parse_plan x = (if x = ''free'' then Some Free else if x = ''starter'' then Some Starter else if x = ''pro'' then Some Pro else None)"

record 's billing_app = "'s app_state" +
  ba_service :: billing_service
  ba_webhook_secret :: string
  ba_hmac :: "string \<Rightarrow> string \<Rightarrow> string"
  ba_parse_json :: "string \<Rightarrow> string + json"

definition billing_to_api :: "billing_error \<Rightarrow> api_error" where
  "billing_to_api e = Problem (platform_of_billing e)"

definition handle_state :: "actor \<Rightarrow> uuid \<Rightarrow> ('z billing_scheme, api_error, plan \<times> string option) op" where
  "handle_state a org =
     bindE (require_self_org a org) (\<lambda>_.
     bindE (map_err billing_to_api (billing_state org)) (\<lambda>st.
     ret (ob_plan st, ob_stripe_customer_id st)))"

definition handle_start_checkout ::
    "'s billing_app \<Rightarrow> owner_actor \<Rightarrow> plan \<Rightarrow> ('z billing_scheme, api_error, string) op" where
  "handle_start_checkout st owner p =
     (let a = own_inner owner in
      bindE (map_err Problem (user_email (act_user a))) (\<lambda>email.
      bindE (map_err billing_to_api (start_checkout (ba_service st) (act_org a) p email)) (\<lambda>session.
      ret (cks_url session))))"

text \<open>Seconds since the epoch of the wall clock, which runs in microseconds.\<close>

definition unix_secs :: "timestamp \<Rightarrow> int" where
  "unix_secs t = (if t < 0 then 0 else min (t div 1000000) (2 ^ 63 - 1))"

definition signature_message :: "signature_error \<Rightarrow> string" where
  "signature_message e =
     (case e of Malformed \<Rightarrow> ''malformed signature'' | BadTimestamp \<Rightarrow> ''timestamp out of tolerance'' | Mismatch \<Rightarrow> ''signature mismatch'')"

definition invalid_opt :: "string \<Rightarrow> 'a option \<Rightarrow> ('z billing_scheme, api_error, 'a) op" where
  "invalid_opt msg v = of_option (Problem (Invalid msg)) v"

definition checkout_completed ::
    "(string \<Rightarrow> uuid option) \<Rightarrow> string \<Rightarrow> json \<Rightarrow> string \<Rightarrow> ('z billing_scheme, api_error, unit) op" where
  "checkout_completed parse_uuid ev envelope body =
     bindE (invalid_opt ''missing data.object'' (Option.bind (json_get ''data'' envelope) (json_get ''object''))) (\<lambda>obj.
     bindE (invalid_opt ''missing metadata'' (json_get ''metadata'' obj)) (\<lambda>meta.
     bindE (invalid_opt ''missing or invalid metadata.organization_id'' (Option.bind (str_at ''organization_id'' meta) parse_uuid)) (\<lambda>org.
     bindE (invalid_opt ''missing or invalid metadata.target_plan'' (Option.bind (str_at ''target_plan'' meta) parse_plan)) (\<lambda>p.
     map_err billing_to_api (apply_checkout_completion ev org p body)))))"

text \<open>The payload column holds the envelope; it is the body of the delivery here.\<close>

definition process_event ::
    "(string \<Rightarrow> uuid option) \<Rightarrow> json \<Rightarrow> string \<Rightarrow> ('z billing_scheme, api_error, unit) op" where
  "process_event parse_uuid envelope body =
     bindE (invalid_opt ''missing event id'' (str_at ''id'' envelope)) (\<lambda>ev.
     bindE (invalid_opt ''missing event type'' (str_at ''type'' envelope)) (\<lambda>ty.
     let customer = Option.bind (Option.bind (json_get ''data'' envelope) (json_get ''object'')) (str_at ''customer'') in
     if ty = ''checkout.session.completed'' then checkout_completed parse_uuid ev envelope body
     else if ty = ''customer.subscription.deleted''
     then (case customer of
             None \<Rightarrow> ret ()
           | Some c \<Rightarrow> map_err billing_to_api (apply_subscription_cancelled ev c body))
     else bindE (map_err billing_to_api (record_event ev ty customer body)) (\<lambda>_. ret ())))"

definition webhook :: "'s billing_app \<Rightarrow> headers \<Rightarrow> string \<Rightarrow> ('z billing_scheme, api_error, nat) op" where
  "webhook st h body =
     bindE (of_option (Problem (Forbidden ''missing Stripe-Signature header'')) (header_str h ''stripe-signature'')) (\<lambda>signature.
     bindE (getS (\<lambda>s. unix_secs (now s))) (\<lambda>now_secs.
     bindE (of_sum (\<lambda>e. Problem (Forbidden (signature_message e)))
       (verify_signature (ba_hmac st) body signature (ba_webhook_secret st) now_secs STRIPE_TIMESTAMP_TOLERANCE)) (\<lambda>_.
     bindE (of_sum (\<lambda>e. Problem (Invalid (''invalid json: '' @ e))) (ba_parse_json st body)) (\<lambda>envelope.
     bindE (process_event (app_parse_uuid st) envelope body) (\<lambda>_.
     ret 200)))))"

section \<open>Reading a signature header\<close>

lemma split_on_plain: "d \<notin> set w \<Longrightarrow> split_on d w = [w]"
  by (induction w) auto

lemma split_on_append: "d \<notin> set w \<Longrightarrow> split_on d (w @ d # rest) = w # split_on d rest"
  by (induction w) auto

lemma split_pair_key: "CHR ''='' \<notin> set k \<Longrightarrow> split_pair (k @ CHR ''='' # v) = (k, Some v)"
  by (induction k) (auto simp: split_pair_def)

lemma trim_plain: "list_all (\<lambda>c. \<not> is_ws c) w \<Longrightarrow> trim w = w"
proof -
  assume w: "list_all (\<lambda>c. \<not> is_ws c) w"
  have keep: "dropWhile is_ws xs = xs" if "list_all (\<lambda>c. \<not> is_ws c) xs" for xs using that by (cases xs) auto
  have "list_all (\<lambda>c. \<not> is_ws c) (rev w)" using w by (simp add: list_all_iff)
  from keep [OF this] keep [OF w] show ?thesis by (simp add: trim_def)
qed

text \<open>The characters of a number and of a hexadecimal text.\<close>

definition plain_char :: "char \<Rightarrow> bool" where
  "plain_char c \<longleftrightarrow> \<not> is_ws c \<and> c \<noteq> CHR '','' \<and> c \<noteq> CHR ''=''"

lemma plain_charI:
  assumes "(33 :: nat) \<le> of_char c" and "of_char c \<noteq> (44 :: nat)" and "of_char c \<noteq> (61 :: nat)"
  shows "plain_char c"
proof -
  have "c \<noteq> CHR '',''" "c \<noteq> CHR ''=''" using assms(2,3) by auto
  with assms(1) show ?thesis by (simp add: plain_char_def is_ws_def Let_def)
qed

lemma plain_digits: "d < 10 \<Longrightarrow> plain_char (digit_char d)"
  by (rule plain_charI) (simp_all add: of_char_digit)

lemma plain_hex: "d < 16 \<Longrightarrow> plain_char (hex_char d)"
  by (rule plain_charI) (auto simp: hex_char_def)

lemma plain_show_int: "list_all plain_char (show_int i)"
proof -
  have "list_all plain_char (show_nat n)" for n
    using show_nat_digits [of n] plain_digits by (auto simp: list_all_iff)
  moreover have "plain_char (CHR ''-'')" by code_simp
  ultimately show ?thesis by (simp add: show_int_def)
qed

lemma plain_hex_lower: "list_all plain_char (hex_lower bytes)"
proof -
  have "of_char c div 16 < (16 :: nat)" for c using nat_of_char_less_256 [of c] by (simp add: less_mult_imp_div_less)
  then show ?thesis by (induction bytes) (simp_all add: hex_lower_def Let_def plain_hex)
qed

lemma plain_parts:
  assumes "list_all plain_char w"
  shows "CHR '','' \<notin> set w" and "CHR ''='' \<notin> set w" and "trim w = w"
proof -
  show "CHR '','' \<notin> set w" "CHR ''='' \<notin> set w" using assms by (auto simp: list_all_iff plain_char_def)
  show "trim w = w" using assms by (intro trim_plain) (simp add: list_all_iff plain_char_def)
qed

lemma parse_show_int:
  assumes "- (2 ^ 63) \<le> i" and "i < 2 ^ 63"
  shows "parse_i64 (show_int i) = Some i"
proof (cases "i < 0")
  case True
  then show ?thesis using assms by (simp add: parse_i64_def show_int_def parse_show_nat)
next
  case False
  obtain c cs where shown: "show_nat (nat i) = c # cs" using show_nat_nonempty by (cases "show_nat (nat i)") auto
  have "c \<in> digit_char ` {..<10}" using show_nat_digits [of "nat i"] by (simp add: shown)
  then have "c \<noteq> CHR ''-''" "c \<noteq> CHR ''+''" by (auto simp: digit_char_def dest!: arg_cong [of _ _ "of_char :: char \<Rightarrow> nat"])
  with False assms show ?thesis
    using parse_show_nat [of "nat i"] by (simp add: parse_i64_def show_int_def shown)
qed

section \<open>The clock check\<close>

text \<open>The difference of two \<open>i64\<close> values: exact when it fits, and wrapped around when the
  header names a time far in the past.\<close>

lemma sint_drift:
  assumes "0 \<le> now_secs" "now_secs < 2 ^ 62" "- (2 ^ 63) \<le> ts" "ts < 2 ^ 63"
  shows "sint (drift now_secs ts) = (if now_secs - ts < 2 ^ 63 then \<bar>now_secs - ts\<bar>
    else if now_secs - ts = 2 ^ 63 then - (2 ^ 63) else 2 ^ 64 - (now_secs - ts))"
proof -
  define d :: int where "d = now_secs - ts"
  have wrap: "sint (word_of_int k :: 64 word) = (k + 2 ^ 63) mod 2 ^ 64 - 2 ^ 63" for k
    by (simp add: int_word_sint)
  have bounds: "- (2 ^ 63) < d" "d < 2 ^ 63 + 2 ^ 62" using assms by (simp_all add: d_def)
  have fit: "sint (word_of_int k :: 64 word) = k" if "- (2 ^ 63) \<le> k" "k < 2 ^ 63" for k
    using that by (simp add: wrap)
  have over: "sint (word_of_int k :: 64 word) = k - 2 ^ 64" if "2 ^ 63 \<le> k" "k < 2 ^ 63 + 2 ^ 62" for k
  proof -
    have "(k + 2 ^ 63) mod 2 ^ 64 = (k - 2 ^ 63 + 2 ^ 64) mod 2 ^ 64" by (simp add: add.commute)
    also have "\<dots> = (k - 2 ^ 63) mod 2 ^ 64" by (rule mod_add_self2)
    also have "\<dots> = k - 2 ^ 63" using that by (intro mod_pos_pos_trivial) simp_all
    finally have "(k + 2 ^ 63) mod 2 ^ 64 = k - 2 ^ 63" .
    then show ?thesis by (simp add: wrap)
  qed
  have behind: "sint (word_of_int (- k) :: 64 word) = 2 ^ 64 - k" if "2 ^ 63 < k" "k < 2 ^ 63 + 2 ^ 62" for k
  proof -
    have "(- k + 2 ^ 63) mod 2 ^ 64 = (- k + 2 ^ 63 + 2 ^ 64) mod 2 ^ 64" by (rule mod_add_self2 [symmetric])
    also have "\<dots> = - k + 2 ^ 63 + 2 ^ 64" using that by (intro mod_pos_pos_trivial) simp_all
    finally show ?thesis unfolding wrap by linarith
  qed
  have "drift now_secs ts = (if sint (word_of_int d :: 64 word) < 0 then word_of_int (- d) else word_of_int d)"
    by (simp only: drift_def d_def Let_def wi_hom_sub wi_hom_neg)
  moreover have "sint (word_of_int (- (2 ^ 63)) :: 64 word) = - (2 ^ 63)" by (rule fit) simp_all
  ultimately show ?thesis
    using bounds fit [of d] fit [of "- d"] over [of d] behind [of d] unfolding d_def [symmetric]
    by (cases "d < 2 ^ 63"; cases "d = 2 ^ 63") auto
qed

lemma constant_time_eq: "constant_time_eq_ignore_ascii_case a b \<longleftrightarrow> eq_ignore_ascii_case a b"
proof (cases "length a = length b")
  case True
  have keep: "fold (\<lambda>(x, y) d. or d (of_bool (lower_char x \<noteq> lower_char y))) ps (diff :: 8 word) = 0
      \<longleftrightarrow> diff = 0 \<and> (\<forall>(x, y) \<in> set ps. lower_char x = lower_char y)" for ps diff
    by (induction ps arbitrary: diff) (auto simp: or_eq_0_iff)
  have "(\<forall>(x, y) \<in> set (zip a b). lower_char x = lower_char y) \<longleftrightarrow> map lower_char a = map lower_char b"
    using True by (induction a b rule: list_induct2) auto
  with True show ?thesis by (simp add: constant_time_eq_ignore_ascii_case_def eq_ignore_ascii_case_def to_ascii_lowercase_def keep)
next
  case False
  then have "map lower_char a \<noteq> map lower_char b" by (metis length_map)
  with False show ?thesis by (simp add: constant_time_eq_ignore_ascii_case_def eq_ignore_ascii_case_def to_ascii_lowercase_def)
qed

lemma clock_check:
  assumes "0 \<le> now_secs" "now_secs < 2 ^ 62" "- (2 ^ 63) \<le> ts" "ts < 2 ^ 63" "tol < 2 ^ 60"
  shows "sint (drift now_secs ts) > min (int tol) (2 ^ 63 - 1) \<longleftrightarrow> \<bar>now_secs - ts\<bar> > int tol \<and> now_secs - ts \<noteq> 2 ^ 63"
proof -
  have tol: "int tol < 2 ^ 60" using assms(5) by (metis of_nat_less_iff of_nat_numeral of_nat_power)
  show ?thesis
  proof (cases "now_secs - ts < 2 ^ 63")
    case True
    with tol show ?thesis using sint_drift [OF assms(1-4)] by auto
  next
    case False
    then have "2 ^ 64 - (now_secs - ts) > 2 ^ 62" "\<bar>now_secs - ts\<bar> > int tol" using assms(1-4) tol by simp_all
    with False tol show ?thesis using sint_drift [OF assms(1-4)] by auto
  qed
qed

lemma parsed_timestamp_range: "parse_i64 s = Some i \<Longrightarrow> - (2 ^ 63) \<le> i \<and> i < 2 ^ 63"
  by (auto simp: parse_i64_def Let_def split: prod.splits option.splits if_splits)

lemma header_timestamp_range:
  "header_parts parts ts0 sigs0 = Inr (Some ts, sigs) \<Longrightarrow> (\<And>i. ts0 = Some i \<Longrightarrow> P i) \<Longrightarrow> (\<And>x i. parse_i64 x = Some i \<Longrightarrow> P i)
     \<Longrightarrow> P ts"
  by (induction parts ts0 sigs0 rule: header_parts.induct) (auto split: prod.splits option.splits if_splits)

text \<open>A signature as the sender makes it.\<close>

definition sign :: "(string \<Rightarrow> string \<Rightarrow> string) \<Rightarrow> string \<Rightarrow> string \<Rightarrow> int \<Rightarrow> string" where
  "sign hmac payload secret ts = ''t='' @ show_int ts @ '',v1='' @ hex_lower (hmac (show_int ts @ ''.'' @ payload) secret)"

lemma signed_header:
  assumes "- (2 ^ 63) \<le> ts" and "ts < 2 ^ 63"
  shows "header_parts (split_on (CHR '','') (sign hmac payload secret ts)) None []
    = Inr (Some ts, [hex_lower (hmac (show_int ts @ ''.'' @ payload) secret)])"
proof -
  let ?x = "hex_lower (hmac (show_int ts @ ''.'' @ payload) secret)"
  note ts = plain_parts [OF plain_show_int [of ts]] and x = plain_parts [OF plain_hex_lower [of "hmac (show_int ts @ ''.'' @ payload) secret"]]
  have "sign hmac payload secret ts = (''t='' @ show_int ts) @ CHR '','' # (''v1='' @ ?x)" by (simp add: sign_def)
  then have "split_on (CHR '','') (sign hmac payload secret ts) = [''t='' @ show_int ts, ''v1='' @ ?x]"
    using split_on_append [of "CHR '',''" "''t='' @ show_int ts"] split_on_plain [of "CHR '',''" "''v1='' @ ?x"] ts(1) x(1) by simp
  moreover have "split_pair (''t='' @ show_int ts) = (''t'', Some (show_int ts))" "split_pair (''v1='' @ ?x) = (''v1'', Some ?x)"
    using split_pair_key [of "''t''"] split_pair_key [of "''v1''"] by simp_all
  moreover have "trim ''t'' = ''t''" "trim ''v1'' = ''v1''" by code_simp+
  ultimately show ?thesis using ts(3) x(3) parse_show_int [OF assms] by simp
qed

lemma verify_signed:
  assumes "- (2 ^ 63) \<le> ts" and "ts < 2 ^ 63"
  shows "verify_signature hmac payload (sign hmac payload secret ts) secret now_secs tol
    = (if sint (drift now_secs ts) > min (int tol) (2 ^ 63 - 1) then Inl BadTimestamp else Inr ())"
proof -
  have "constant_time_eq_ignore_ascii_case x x" for x by (simp add: constant_time_eq eq_ignore_ascii_case_def)
  then show ?thesis unfolding verify_signature_def signed_header [OF assms] by (simp add: Let_def)
qed

text \<open>A delivery signed with the shared secret is accepted exactly while the clocks
  are close: the header a sender makes for a payload at time \<open>ts\<close> verifies when the
  receiver's clock is within the tolerance, and is refused for its timestamp
  otherwise.\<close>

theorem signed_delivery_accepted:
  assumes "0 \<le> now_secs" "now_secs < 2 ^ 62" "0 \<le> ts" "ts < 2 ^ 62" "tol < 2 ^ 60"
  shows "verify_signature hmac payload (sign hmac payload secret ts) secret now_secs tol
    = (if \<bar>now_secs - ts\<bar> \<le> int tol then Inr () else Inl BadTimestamp)"
proof -
  have range: "- (2 ^ 63) \<le> ts" "ts < 2 ^ 63" using assms(3,4) by simp_all
  have "now_secs - ts \<noteq> 2 ^ 63" using assms by simp
  with clock_check [OF assms(1,2) range assms(5)]
  have late: "sint (drift now_secs ts) > min (int tol) (2 ^ 63 - 1) \<longleftrightarrow> \<bar>now_secs - ts\<bar> > int tol" by simp
  then show ?thesis unfolding verify_signed [OF range] by auto
qed

theorem signed_delivery_accepted_witness:
  "verify_signature (\<lambda>m k. k @ m) ''{}'' (sign (\<lambda>m k. k @ m) ''{}'' ''whsec'' 1700000000) ''whsec'' 1700000060 STRIPE_TIMESTAMP_TOLERANCE = Inr ()"
  using signed_delivery_accepted [of 1700000060 1700000000 STRIPE_TIMESTAMP_TOLERANCE] by (simp add: STRIPE_TIMESTAMP_TOLERANCE_def)

text \<open>(C29) A webhook delivery has an effect only when it is signed: unless the header
  carries a signature equal, up to case, to the HMAC of its timestamp and the body
  under the shared secret, with a timestamp within five minutes of the clock, the
  delivery is refused as forbidden and nothing changes. The one exception is the
  timestamp that lies exactly \<open>2 ^ 63\<close> seconds back, where the 64-bit difference
  wraps around.\<close>

theorem webhook_effects_are_signed:
  assumes "webhook st h body s = (r, t)" and "unix_secs (now s) < 2 ^ 62"
  shows "(t = s \<and> (\<exists>msg. r = Inl (Problem (Forbidden msg))))
    \<or> (\<exists>header ts sigs sg. header_str h ''stripe-signature'' = Some header
        \<and> header_parts (split_on (CHR '','') header) None [] = Inr (Some ts, sigs) \<and> sg \<in> set sigs
        \<and> eq_ignore_ascii_case sg (hex_lower (ba_hmac st (show_int ts @ ''.'' @ body) (ba_webhook_secret st)))
        \<and> (\<bar>unix_secs (now s) - ts\<bar> \<le> 300 \<or> unix_secs (now s) - ts = 2 ^ 63))"
proof (cases "header_str h ''stripe-signature''")
  case None
  with assms(1) show ?thesis by (auto simp: webhook_def fail_def)
next
  case (Some header)
  let ?n = "unix_secs (now s)"
  have clock: "0 \<le> ?n" by (simp add: unix_secs_def pos_imp_zdiv_nonneg_iff)
  show ?thesis
  proof (cases "verify_signature (ba_hmac st) body header (ba_webhook_secret st) ?n STRIPE_TIMESTAMP_TOLERANCE")
    case (Inl e)
    with assms(1) Some have "t = s \<and> (\<exists>msg. r = Inl (Problem (Forbidden msg)))"
      by (auto simp: webhook_def of_option_def bindE_def getS_def of_sum_def fail_def)
    then show ?thesis ..
  next
    case (Inr u)
    then obtain ts sigs where parts: "header_parts (split_on (CHR '','') header) None [] = Inr (Some ts, sigs)"
      and late: "\<not> sint (drift ?n ts) > min (int STRIPE_TIMESTAMP_TOLERANCE) (2 ^ 63 - 1)"
      and hit: "\<exists>x \<in> set sigs. constant_time_eq_ignore_ascii_case x (hex_lower (ba_hmac st (show_int ts @ ''.'' @ body) (ba_webhook_secret st)))"
      by (auto simp: verify_signature_def Let_def split: sum.splits option.splits if_splits)
    have "- (2 ^ 63) \<le> ts \<and> ts < 2 ^ 63" by (rule header_timestamp_range [OF parts]) (simp_all only: parsed_timestamp_range option.distinct)
    with clock_check [of ?n ts STRIPE_TIMESTAMP_TOLERANCE] clock assms(2) late
    have "\<bar>?n - ts\<bar> \<le> 300 \<or> ?n - ts = 2 ^ 63" by (auto simp: STRIPE_TIMESTAMP_TOLERANCE_def)
    with Some parts hit show ?thesis unfolding constant_time_eq by blast
  qed
qed

definition demo_org_hook :: "int \<Rightarrow> string" where
  "demo_org_hook ts = sign (\<lambda>m k. k @ m) ''evt_1'' ''whsec'' ts"

definition demo_billing :: "bool \<Rightarrow> billing" where
  "demo_billing bypass = api.extend
     (demo_api\<lparr>pg_bypass := bypass, pg_clock := (\<lambda>_. 0),
        organizations := [demo_org_row\<lparr>o_stripe_customer_id := Some ''cus_1''\<rparr>]\<rparr>)
     (billing.fields [] (\<lambda>_ _. StripeReply 200 '''' (Inr \<lparr>cks_url = ''https://pay'', cks_customer = Some ''cus_1''\<rparr>)) [])"

definition demo_event :: json where
  "demo_event = JObj [(''id'', JStr ''evt_1''), (''type'', JStr ''checkout.session.completed''),
     (''data'', JObj [(''object'', JObj [(''metadata'', JObj [(''organization_id'', JStr ''1''), (''target_plan'', JStr ''pro'')])])])]"

definition demo_billing_app :: "billing billing_app" where
  "demo_billing_app =
     \<lparr>app_runner = \<lparr>lr_secrets = pgcrypto_store secret_refs ''kek'', lr_ssh = openssh_ssh (openssh_new None),
        lr_helm = helm_cli_executor (helm_new None), lr_kubectl = kubectl_cli_executor (kubectl_new None), lr_uuid_v5 = length\<rparr>,
      app_secret_store = pgcrypto_store secret_refs ''kek'',
      app_settings = \<lparr>cset_ssh_key = ''key'', cset_user_data = '''', cset_k3s_version = ''v1.30''\<rparr>,
      app_allow_header_actor = False, app_parse_uuid = parse_nat,
      ba_service = \<lparr>bs_stripe = http_stripe_new ''sk'', bs_success_url = ''https://ok'', bs_cancel_url = ''https://no''\<rparr>,
      ba_webhook_secret = ''whsec'', ba_hmac = (\<lambda>m k. k @ m), ba_parse_json = (\<lambda>b. Inr demo_event)\<rparr>"

theorem webhook_effects_are_signed_witness:
  "fst (webhook demo_billing_app [(''stripe-signature'', demo_org_hook 10)] ''evt_1'' (demo_billing True)) = Inr 200
   \<and> (\<exists>ts sigs sg. header_parts (split_on (CHR '','') (demo_org_hook 10)) None [] = Inr (Some ts, sigs) \<and> sg \<in> set sigs
        \<and> eq_ignore_ascii_case sg (hex_lower (''whsec'' @ show_int ts @ ''.evt_1'')) \<and> (\<bar>0 - ts\<bar> \<le> 300 \<or> 0 - ts = 2 ^ 63))"
proof -
  let ?run = "webhook demo_billing_app [(''stripe-signature'', demo_org_hook 10)] ''evt_1'' (demo_billing True)"
  let ?h = "demo_org_hook 10"
  have clock: "unix_secs (now (demo_billing True)) = 0" by code_simp
  have "verify_signature (\<lambda>m k. k @ m) ''evt_1'' ?h ''whsec'' 0 STRIPE_TIMESTAMP_TOLERANCE = Inr ()"
    using clock_check [of 0 10 STRIPE_TIMESTAMP_TOLERANCE]
    by (simp add: demo_org_hook_def verify_signed STRIPE_TIMESTAMP_TOLERANCE_def)
  moreover have "fst (process_event parse_nat demo_event ''evt_1'' (demo_billing True)) = Inr ()" by code_simp
  moreover have h: "header_str [(''stripe-signature'', ?h)] ''stripe-signature'' = Some ?h" by code_simp
  moreover have app: "ba_hmac demo_billing_app = (\<lambda>m k. k @ m)" "ba_webhook_secret demo_billing_app = ''whsec''"
    "ba_parse_json demo_billing_app = (\<lambda>b. Inr demo_event)" "app_parse_uuid demo_billing_app = parse_nat"
    by (simp_all add: demo_billing_app_def)
  ultimately have ok: "fst ?run = Inr 200"
    by (auto simp: webhook_def of_option_def getS_def of_sum_def bindE_def clock ret_def split: prod.splits sum.splits)
  then have run: "?run = (Inr 200, snd ?run)" by (metis prod.collapse)
  have "unix_secs (now (demo_billing True)) < 2 ^ 62" by (simp add: clock)
  from webhook_effects_are_signed [OF run this] ok show ?thesis unfolding clock h app by simp
qed

section \<open>Plans\<close>

lemma billing_audit_frame [simp]:
  "organizations (billing_audit x y s) = organizations s" "subscription_events (billing_audit x y s) = subscription_events s"
  "pg_fault (billing_audit x y s) = pg_fault s" "pg_calls (billing_audit x y s) = pg_calls s"
  "pg_uuid (billing_audit x y s) = pg_uuid s"
  by (simp_all add: billing_audit_def audit_log_append_explicit_def Let_def)

lemma billing_audits_frame [simp]:
  "organizations (fold (\<lambda>r. billing_audit r (f r)) rs s) = organizations s"
  "subscription_events (fold (\<lambda>r. billing_audit r (f r)) rs s) = subscription_events s"
  "pg_fault (fold (\<lambda>r. billing_audit r (f r)) rs s) = pg_fault s" "pg_calls (fold (\<lambda>r. billing_audit r (f r)) rs s) = pg_calls s"
  "pg_uuid (fold (\<lambda>r. billing_audit r (f r)) rs s) = pg_uuid s"
  by (induction rs arbitrary: s) simp_all

lemma update_orgs_frame [simp]:
  "organizations (update_orgs hit f s) = sql_update hit (\<lambda>r. (f r)\<lparr>o_updated_at := now s, o_version := o_version r + 1\<rparr>) (organizations s)"
  "subscription_events (update_orgs hit f s) = subscription_events s"
  "pg_fault (update_orgs hit f s) = pg_fault s" "pg_calls (update_orgs hit f s) = pg_calls s" "pg_uuid (update_orgs hit f s) = pg_uuid s"
  by (simp_all add: update_orgs_def)

lemma billing_frame_tick [simp]:
  "subscription_events (tick s) = subscription_events s" "organizations (tick s) = organizations s"
  by (simp_all add: tick_def)

lemma update_plan_ok:
  "update_plan org p s = (Inr u, t) \<Longrightarrow> organizations t = sql_update (\<lambda>r. org_visible s r \<and> o_id r = org)
      (\<lambda>r. r\<lparr>o_plan := p, o_updated_at := now s, o_version := o_version r + 1\<rparr>) (organizations s)
    \<and> subscription_events t = subscription_events s"
  by (auto simp: update_plan_def tx_eq_Inr)

lemma append_event_ok:
  "append_event ev org ty payload d s = (Inr b, t) \<Longrightarrow> organizations t = organizations s
    \<and> b = (ev \<notin> se_stripe_event_id ` set (subscription_events s))
    \<and> (if b then \<exists>row. subscription_events t = subscription_events s @ [row] \<and> se_stripe_event_id row = ev \<and> se_org row = org
              \<and> se_event_type row = ty \<and> se_decision row = d
       else subscription_events t = subscription_events s)"
  by (auto simp: append_event_def bindE_eq_Inr tx_eq_Inr new_id_def split: if_splits option.splits)

text \<open>What a completed checkout does when the database answers: the plan of the rows the
  pool can see, and one logged event unless its id is known.\<close>

lemma checkout_completion_run:
  assumes "apply_checkout_completion ev org p payload s = (Inr (), t)"
  shows "organizations t = sql_update (\<lambda>r. org_visible s r \<and> o_id r = org) (\<lambda>r. r\<lparr>o_plan := p, o_updated_at := now s, o_version := o_version r + 1\<rparr>) (organizations s)
    \<and> (if ev \<in> se_stripe_event_id ` set (subscription_events s) then subscription_events t = subscription_events s
       else \<exists>row. subscription_events t = subscription_events s @ [row] \<and> se_stripe_event_id row = ev \<and> se_org row = Some org
              \<and> se_event_type row = ''checkout.session.completed'' \<and> se_decision row = ''plan_applied'')"
proof -
  obtain s1 b s2 where "update_plan org p s = (Inr (), s1)" "t = s2"
    "append_event ev (Some org) ''checkout.session.completed'' payload ''plan_applied'' s1 = (Inr b, s2)"
    using assms by (auto simp: apply_checkout_completion_def bindE_eq_Inr map_err_eq_Inr ret_def)
  with update_plan_ok [of org p s "()" s1] append_event_ok show ?thesis by fastforce
qed

text \<open>Under the application role a paid checkout changes no plan: the billing
  statements run outside a tenant scope, where row-level security hides every
  organization, and the number of updated rows is not checked. The handler answers
  as if the plan had been applied and the delivery is logged as \<open>plan_applied\<close>.\<close>

theorem checkout_lost_under_rls:
  assumes "apply_checkout_completion ev org p payload s = (Inr (), t)"
    and "\<not> pg_bypass s" and "org \<noteq> nil_uuid" and "ev \<notin> se_stripe_event_id ` set (subscription_events s)"
  shows "organizations t = organizations s
    \<and> (\<exists>row. subscription_events t = subscription_events s @ [row] \<and> se_org row = Some org \<and> se_decision row = ''plan_applied'')"
proof -
  have "\<not> (org_visible s r \<and> o_id r = org)" for r using assms(2,3) by (auto simp: org_visible_def rls_unscoped)
  with checkout_completion_run [OF assms(1)] assms(4) show ?thesis by (auto simp: sql_update_none)
qed

theorem checkout_lost_under_rls_witness:
  "case apply_checkout_completion ''evt_1'' 1 Pro ''body'' (demo_billing False) of
     (r, t) \<Rightarrow> r = Inr () \<and> organizations t = organizations (demo_billing False) \<and> length (subscription_events t) = 1"
proof -
  let ?run = "apply_checkout_completion ''evt_1'' 1 Pro ''body'' (demo_billing False)"
  have "fst ?run = Inr ()" by code_simp
  then have run: "?run = (Inr (), snd ?run)" by (metis prod.collapse)
  have ok: "\<not> pg_bypass (demo_billing False)" "(1 :: uuid) \<noteq> nil_uuid" "subscription_events (demo_billing False) = []" by code_simp+
  from checkout_lost_under_rls [OF run ok(1,2)] ok(3) show ?thesis by (subst run) auto
qed

text \<open>A repeated delivery is applied again: when the event is already logged and
  the pool sees the organization, the log stays as it is but the plan is set once
  more, whatever happened to it in between. The unique index on the event id comes
  after the update and does not guard it.\<close>

theorem redelivery_reapplies_plan:
  assumes "apply_checkout_completion ev org p payload s = (Inr (), t)"
    and "pg_bypass s" and "ev \<in> se_stripe_event_id ` set (subscription_events s)"
  shows "subscription_events t = subscription_events s
    \<and> (\<forall>r \<in> set (organizations t). o_id r = org \<longrightarrow> o_plan r = p)
    \<and> map o_id (organizations t) = map o_id (organizations s)"
proof -
  have orgs: "organizations t = sql_update (\<lambda>r. o_id r = org) (\<lambda>r. r\<lparr>o_plan := p, o_updated_at := now s, o_version := o_version r + 1\<rparr>) (organizations s)"
    and log: "subscription_events t = subscription_events s"
    using checkout_completion_run [OF assms(1)] assms(2,3) by (simp_all add: org_visible_def rls_def)
  have "map o_id (organizations t) = map o_id (organizations s)" unfolding orgs by (rule map_sql_update_same) simp
  moreover have "\<forall>r \<in> set (organizations t). o_id r = org \<longrightarrow> o_plan r = p" unfolding orgs ball_sql_update by simp
  ultimately show ?thesis using log by blast
qed

theorem redelivery_reapplies_plan_witness:
  "let s1 = snd (apply_checkout_completion ''evt_1'' 1 Pro ''body'' (demo_billing True));
       s2 = snd (apply_subscription_cancelled ''evt_2'' ''cus_1'' ''body'' s1);
       s3 = snd (apply_checkout_completion ''evt_1'' 1 Pro ''body'' s2)
   in map o_plan (organizations s2) = [Free] \<and> (\<forall>r \<in> set (organizations s3). o_id r = 1 \<longrightarrow> o_plan r = Pro)
      \<and> subscription_events s3 = subscription_events s2"
proof -
  define s2 where "s2 = snd (apply_subscription_cancelled ''evt_2'' ''cus_1'' ''body''
    (snd (apply_checkout_completion ''evt_1'' 1 Pro ''body'' (demo_billing True))))"
  let ?run = "apply_checkout_completion ''evt_1'' 1 Pro ''body'' s2"
  have s2: "map o_plan (organizations s2) = [Free]" "pg_bypass s2" "''evt_1'' \<in> se_stripe_event_id ` set (subscription_events s2)" "fst ?run = Inr ()"
    unfolding s2_def by code_simp+
  then have run: "?run = (Inr (), snd ?run)" by (metis prod.collapse)
  from redelivery_reapplies_plan [OF run s2(2,3)] s2(1) show ?thesis by (simp add: Let_def s2_def)
qed

end
