(* ===== verification/Api_Mfa.thy ===== *)
theory Api_Mfa
  imports Api_Common
begin

text \<open>
  The passkey and recovery-code handlers (\<open>api/src/auth_passkey.rs\<close>): registration and
  assertion ceremonies, the inventory, the recovery codes and the audit entries they
  append. What \<open>webauthn-rs\<close>, \<open>serde_json\<close> and \<open>base64\<close> compute is an argument.
\<close>

section \<open>State\<close>

text \<open>The map of nicknames behind its mutex, and the draws of the random generator:
  batch number and position.\<close>

record mfa = api +
  pending_nicknames :: "(uuid \<times> string) list"
  code_draw :: "nat \<Rightarrow> nat \<Rightarrow> nat"
  code_batches :: nat

lemma mfa_frame_tick [simp]:
  "pending_nicknames (tick s) = pending_nicknames s" "code_draw (tick s) = code_draw s" "code_batches (tick s) = code_batches s"
  by (simp_all add: tick_def)

record ('s, 'ch, 'resp, 'st, 'pk, 'res) mfa_app = "'s app_state" +
  ma_ceremonies :: "(('ch, 'resp, 'st, 'pk, 'res) webauthn_lib \<times> 's ceremony_ops) option"
  ma_de_passkey :: "string \<Rightarrow> string + 'pk"
  ma_resp_id :: "'resp \<Rightarrow> string"
  ma_b64url_encode :: "string \<Rightarrow> string"
  ma_b64url_decode :: "string \<Rightarrow> string option"

section \<open>Helpers\<close>

definition require_ceremonies ::
    "('s, 'ch, 'resp, 'st, 'pk, 'res) mfa_app
      \<Rightarrow> ('s, api_error, ('ch, 'resp, 'st, 'pk, 'res) webauthn_lib \<times> 's ceremony_ops) op" where
  "require_ceremonies st = of_option (Problem (Internal
     ''WebAuthn is not configured on this deployment (KUBINATE__WEBAUTHN_RP_ID + KUBINATE__WEBAUTHN_RP_ORIGIN)'')) (ma_ceremonies st)"

definition sanitize_nickname :: "string \<Rightarrow> api_error + string" where
  "sanitize_nickname raw =
     (let trimmed = trim raw in
      if trimmed = [] then Inl (Problem (Invalid ''nickname must not be empty''))
      else if char_count trimmed > 64 then Inl (Problem (Invalid ''nickname must be 64 characters or fewer''))
      else Inr trimmed)"

definition webauthn_to_api :: "webauthn_error \<Rightarrow> api_error" where
  "webauthn_to_api e =
     (case e of
        WaCeremonyMissing \<Rightarrow> Problem (NotFound ''webauthn ceremony not found or expired'')
      | WaRejected msg \<Rightarrow> Problem (Forbidden msg)
      | WaConfig msg \<Rightarrow> Problem (Internal msg)
      | WaStorage p \<Rightarrow> Problem p)"

definition decode_credential_id :: "('s, 'ch, 'resp, 'st, 'pk, 'res) mfa_app \<Rightarrow> string \<Rightarrow> string option" where
  "decode_credential_id st x = ma_b64url_decode st x"

definition deserialize_passkey :: "('s, 'ch, 'resp, 'st, 'pk, 'res) mfa_app \<Rightarrow> string \<Rightarrow> webauthn_error + 'pk" where
  "deserialize_passkey st blob = (case ma_de_passkey st blob of Inl e \<Rightarrow> Inl (WaStorage (Internal e)) | Inr pk \<Rightarrow> Inr pk)"

text \<open>\<open>iter().map(deserialize_passkey).collect::<Result<Vec<_>, _>>()\<close>.\<close>

fun collect_results :: "('e + 'a) list \<Rightarrow> 'e + 'a list" where
  "collect_results [] = Inr []"
| "collect_results (Inl e # xs) = Inl e"
| "collect_results (Inr a # xs) = (case collect_results xs of Inl e \<Rightarrow> Inl e | Inr r \<Rightarrow> Inr (a # r))"

section \<open>Audit entries\<close>

definition audit_passkey_event_for_actor ::
    "actor \<Rightarrow> headers \<Rightarrow> string \<Rightarrow> string \<Rightarrow> string option \<Rightarrow> string \<Rightarrow> ('z mfa_scheme, api_error, unit) op" where
  "audit_passkey_event_for_actor a h action rtype rid meta =
     tx (\<lambda>e. Problem (Database e))
       (bindE (map_err Problem (append_explicit (from_actor_and_headers a h) (act_org a) action rtype rid ''allowed'' meta)) (\<lambda>_. ret ()))"

text \<open>The memberships are read on the pool, outside a tenant scope; then one entry on the
  chain of each organization, each in its own transaction.\<close>

definition audit_passkey_event_for_user_with_decision ::
    "uuid \<Rightarrow> headers \<Rightarrow> string \<Rightarrow> string \<Rightarrow> string option \<Rightarrow> string \<Rightarrow> string \<Rightarrow> ('z mfa_scheme, api_error, unit) op" where
  "audit_passkey_event_for_user_with_decision u h action rtype rid decision meta =
     bindE (tx (\<lambda>e. Problem (Database e)) (\<lambda>s.
       (Inr (map m_org (filter (\<lambda>m. rls s None (m_org m) \<and> m_user m = u \<and> m_deleted_at m = None \<and> (m_role m = Owner \<or> m_role m = Admin))
          (memberships s))), s))) (\<lambda>orgs.
     forE (\<lambda>org. tx (\<lambda>e. Problem (Database e))
       (bindE (map_err Problem (append_explicit (from_user_id_and_headers u h) org action rtype rid decision meta)) (\<lambda>_. ret ()))) orgs)"

definition audit_passkey_event_for_user ::
    "uuid \<Rightarrow> headers \<Rightarrow> string \<Rightarrow> string \<Rightarrow> string option \<Rightarrow> string \<Rightarrow> ('z mfa_scheme, api_error, unit) op" where
  "audit_passkey_event_for_user u h action rtype rid meta =
     audit_passkey_event_for_user_with_decision u h action rtype rid ''allowed'' meta"

section \<open>Registration\<close>

definition register_start ::
    "('z mfa_scheme, 'ch, 'resp, 'st, 'pk, 'res) mfa_app \<Rightarrow> actor \<Rightarrow> string \<Rightarrow> ('z mfa_scheme, api_error, uuid \<times> 'ch) op" where
  "register_start st a raw =
     bindE (require_ceremonies st) (\<lambda>(lib, store).
     bindE (of_sum id (sanitize_nickname raw)) (\<lambda>nickname.
     bindE (map_err Problem (passkey_list_live (act_user a))) (\<lambda>existing.
     bindE (map_err Problem (user_email (act_user a))) (\<lambda>email.
     bindE (map_err webauthn_to_api (start_registration lib store (act_user a) email email
       (List.map_filter (\<lambda>p. decode_credential_id st (pk_credential_id p)) existing))) (\<lambda>(ceremony_id, challenge).
     bindE (\<lambda>s. (Inr (), s\<lparr>pending_nicknames := AList.update ceremony_id nickname (pending_nicknames s)\<rparr>)) (\<lambda>_.
     ret (ceremony_id, challenge)))))))"

record passkey_view =
  pv_id :: uuid
  pv_nickname :: string
  pv_registered_at :: timestamp
  pv_last_used_at :: "timestamp option"

definition passkey_view_of :: "passkey \<Rightarrow> passkey_view" where
  "passkey_view_of p =
     \<lparr>pv_id = pk_id p, pv_nickname = pk_nickname p, pv_registered_at = pk_registered_at p, pv_last_used_at = pk_last_used_at p\<rparr>"

definition take_nickname :: "uuid \<Rightarrow> ('z mfa_scheme, 'e, string) op" where
  "take_nickname i s =
     (Inr (case map_of (pending_nicknames s) i of None \<Rightarrow> ''Passkey'' | Some n \<Rightarrow> n),
      s\<lparr>pending_nicknames := AList.delete i (pending_nicknames s)\<rparr>)"

definition register_finish ::
    "('z mfa_scheme, 'ch, 'resp, 'st, 'pk, 'res) mfa_app \<Rightarrow> actor \<Rightarrow> headers \<Rightarrow> uuid \<Rightarrow> 'resp
      \<Rightarrow> ('z mfa_scheme, api_error, nat \<times> passkey_view) op" where
  "register_finish st a h ceremony_id resp =
     bindE (require_ceremonies st) (\<lambda>(lib, store).
     bindE (take_nickname ceremony_id) (\<lambda>nickname.
     bindE (map_err webauthn_to_api (finish_registration lib store ceremony_id resp)) (\<lambda>done_reg.
     bindE (map_err Problem (passkey_insert (act_user a) (creg_credential_id done_reg) (creg_credential_blob done_reg) nickname)) (\<lambda>row.
     bindE (getS (\<lambda>s. pg_uuid_text s (pk_id row))) (\<lambda>rid.
     bindE (audit_passkey_event_for_actor a h ''passkey.enrolled'' ''user_passkey'' (Some rid)
       (json_field ''nickname'' (json_text (Some (pk_nickname row))))) (\<lambda>_.
     ret (201, passkey_view_of row)))))))"

section \<open>Assertion\<close>

definition assert_start ::
    "('z mfa_scheme, 'ch, 'resp, 'st, 'pk, 'res) mfa_app \<Rightarrow> session_user \<Rightarrow> ('z mfa_scheme, api_error, uuid \<times> 'ch) op" where
  "assert_start st user =
     bindE (require_ceremonies st) (\<lambda>(lib, store).
     bindE (map_err Problem (passkey_list_live (su_user user))) (\<lambda>live.
     if live = [] then fail (Problem (Conflict ''no registered passkeys; visit /app/settings/security to enroll''))
     else
       bindE (of_sum webauthn_to_api (collect_results (map (\<lambda>p. deserialize_passkey st (pk_credential p)) live))) (\<lambda>passkeys.
       map_err webauthn_to_api (start_assertion lib store (su_user user) passkeys))))"

text \<open>The first half of \<open>assert_finish\<close>: the row the response points at, the library's
  verdict on the open ceremony, and the counter. The second half promotes the session
  that made the call; \<open>Uuid::nil()\<close> stands for the development header mode, which has
  no session row.\<close>

definition verify_assertion ::
    "('z mfa_scheme, 'ch, 'resp, 'st, 'pk, 'res) mfa_app \<Rightarrow> session_user \<Rightarrow> uuid \<Rightarrow> 'resp \<Rightarrow> ('z mfa_scheme, api_error, passkey) op" where
  "verify_assertion st user ceremony_id resp =
     bindE (require_ceremonies st) (\<lambda>(lib, store).
     bindE (map_err Problem (find_by_credential_id (ma_b64url_encode st (ma_resp_id st resp)))) (\<lambda>found.
     bindE (of_option (Problem (Forbidden ''no live passkey matches this assertion'')) found) (\<lambda>row.
     if pk_user row \<noteq> su_user user then fail (Problem (Forbidden ''passkey does not belong to this user''))
     else
       bindE (of_sum webauthn_to_api (deserialize_passkey st (pk_credential row))) (\<lambda>pk.
       bindE (map_err webauthn_to_api (finish_assertion lib store ceremony_id (pk_id row) pk resp)) (\<lambda>fin.
       bindE (map_err Problem (record_use (pk_id row) (casr_new_sign_counter fin) (casr_updated_credential_blob fin))) (\<lambda>_.
       ret row))))))"

definition promote :: "uuid \<Rightarrow> ('z mfa_scheme, api_error, unit) op" where
  "promote sid = (if sid = nil_uuid then ret () else map_err Problem (mark_mfa_satisfied sid))"

definition assertion_done :: "session_user \<Rightarrow> headers \<Rightarrow> passkey \<Rightarrow> ('z mfa_scheme, api_error, bool) op" where
  "assertion_done user h row =
     bindE (promote (su_session user)) (\<lambda>_.
     bindE (getS (\<lambda>s. (pg_uuid_text s (pk_id row), pg_uuid_text s (su_session user)))) (\<lambda>(rid, sid).
     bindE (audit_passkey_event_for_user (su_user user) h ''passkey.used'' ''user_passkey'' (Some rid)
       (json_field ''session_id'' (json_text (Some sid)))) (\<lambda>_.
     ret True)))"

definition assert_finish ::
    "('z mfa_scheme, 'ch, 'resp, 'st, 'pk, 'res) mfa_app \<Rightarrow> session_user \<Rightarrow> headers \<Rightarrow> uuid \<Rightarrow> 'resp
      \<Rightarrow> ('z mfa_scheme, api_error, bool) op" where
  "assert_finish st user h ceremony_id resp =
     bindE (verify_assertion st user ceremony_id resp) (assertion_done user h)"

section \<open>Inventory\<close>

definition passkeys_list :: "actor \<Rightarrow> ('z mfa_scheme, api_error, passkey_view list) op" where
  "passkeys_list a =
     bindE (map_err Problem (passkey_list_live (act_user a))) (\<lambda>rows.
     ret (map passkey_view_of rows))"

definition passkeys_revoke :: "actor \<Rightarrow> headers \<Rightarrow> uuid \<Rightarrow> ('z mfa_scheme, api_error, nat) op" where
  "passkeys_revoke a h i =
     bindE (map_err Problem (passkey_revoke (act_user a) i)) (\<lambda>_.
     bindE (getS (\<lambda>s. pg_uuid_text s i)) (\<lambda>rid.
     bindE (audit_passkey_event_for_actor a h ''passkey.revoked'' ''user_passkey'' (Some rid) ''{}'') (\<lambda>_.
     ret 204)))"

section \<open>Recovery codes\<close>

definition draw_batch :: "('z mfa_scheme, 'e, string list) op" where
  "draw_batch s = (Inr (generate_batch (code_draw s (code_batches s))), s\<lparr>code_batches := Suc (code_batches s)\<rparr>)"

definition recovery_regenerate :: "actor \<Rightarrow> headers \<Rightarrow> ('z mfa_scheme, api_error, string list \<times> nat) op" where
  "recovery_regenerate a h =
     bindE draw_batch (\<lambda>codes.
     bindE (getS (\<lambda>s. map (code_hash (pg_digest s)) codes)) (\<lambda>hashes.
     bindE (map_err Problem (rotate_batch (act_user a) hashes)) (\<lambda>_.
     bindE (getS (\<lambda>s. pg_uuid_text s (act_user a))) (\<lambda>rid.
     bindE (audit_passkey_event_for_actor a h ''recovery_codes.regenerated'' ''user'' (Some rid)
       (json_field ''total'' (show_nat (length codes)))) (\<lambda>_.
     ret (codes, length codes))))))"

text \<open>The two outcomes of the lookup, then the handler.\<close>

definition redeem_failed :: "session_user \<Rightarrow> headers \<Rightarrow> ('z mfa_scheme, api_error, bool \<times> nat) op" where
  "redeem_failed user h =
     bindE (getS (\<lambda>s. pg_uuid_text s (su_user user))) (\<lambda>rid.
     bindE (ignoreE (audit_passkey_event_for_user_with_decision (su_user user) h ''recovery_codes.redeem_failed'' ''user'' (Some rid)
       ''denied'' ''{}'')) (\<lambda>_.
     fail (Problem (Forbidden ''recovery code is invalid or already used''))))"

definition redeem_done :: "session_user \<Rightarrow> headers \<Rightarrow> ('z mfa_scheme, api_error, bool \<times> nat) op" where
  "redeem_done user h =
     bindE (promote (su_session user)) (\<lambda>_.
     bindE (map_err Problem (count_live (su_user user))) (\<lambda>remaining.
     bindE (getS (\<lambda>s. pg_uuid_text s (su_user user))) (\<lambda>rid.
     bindE (audit_passkey_event_for_user (su_user user) h ''recovery_codes.redeemed'' ''user'' (Some rid)
       (json_field ''remaining'' (show_nat remaining))) (\<lambda>_.
     ret (True, remaining)))))"

definition recovery_redeem :: "session_user \<Rightarrow> headers \<Rightarrow> string \<Rightarrow> ('z mfa_scheme, api_error, bool \<times> nat) op" where
  "recovery_redeem user h code =
     bindE (getS (\<lambda>s. code_hash (pg_digest s) code)) (\<lambda>hash.
     bindE (map_err Problem (try_consume (su_user user) hash)) (\<lambda>consumed.
     if consumed then redeem_done user h else redeem_failed user h))"

section \<open>What audit entries and reads leave alone\<close>

text \<open>A property that the clock, the id generator and the audit log do not bear on: every
  audit helper and every read of the handlers keeps it.\<close>

locale audit_blind =
  fixes P :: "'z mfa_scheme \<Rightarrow> bool"
  assumes P_tick: "P s \<Longrightarrow> P (tick s)"
    and P_audit: "P s \<Longrightarrow> P (audit_log_append_explicit c g a ty r d m s)"
    and P_ids: "P s \<Longrightarrow> P (s\<lparr>pg_uuid_ctr := n\<rparr>)"
begin

lemma keeps_append: "keeps P (tx e (bindE (map_err f (append_explicit ctx org action rtype rid d meta)) (\<lambda>_. ret ())))"
  by (rule keeps_tx) (auto simp: P_tick P_audit append_explicit_def bindE_def map_err_def ret_def)

lemma keeps_audit:
  "keeps P (audit_passkey_event_for_actor a h action rtype rid meta)"
  "keeps P (audit_passkey_event_for_user_with_decision u h action rtype rid d meta)"
  "keeps P (audit_passkey_event_for_user u h action rtype rid meta)"
  unfolding audit_passkey_event_for_actor_def audit_passkey_event_for_user_def audit_passkey_event_for_user_with_decision_def
  by (intro keeps_intros keeps_append P_tick; assumption)+

lemma keeps_mfa_reads:
  "keeps P (find_by_credential_id c)" "keeps P (passkey_list_live u)" "keeps P (count_live u)" "keeps P (user_email u)"
  "keeps P (require_ceremonies st)"
  unfolding find_by_credential_id_def passkey_list_live_def count_live_def require_ceremonies_def user_email_def
  by (intro keeps_intros P_tick; assumption | auto intro!: keeps_tx P_tick split: option.splits)+

lemmas keeps_mfa = keeps_audit keeps_mfa_reads keeps_of_sum

end

interpretation sess: audit_blind "\<lambda>s :: 'z mfa_scheme. sessions s = S" for S
  by unfold_locales simp_all

interpretation cer: audit_blind "\<lambda>s :: 'z mfa_scheme. webauthn_ceremonies s = W" for W
  by unfold_locales simp_all

interpretation codes: audit_blind "\<lambda>s :: 'z mfa_scheme. recovery_codes s = C" for C
  by unfold_locales simp_all

interpretation faults: audit_blind "\<lambda>s :: 'z mfa_scheme. pg_fault s = F" for F
  by unfold_locales simp_all

lemma keeps_ceremonies:
  assumes "\<And>s :: 'z mfa_scheme. P s \<Longrightarrow> P (tick s)" and "\<And>s n. P s \<Longrightarrow> P (s\<lparr>pg_uuid_ctr := n\<rparr>)"
    and "\<And>s W. P s \<Longrightarrow> P (s\<lparr>webauthn_ceremonies := W\<rparr>)"
  shows "keeps P (finish_assertion lib pg_ceremony_store i row_id pk resp)" and "keeps P (finish_registration lib pg_ceremony_store i resp)"
    and "keeps P (start_registration lib pg_ceremony_store u email display excluded)"
    and "keeps P (start_assertion lib pg_ceremony_store u pks)"
proof -
  have put: "keeps P (pg_ceremony_put row)" and take: "keeps P (pg_ceremony_take i k)" for row i k
    unfolding pg_ceremony_put_def pg_ceremony_take_def by (intro keeps_intros keeps_tx; auto simp: assms Let_def split: if_splits)+
  show "keeps P (finish_assertion lib pg_ceremony_store i row_id pk resp)" "keeps P (finish_registration lib pg_ceremony_store i resp)"
    unfolding finish_assertion_def finish_registration_def pg_ceremony_store_def by (auto intro!: keeps_intros keeps_of_sum take)
  show "keeps P (start_registration lib pg_ceremony_store u email display excluded)" "keeps P (start_assertion lib pg_ceremony_store u pks)"
    unfolding start_registration_def start_assertion_def pg_ceremony_store_def
    by (auto intro!: keeps_intros keeps_of_sum put assms split: prod.splits)
qed

lemma keeps_record_use:
  assumes "\<And>s :: 'z mfa_scheme. P s \<Longrightarrow> P (tick s)" and "\<And>s g. P s \<Longrightarrow> P (s\<lparr>user_passkeys := g\<rparr>)"
  shows "keeps P (record_use i n b)"
  unfolding record_use_def by (intro keeps_intros keeps_tx; auto simp: assms Let_def)

lemma keeps_promote:
  assumes "\<And>s :: 'z mfa_scheme. P s \<Longrightarrow> P (tick s)" and "\<And>s S. P s \<Longrightarrow> P (s\<lparr>sessions := S\<rparr>)"
  shows "keeps P (promote i)"
  unfolding promote_def mark_mfa_satisfied_def by (intro keeps_intros keeps_tx; auto simp: assms)

section \<open>A second factor is spent\<close>

text \<open>The step after the one that was taken: a bind that left a kept property behind went
  through its first half.\<close>

lemma bind_past:
  assumes "bindE m k s = (r, t)" and "keeps P m" and "P s" and "\<not> P t"
  obtains a s' where "m s = (Inr a, s')" and "k a s' = (r, t)" and "P s'"
  using assms by (auto simp: bindE_def keeps_def split: prod.splits sum.splits)

lemma promote_ok: "promote sid s = (r, t) \<Longrightarrow> sessions t \<noteq> sessions s \<Longrightarrow>
   sessions t = sql_update (\<lambda>x. s_id x = sid \<and> s_revoked_at x = None) (\<lambda>x. x\<lparr>s_mfa_satisfied := True\<rparr>) (sessions s)"
  by (auto simp: promote_def ret_def map_err_def mark_mfa_satisfied_def tx_def split: if_splits)

lemma finish_assertion_ok:
  assumes "finish_assertion lib pg_ceremony_store i row_id pk resp s = (Inr c, t)"
  shows "\<exists>row \<in> set (webauthn_ceremonies s). ce_id row = i \<and> ce_kind row = Assertion \<and> now s < ce_expires_at row
    \<and> row \<notin> set (webauthn_ceremonies t)
    \<and> (\<exists>w res. wa_de_state lib (ce_state row) = Inr w \<and> wa_finish_authentication lib resp w = Inr res)"
proof -
  obtain row w res where take: "pg_ceremony_take i Assertion s = (Inr (Some row), t)"
    and lib: "wa_de_state lib (ce_state row) = Inr w" "wa_finish_authentication lib resp w = Inr res"
    using assms by (auto simp: finish_assertion_def bindE_eq_Inr of_option_def of_sum_eq_Inr ret_def pg_ceremony_store_def split: option.splits)
  let ?hit = "\<lambda>r. ce_id r = i \<and> ceremony_kind_str (ce_kind r) = ceremony_kind_str Assertion \<and> ce_expires_at r > now s"
  obtain x where x: "find ?hit (webauthn_ceremonies s) = Some x" "row = x\<lparr>ce_kind := parse_ceremony_kind (ceremony_kind_str (ce_kind x))\<rparr>"
      "webauthn_ceremonies t = filter (\<lambda>r. \<not> ?hit r) (webauthn_ceremonies s)"
    using take by (auto simp: pg_ceremony_take_def tx_eq_Inr Let_def)
  then have hit: "?hit x" "x \<in> set (webauthn_ceremonies s)" using find_Some_iff2 [OF x(1)] by blast+
  then have "ce_kind x = Assertion" by (cases "ce_kind x") (simp_all add: ceremony_kind_str_def)
  with hit x(3) lib show ?thesis unfolding x(2) by (intro bexI [of _ x]) auto
qed

datatype 'resp factor_call = AssertFinish uuid 'resp | Redeem string

fun factor_exec ::
    "('z mfa_scheme, 'ch, 'resp, 'st, 'pk, 'res) mfa_app \<Rightarrow> session_user \<Rightarrow> headers \<Rightarrow> 'resp factor_call \<Rightarrow> 'z mfa_scheme \<Rightarrow> 'z mfa_scheme" where
  "factor_exec st user h (AssertFinish i resp) s = snd (assert_finish st user h i resp s)"
| "factor_exec st user h (Redeem code) s = snd (recovery_redeem user h code s)"

text \<open>What a call has to spend: a live passkey of the user together with an open
  ceremony whose response the library accepts, or a live recovery code.\<close>

fun factor_spent ::
    "('s, 'ch, 'resp, 'st, 'pk, 'res) mfa_app \<Rightarrow> ('ch, 'resp, 'st, 'pk, 'res) webauthn_lib \<Rightarrow> session_user
      \<Rightarrow> 'resp factor_call \<Rightarrow> 'z mfa_scheme \<Rightarrow> 'z mfa_scheme \<Rightarrow> bool" where
  "factor_spent st lib user (AssertFinish i resp) s t \<longleftrightarrow>
     (\<exists>p \<in> set (user_passkeys s). pk_user p = su_user user \<and> pk_revoked_at p = None
        \<and> pk_credential_id p = ma_b64url_encode st (ma_resp_id st resp))
     \<and> (\<exists>row \<in> set (webauthn_ceremonies s). ce_id row = i \<and> ce_kind row = Assertion \<and> row \<notin> set (webauthn_ceremonies t)
          \<and> (\<exists>w res. wa_de_state lib (ce_state row) = Inr w \<and> wa_finish_authentication lib resp w = Inr res))"
| "factor_spent st lib user (Redeem code) s t \<longleftrightarrow>
     code_hash (pg_digest s) code \<in> set (live_codes (su_user user) s)
     \<and> code_hash (pg_digest s) code \<notin> set (live_codes (su_user user) t)"

lemma verify_assertion_keeps_sessions:
  "ma_ceremonies st = Some (lib, pg_ceremony_store) \<Longrightarrow> keeps (\<lambda>x. sessions x = S) (verify_assertion st user i resp)"
  unfolding verify_assertion_def require_ceremonies_def
  by (auto intro!: keeps_intros sess.keeps_mfa keeps_ceremonies keeps_record_use)

lemma verify_assertion_ok:
  assumes "verify_assertion st user i resp s = (Inr p, t)" and "ma_ceremonies st = Some (lib, pg_ceremony_store)"
  shows "factor_spent st lib user (AssertFinish i resp) s t"
proof -
  obtain s1 fin pk s2 where find: "find_by_credential_id (ma_b64url_encode st (ma_resp_id st resp)) s = (Inr (Some p), s1)"
    and mine: "pk_user p = su_user user"
    and finish: "finish_assertion lib pg_ceremony_store i (pk_id p) pk resp s1 = (Inr fin, s2)"
    and used: "record_use (pk_id p) (casr_new_sign_counter fin) (casr_updated_credential_blob fin) s2 = (Inr (), t)"
    using assms
    by (auto simp: verify_assertion_def require_ceremonies_def bindE_eq_Inr of_option_def of_sum_eq_Inr ret_def fail_def
        split: option.splits if_splits)
  have "p \<in> set (user_passkeys s) \<and> pk_revoked_at p = None \<and> pk_credential_id p = ma_b64url_encode st (ma_resp_id st resp)"
    and s1: "webauthn_ceremonies s1 = webauthn_ceremonies s"
    using find by (auto simp: find_by_credential_id_def tx_eq_Inr dest!: find_Some_iff2 [OF sym] find_Some_iff2)
  moreover have "webauthn_ceremonies t = webauthn_ceremonies s2"
    by (rule keeps_run [OF keeps_record_use _ used]) auto
  ultimately show ?thesis using finish_assertion_ok [OF finish] mine by auto
qed

lemma spent_cong:
  "factor_spent st lib user c s t \<Longrightarrow> webauthn_ceremonies t' = webauthn_ceremonies t \<Longrightarrow> recovery_codes t' = recovery_codes t
     \<Longrightarrow> factor_spent st lib user c s t'"
  by (cases c) (auto simp: live_codes_def)

text \<open>The second half of both handlers: promote, then read and audit.\<close>

definition promoted_only :: "uuid \<Rightarrow> 'z mfa_scheme \<Rightarrow> 'z mfa_scheme \<Rightarrow> bool" where
  "promoted_only sid s t \<longleftrightarrow>
     (sessions t = sessions s
      \<or> sessions t = sql_update (\<lambda>x. s_id x = sid \<and> s_revoked_at x = None) (\<lambda>x. x\<lparr>s_mfa_satisfied := True\<rparr>) (sessions s))
     \<and> webauthn_ceremonies t = webauthn_ceremonies s \<and> recovery_codes t = recovery_codes s"

lemma promote_tail:
  assumes "bindE (promote sid) k s = (r, t)" and "\<And>a S. keeps (\<lambda>x. sessions x = S) (k a)"
    and "\<And>a W. keeps (\<lambda>x. webauthn_ceremonies x = W) (k a)" and "\<And>a C. keeps (\<lambda>x. recovery_codes x = C) (k a)"
  shows "promoted_only sid s t"
proof -
  have rest: "webauthn_ceremonies t = webauthn_ceremonies s" "recovery_codes t = recovery_codes s"
    using keeps_run [OF keeps_bindE [OF keeps_promote assms(3)] refl assms(1)] keeps_run [OF keeps_bindE [OF keeps_promote assms(4)] refl assms(1)]
    by simp_all
  obtain r1 s1 where one: "promote sid s = (r1, s1)" by fastforce
  have "sessions t = sessions s1"
    using assms(1) keeps_run [OF assms(2) refl, of _ s1] by (cases r1) (auto simp: bindE_def one)
  with promote_ok [OF one] rest show ?thesis by (auto simp: promoted_only_def)
qed

lemma factor_done:
  "assertion_done user h p s = (r, t) \<Longrightarrow> promoted_only (su_session user) s t"
  "redeem_done user h s = (r', t) \<Longrightarrow> promoted_only (su_session user) s t"
  unfolding assertion_done_def redeem_done_def
  by (erule promote_tail; auto intro!: keeps_intros sess.keeps_mfa cer.keeps_mfa codes.keeps_mfa)+

lemma redeem_failed_keeps: "keeps (\<lambda>x. sessions x = S) (redeem_failed user h)"
  unfolding redeem_failed_def by (intro keeps_intros sess.keeps_mfa)

lemma redeem_ok:
  assumes "try_consume (su_user user) (code_hash (pg_digest s) code) s = (Inr True, s1)"
  shows "factor_spent st lib user (Redeem code) s s1"
proof -
  have "\<not> db_faulty s" using assms by (auto simp: try_consume_def tx_eq_Inr db_faulty_def)
  from try_consume_run [OF this, of "su_user user" "code_hash (pg_digest s) code"] assms show ?thesis by auto
qed

lemma try_consume_keeps: "keeps (\<lambda>x. sessions x = S) (try_consume u c)"
  unfolding try_consume_def by (intro keeps_tx) (auto simp: Let_def)

lemma factor_step:
  assumes "ma_ceremonies st = Some (lib, pg_ceremony_store)" and "t = factor_exec st user h c s"
  shows "sessions t = sessions s
    \<or> factor_spent st lib user c s t
      \<and> sessions t = sql_update (\<lambda>x. s_id x = su_session user \<and> s_revoked_at x = None) (\<lambda>x. x\<lparr>s_mfa_satisfied := True\<rparr>) (sessions s)"
proof (cases c)
  case (AssertFinish i resp)
  obtain r1 s1 where one: "verify_assertion st user i resp s = (r1, s1)" by fastforce
  have s1: "sessions s1 = sessions s" by (rule keeps_run [OF verify_assertion_keeps_sessions [OF assms(1)] refl one])
  show ?thesis
  proof (cases r1)
    case (Inl e)
    with one s1 AssertFinish assms(2) show ?thesis by (simp add: assert_finish_def bindE_def)
  next
    case (Inr p)
    obtain r where "assertion_done user h p s1 = (r, t)"
      using assms(2) one by (auto simp: AssertFinish Inr assert_finish_def bindE_def prod_eq_iff)
    from factor_done(1) [OF this] verify_assertion_ok [OF one [unfolded Inr] assms(1)] s1 AssertFinish show ?thesis
      using spent_cong [of st lib user c s s1 t] by (auto simp: promoted_only_def)
  qed
next
  case (Redeem code)
  let ?h = "code_hash (pg_digest s) code"
  obtain r1 s1 where one: "try_consume (su_user user) ?h s = (r1, s1)" by fastforce
  have s1: "sessions s1 = sessions s" by (rule keeps_run [OF try_consume_keeps refl one])
  have t: "t = (case r1 of Inl e \<Rightarrow> s1 | Inr b \<Rightarrow> snd ((if b then redeem_done user h else redeem_failed user h) s1))"
    using assms(2) one by (simp add: Redeem recovery_redeem_def bindE_def getS_def map_err_def split: sum.splits)
  show ?thesis
  proof (cases "r1 = Inr True")
    case True
    then obtain r where "redeem_done user h s1 = (r, t)" using t by (auto simp: prod_eq_iff)
    from factor_done(2) [OF this] redeem_ok [of user s code s1 st lib] one True s1 Redeem show ?thesis
      using spent_cong [of st lib user c s s1 t] by (auto simp: promoted_only_def)
  next
    case False
    then have "sessions t = sessions s1"
      using t keepsD [OF redeem_failed_keeps refl, of user h s1] by (auto split: sum.splits)
    with s1 show ?thesis by simp
  qed
qed

text \<open>(C21) A session becomes MFA-satisfied only for a factor of its user: whatever a call
  of the assertion or the recovery handler answers, the sessions are as they were, or
  exactly the caller's session was promoted and the call spent a live passkey with an
  open ceremony the library accepts, or a live recovery code, of that same user.\<close>

theorem promotion_spends_a_factor:
  assumes "ma_ceremonies st = Some (lib, pg_ceremony_store)" and "t = factor_exec st user h c s"
  shows "sessions t = sessions s
    \<or> factor_spent st lib user c s t
      \<and> sessions t = sql_update (\<lambda>x. s_id x = su_session user \<and> s_revoked_at x = None) (\<lambda>x. x\<lparr>s_mfa_satisfied := True\<rparr>) (sessions s)"
  by (rule factor_step [OF assms])

definition demo_mfa :: mfa where
  "demo_mfa = api.extend
     (demo_api\<lparr>user_passkeys := [\<lparr>pk_id = 40, pk_user = 11, pk_credential_id = ''cred'', pk_credential = ''pk'', pk_sign_counter = 3,
        pk_nickname = ''key'', pk_registered_at = 0, pk_last_used_at = None, pk_revoked_at = None\<rparr>]\<rparr>)
     (mfa.fields [] (\<lambda>b n. n mod 32) 0)"

definition demo_mfa_app :: "(mfa, unit, string, string, string, nat) mfa_app" where
  "demo_mfa_app =
     \<lparr>app_runner = \<lparr>lr_secrets = pgcrypto_store secret_refs ''kek'', lr_ssh = openssh_ssh (openssh_new None),
        lr_helm = helm_cli_executor (helm_new None), lr_kubectl = kubectl_cli_executor (kubectl_new None), lr_uuid_v5 = length\<rparr>,
      app_secret_store = pgcrypto_store secret_refs ''kek'',
      app_settings = \<lparr>cset_ssh_key = ''key'', cset_user_data = '''', cset_k3s_version = ''v1.30''\<rparr>,
      app_allow_header_actor = False, app_parse_uuid = parse_nat,
      ma_ceremonies = Some (demo_lib, pg_ceremony_store), ma_de_passkey = Inr, ma_resp_id = (\<lambda>r. r),
      ma_b64url_encode = (\<lambda>x. x), ma_b64url_decode = Some\<rparr>"

definition demo_session_user :: session_user where
  "demo_session_user = \<lparr>su_user = 11, su_session = 21\<rparr>"

theorem promotion_spends_a_factor_witness:
  "let s = snd (assert_start demo_mfa_app demo_session_user demo_mfa);
       t = factor_exec demo_mfa_app demo_session_user [] (AssertFinish 100 ''cred'') s
   in sessions t \<noteq> sessions s \<and> factor_spent demo_mfa_app demo_lib demo_session_user (AssertFinish 100 ''cred'') s t"
proof -
  let ?s = "snd (assert_start demo_mfa_app demo_session_user demo_mfa)"
  let ?t = "factor_exec demo_mfa_app demo_session_user [] (AssertFinish 100 ''cred'') ?s"
  have "map s_mfa_satisfied (sessions ?t) \<noteq> map s_mfa_satisfied (sessions ?s)" by code_simp
  then have changed: "sessions ?t \<noteq> sessions ?s" by metis
  have "ma_ceremonies demo_mfa_app = Some (demo_lib, pg_ceremony_store)" by (simp add: demo_mfa_app_def)
  from promotion_spends_a_factor [OF this refl, of demo_session_user "[]" "AssertFinish 100 ''cred''" ?s] changed
  show ?thesis unfolding Let_def by blast
qed

section \<open>A session can make its own second factor\<close>

lemma audit_user_run:
  assumes "reliable s"
  shows "\<exists>t. audit_passkey_event_for_user u h action rtype rid meta s = (Inr (), t)"
proof -
  have loop: "\<exists>t. forE (\<lambda>org. tx (\<lambda>e. Problem (Database e))
      (bindE (map_err Problem (append_explicit ctx org action rtype rid d meta)) (\<lambda>_. ret ()))) orgs x = (Inr (), t)"
    if "reliable x" for ctx d orgs and x :: "'z mfa_scheme"
    using that
    by (induction orgs arbitrary: x)
      (auto simp: tx_def reliable_def append_explicit_def bindE_def map_err_def ret_def split: prod.splits)
  have "reliable (tick s)" using assms by (simp add: reliable_def)
  from loop [OF this] show ?thesis
    using assms by (simp add: audit_passkey_event_for_user_def audit_passkey_event_for_user_with_decision_def bindE_def tx_def reliable_def)
qed

lemma redeem_done_run:
  assumes "reliable s" and "su_session user \<noteq> nil_uuid"
  shows "\<exists>n t. redeem_done user h s = (Inr (True, n), t)
    \<and> sessions t = sql_update (\<lambda>x. s_id x = su_session user \<and> s_revoked_at x = None) (\<lambda>x. x\<lparr>s_mfa_satisfied := True\<rparr>) (sessions s)"
proof -
  define s1 where "s1 = snd (promote (su_session user) s)"
  have one: "promote (su_session user) s = (Inr (), s1)" "reliable s1"
    and ses: "sessions s1 = sql_update (\<lambda>x. s_id x = su_session user \<and> s_revoked_at x = None) (\<lambda>x. x\<lparr>s_mfa_satisfied := True\<rparr>) (sessions s)"
    using assms by (simp_all add: s1_def promote_def map_err_def mark_mfa_satisfied_def tx_def reliable_def)
  obtain n s2 where two: "count_live (su_user user) s1 = (Inr n, s2)" "reliable s2"
    using one(2) by (auto simp: count_live_def tx_def reliable_def)
  obtain t where three: "audit_passkey_event_for_user (su_user user) h ''recovery_codes.redeemed'' ''user'' (Some (pg_uuid_text s2 (su_user user)))
      (json_field ''remaining'' (show_nat n)) s2 = (Inr (), t)"
    using audit_user_run [OF two(2)] by blast
  have "sessions t = sessions s1"
    using keeps_run [OF sess.keeps_mfa(3) refl three] keeps_run [OF sess.keeps_mfa(6) refl two(1)] by simp
  with one two three ses show ?thesis by (auto simp: redeem_done_def bindE_def map_err_def getS_def ret_def)
qed

lemma rotate_batch_keeps:
  assumes "\<And>s :: 'z mfa_scheme. P s \<Longrightarrow> P (tick s)" and "\<And>s C. P s \<Longrightarrow> P (s\<lparr>recovery_codes := C\<rparr>)"
    and "\<And>s n. P s \<Longrightarrow> P (s\<lparr>pg_uuid_ctr := n\<rparr>)"
  shows "keeps P (rotate_batch u hs)"
proof -
  have "keeps P (insert_code u c)" for c
    unfolding insert_code_def by (rule keepsI) (simp add: bindE_def new_id_def Let_def assms)
  then have batch: "keeps P (collectE (insert_code u) hs)" by (rule keeps_collectE)
  show ?thesis unfolding rotate_batch_def by (intro keeps_tx) (auto simp: assms elim!: keeps_run [OF batch, rotated])
qed

lemma regenerate_ok:
  assumes "recovery_regenerate a h s = (Inr (cs, n), t)"
  shows "live_codes (act_user a) t = map (code_hash (pg_digest t)) cs"
proof -
  obtain s1 rs s2 where rot: "rotate_batch (act_user a) (map (code_hash (pg_digest s1)) cs) s1 = (Inr rs, s2)"
    and aud: "audit_passkey_event_for_actor a h ''recovery_codes.regenerated'' ''user'' (Some (pg_uuid_text s2 (act_user a)))
      (json_field ''total'' (show_nat (length cs))) s2 = (Inr (), t)"
    using assms by (auto simp: recovery_regenerate_def bindE_eq_Inr getS_def ret_def)
  have "pg_digest s2 = pg_digest s1"
    by (rule keeps_run [where P = "\<lambda>x. pg_digest x = pg_digest s1", OF rotate_batch_keeps refl rot]) simp_all
  moreover have "pg_digest t = pg_digest s2 \<and> recovery_codes t = recovery_codes s2"
    using aud by (auto simp: audit_passkey_event_for_actor_def tx_eq_Inr append_explicit_def bindE_def map_err_def ret_def)
  ultimately show ?thesis using rotate_batch_ok(1) [OF rot] by (simp add: live_codes_def)
qed

lemma regenerate_keeps_faults: "keeps (\<lambda>x :: 'z mfa_scheme. pg_fault x = F) (recovery_regenerate a h)"
  unfolding recovery_regenerate_def
  by (intro keeps_intros rotate_batch_keeps faults.keeps_audit) (auto simp: draw_batch_def intro!: keepsI)

text \<open>(C22) The gate in front of the second factor opens from the inside: any session that
  reaches the recovery handlers, satisfied or not, can draw a new batch of codes and
  redeem one of them, after which it counts as MFA-satisfied. The extractor of the
  regenerate handler does not ask for a satisfied session.\<close>

theorem session_mints_its_own_factor:
  assumes "recovery_regenerate a h s = (Inr (codes, n), t)" and "reliable t" and "c \<in> set codes" and "act_session a \<noteq> nil_uuid"
  shows "\<exists>m u. recovery_redeem \<lparr>su_user = act_user a, su_session = act_session a\<rparr> h' c t = (Inr (True, m), u)
    \<and> (\<forall>x \<in> set (sessions u). s_id x = act_session a \<and> s_revoked_at x = None \<longrightarrow> s_mfa_satisfied x)"
proof -
  let ?user = "\<lparr>su_user = act_user a, su_session = act_session a\<rparr>"
  have "code_hash (pg_digest t) c \<in> set (live_codes (act_user a) t)" using regenerate_ok [OF assms(1)] assms(3) by simp
  moreover have "\<not> db_faulty t" using assms(2) by (rule reliable_not_faulty)
  ultimately obtain t1 where one: "try_consume (act_user a) (code_hash (pg_digest t) c) t = (Inr True, t1)"
    using try_consume_run [of t "act_user a" "code_hash (pg_digest t) c"] by auto
  then have "reliable t1" using assms(2) by (auto simp: try_consume_def tx_def reliable_def Let_def split: if_splits)
  from redeem_done_run [OF this, of ?user h'] assms(4) obtain m u where "redeem_done ?user h' t1 = (Inr (True, m), u)"
      "sessions u = sql_update (\<lambda>x. s_id x = act_session a \<and> s_revoked_at x = None) (\<lambda>x. x\<lparr>s_mfa_satisfied := True\<rparr>) (sessions t1)"
    by auto
  with one show ?thesis by (auto simp: recovery_redeem_def bindE_def getS_def map_err_def ball_sql_update)
qed

theorem session_mints_its_own_factor_witness:
  "let h = [(''cookie'', ''kubinate_session=21'')]; a = \<lparr>act_user = 11, act_session = 21, act_org = 1\<rparr>;
       t = snd (recovery_regenerate a h demo_mfa)
   in fst (extract_actor demo_app h demo_mfa) = Inr a
    \<and> response_status (projl (fst (extract_owner_actor demo_app h demo_mfa))) = 401
    \<and> (\<exists>m u. recovery_redeem \<lparr>su_user = 11, su_session = 21\<rparr> h ''01234-56789'' t = (Inr (True, m), u)
         \<and> (\<forall>x \<in> set (sessions u). s_id x = 21 \<and> s_revoked_at x = None \<longrightarrow> s_mfa_satisfied x))"
proof -
  let ?h = "[(''cookie'', ''kubinate_session=21'')]" and ?a = "\<lparr>act_user = 11, act_session = 21, act_org = 1\<rparr>"
  let ?run = "recovery_regenerate ?a ?h demo_mfa"
  have gate: "fst (extract_actor demo_app ?h demo_mfa) = Inr ?a"
    "response_status (projl (fst (extract_owner_actor demo_app ?h demo_mfa))) = 401" by code_simp+
  have "case fst ?run of Inr (cs, _) \<Rightarrow> ''01234-56789'' \<in> set cs | _ \<Rightarrow> False" by code_simp
  then obtain cs n where run: "?run = (Inr (cs, n), snd ?run)" and c: "''01234-56789'' \<in> set cs"
    by (cases ?run) (auto split: sum.splits)
  have "pg_fault (snd ?run) = pg_fault demo_mfa"
    by (rule keepsD [OF regenerate_keeps_faults refl])
  moreover have "pg_fault demo_mfa = (\<lambda>_. False)" 
    by (simp add: demo_mfa_def demo_api_def demo_world_def demo_addons_def demo_clusters_def demo_db_def identity_db.defs api.defs mfa.defs addon_db.defs cluster_db.defs world.defs)
  ultimately have "reliable (snd ?run)" by (simp add: reliable_def)
  from session_mints_its_own_factor [OF run this c, of ?h] gate show ?thesis by (simp add: Let_def nil_uuid_def)
qed

section \<open>The stored names and counters stay well-formed\<close>

definition valid_nickname :: "string \<Rightarrow> bool" where
  "valid_nickname n \<longleftrightarrow> n \<noteq> [] \<and> char_count n \<le> 64"

text \<open>What the columns and the map may hold: names within the limits of the form, sign
  counters that are counters.\<close>

definition mfa_wf :: "'z mfa_scheme \<Rightarrow> bool" where
  "mfa_wf s \<longleftrightarrow> (\<forall>n \<in> snd ` set (pending_nicknames s). valid_nickname n)
     \<and> (\<forall>p \<in> set (user_passkeys s). valid_nickname (pk_nickname p) \<and> 0 \<le> pk_sign_counter p)"

datatype 'resp mfa_call =
    RegisterStart actor string | RegisterFinish actor headers uuid 'resp | AssertStart session_user
  | Factor session_user headers "'resp factor_call" | PasskeyRevoke actor headers uuid | Regenerate actor headers

fun mfa_exec :: "('z mfa_scheme, 'ch, 'resp, 'st, 'pk, 'res) mfa_app \<Rightarrow> 'resp mfa_call \<Rightarrow> 'z mfa_scheme \<Rightarrow> 'z mfa_scheme" where
  "mfa_exec st (RegisterStart a raw) s = snd (register_start st a raw s)"
| "mfa_exec st (RegisterFinish a h i resp) s = snd (register_finish st a h i resp s)"
| "mfa_exec st (AssertStart user) s = snd (assert_start st user s)"
| "mfa_exec st (Factor user h c) s = factor_exec st user h c s"
| "mfa_exec st (PasskeyRevoke a h i) s = snd (passkeys_revoke a h i s)"
| "mfa_exec st (Regenerate a h) s = snd (recovery_regenerate a h s)"

lemma mfa_wf_cong:
  "pending_nicknames t = pending_nicknames s \<Longrightarrow> user_passkeys t = user_passkeys s \<Longrightarrow> mfa_wf t = mfa_wf s"
  by (simp add: mfa_wf_def)

lemma pending_audit [simp]: "pending_nicknames (audit_log_append_explicit c g a ty r d m s) = pending_nicknames s"
  by (simp add: audit_log_append_explicit_def Let_def)

interpretation wf: audit_blind "mfa_wf :: 'z mfa_scheme \<Rightarrow> bool"
  by unfold_locales (simp_all cong: mfa_wf_cong)

lemma keeps_wf [keeps_intros]:
  "keeps mfa_wf (finish_assertion lib pg_ceremony_store i row_id pk resp)" "keeps mfa_wf (finish_registration lib pg_ceremony_store i resp)"
  "keeps mfa_wf (start_registration lib pg_ceremony_store u email display excluded)" "keeps mfa_wf (start_assertion lib pg_ceremony_store u pks)"
  "keeps mfa_wf (promote i)" "keeps mfa_wf (rotate_batch u hs)" "keeps mfa_wf (draw_batch :: ('z mfa_scheme, api_error, string list) op)"
  "keeps mfa_wf (try_consume u c)"
        apply (rule keeps_ceremonies; simp cong: mfa_wf_cong)+
      apply (rule keeps_promote; simp cong: mfa_wf_cong)
     apply (rule rotate_batch_keeps; simp cong: mfa_wf_cong)
    apply (simp add: keeps_def draw_batch_def mfa_wf_def)
   apply (simp add: try_consume_def Let_def, rule keeps_tx; auto cong: mfa_wf_cong)
  done

lemma record_use_wf: "0 \<le> n \<Longrightarrow> keeps mfa_wf (record_use i n b)"
  unfolding record_use_def by (intro keeps_intros keeps_tx) (auto simp: mfa_wf_def Let_def ball_sql_update)

lemma passkey_revoke_wf: "keeps mfa_wf (passkey_revoke u i)"
  unfolding passkey_revoke_def
  by (intro keeps_tx) (auto simp: mfa_wf_def Let_def set_sql_update set_mfa_enrolled_def split: if_splits)

lemma passkey_insert_wf: "valid_nickname n \<Longrightarrow> keeps mfa_wf (passkey_insert u c b n)"
  unfolding passkey_insert_def
  by (intro keeps_intros keeps_tx) (auto simp: mfa_wf_def Let_def set_mfa_enrolled_def split: if_splits)

lemma counter_nonneg:
  assumes "finish_assertion lib store i row_id pk resp s = (Inr fin, t)"
  shows "0 \<le> casr_new_sign_counter fin"
  using assms by (auto simp: finish_assertion_def bindE_eq_Inr of_sum_eq_Inr ret_def)

lemma verify_assertion_wf:
  assumes "ma_ceremonies st = Some (lib, pg_ceremony_store)"
  shows "keeps mfa_wf (verify_assertion st user i resp)"
proof -
  have tail: "keeps mfa_wf (bindE (map_err webauthn_to_api (finish_assertion lib pg_ceremony_store i r pk resp)) (\<lambda>fin.
      bindE (map_err Problem (record_use r (casr_new_sign_counter fin) (casr_updated_credential_blob fin))) (\<lambda>_. ret row)))" for r pk row
    by (rule keeps_bind_post; (intro keeps_intros)?)
      (auto intro!: keepsD [where P = mfa_wf] keeps_intros record_use_wf dest: counter_nonneg)
  show ?thesis unfolding verify_assertion_def require_ceremonies_def assms
    by (auto intro!: keeps_intros wf.keeps_mfa tail)
qed

lemma take_nickname_wf:
  assumes "take_nickname i s = (Inr n, t)" and "mfa_wf s"
  shows "valid_nickname n" and "mfa_wf t"
proof -
  have default: "valid_nickname ''Passkey''" by code_simp
  have "valid_nickname x" if "map_of (pending_nicknames s) i = Some x" for x
    using map_of_SomeD [OF that] assms(2) by (force simp: mfa_wf_def)
  with default assms(1) show "valid_nickname n" by (auto simp: take_nickname_def split: option.splits)
  have "set (AList.delete i (pending_nicknames s)) \<subseteq> set (pending_nicknames s)" by (auto simp: AList.delete_eq)
  with assms show "mfa_wf t" by (auto simp: take_nickname_def mfa_wf_def)
qed

lemma register_finish_wf:
  assumes "ma_ceremonies st = Some (lib, pg_ceremony_store)"
  shows "keeps (mfa_wf :: 'z mfa_scheme \<Rightarrow> bool) (register_finish st a h i resp)"
proof (rule keepsI)
  fix s :: "'z mfa_scheme" assume s: "mfa_wf s"
  obtain n t where one: "take_nickname i s = (Inr n :: api_error + string, t)" by (simp add: take_nickname_def)
  have "keeps mfa_wf (bindE (map_err webauthn_to_api (finish_registration lib pg_ceremony_store i resp)) (\<lambda>done_reg.
     bindE (map_err Problem (passkey_insert (act_user a) (creg_credential_id done_reg) (creg_credential_blob done_reg) n)) (\<lambda>row.
     bindE (getS (\<lambda>s. pg_uuid_text s (pk_id row))) (\<lambda>rid.
     bindE (audit_passkey_event_for_actor a h ''passkey.enrolled'' ''user_passkey'' (Some rid)
       (json_field ''nickname'' (json_text (Some (pk_nickname row))))) (\<lambda>_.
     ret (201 :: nat, passkey_view_of row))))))"
    by (intro keeps_intros wf.keeps_mfa passkey_insert_wf take_nickname_wf(1) [OF one s])
  from keepsD [OF this take_nickname_wf(2) [OF one s]] show "mfa_wf (snd (register_finish st a h i resp s))"
    by (simp add: register_finish_def require_ceremonies_def assms bindE_def [of "take_nickname i"] one)
qed

lemma in_update: "x \<in> set (AList.update k v al) \<Longrightarrow> x = (k, v) \<or> x \<in> set al"
  by (induction al) (auto split: if_splits)

lemma register_start_wf:
  assumes "ma_ceremonies st = Some (lib, pg_ceremony_store)"
  shows "keeps mfa_wf (register_start st a raw)"
proof (cases "sanitize_nickname raw")
  case (Inl e)
  then show ?thesis by (simp add: register_start_def require_ceremonies_def assms keeps_fail)
next
  case (Inr n)
  then have "valid_nickname n" by (auto simp: sanitize_nickname_def Let_def valid_nickname_def split: if_splits)
  then have store: "keeps mfa_wf (\<lambda>s. (Inr (), s\<lparr>pending_nicknames := AList.update i n (pending_nicknames s)\<rparr>))" for i
    by (intro keepsI) (auto simp: mfa_wf_def dest!: in_update)
  show ?thesis unfolding register_start_def require_ceremonies_def assms
    by (auto simp: Inr intro!: keeps_intros wf.keeps_mfa store)
qed

lemma mfa_exec_wf:
  fixes s :: "'z mfa_scheme"
  assumes "ma_ceremonies st = Some (lib, pg_ceremony_store)" and "mfa_wf s"
  shows "mfa_wf (mfa_exec st c s)"
proof (cases c)
  case (Factor user h f)
  have "keeps mfa_wf (assertion_done user h p)" "keeps mfa_wf (redeem_done user h)" "keeps mfa_wf (redeem_failed user h)" for p
    unfolding assertion_done_def redeem_done_def redeem_failed_def by (auto intro!: keeps_intros wf.keeps_mfa)
  then have "keeps mfa_wf (assert_finish st user h i resp)" "keeps (mfa_wf :: 'z mfa_scheme \<Rightarrow> bool) (recovery_redeem user h code)" for i resp code
    unfolding assert_finish_def recovery_redeem_def by (auto intro!: keeps_intros verify_assertion_wf [OF assms(1)])
  with Factor assms(2) show ?thesis by (cases f) (simp_all add: keepsD)
next
  case (AssertStart user)
  have "keeps mfa_wf (assert_start st user)"
    unfolding assert_start_def require_ceremonies_def assms(1) by (auto intro!: keeps_intros wf.keeps_mfa)
  with AssertStart assms(2) show ?thesis by (simp add: keepsD)
next
  case (PasskeyRevoke a h i)
  have "keeps (mfa_wf :: 'z mfa_scheme \<Rightarrow> bool) (passkeys_revoke a h i)" unfolding passkeys_revoke_def by (intro keeps_intros wf.keeps_mfa passkey_revoke_wf)
  with PasskeyRevoke assms(2) show ?thesis by (simp add: keepsD)
next
  case (Regenerate a h)
  have "keeps (mfa_wf :: 'z mfa_scheme \<Rightarrow> bool) (recovery_regenerate a h)" unfolding recovery_regenerate_def by (intro keeps_intros wf.keeps_mfa)
  with Regenerate assms(2) show ?thesis by (simp add: keepsD)
qed (simp_all add: keepsD [OF register_start_wf] keepsD [OF register_finish_wf] assms)



end
