(* ===== verification/Api_Login.thy ===== *)
theory Api_Login
  imports Api_Mfa
begin

text \<open>
  Signing in with GitHub: the OAuth client (\<open>integrations/src/github.rs\<close>), the handlers of
  \<open>api/src/auth.rs\<close> and the profile handlers of \<open>api/src/main.rs\<close>. GitHub's answers are a
  function of the requests so far; the PKCE challenge (base64 of SHA-256) and the random
  strings are arguments.
\<close>

section \<open>GitHub client\<close>

definition GITHUB_AUTHORIZE_URL :: string where
  "GITHUB_AUTHORIZE_URL = ''https://github.com/login/oauth/authorize''"

definition GITHUB_TOKEN_URL :: string where
  "GITHUB_TOKEN_URL = ''https://github.com/login/oauth/access_token''"

definition GITHUB_USER_URL :: string where
  "GITHUB_USER_URL = ''https://api.github.com/user''"

datatype github_error = GhTransport string | GhTokenExchange string | GhUserLookup nat

record github_profile =
  gh_id :: nat
  gh_login :: string
  gh_name :: "string option"
  gh_email :: "string option"
  gh_avatar_url :: "string option"

record token_response =
  tr_access_token :: "string option"
  tr_error :: "string option"
  tr_error_description :: "string option"

record http_github =
  hg_client_id :: string
  hg_client_secret :: string

record github_request =
  gq_url :: string
  gq_bearer :: "string option"
  gq_form :: "(string \<times> string) list"

text \<open>No answer, or a status and the body read as either of the two expected shapes.\<close>

datatype github_outcome = GithubDown string | GithubReply nat "string + token_response" "string + github_profile"

record login = mfa +
  github_env :: "github_request list \<Rightarrow> github_request \<Rightarrow> github_outcome"
  github_log :: "github_request list"
  url_random :: "nat \<Rightarrow> nat \<Rightarrow> string"
  url_random_ctr :: nat

lemma login_frame_tick [simp]:
  "github_env (tick s) = github_env s" "github_log (tick s) = github_log s"
  "url_random (tick s) = url_random s" "url_random_ctr (tick s) = url_random_ctr s"
  by (simp_all add: tick_def)

definition github_send :: "github_request \<Rightarrow> ('z login_scheme, 'e, github_outcome) op" where
  "github_send q s = (Inr (github_env s (github_log s) q), s\<lparr>github_log := github_log s @ [q]\<rparr>)"

text \<open>\<open>error_for_status\<close> turns the 4xx and 5xx answers into transport errors.\<close>

definition exchange_code ::
    "http_github \<Rightarrow> string \<Rightarrow> string \<Rightarrow> string \<Rightarrow> ('z login_scheme, github_error, string) op" where
  "exchange_code g code verifier redirect_uri =
     bindE (github_send \<lparr>gq_url = GITHUB_TOKEN_URL, gq_bearer = None,
       gq_form = [(''client_id'', hg_client_id g), (''client_secret'', hg_client_secret g), (''code'', code),
                  (''redirect_uri'', redirect_uri), (''code_verifier'', verifier)]\<rparr>) (\<lambda>reply.
     case reply of
       GithubDown e \<Rightarrow> fail (GhTransport e)
     | GithubReply status body _ \<Rightarrow>
         if 400 \<le> status \<and> status < 600 then fail (GhTransport (''status '' @ show_nat status))
         else
           bindE (of_sum GhTransport body) (\<lambda>resp.
           case tr_error resp of
             Some err \<Rightarrow> fail (GhTokenExchange (err @ '': '' @ opt_or (tr_error_description resp) ''no description''))
           | None \<Rightarrow> of_option (GhTokenExchange ''no access_token in response'') (tr_access_token resp)))"

definition fetch_profile :: "string \<Rightarrow> ('z login_scheme, github_error, github_profile) op" where
  "fetch_profile token =
     bindE (github_send \<lparr>gq_url = GITHUB_USER_URL, gq_bearer = Some token, gq_form = []\<rparr>) (\<lambda>reply.
     case reply of
       GithubDown e \<Rightarrow> fail (GhTransport e)
     | GithubReply status _ body \<Rightarrow>
         if \<not> is_success status then fail (GhUserLookup status) else of_sum GhTransport body)"

section \<open>Starting\<close>

definition PROVIDER_GITHUB :: string where
  "PROVIDER_GITHUB = ''github''"

record 's login_app = "'s app_state" +
  la_github :: http_github
  la_client_id :: string
  la_redirect_uri :: string
  la_challenge :: "string \<Rightarrow> string"
  la_started_at :: timestamp
  la_version :: string

definition random_url_safe :: "nat \<Rightarrow> ('z login_scheme, 'e, string) op" where
  "random_url_safe n s = (Inr (url_random s (url_random_ctr s) n), s\<lparr>url_random_ctr := Suc (url_random_ctr s)\<rparr>)"

definition wanted_path :: "string option \<Rightarrow> string" where
  "wanted_path r = (case r of None \<Rightarrow> ''/'' | Some p \<Rightarrow> if starts_with p ''/'' then p else ''/'')"

text \<open>The redirect: a base URL and its query pairs.\<close>

record authorize_redirect =
  az_url :: string
  az_query :: "(string \<times> string) list"

definition auth_start :: "'s login_app \<Rightarrow> string option \<Rightarrow> ('z login_scheme, api_error, authorize_redirect) op" where
  "auth_start st redirect_to =
     bindE (random_url_safe 32) (\<lambda>state_tok.
     bindE (random_url_safe 32) (\<lambda>nonce.
     bindE (random_url_safe 64) (\<lambda>verifier.
     bindE (map_err (\<lambda>e. Problem (auth_state_error_into e))
       (auth_store state_tok nonce verifier PROVIDER_GITHUB (Some (wanted_path redirect_to)))) (\<lambda>_.
     ret \<lparr>az_url = GITHUB_AUTHORIZE_URL,
          az_query = [(''client_id'', la_client_id st), (''redirect_uri'', la_redirect_uri st), (''scope'', ''read:user user:email''),
            (''state'', state_tok), (''code_challenge'', la_challenge st verifier), (''code_challenge_method'', ''S256''),
            (''allow_signup'', ''true'')]\<rparr>))))"

section \<open>The callback\<close>

definition github_to_platform :: "github_error \<Rightarrow> api_error" where
  "github_to_platform e =
     (case e of
        GhTokenExchange msg \<Rightarrow> Problem (Forbidden (''github token exchange: '' @ msg))
      | GhUserLookup status \<Rightarrow> Problem (Internal (''github user lookup status '' @ show_nat status))
      | GhTransport err \<Rightarrow> Problem (Internal err))"

definition extract_cookie :: "string \<Rightarrow> string \<Rightarrow> string option" where
  "extract_cookie raw name =
     (case List.map_filter (\<lambda>pair. strip_prefix (name @ ''='') (trim pair)) (split_on (CHR '';'') raw) of
        [] \<Rightarrow> None | rest # _ \<Rightarrow> Some rest)"

definition cookie_session :: "'s login_app \<Rightarrow> headers \<Rightarrow> uuid option" where
  "cookie_session st h =
     Option.bind (header_str h ''cookie'') (\<lambda>raw. Option.bind (extract_cookie raw SESSION_COOKIE) (app_parse_uuid st))"

definition revoke_cookie_session :: "'s login_app \<Rightarrow> headers \<Rightarrow> ('z login_scheme, 'e, unit) op" where
  "revoke_cookie_session st h =
     (case cookie_session st h of None \<Rightarrow> ret () | Some old \<Rightarrow> ignoreE (session_revoke old))"

definition idp_of_profile :: "github_profile \<Rightarrow> idp_user" where
  "idp_of_profile p =
     \<lparr>idp_subject = show_nat (gh_id p), idp_issuer = PROVIDER_GITHUB, idp_email = gh_email p,
      idp_display_name = opt_or (gh_name p) (gh_login p), idp_avatar_url = gh_avatar_url p\<rparr>"

text \<open>A statement on the pool while a transaction is open: it sees what was committed
  before the transaction.\<close>

definition on_pool :: "'z login_scheme \<Rightarrow> ('z login_scheme, 'e, 'a) op \<Rightarrow> ('z login_scheme, 'e, 'a) op" where
  "on_pool committed m s = (fst (m (committed\<lparr>pg_calls := pg_calls s\<rparr>)), tick s)"

definition sign_in :: "idp_user \<Rightarrow> string option \<Rightarrow> ('z login_scheme, platform_error, session) op" where
  "sign_in idp ua =
     tx Database (\<lambda>committed.
       bindE (upsert_identity idp) (\<lambda>u.
       bindE (on_pool committed (user_requires_partial_session u)) (\<lambda>needs_partial.
       if needs_partial then issue_partial_mfa u ua None else issue u ua None)) committed)"

record callback_response =
  cbr_location :: string
  cbr_set_cookie :: string

definition session_max_age :: string where
  "session_max_age = show_int (SESSION_TTL div 1000000)"

lemma session_max_age_code [code]: "session_max_age = ''2592000''"
  by (simp add: session_max_age_def SESSION_TTL_def days_def show_int_def show_nat.simps digit_char_def, code_simp)

definition session_cookie :: "'z login_scheme \<Rightarrow> uuid \<Rightarrow> string" where
  "session_cookie s i =
     SESSION_COOKIE @ ''='' @ pg_uuid_text s i @ ''; Path=/; HttpOnly; Secure; SameSite=Strict; Max-Age='' @ session_max_age"

definition auth_callback ::
    "'s login_app \<Rightarrow> headers \<Rightarrow> string \<Rightarrow> string \<Rightarrow> ('z login_scheme, api_error, callback_response) op" where
  "auth_callback st h code state_tok =
     bindE (map_err (\<lambda>e. Problem (auth_state_error_into e)) (auth_consume state_tok)) (\<lambda>stored.
     if au_provider stored \<noteq> PROVIDER_GITHUB then fail (Problem (Forbidden ''auth state provider mismatch''))
     else
       bindE (map_err github_to_platform (exchange_code (la_github st) code (au_code_verifier stored) (la_redirect_uri st))) (\<lambda>token.
       bindE (map_err github_to_platform (fetch_profile token)) (\<lambda>profile.
       bindE (revoke_cookie_session st h) (\<lambda>_.
       bindE (map_err Problem (sign_in (idp_of_profile profile) (header_str h ''user-agent''))) (\<lambda>session.
       bindE (getS (\<lambda>s. session_cookie s (ses_id session))) (\<lambda>cookie.
       ret \<lparr>cbr_location = opt_or (au_redirect_to stored) ''/'', cbr_set_cookie = cookie\<rparr>))))))"

definition auth_logout :: "'s login_app \<Rightarrow> headers \<Rightarrow> ('z login_scheme, api_error, nat \<times> string) op" where
  "auth_logout st h =
     bindE (revoke_cookie_session st h) (\<lambda>_.
     ret (204, SESSION_COOKIE @ ''=; Path=/; HttpOnly; Secure; SameSite=Strict; Max-Age=0''))"

section \<open>Health and profile\<close>

definition healthz :: "'s login_app \<Rightarrow> ('z login_scheme, api_error, string \<times> int \<times> string) op" where
  "healthz st s = (Inr (''ok'', (let d = now s - la_started_at st in if d < 0 then - ((- d) div 1000000) else d div 1000000), la_version st), s)"

definition readyz :: "('z login_scheme, api_error, nat \<times> string) op" where
  "readyz = catchE (tx (\<lambda>e. Problem (Database e)) (\<lambda>s. (Inr (1 :: int), s))) (\<lambda>_. ret (503, ''not ready'')) (\<lambda>_. ret (200, ''ready''))"

record me_view =
  mev_user :: uuid
  mev_session :: uuid
  mev_org :: uuid
  mev_mfa_state :: mfa_state
  mev_email :: string
  mev_display_name :: string

definition me :: "actor \<Rightarrow> ('z login_scheme, api_error, me_view) op" where
  "me a =
     bindE (map_err Problem (mfa_state_of (act_user a) (act_session a))) (\<lambda>ms.
     bindE (tx (\<lambda>e. Problem (Database e)) (\<lambda>s. (Inr (find (\<lambda>r. u_id r = act_user a) (users s)), s))) (\<lambda>row s.
     case row of
       None \<Rightarrow> (Inl (Problem (NotFound (''user/'' @ pg_uuid_text s (act_user a)))), s)
     | Some r \<Rightarrow> (Inr \<lparr>mev_user = act_user a, mev_session = act_session a, mev_org = act_org a, mev_mfa_state = ms,
                      mev_email = u_email r, mev_display_name = u_display_name r\<rparr>, s)))"

definition set_display_name :: "uuid \<Rightarrow> string \<Rightarrow> ('z login_scheme, api_error, user_row option) op" where
  "set_display_name u name =
     tx (\<lambda>e. Problem (Database e)) (\<lambda>s.
       let rows = sql_update (\<lambda>r. u_id r = u)
             (\<lambda>r. r\<lparr>u_display_name := name, u_updated_at := now s, u_version := u_version r + 1\<rparr>) (users s)
       in (Inr (find (\<lambda>r. u_id r = u) rows), s\<lparr>users := rows\<rparr>))"

definition update_me :: "actor \<Rightarrow> string \<Rightarrow> ('z login_scheme, api_error, me_view) op" where
  "update_me a raw =
     bindE (of_sum id (display_name_ok raw)) (\<lambda>name.
     bindE (set_display_name (act_user a) name) (\<lambda>row.
     bindE (getS (\<lambda>s. pg_uuid_text s (act_user a))) (\<lambda>uid.
     bindE (of_option (Problem (NotFound (''user/'' @ uid))) row) (\<lambda>r.
     bindE (map_err Problem (mfa_state_of (act_user a) (act_session a))) (\<lambda>ms.
     ret \<lparr>mev_user = act_user a, mev_session = act_session a, mev_org = act_org a, mev_mfa_state = ms,
          mev_email = u_email r, mev_display_name = u_display_name r\<rparr>)))))"

section \<open>What signing in leaves alone\<close>

lemma github_keeps:
  assumes "\<And>s l. P s \<Longrightarrow> P (s\<lparr>github_log := l\<rparr>)"
  shows "keeps P (exchange_code g c v r)" and "keeps P (fetch_profile tok)"
proof -
  have send: "keeps P (github_send q)" for q by (simp add: keeps_def github_send_def assms)
  show "keeps P (exchange_code g c v r)" "keeps P (fetch_profile tok)"
    unfolding exchange_code_def fetch_profile_def
    by (auto intro!: keeps_intros keeps_of_sum send split: github_outcome.split option.split)
qed

lemma upsert_keeps:
  assumes "\<And>s x. P s \<Longrightarrow> P (s\<lparr>users := x\<rparr>)" and "\<And>s x. P s \<Longrightarrow> P (s\<lparr>oidc_identities := x\<rparr>)"
    and "\<And>s n. P s \<Longrightarrow> P (s\<lparr>pg_uuid_ctr := n\<rparr>)"
  shows "keeps P (upsert_identity p)"
proof -
  have "keeps P (upsert_user i e p)" "keeps P (link_identity i u p)" for i e u
    by (auto simp: keeps_def upsert_user_def link_identity_def Let_def assms)
  then show ?thesis unfolding upsert_identity_def by (auto intro!: keeps_intros assms(3) split: option.split)
qed

lemma session_insert_ok:
  assumes "session_insert b u ua addr s = (Inr x, t)"
  shows "\<exists>row. sessions t = sessions s @ [row] \<and> s_id row = ses_id x \<and> s_id row \<notin> s_id ` set (sessions s) \<and> s_user row = u
    \<and> s_revoked_at row = None \<and> s_mfa_satisfied row = b"
    and "oidc_identities t = oidc_identities s" and "auth_states t = auth_states s" and "pg_fault t = pg_fault s"
  using assms by (auto simp: session_insert_def bindE_eq_Inr new_id_def Let_def split: if_splits)

lemma requires_partial_run:
  "fst (user_requires_partial_session u s) = Inr b \<Longrightarrow> b \<longleftrightarrow> (\<exists>x. find (\<lambda>x. u_id x = u) (users s) = Some x \<and> u_requires_mfa x \<and> u_mfa_enrolled x)"
  by (auto simp: user_requires_partial_session_def tx_def split: if_splits option.splits)

text \<open>What a sign-in writes: one session, fresh, for the user the external identity is
  linked to, satisfied unless the committed user row asks for a second factor and has
  one.\<close>

lemma sign_in_ok:
  assumes "sign_in idp ua s = (Inr x, t)"
  shows "\<exists>row u. sessions t = sessions s @ [row] \<and> s_id row = ses_id x \<and> s_id row \<notin> s_id ` set (sessions s) \<and> s_user row = u
    \<and> s_revoked_at row = None
    \<and> (s_mfa_satisfied row \<longleftrightarrow> \<not> (\<exists>y. find (\<lambda>y. u_id y = u) (users s) = Some y \<and> u_requires_mfa y \<and> u_mfa_enrolled y))
    \<and> (\<exists>r \<in> set (oidc_identities t). oi_issuer r = idp_issuer idp \<and> oi_subject r = idp_subject idp \<and> oi_user r = u)"
    and "auth_states t = auth_states s" and "pg_fault t = pg_fault s"
proof -
  obtain u s1 b t' where up: "upsert_identity idp s = (Inr u, s1)"
    and need: "fst (user_requires_partial_session u (s\<lparr>pg_calls := pg_calls s1\<rparr>)) = Inr b"
    and ins: "session_insert (\<not> b) u ua None (tick s1) = (Inr x, t')" and t: "t = tick t'"
    using assms
    by (auto simp: sign_in_def tx_eq_Inr bindE_eq_Inr on_pool_def issue_def issue_partial_mfa_def split: if_splits)
  note row = session_insert_ok [OF ins]
  have s1: "sessions s1 = sessions s" "auth_states s1 = auth_states s" "pg_fault s1 = pg_fault s"
    by (rule keeps_run [OF upsert_keeps refl up]; simp)+
  show "auth_states t = auth_states s" "pg_fault t = pg_fault s" using row s1 by (simp_all add: t)
  from upsert_identity_ok [OF up] have "\<exists>r \<in> set (oidc_identities t). oi_issuer r = idp_issuer idp \<and> oi_subject r = idp_subject idp \<and> oi_user r = u"
    using row(2) by (auto simp: t dest!: find_Some_iff2)
  with row(1) s1 requires_partial_run [OF need] show "\<exists>row u. sessions t = sessions s @ [row] \<and> s_id row = ses_id x
    \<and> s_id row \<notin> s_id ` set (sessions s) \<and> s_user row = u \<and> s_revoked_at row = None
    \<and> (s_mfa_satisfied row \<longleftrightarrow> \<not> (\<exists>y. find (\<lambda>y. u_id y = u) (users s) = Some y \<and> u_requires_mfa y \<and> u_mfa_enrolled y))
    \<and> (\<exists>r \<in> set (oidc_identities t). oi_issuer r = idp_issuer idp \<and> oi_subject r = idp_subject idp \<and> oi_user r = u)"
    by (auto simp: t)
qed

lemma revoke_cookie_run:
  assumes "revoke_cookie_session st h s = (r, t)" and "reliable s"
  shows "reliable t" and "auth_states t = auth_states s" and "users t = users s" and "s_id ` set (sessions t) = s_id ` set (sessions s)"
    and "cookie_session st h = Some old \<Longrightarrow> old \<in> s_id ` set (sessions s) \<Longrightarrow> session_dead old t"
proof -
  show "reliable t" "auth_states t = auth_states s" "users t = users s"
    using assms by (auto simp: revoke_cookie_session_def ret_def ignoreE_def session_revoke_def tx_def reliable_def split: option.splits)
  have "map s_id (sessions t) = map s_id (sessions s)"
    using assms(1) by (auto simp: revoke_cookie_session_def ret_def ignoreE_def session_revoke_def tx_def map_sql_update_same split: option.splits if_splits)
  then show "s_id ` set (sessions t) = s_id ` set (sessions s)" by (metis list.set_map)
  assume old: "cookie_session st h = Some old" "old \<in> s_id ` set (sessions s)"
  obtain t' where "session_revoke old s = (Inr (), t')" using assms(2) by (auto simp: session_revoke_def tx_def reliable_def)
  with old assms(1) session_revoke_dead [OF this] show "session_dead old t" by (simp add: revoke_cookie_session_def ignoreE_def)
qed

lemma callback_steps:
  assumes "auth_callback st h code tok s = (Inr resp, t)" and "reliable s"
  obtains stored s1 s2 s3 profile x where "auth_consume tok s = (Inr stored, s1)"
    and "sessions s2 = sessions s \<and> users s2 = users s \<and> auth_states s2 = auth_states s1 \<and> reliable s2"
    and "revoke_cookie_session st h s2 = (Inr () :: api_error + unit, s3)"
    and "sign_in (idp_of_profile profile) (header_str h ''user-agent'') s3 = (Inr x, t)"
    and "resp = \<lparr>cbr_location = opt_or (au_redirect_to stored) ''/'', cbr_set_cookie = session_cookie t (ses_id x)\<rparr>"
proof -
  obtain stored s1 token s1' profile s2 u s3 x where run: "auth_consume tok s = (Inr stored, s1)"
    "exchange_code (la_github st) code (au_code_verifier stored) (la_redirect_uri st) s1 = (Inr token, s1')"
    "fetch_profile token s1' = (Inr profile, s2)" "revoke_cookie_session st h s2 = (Inr u :: api_error + unit, s3)"
    "sign_in (idp_of_profile profile) (header_str h ''user-agent'') s3 = (Inr x, t)"
    "resp = \<lparr>cbr_location = opt_or (au_redirect_to stored) ''/'', cbr_set_cookie = session_cookie t (ses_id x)\<rparr>"
    using assms(1) by (auto simp: auth_callback_def bindE_eq_Inr ret_def fail_def getS_def split: if_splits)
  let ?P = "\<lambda>y. sessions y = sessions s1 \<and> users y = users s1 \<and> auth_states y = auth_states s1 \<and> pg_fault y = pg_fault s1"
  have "?P s1'" by (rule keeps_run [OF github_keeps(1) _ run(2)]) simp_all
  then have "?P s2" by (rule keeps_run [OF github_keeps(2) _ run(3), rotated]) simp_all
  moreover have "sessions s1 = sessions s \<and> users s1 = users s"
    using run(1) by (auto simp: auth_consume_def bindE_eq_Inr tx_eq_Inr Let_def fail_def split: option.splits if_splits)
  moreover have "pg_fault s1 = pg_fault s" by (rule auth_consume_marks(2) [OF run(1)])
  ultimately have "sessions s2 = sessions s \<and> users s2 = users s \<and> auth_states s2 = auth_states s1 \<and> reliable s2"
    using assms(2) by (simp add: reliable_def)
  with that [OF run(1) _ _ run(5,6)] run(4) show ?thesis by simp
qed


definition demo_github :: "github_request list \<Rightarrow> github_request \<Rightarrow> github_outcome" where
  "demo_github log q = GithubReply 200
     (Inr \<lparr>tr_access_token = Some ''gho'', tr_error = None, tr_error_description = None\<rparr>)
     (Inr \<lparr>gh_id = 42, gh_login = ''octo'', gh_name = None, gh_email = Some ''A@x'', gh_avatar_url = None\<rparr>)"

definition demo_login :: login where
  "demo_login = mfa.extend demo_mfa (login.fields demo_github [] (\<lambda>i n. show_nat i) 0)"

definition demo_login_app :: "login login_app" where
  "demo_login_app =
     \<lparr>app_runner = \<lparr>lr_secrets = pgcrypto_store secret_refs ''kek'', lr_ssh = openssh_ssh (openssh_new None),
        lr_helm = helm_cli_executor (helm_new None), lr_kubectl = kubectl_cli_executor (kubectl_new None), lr_uuid_v5 = length\<rparr>,
      app_secret_store = pgcrypto_store secret_refs ''kek'',
      app_settings = \<lparr>cset_ssh_key = ''key'', cset_user_data = '''', cset_k3s_version = ''v1.30''\<rparr>,
      app_allow_header_actor = False, app_parse_uuid = parse_nat,
      la_github = \<lparr>hg_client_id = ''id'', hg_client_secret = ''sec''\<rparr>, la_client_id = ''id'', la_redirect_uri = ''https://cb'',
      la_challenge = (\<lambda>v. v), la_started_at = 0, la_version = ''1''\<rparr>"

lemma demo_login_reliable: "reliable demo_login"
  by (simp add: reliable_def demo_login_def demo_mfa_def demo_api_def demo_world_def demo_addons_def demo_clusters_def demo_db_def
      identity_db.defs api.defs mfa.defs login.defs addon_db.defs cluster_db.defs world.defs)

lemma auth_start_keeps:
  assumes "reliable s" and "auth_start st r s = (x, t)"
  shows "reliable t"
  using assms by (auto simp: auth_start_def random_url_safe_def auth_store_def bindE_def map_err_def ret_def tx_def reliable_def split: if_splits)


section \<open>Where a sign-in leads\<close>

lemma auth_start_ok:
  assumes "auth_start st r s = (Inr a, t)"
  obtains tok where "map_of (az_query a) ''state'' = Some tok" and "tok \<notin> as_state ` set (auth_states s)"
    and "\<exists>x. auth_states t = auth_states s @ [x] \<and> as_state x = tok \<and> as_redirect_to x = Some (wanted_path r)"
  using assms
  by (auto simp: auth_start_def random_url_safe_def auth_store_def bindE_eq_Inr ret_def tx_eq_Inr split: if_splits)

text \<open>The browser ends up where the sign-in was asked to lead: at the given target
  whenever that begins with a slash, and at the root otherwise. A target such as
  \<open>//host/path\<close> begins with a slash too, and names another host.\<close>

theorem login_redirects_where_asked:
  assumes "auth_start st (Some target) s = (Inr a, t)" and "map_of (az_query a) ''state'' = Some tok"
    and "auth_callback st' h code tok t = (Inr b, u)" and "reliable t"
  shows "cbr_location b = (if starts_with target ''/'' then target else ''/'')"
proof -
  obtain x where fresh: "tok \<notin> as_state ` set (auth_states s)"
    and x: "auth_states t = auth_states s @ [x]" "as_state x = tok" "as_redirect_to x = Some (wanted_path (Some target))"
    using auth_start_ok [OF assms(1)] assms(2) by (metis option.inject)
  obtain stored s1 where c: "auth_consume tok t = (Inr stored, s1)" and b: "cbr_location b = opt_or (au_redirect_to stored) ''/''"
    by (rule callback_steps [OF assms(3,4)]) auto
  from auth_consume_marks(3) [OF c] obtain r where "r \<in> set (auth_states t)" "as_state r = tok" "au_redirect_to stored = as_redirect_to r"
    by force
  moreover from this have "r = x" using fresh x(1) by auto
  ultimately show ?thesis using x(3) b by (simp add: wanted_path_def opt_or_def)
qed

theorem login_redirects_where_asked_witness:
  "let (r, s) = auth_start demo_login_app (Some ''//evil.example/x'') demo_login
   in case fst (auth_callback demo_login_app [] ''code'' ''0'' s) of Inr b \<Rightarrow> cbr_location b = ''//evil.example/x'' | Inl _ \<Rightarrow> False"
proof -
  let ?start = "auth_start demo_login_app (Some ''//evil.example/x'') demo_login"
  have "case fst ?start of Inr a \<Rightarrow> map_of (az_query a) ''state'' = Some ''0'' | Inl _ \<Rightarrow> False" by code_simp
  then obtain a t where start: "?start = (Inr a, t)" "map_of (az_query a) ''state'' = Some ''0''"
    by (cases ?start) (auto split: sum.splits)
  have "case fst (auth_callback demo_login_app [] ''code'' ''0'' (snd ?start)) of Inr _ \<Rightarrow> True | Inl _ \<Rightarrow> False" by code_simp
  then obtain b u where run: "auth_callback demo_login_app [] ''code'' ''0'' t = (Inr b, u)"
    by (cases "auth_callback demo_login_app [] ''code'' ''0'' t") (auto simp: start split: sum.splits)
  from login_redirects_where_asked [OF start run auth_start_keeps [OF demo_login_reliable start(1)]]
  show ?thesis by (simp add: start run starts_with_def)
qed

section \<open>Logging out\<close>

text \<open>The two readers of the session cookie, in \<open>auth.rs\<close> and in \<open>actor.rs\<close>, agree.\<close>

lemma cookie_readers_agree: "extract_session_cookie (app_parse_uuid st) h = cookie_session st h"
  by (auto simp: extract_session_cookie_def cookie_session_def extract_cookie_def split: option.split list.split)

text \<open>Logging out ends the session of the browser: the handler always answers 204 and
  clears the cookie, and no later request with the same headers finds a session, whether
  the cookie named one or not.\<close>

theorem logout_ends_the_session:
  assumes "reliable s"
  shows "\<exists>cookie t. auth_logout st h s = (Inr (204, cookie), t) \<and> starts_with cookie ''kubinate_session=;''
    \<and> fst (session_of_cookie (app_state.truncate st) h t) = Inr None"
proof -
  obtain t where run: "revoke_cookie_session st h s = (Inr () :: api_error + unit, t)"
    by (cases "cookie_session st h") (auto simp: revoke_cookie_session_def ret_def ignoreE_def)
  have t: "reliable t" "s_id ` set (sessions t) = s_id ` set (sessions s)" using revoke_cookie_run [OF run assms] by auto
  have "fst (session_resolve i t) = Inr None" if "cookie_session st h = Some i" for i
  proof (cases "i \<in> s_id ` set (sessions s)")
    case True
    from session_resolve_dead [OF revoke_cookie_run(5) [OF run assms that True]] t(1) show ?thesis
      by (auto simp: session_resolve_def tx_def reliable_def)
  next
    case False
    then have "find (\<lambda>r. s_id r = i \<and> session_live t r) (sessions t) = None" using t(2) by (auto simp: find_None_iff_all)
    with t(1) show ?thesis by (simp add: session_resolve_def tx_def reliable_def)
  qed
  moreover have "app_parse_uuid (app_state.truncate st) = app_parse_uuid st" by (simp add: app_state.defs)
  ultimately have "fst (session_of_cookie (app_state.truncate st) h t) = Inr None"
    by (auto simp: session_of_cookie_def cookie_readers_agree ret_def map_err_def split: option.split prod.split sum.split)
  with run show ?thesis
    by (auto simp: auth_logout_def bindE_def ret_def starts_with_def SESSION_COOKIE_def)
qed

theorem logout_ends_the_session_witness:
  "\<exists>cookie t. auth_logout demo_login_app [(''cookie'', ''kubinate_session=20'')] demo_login = (Inr (204, cookie), t)
     \<and> fst (session_of_cookie (app_state.truncate demo_login_app) [(''cookie'', ''kubinate_session=20'')] t) = Inr None"
  using logout_ends_the_session [OF demo_login_reliable] by blast

end
