(* ===== verification/Api_Team.thy ===== *)
theory Api_Team
  imports Api_Common
begin

text \<open>
  Members, invites and settings of an organization (\<open>api/src/team.rs\<close>) and the audit log
  page (\<open>api/src/audit_log.rs\<close>). The handlers compose the actor extractors of
  \<open>Api_Auth\<close> with the membership service of \<open>Identity\<close>; each takes the extracted
  actor as its argument, as the router hands it over.
\<close>

section \<open>Members and invites\<close>

record invite_view =
  ivw_id :: uuid
  ivw_email :: string
  ivw_role :: membership_role
  ivw_token_prefix :: string
  ivw_accepted_at :: "timestamp option"
  ivw_revoked_at :: "timestamp option"
  ivw_expires_at :: timestamp
  ivw_created_at :: timestamp

definition invite_view_of :: "invite \<Rightarrow> invite_view" where
  "invite_view_of i =
     \<lparr>ivw_id = inv_id i, ivw_email = inv_email i, ivw_role = inv_role i, ivw_token_prefix = inv_token_prefix i,
      ivw_accepted_at = inv_accepted_at i, ivw_revoked_at = inv_revoked_at i, ivw_expires_at = inv_expires_at i,
      ivw_created_at = inv_created_at i\<rparr>"

definition invite_to_api :: "invite_error \<Rightarrow> api_error" where
  "invite_to_api e = Problem (invite_error_into e)"

definition team_create_invite ::
    "owner_actor \<Rightarrow> headers \<Rightarrow> uuid \<Rightarrow> string \<Rightarrow> membership_role \<Rightarrow> ('z api_scheme, api_error, nat \<times> invite_view \<times> string) op" where
  "team_create_invite owner h org email role =
     (let a = own_inner owner in
      bindE (require_self_org a org) (\<lambda>_.
      bindE (map_err invite_to_api (create_invite org (act_user a) email role (from_actor_and_headers a h))) (\<lambda>created.
      ret (201, invite_view_of (ci_invite created), ci_token created))))"

definition team_list_invites :: "actor \<Rightarrow> uuid \<Rightarrow> ('z api_scheme, api_error, invite_view list) op" where
  "team_list_invites a org =
     bindE (require_self_org a org) (\<lambda>_.
     bindE (map_err invite_to_api (list_invites org (act_user a))) (\<lambda>rows.
     ret (map invite_view_of rows)))"

definition team_revoke_invite :: "owner_actor \<Rightarrow> headers \<Rightarrow> uuid \<Rightarrow> uuid \<Rightarrow> ('z api_scheme, api_error, nat) op" where
  "team_revoke_invite owner h org i =
     (let a = own_inner owner in
      bindE (require_self_org a org) (\<lambda>_.
      bindE (map_err invite_to_api (revoke_invite org i (act_user a) (from_actor_and_headers a h))) (\<lambda>_.
      ret 204)))"

definition team_list_members :: "actor \<Rightarrow> uuid \<Rightarrow> ('z api_scheme, api_error, membership_view list) op" where
  "team_list_members a org =
     bindE (require_self_org a org) (\<lambda>_.
     map_err invite_to_api (list_members org (act_user a)))"

definition team_update_role ::
    "owner_actor \<Rightarrow> headers \<Rightarrow> uuid \<Rightarrow> uuid \<Rightarrow> membership_role \<Rightarrow> ('z api_scheme, api_error, nat) op" where
  "team_update_role owner h org target role =
     (let a = own_inner owner in
      bindE (require_self_org a org) (\<lambda>_.
      bindE (map_err invite_to_api (update_role org target role (act_user a) (from_actor_and_headers a h))) (\<lambda>_.
      ret 204)))"

definition team_remove_member :: "owner_actor \<Rightarrow> headers \<Rightarrow> uuid \<Rightarrow> uuid \<Rightarrow> ('z api_scheme, api_error, nat) op" where
  "team_remove_member owner h org target =
     (let a = own_inner owner in
      bindE (require_self_org a org) (\<lambda>_.
      bindE (map_err invite_to_api (remove_member org target (act_user a) (from_actor_and_headers a h))) (\<lambda>_.
      ret 204)))"

text \<open>\<open>fetch_optional\<close>: a missing user is \<open>NotFound\<close>.\<close>

definition lookup_user_email :: "uuid \<Rightarrow> ('z api_scheme, api_error, string) op" where
  "lookup_user_email u =
     bindE (tx (\<lambda>e. Problem (Database e)) (\<lambda>s. (Inr (find (\<lambda>r. u_id r = u) (users s)), s))) (\<lambda>row s.
     case row of
       None \<Rightarrow> (Inl (Problem (NotFound (''user/'' @ pg_uuid_text s u))), s)
     | Some r \<Rightarrow> (Inr (u_email r), s))"

definition team_accept_invite ::
    "session_user \<Rightarrow> headers \<Rightarrow> string \<Rightarrow> ('z api_scheme, api_error, uuid \<times> membership_role) op" where
  "team_accept_invite user h token =
     (if \<not> starts_with token INVITE_TOKEN_PREFIX then fail (Problem (Invalid ''invite token must start with the kinv_ prefix''))
      else
        bindE (lookup_user_email (su_user user)) (\<lambda>email.
        bindE (map_err invite_to_api (accept_invite token (su_user user) email (from_user_id_and_headers (su_user user) h))) (\<lambda>v.
        ret (inv_org v, inv_role v))))"

section \<open>Organization settings\<close>

record org_view =
  ov_id :: uuid
  ov_slug :: string
  ov_display_name :: string
  ov_created_at :: timestamp
  ov_updated_at :: timestamp

definition org_view_of :: "organization_row \<Rightarrow> org_view" where
  "org_view_of r =
     \<lparr>ov_id = o_id r, ov_slug = o_slug r, ov_display_name = o_display_name r, ov_created_at = o_created_at r, ov_updated_at = o_updated_at r\<rparr>"

definition same_org :: "actor \<Rightarrow> uuid \<Rightarrow> ('s, api_error, unit) op" where
  "same_org a org =
     (if act_org a \<noteq> org then fail (Problem (Forbidden ''actor's organization does not match the path'')) else ret ())"

definition found_org :: "uuid \<Rightarrow> organization_row option \<Rightarrow> ('z api_scheme, api_error, org_view) op" where
  "found_org org row s =
     (case row of
        None \<Rightarrow> (Inl (Problem (NotFound (''org/'' @ pg_uuid_text s org))), s)
      | Some r \<Rightarrow> (Inr (org_view_of r), s))"

definition get_org :: "actor \<Rightarrow> uuid \<Rightarrow> ('z api_scheme, api_error, org_view) op" where
  "get_org a org =
     bindE (same_org a org) (\<lambda>_.
     bindE (tx (\<lambda>e. Problem (Database e)) (\<lambda>s.
       (Inr (find (\<lambda>r. rls s (Some org) (o_id r) \<and> o_id r = org) (organizations s)), s))) (found_org org))"

text \<open>The audit trigger of \<open>organizations\<close> fires on the billing columns only.\<close>

definition rename_org :: "uuid \<Rightarrow> string \<Rightarrow> ('z api_scheme, api_error, organization_row option) op" where
  "rename_org org name =
     tx (\<lambda>e. Problem (Database e)) (\<lambda>s.
       let hit = \<lambda>r. rls s (Some org) (o_id r) \<and> o_id r = org;
           rows = sql_update hit (\<lambda>r. r\<lparr>o_display_name := name, o_updated_at := now s, o_version := o_version r + 1\<rparr>) (organizations s)
       in (Inr (find hit rows), s\<lparr>organizations := rows\<rparr>))"

definition update_org :: "owner_actor \<Rightarrow> uuid \<Rightarrow> string \<Rightarrow> ('z api_scheme, api_error, org_view) op" where
  "update_org owner org raw =
     (let a = own_inner owner in
      bindE (same_org a org) (\<lambda>_.
      bindE (of_sum id (display_name_ok raw)) (\<lambda>name.
      bindE (rename_org org name) (found_org org))))"

section \<open>Audit log page\<close>

record audit_log_entry =
  al_id :: uuid
  al_action :: string
  al_resource_type :: string
  al_resource_id :: "string option"
  al_decision :: string
  al_reason :: "string option"
  al_actor_user_id :: "uuid option"
  al_actor_email :: "string option"
  al_actor_display_name :: "string option"
  al_request_id :: "string option"
  al_created_at :: timestamp

text \<open>The row joined with the user of the entry; nothing writes the column \<open>reason\<close>.\<close>

definition audit_row :: "'z api_scheme \<Rightarrow> audit_entry \<Rightarrow> audit_log_entry" where
  "audit_row s e =
     (let u = Option.bind (ae_actor e) (\<lambda>i. find (\<lambda>r. u_id r = i) (users s)) in
      \<lparr>al_id = ae_id e, al_action = ae_action e, al_resource_type = ae_resource_type e, al_resource_id = Some (ae_resource_id e),
       al_decision = ae_decision e, al_reason = None, al_actor_user_id = ae_actor e, al_actor_email = map_option u_email u,
       al_actor_display_name = map_option u_display_name u, al_request_id = ae_request_id e, al_created_at = ae_created_at e\<rparr>)"

definition page_limit :: "nat option \<Rightarrow> nat" where
  "page_limit l = max 1 (min 200 (case l of None \<Rightarrow> 50 | Some n \<Rightarrow> n))"

definition audit_page :: "'z api_scheme \<Rightarrow> uuid \<Rightarrow> uuid option \<Rightarrow> nat \<Rightarrow> audit_entry list" where
  "audit_page s org before limit =
     take limit (rev (sort_key ae_id (filter (\<lambda>e. rls s (Some org) (ae_org e) \<and> ae_org e = org
       \<and> (case before of None \<Rightarrow> True | Some b \<Rightarrow> ae_id e < b)) (pg_audit s))))"

definition list_audit_log ::
    "owner_actor \<Rightarrow> uuid \<Rightarrow> uuid option \<Rightarrow> nat option \<Rightarrow> ('z api_scheme, api_error, audit_log_entry list) op" where
  "list_audit_log owner org before limit =
     bindE (require_self_org (own_inner owner) org) (\<lambda>_.
     tx (\<lambda>e. Problem (Database e)) (\<lambda>s. (Inr (map (audit_row s) (audit_page s org before (page_limit limit))), s)))"

section \<open>Renaming an organization\<close>

text \<open>Renaming is a write that reads back: a successful update answers with the
  trimmed name, between one and a hundred bytes long, a following read by a member
  answers with the same view, and nothing but the name and the bookkeeping columns of
  that one organization has changed.\<close>

theorem rename_reads_back:
  assumes "update_org owner org raw s = (Inr v, t)" and "\<not> db_faulty t" and "act_org a = org"
  shows "ov_display_name v = trim raw \<and> 1 \<le> length (trim raw) \<and> length (trim raw) \<le> 100
    \<and> fst (get_org a org t) = Inr v
    \<and> (\<forall>r \<in> set (organizations s). o_id r \<noteq> org \<longrightarrow> r \<in> set (organizations t))
    \<and> map (\<lambda>r. (o_id r, o_slug r, o_plan r, o_stripe_customer_id r)) (organizations t)
        = map (\<lambda>r. (o_id r, o_slug r, o_plan r, o_stripe_customer_id r)) (organizations s)"
proof -
  let ?f = "\<lambda>r. r\<lparr>o_display_name := trim raw, o_updated_at := now s, o_version := o_version r + 1\<rparr>"
  let ?hit = "\<lambda>r. rls s (Some org) (o_id r) \<and> o_id r = org"
  have name: "1 \<le> length (trim raw)" "length (trim raw) \<le> 100" "display_name_ok raw = Inr (trim raw)"
    using assms(1) by (auto simp: update_org_def Let_def bindE_eq_Inr of_sum_eq_Inr display_name_ok_def Suc_le_eq split: if_splits)
  obtain r where r: "find ?hit (sql_update ?hit ?f (organizations s)) = Some r" "v = org_view_of r"
    and t: "t = tick (s\<lparr>organizations := sql_update ?hit ?f (organizations s)\<rparr>)"
    using assms(1)
    by (auto simp: update_org_def Let_def same_org_def bindE_eq_Inr name(3) rename_org_def tx_eq_Inr found_org_def ret_def fail_def
        split: option.splits if_splits)
  obtain x where "?hit r" "r = (if ?hit x then ?f x else x)" using find_Some_iff2 [OF r(1)] unfolding set_sql_update by blast
  then have "o_display_name r = trim raw" by (cases "?hit x") (auto split: if_splits)
  moreover have "fst (get_org a org t) = Inr v"
    using assms(2,3) r
    by (simp add: get_org_def same_org_def bindE_def ret_def tx_def db_faulty_def t found_org_def rls_def)
  moreover have "map (\<lambda>r. (o_id r, o_slug r, o_plan r, o_stripe_customer_id r)) (organizations t)
      = map (\<lambda>r. (o_id r, o_slug r, o_plan r, o_stripe_customer_id r)) (organizations s)"
    by (simp add: t map_sql_update_same)
  moreover have "r \<in> set (organizations t)" if "r \<in> set (organizations s)" "o_id r \<noteq> org" for r
    using that by (simp add: t set_sql_update image_iff)
  moreover have "ov_display_name v = o_display_name r" by (simp add: r(2) org_view_of_def)
  ultimately show ?thesis using name by simp
qed

theorem rename_reads_back_witness:
  "let owner = \<lparr>own_inner = \<lparr>act_user = 10, act_session = 20, act_org = 1\<rparr>, own_role = Owner\<rparr>;
       a = \<lparr>act_user = 11, act_session = 21, act_org = 1\<rparr>
   in case update_org owner 1 '' Acme '' demo_api of
        (Inr v, t) \<Rightarrow> ov_display_name v = ''Acme'' \<and> fst (get_org a 1 t) = Inr v
      | _ \<Rightarrow> False"
proof -
  let ?owner = "\<lparr>own_inner = \<lparr>act_user = 10, act_session = 20, act_org = 1\<rparr>, own_role = Owner\<rparr>"
  let ?run = "update_org ?owner 1 '' Acme '' demo_api"
  have "(case fst ?run of Inr _ \<Rightarrow> True | Inl _ \<Rightarrow> False) \<and> \<not> db_faulty (snd ?run)" by code_simp
  then obtain v where run: "?run = (Inr v, snd ?run)" and ok: "\<not> db_faulty (snd ?run)"
    by (cases ?run) (auto split: sum.splits)
  have "trim '' Acme '' = ''Acme''" by code_simp
  with rename_reads_back [OF run ok, of "\<lparr>act_user = 11, act_session = 21, act_org = 1\<rparr>"] show ?thesis
    unfolding Let_def by (subst run) simp
qed

section \<open>Walking the audit log\<close>

lemma page_limit_bounds: "1 \<le> page_limit l" "page_limit l \<le> 200"
  by (simp_all add: page_limit_def)

text \<open>The entries of an organization below a cursor, newest first.\<close>

definition below :: "'z api_scheme \<Rightarrow> uuid \<Rightarrow> uuid option \<Rightarrow> audit_entry list" where
  "below s org before = rev (sort_key ae_id (filter (\<lambda>e. rls s (Some org) (ae_org e) \<and> ae_org e = org
       \<and> (case before of None \<Rightarrow> True | Some b \<Rightarrow> ae_id e < b)) (pg_audit s)))"

lemma audit_page_below: "audit_page s org before n = take n (below s org before)"
  by (simp add: audit_page_def below_def)

lemma set_below: "set (below s org before) = {e \<in> set (pg_audit s). rls s (Some org) (ae_org e) \<and> ae_org e = org
     \<and> (case before of None \<Rightarrow> True | Some b \<Rightarrow> ae_id e < b)}"
  by (auto simp: below_def)

text \<open>A cursor taken from a page cuts the list below it.\<close>

lemma below_cursor:
  assumes "x \<in> set (below s org before)"
  shows "below s org (Some (ae_id x)) = filter (\<lambda>e. ae_id e < ae_id x) (below s org before)"
proof -
  have "(\<lambda>e. (rls s (Some org) (ae_org e) \<and> ae_org e = org \<and> (case before of None \<Rightarrow> True | Some b \<Rightarrow> ae_id e < b)) \<and> ae_id e < ae_id x)
      = (\<lambda>e. rls s (Some org) (ae_org e) \<and> ae_org e = org \<and> ae_id e < ae_id x)"
    using assms by (auto simp: set_below fun_eq_iff split: option.splits)
  then have cut: "filter (\<lambda>e. rls s (Some org) (ae_org e) \<and> ae_org e = org \<and> ae_id e < ae_id x) xs
      = filter (\<lambda>e. (rls s (Some org) (ae_org e) \<and> ae_org e = org \<and> (case before of None \<Rightarrow> True | Some b \<Rightarrow> ae_id e < b)) \<and> ae_id e < ae_id x) xs" for xs
    by (rule arg_cong2 [OF sym refl])
  show ?thesis unfolding below_def rev_filter [symmetric] filter_sort filter_filter option.case cut ..
qed

lemma below_strict:
  assumes "distinct (map ae_id (pg_audit s))"
  shows "sorted_wrt (\<lambda>x y. ae_id x > ae_id y) (below s org before)"
proof -
  let ?p = "\<lambda>e. rls s (Some org) (ae_org e) \<and> ae_org e = org \<and> (case before of None \<Rightarrow> True | Some b \<Rightarrow> ae_id e < b)"
  have "distinct (map ae_id (sort_key ae_id (filter ?p (pg_audit s))))"
    using assms by (simp add: distinct_map inj_on_def)
  moreover have "sorted (map ae_id (sort_key ae_id (filter ?p (pg_audit s))))" by simp
  ultimately have "sorted_wrt (<) (map ae_id (sort_key ae_id (filter ?p (pg_audit s))))"
    by (simp only: strict_sorted_iff)
  then show ?thesis by (simp add: below_def sorted_wrt_rev sorted_wrt_map)
qed

lemma below_next:
  assumes "distinct (map ae_id (pg_audit s))" and "n < length (below s org before)"
  shows "below s org (Some (ae_id (below s org before ! n))) = drop (Suc n) (below s org before)"
proof -
  let ?B = "below s org before"
  have split: "?B = take n ?B @ ?B ! n # drop (Suc n) ?B" by (rule id_take_nth_drop [OF assms(2)])
  have "sorted_wrt (\<lambda>x y. ae_id x > ae_id y) (take n ?B @ ?B ! n # drop (Suc n) ?B)"
    using below_strict [OF assms(1)] by (metis split)
  then have "filter (\<lambda>e. ae_id e < ae_id (?B ! n)) (take n ?B @ ?B ! n # drop (Suc n) ?B) = drop (Suc n) ?B"
    by (auto simp: sorted_wrt_append filter_empty_conv intro!: filter_True)
  with split below_cursor [OF nth_mem [OF assms(2)]] show ?thesis by simp
qed

text \<open>The walk the module comment describes: ask for a page, and go on from its last entry
  while pages come back full. It ends because the entries below the cursor get fewer.\<close>

function audit_walk :: "'z api_scheme \<Rightarrow> uuid \<Rightarrow> nat option \<Rightarrow> uuid option \<Rightarrow> audit_entry list" where
  "audit_walk s org limit before =
     (let page = audit_page s org before (page_limit limit) in
      if length page < page_limit limit then page
      else page @ audit_walk s org limit (Some (ae_id (last page))))"
  by pat_completeness auto

termination
proof (relation "measure (\<lambda>(s, org, limit, before). length (below s org before))", goal_cases)
  case (2 s org limit before page)
  let ?B = "below s org before"
  have "page \<noteq> []" using 2 page_limit_bounds(1) [of limit] by auto
  then have "last page \<in> set ?B" using 2(1) by (metis audit_page_below in_set_takeD last_in_set)
  then have "length (below s org (Some (ae_id (last page)))) < length ?B"
    using below_cursor [of "last page" s org before] length_filter_less [of "last page" ?B "\<lambda>e. ae_id e < ae_id (last page)"] by simp
  then show ?case by simp
qed simp

declare audit_walk.simps [simp del]

lemma audit_walk_below:
  assumes "distinct (map ae_id (pg_audit s))"
  shows "audit_walk s org limit before = below s org before"
  using assms
proof (induction s org limit before rule: audit_walk.induct)
  case (1 s org limit before)
  let ?B = "below s org before" and ?n = "page_limit limit"
  let ?page = "audit_page s org before ?n"
  have page: "?page = take ?n ?B" by (rule audit_page_below)
  show ?case
  proof (cases "length ?page < ?n")
    case True
    then have "length ?B < ?n" by (simp add: page)
    then show ?thesis by (subst audit_walk.simps) (simp add: Let_def page)
  next
    case False
    then have full: "?n \<le> length ?B" by (simp add: page)
    have pos: "0 < ?n" using page_limit_bounds(1) [of limit] by linarith
    then have "?page \<noteq> []" "length ?page = ?n" using full by (auto simp: page simp del: length_greater_0_conv)
    then have last: "last ?page = ?B ! (?n - 1)" "?n - 1 < length ?B" "Suc (?n - 1) = ?n"
      using full pos by (simp_all add: last_conv_nth page)
    have "audit_walk s org limit (Some (ae_id (last ?page))) = below s org (Some (ae_id (last ?page)))"
      by (rule "1.IH" [OF refl False "1.prems"])
    also have "\<dots> = drop ?n ?B" using below_next [OF "1.prems" last(2)] last by simp
    finally show ?thesis using False by (subst audit_walk.simps) (simp add: Let_def page)
  qed
qed

text \<open>(C38) Following the cursor reads the whole log: the walk terminates for every page
  size the caller asks for, its pages come from the handler (which answers between one
  and 200 entries a page), and together they are the entries of the organization, each
  once, newest first.\<close>

theorem audit_walk_reads_the_log:
  assumes "distinct (map ae_id (pg_audit s))" and "\<not> db_faulty s" and "act_org (own_inner owner) = org"
  shows "set (audit_walk s org limit None) = {e \<in> set (pg_audit s). ae_org e = org}
    \<and> distinct (audit_walk s org limit None) \<and> sorted_wrt (\<lambda>x y. ae_id x > ae_id y) (audit_walk s org limit None)
    \<and> (\<forall>before. fst (list_audit_log owner org before limit s) = Inr (map (audit_row s) (audit_page s org before (page_limit limit)))
         \<and> length (audit_page s org before (page_limit limit)) \<le> 200)"
proof -
  note walk = audit_walk_below [OF assms(1), of org limit None]
  have "rls s (Some org) org" by (simp add: rls_def app_current_tenant_id_def)
  then have "set (audit_walk s org limit None) = {e \<in> set (pg_audit s). ae_org e = org}" by (auto simp: walk set_below)
  moreover have strict: "sorted_wrt (\<lambda>x y. ae_id x > ae_id y) (audit_walk s org limit None)" unfolding walk by (rule below_strict [OF assms(1)])
  moreover have "distinct (audit_walk s org limit None)" using assms(1) by (simp add: walk below_def distinct_map)
  moreover have "length (audit_page s org before (page_limit limit)) \<le> 200" for before
    using page_limit_bounds(2) [of limit] by (simp add: audit_page_below)
  ultimately show ?thesis
    using assms(2,3) by (simp add: list_audit_log_def require_self_org_def bindE_def ret_def tx_def db_faulty_def)
qed

theorem audit_walk_reads_the_log_witness:
  "let owner = \<lparr>own_inner = \<lparr>act_user = 10, act_session = 20, act_org = 1\<rparr>, own_role = Owner\<rparr>;
       s = audit_log_append_explicit no_audit 2 ''x'' ''y'' ''z'' ''allowed'' ''{}''
            (audit_log_append_explicit no_audit 1 ''a'' ''b'' ''c'' ''allowed'' ''{}''
              (audit_log_append_explicit no_audit 1 ''d'' ''e'' ''f'' ''denied'' ''{}'' demo_api))
   in set (audit_walk s 1 (Some 1) None) = {e \<in> set (pg_audit s). ae_org e = 1} \<and> card (set (audit_walk s 1 (Some 1) None)) = 2
      \<and> length (audit_page s 1 None (page_limit (Some 1))) = 1"
proof -
  let ?owner = "\<lparr>own_inner = \<lparr>act_user = 10, act_session = 20, act_org = 1\<rparr>, own_role = Owner\<rparr>"
  define s where "s = audit_log_append_explicit no_audit 2 ''x'' ''y'' ''z'' ''allowed'' ''{}''
            (audit_log_append_explicit no_audit 1 ''a'' ''b'' ''c'' ''allowed'' ''{}''
              (audit_log_append_explicit no_audit 1 ''d'' ''e'' ''f'' ''denied'' ''{}'' demo_api))"
  have ok: "distinct (map ae_id (pg_audit s))" "\<not> db_faulty s" "act_org (own_inner ?owner) = 1"
    and n: "length (audit_page s 1 None (page_limit (Some 1))) = 1" "length (filter (\<lambda>e. ae_org e = 1) (pg_audit s)) = 2"
    unfolding s_def by code_simp+
  have "distinct (filter (\<lambda>e. ae_org e = 1) (pg_audit s))" using ok(1) by (simp add: distinct_map)
  then have "card {e \<in> set (pg_audit s). ae_org e = 1} = 2" using n(2) distinct_card by fastforce
  with audit_walk_reads_the_log [OF ok, of "Some 1"] n show ?thesis by (simp add: Let_def s_def)
qed

end
