(* ===== verification/Observability.thy ===== *)
theory Observability
  imports Api_Common
begin

text \<open>
  Metric ingest and queries (\<open>observability/src/metrics.rs\<close>, \<open>api/src/observability.rs\<close>):
  the in-memory store, the VictoriaMetrics store with the texts it builds, and the two
  handlers. A sample value is its decimal text; reading and printing a float, and the
  answers of the metrics server, are arguments.
\<close>

section \<open>Samples\<close>

datatype metrics_error = TenantMismatch uuid uuid | MetBackend string

record label =
  lb_name :: string
  lb_value :: string

record sample =
  sm_labels :: "label list"
  sm_timestamp_ms :: int
  sm_value :: string

record write_request =
  wr_organization_id :: uuid
  wr_samples :: "sample list"

record range_query =
  rq_metric :: string
  rq_label_eq :: "label list"
  rq_start_ms :: int
  rq_end_ms :: int

text \<open>\<open>Arc<dyn MetricsStore>\<close>.\<close>

record 's metrics_ops =
  mo_ingest :: "uuid \<Rightarrow> sample list \<Rightarrow> ('s, metrics_error, nat) op"
  mo_query_range :: "uuid \<Rightarrow> range_query \<Rightarrow> ('s, metrics_error, sample list) op"
  mo_forward_write :: "uuid \<Rightarrow> string \<Rightarrow> ('s, metrics_error, unit) op"

record vm_request =
  vq_method :: string
  vq_url :: string
  vq_headers :: "(string \<times> string) list"
  vq_query :: "(string \<times> string) list"
  vq_body :: string

record prom_series =
  ps_metric :: "(string \<times> string) list"
  ps_values :: "(string \<times> string) list"

record prom_envelope =
  pe_status :: string
  pe_data :: "prom_series list option"
  pe_error_type :: "string option"
  pe_error :: "string option"

text \<open>No answer, or a status, its text, the text of the body and the body as an envelope.\<close>

datatype vm_outcome = VmDown string | VmReply nat string string "string + prom_envelope"

record obs = api +
  metric_rows :: "(uuid \<times> sample list) list"
  vm_env :: "vm_request list \<Rightarrow> vm_request \<Rightarrow> vm_outcome"
  vm_log :: "vm_request list"

section \<open>In-memory store\<close>

definition sample_name :: "sample \<Rightarrow> string option" where
  "sample_name sm = map_option lb_value (find (\<lambda>l. lb_name l = ''__name__'') (sm_labels sm))"

definition sample_matches :: "sample \<Rightarrow> range_query \<Rightarrow> bool" where
  "sample_matches sm q =
     (if sm_timestamp_ms sm < rq_start_ms q \<or> sm_timestamp_ms sm > rq_end_ms q then False
      else if sample_name sm \<noteq> Some (rq_metric q) then False
      else list_all (\<lambda>x. list_ex (\<lambda>l. lb_name l = lb_name x \<and> lb_value l = lb_value x) (sm_labels sm)) (rq_label_eq q))"

definition mem_ingest :: "uuid \<Rightarrow> sample list \<Rightarrow> ('z obs_scheme, metrics_error, nat) op" where
  "mem_ingest org samples s =
     (Inr (length samples),
      s\<lparr>metric_rows := AList.update org (opt_or (map_of (metric_rows s) org) [] @ samples) (metric_rows s)\<rparr>)"

definition mem_query_range :: "uuid \<Rightarrow> range_query \<Rightarrow> ('z obs_scheme, metrics_error, sample list) op" where
  "mem_query_range org q s =
     (case map_of (metric_rows s) org of
        None \<Rightarrow> (Inr [], s)
      | Some rows \<Rightarrow> (Inr (filter (\<lambda>sm. sample_matches sm q) rows), s))"

definition mem_forward_write :: "uuid \<Rightarrow> string \<Rightarrow> ('z obs_scheme, metrics_error, unit) op" where
  "mem_forward_write org bytes = ret ()"

definition mem_metrics :: "'z obs_scheme metrics_ops" where
  "mem_metrics = \<lparr>mo_ingest = mem_ingest, mo_query_range = mem_query_range, mo_forward_write = mem_forward_write\<rparr>"

section \<open>VictoriaMetrics store\<close>

text \<open>The three replacements, one after the other.\<close>

definition prom_escape :: "string \<Rightarrow> string" where
  "prom_escape x =
     concat (map (\<lambda>c. if c = CHR 0x0A then [CHR 0x5C, CHR ''n''] else [c])
       (concat (map (\<lambda>c. if c = CHR 0x22 then [CHR 0x5C, CHR 0x22] else [c])
         (concat (map (\<lambda>c. if c = CHR 0x5C then [CHR 0x5C, CHR 0x5C] else [c]) x)))))"

fun join :: "string \<Rightarrow> string list \<Rightarrow> string" where
  "join sep [] = []"
| "join sep [x] = x"
| "join sep (x # xs) = x @ sep @ join sep xs"

definition quoted_pair :: "string \<Rightarrow> string \<Rightarrow> string" where
  "quoted_pair name value = name @ ''='' @ [CHR 0x22] @ value @ [CHR 0x22]"

record vm_store =
  vm_base_url :: string
  vm_uuid_text :: "uuid \<Rightarrow> string"
  vm_round_ms :: "string \<Rightarrow> int"
  vm_parse_f64 :: "string \<Rightarrow> string + string"

definition vm_new :: "(string \<Rightarrow> string option) \<Rightarrow> (uuid \<Rightarrow> string) \<Rightarrow> (string \<Rightarrow> int) \<Rightarrow> (string \<Rightarrow> string + string) \<Rightarrow> string
    \<Rightarrow> string + vm_store" where
  "vm_new url_error txt round_ms parse raw =
     (case url_error raw of
        Some e \<Rightarrow> Inl (''victoria metrics URL: '' @ e)
      | None \<Rightarrow> Inr \<lparr>vm_base_url = rev (dropWhile (\<lambda>c. c = CHR ''/'') (rev raw)), vm_uuid_text = txt, vm_round_ms = round_ms,
                     vm_parse_f64 = parse\<rparr>)"

definition prom_line :: "vm_store \<Rightarrow> uuid \<Rightarrow> sample \<Rightarrow> string" where
  "prom_line vm org sm =
     opt_or (sample_name sm) ''unknown'' @ ''{''
     @ join '','' (map (\<lambda>l. quoted_pair (lb_name l) (prom_escape (lb_value l)))
          (filter (\<lambda>l. lb_name l \<noteq> ''__name__'' \<and> lb_name l \<noteq> ''organization_id'') (sm_labels sm))
        @ [quoted_pair ''organization_id'' (vm_uuid_text vm org)])
     @ ''}'' @ [CHR 0x09] @ sm_value sm @ '' '' @ show_int (sm_timestamp_ms sm) @ [CHR 0x0A]"

definition to_prom_text :: "vm_store \<Rightarrow> uuid \<Rightarrow> sample list \<Rightarrow> string" where
  "to_prom_text vm org samples = concat (map (prom_line vm org) samples)"

definition promql_selector :: "vm_store \<Rightarrow> uuid \<Rightarrow> range_query \<Rightarrow> string" where
  "promql_selector vm org q =
     ''{'' @ join '','' ([quoted_pair ''__name__'' (prom_escape (rq_metric q)), quoted_pair ''organization_id'' (vm_uuid_text vm org)]
       @ map (\<lambda>l. quoted_pair (lb_name l) (prom_escape (lb_value l))) (rq_label_eq q)) @ ''}''"

definition em_dash :: string where
  "em_dash = [CHR '' '', CHR 0xE2, CHR 0x80, CHR 0x94, CHR '' '']"

definition vm_send :: "vm_request \<Rightarrow> ('z obs_scheme, metrics_error, nat \<times> string \<times> string \<times> (string + prom_envelope)) op" where
  "vm_send rq s =
     (let t = s\<lparr>vm_log := vm_log s @ [rq]\<rparr> in
      case vm_env s (vm_log s) rq of
        VmDown e \<Rightarrow> (Inl (MetBackend e), t)
      | VmReply status line text env \<Rightarrow> (Inr (status, line, text, env), t))"

definition vm_ingest :: "vm_store \<Rightarrow> uuid \<Rightarrow> sample list \<Rightarrow> ('z obs_scheme, metrics_error, nat) op" where
  "vm_ingest vm org samples =
     (if length samples = 0 then ret 0
      else
        bindE (vm_send \<lparr>vq_method = ''POST'', vq_url = vm_base_url vm @ ''/api/v1/import/prometheus'',
          vq_headers = [(''Content-Type'', ''text/plain'')], vq_query = [], vq_body = to_prom_text vm org samples\<rparr>) (\<lambda>(status, line, text, _).
        if \<not> is_success status then fail (MetBackend (''victoria metrics ingest: '' @ line @ em_dash @ text))
        else ret (length samples)))"

definition vm_write_request :: "vm_store \<Rightarrow> uuid \<Rightarrow> string \<Rightarrow> vm_request" where
  "vm_write_request vm org bytes =
     \<lparr>vq_method = ''POST'', vq_url = vm_base_url vm @ ''/api/v1/write?extra_label=organization_id='' @ vm_uuid_text vm org,
      vq_headers = [(''Content-Type'', ''application/x-protobuf''), (''Content-Encoding'', ''snappy''),
        (''X-Prometheus-Remote-Write-Version'', ''0.1.0'')], vq_query = [], vq_body = bytes\<rparr>"

definition vm_forward_write :: "vm_store \<Rightarrow> uuid \<Rightarrow> string \<Rightarrow> ('z obs_scheme, metrics_error, unit) op" where
  "vm_forward_write vm org bytes =
     (if bytes = [] then ret ()
      else
        bindE (vm_send (vm_write_request vm org bytes)) (\<lambda>(status, line, text, _).
        if \<not> is_success status then fail (MetBackend (''victoria metrics write: '' @ line @ em_dash @ text))
        else ret ()))"

text \<open>\<open>i64\<close> arithmetic of the release build: subtraction and \<open>abs\<close> wrap around, division
  and remainder truncate towards zero.\<close>

definition wrap_i64 :: "int \<Rightarrow> int" where
  "wrap_i64 x = (x + 2 ^ 63) mod 2 ^ 64 - 2 ^ 63"

definition trunc_div :: "int \<Rightarrow> int \<Rightarrow> int" where
  "trunc_div a b = (if a < 0 then - ((- a) div b) else a div b)"

definition trunc_rem :: "int \<Rightarrow> int \<Rightarrow> int" where
  "trunc_rem a b = a - b * trunc_div a b"

definition step_secs :: "range_query \<Rightarrow> int" where
  "step_secs q =
     (let window_secs = trunc_div (max 0 (wrap_i64 (rq_end_ms q - rq_start_ms q))) 1000
      in max 15 (trunc_div window_secs 360))"

text \<open>\<open>format!("{}.{:03}", ms / 1000, ms.abs() % 1000)\<close>.\<close>

definition pad3 :: "int \<Rightarrow> string" where
  "pad3 n = (let body = show_nat (nat \<bar>n\<bar>); sign = (if n < 0 then ''-'' else '''') in
     sign @ replicate (3 - length sign - length body) (CHR ''0'') @ body)"

definition seconds_text :: "int \<Rightarrow> string" where
  "seconds_text ms = show_int (trunc_div ms 1000) @ ''.'' @ pad3 (trunc_rem (wrap_i64 \<bar>ms\<bar>) 1000)"

definition series_samples :: "vm_store \<Rightarrow> prom_series \<Rightarrow> metrics_error + sample list" where
  "series_samples vm ser =
     (let labels = map (\<lambda>(k, v). \<lparr>lb_name = k, lb_value = v\<rparr>) (filter (\<lambda>(k, _). k \<noteq> ''organization_id'') (ps_metric ser)) in
      fold (\<lambda>(ts, val) acc.
        case acc of
          Inl e \<Rightarrow> Inl e
        | Inr out \<Rightarrow>
            (case vm_parse_f64 vm val of
               Inl e \<Rightarrow> Inl (MetBackend (''parse sample value: '' @ e))
             | Inr v \<Rightarrow> Inr (out @ [\<lparr>sm_labels = labels, sm_timestamp_ms = vm_round_ms vm ts, sm_value = v\<rparr>])))
        (ps_values ser) (Inr []))"

fun all_samples :: "vm_store \<Rightarrow> prom_series list \<Rightarrow> metrics_error + sample list" where
  "all_samples vm [] = Inr []"
| "all_samples vm (ser # rest) =
     (case series_samples vm ser of
        Inl e \<Rightarrow> Inl e
      | Inr xs \<Rightarrow> (case all_samples vm rest of Inl e \<Rightarrow> Inl e | Inr ys \<Rightarrow> Inr (xs @ ys)))"

definition vm_query_range :: "vm_store \<Rightarrow> uuid \<Rightarrow> range_query \<Rightarrow> ('z obs_scheme, metrics_error, sample list) op" where
  "vm_query_range vm org q =
     bindE (vm_send \<lparr>vq_method = ''GET'', vq_url = vm_base_url vm @ ''/api/v1/query_range'', vq_headers = [],
       vq_query = [(''query'', promql_selector vm org q), (''start'', seconds_text (rq_start_ms q)), (''end'', seconds_text (rq_end_ms q)),
         (''step'', show_int (step_secs q) @ ''s'')], vq_body = []\<rparr>) (\<lambda>(status, line, text, body).
     if \<not> is_success status then fail (MetBackend (''victoria metrics query: '' @ line @ em_dash @ text))
     else
       bindE (of_sum MetBackend body) (\<lambda>env.
       if pe_status env \<noteq> ''success''
       then fail (MetBackend (''victoria metrics query error: '' @ opt_or (pe_error_type env) ''unknown'' @ em_dash @ opt_or (pe_error env) ''''))
       else of_sum id (all_samples vm (opt_or (pe_data env) []))))"

definition vm_metrics :: "vm_store \<Rightarrow> 'z obs_scheme metrics_ops" where
  "vm_metrics vm = \<lparr>mo_ingest = vm_ingest vm, mo_query_range = vm_query_range vm, mo_forward_write = vm_forward_write vm\<rparr>"

section \<open>Handlers\<close>

definition handle_write :: "'s metrics_ops \<Rightarrow> uuid \<Rightarrow> write_request \<Rightarrow> ('s, metrics_error, nat) op" where
  "handle_write store org req =
     (if org \<noteq> wr_organization_id req then fail (TenantMismatch org (wr_organization_id req))
      else mo_ingest store org (wr_samples req))"

definition handle_query :: "'s metrics_ops \<Rightarrow> uuid \<Rightarrow> range_query \<Rightarrow> ('s, metrics_error, sample list) op" where
  "handle_query store org q = mo_query_range store org q"

definition metrics_error_to_api :: "(uuid \<Rightarrow> string) \<Rightarrow> metrics_error \<Rightarrow> api_error" where
  "metrics_error_to_api txt e =
     (case e of
        TenantMismatch a b \<Rightarrow> Problem (Forbidden (''tenant mismatch: actor=<'' @ txt a @ ''> body=<'' @ txt b @ ''>''))
      | MetBackend m \<Rightarrow> Problem (Internal m))"

definition api_write :: "'z obs_scheme metrics_ops \<Rightarrow> actor \<Rightarrow> write_request \<Rightarrow> ('z obs_scheme, api_error, nat \<times> nat) op" where
  "api_write store a body =
     bindE (getS pg_uuid_text) (\<lambda>txt.
     bindE (map_err (metrics_error_to_api txt) (handle_write store (act_org a) body)) (\<lambda>accepted.
     ret (202, accepted)))"

definition api_query :: "'z obs_scheme metrics_ops \<Rightarrow> actor \<Rightarrow> range_query \<Rightarrow> ('z obs_scheme, api_error, sample list) op" where
  "api_query store a q =
     bindE (getS pg_uuid_text) (\<lambda>txt.
     map_err (metrics_error_to_api txt) (handle_query store (act_org a) q))"

section \<open>Tenants do not see each other's samples\<close>

text \<open>What a metrics store promises its callers, over the samples a tenant can see.\<close>

locale tenant_metrics =
  fixes ops :: "'s metrics_ops" and samples_of :: "'s \<Rightarrow> uuid \<Rightarrow> sample list"
  assumes ingest: "mo_ingest ops org xs s = (Inr n, t) \<Longrightarrow> n = length xs \<and> samples_of t org = samples_of s org @ xs"
    and ingest_other: "org' \<noteq> org \<Longrightarrow> mo_ingest ops org xs s = (r, t) \<Longrightarrow> samples_of t org' = samples_of s org'"
    and ingest_refused: "mo_ingest ops org xs s = (Inl e, t) \<Longrightarrow> samples_of t org = samples_of s org"
    and query: "mo_query_range ops org q s = (Inr out, t) \<Longrightarrow> out = filter (\<lambda>x. sample_matches x q) (samples_of s org)"
begin

lemma write_step:
  "samples_of (snd (handle_write ops org req s)) o' = samples_of s o'
     @ (if o' = org \<and> wr_organization_id req = org \<and> (\<exists>n. fst (handle_write ops org req s) = Inr n) then wr_samples req else [])"
proof (cases "org = wr_organization_id req")
  case False
  then show ?thesis by (simp add: handle_write_def fail_def)
next
  case True
  obtain r t where run: "mo_ingest ops org (wr_samples req) s = (r, t)" by fastforce
  show ?thesis
  proof (cases "o' = org")
    case o': True
    show ?thesis
    proof (cases r)
      case (Inl e)
      with True o' run ingest_refused show ?thesis by (simp add: handle_write_def)
    next
      case (Inr n)
      with True o' run ingest show ?thesis by (auto simp: handle_write_def)
    qed
  next
    case False
    with True run ingest_other [OF False] show ?thesis by (simp add: handle_write_def)
  qed
qed

end

definition mem_samples :: "'z obs_scheme \<Rightarrow> uuid \<Rightarrow> sample list" where
  "mem_samples s org = opt_or (map_of (metric_rows s) org) []"

interpretation mem: tenant_metrics mem_metrics mem_samples
  by unfold_locales
    (auto simp: mem_metrics_def mem_ingest_def mem_query_range_def mem_samples_def update_conv' opt_or_def split: option.splits)

text \<open>A batch is attributed to the tenant that sent it, and only when it says so.\<close>

definition contributed :: "uuid \<Rightarrow> (actor \<times> write_request) list \<Rightarrow> sample list" where
  "contributed org ws = concat (map (\<lambda>(a, req). if act_org a = org \<and> wr_organization_id req = org then wr_samples req else []) ws)"

definition write_all :: "(actor \<times> write_request) list \<Rightarrow> 'z obs_scheme \<Rightarrow> 'z obs_scheme" where
  "write_all ws s = fold (\<lambda>(a, req) s. snd (api_write mem_metrics a req s)) ws s"

lemma mem_write_step:
  "mem_samples (snd (api_write mem_metrics a req s)) org
     = mem_samples s org @ (if act_org a = org \<and> wr_organization_id req = org then wr_samples req else [])"
proof -
  have "snd (api_write mem_metrics a req s) = snd (handle_write mem_metrics (act_org a) req s)"
    by (simp add: api_write_def bindE_def getS_def map_err_def ret_def split: prod.split sum.split)
  moreover have "\<exists>n. fst (handle_write mem_metrics (act_org a) req s) = Inr n" if "wr_organization_id req = act_org a"
    using that by (simp add: handle_write_def mem_metrics_def mem_ingest_def)
  ultimately show ?thesis using mem.write_step [of "act_org a" req s org] by auto
qed

text \<open>(C30) The in-memory store keeps tenants apart: after any sequence of writes by any
  actors with any bodies, a query answers exactly with the matching samples, in order,
  of the batches its own tenant sent under its own name; a batch that names another
  tenant is refused with 403.\<close>

theorem metrics_are_per_tenant:
  assumes "metric_rows s = []"
  shows "fst (api_query mem_metrics a q (write_all ws s)) = Inr (filter (\<lambda>x. sample_matches x q) (contributed (act_org a) ws))
    \<and> (act_org b \<noteq> wr_organization_id req
        \<longrightarrow> response_status (projl (fst (api_write mem_metrics b req s))) = 403 \<and> snd (api_write mem_metrics b req s) = s)"
proof -
  have "mem_samples (write_all ws s) org = mem_samples s org @ contributed org ws" for org
    by (induction ws arbitrary: s rule: rev_induct)
      (auto simp: write_all_def contributed_def mem_write_step split: prod.split)
  then have "mem_samples (write_all ws s) (act_org a) = contributed (act_org a) ws"
    using assms by (simp add: mem_samples_def opt_or_def)
  moreover have "mo_query_range mem_metrics (act_org a) q t = (Inr (filter (\<lambda>x. sample_matches x q) (mem_samples t (act_org a))), t)" for t :: "'a obs_scheme"
    by (simp add: mem_metrics_def mem_query_range_def mem_samples_def opt_or_def split: option.split)
  ultimately show ?thesis
    by (simp add: api_query_def handle_query_def api_write_def handle_write_def bindE_def getS_def map_err_def fail_def metrics_error_to_api_def
        response_status_def into_problem_def)
qed

definition demo_obs :: obs where
  "demo_obs = api.extend demo_api (obs.fields [] (\<lambda>_ _. VmReply 204 ''204 No Content'' '''' (Inl ''eof'')) [])"

definition demo_sample :: "string \<Rightarrow> int \<Rightarrow> sample" where
  "demo_sample name ts = \<lparr>sm_labels = [\<lparr>lb_name = ''__name__'', lb_value = name\<rparr>], sm_timestamp_ms = ts, sm_value = ''1''\<rparr>"

definition demo_actor :: "uuid \<Rightarrow> actor" where
  "demo_actor org = \<lparr>act_user = 10, act_session = 20, act_org = org\<rparr>"

theorem metrics_are_per_tenant_witness:
  "fst (api_query mem_metrics (demo_actor 1) \<lparr>rq_metric = ''cpu'', rq_label_eq = [], rq_start_ms = 0, rq_end_ms = 150\<rparr>
      (write_all [(demo_actor 1, \<lparr>wr_organization_id = 1, wr_samples = [demo_sample ''cpu'' 100, demo_sample ''cpu'' 200]\<rparr>),
                  (demo_actor 2, \<lparr>wr_organization_id = 1, wr_samples = [demo_sample ''cpu'' 120]\<rparr>)] demo_obs))
     = Inr [demo_sample ''cpu'' 100]"
proof -
  have "metric_rows demo_obs = []" by (simp add: demo_obs_def obs.defs api.defs)
  from metrics_are_per_tenant [OF this, of "demo_actor 1" "\<lparr>rq_metric = ''cpu'', rq_label_eq = [], rq_start_ms = 0, rq_end_ms = 150\<rparr>"
      "[(demo_actor 1, \<lparr>wr_organization_id = 1, wr_samples = [demo_sample ''cpu'' 100, demo_sample ''cpu'' 200]\<rparr>),
                  (demo_actor 2, \<lparr>wr_organization_id = 1, wr_samples = [demo_sample ''cpu'' 120]\<rparr>)]"]
  show ?thesis by (simp add: contributed_def demo_actor_def demo_sample_def sample_matches_def sample_name_def)
qed

section \<open>Selectors\<close>

text \<open>A string literal of the query language, read from behind its opening quote: the
  text and what follows the closing quote.\<close>

fun prom_read :: "string \<Rightarrow> (string \<times> string) option" where
  "prom_read [] = None"
| "prom_read (c # cs) =
     (if c = CHR 0x22 then Some ([], cs)
      else if c = CHR 0x0A then None
      else if c = CHR 0x5C then
        (case cs of
           [] \<Rightarrow> None
         | d # ds \<Rightarrow>
             (case (if d = CHR ''n'' then Some (CHR 0x0A) else if d = CHR 0x22 \<or> d = CHR 0x5C then Some d else None) of
                None \<Rightarrow> None
              | Some e \<Rightarrow> map_option (\<lambda>(v, rest). (e # v, rest)) (prom_read ds)))
      else map_option (\<lambda>(v, rest). (c # v, rest)) (prom_read cs))"

lemma prom_escape_chars:
  "prom_escape x = concat (map (\<lambda>c. if c = CHR 0x5C then [CHR 0x5C, CHR 0x5C] else if c = CHR 0x22 then [CHR 0x5C, CHR 0x22]
     else if c = CHR 0x0A then [CHR 0x5C, CHR ''n''] else [c]) x)"
  by (induction x) (auto simp: prom_escape_def)

lemma prom_read_escape: "prom_read (prom_escape v @ CHR 0x22 # rest) = Some (v, rest)"
  by (induction v) (simp_all add: prom_escape_chars)

definition name_char :: "char \<Rightarrow> bool" where
  "name_char c \<longleftrightarrow> c \<noteq> CHR ''='' \<and> c \<noteq> CHR '','' \<and> c \<noteq> CHR ''{'' \<and> c \<noteq> CHR ''}'' \<and> c \<noteq> CHR 0x22"

text \<open>The matchers of a selector, up to the closing brace; \<open>fuel\<close> bounds their number.\<close>

fun read_matchers :: "nat \<Rightarrow> string \<Rightarrow> ((string \<times> string) list \<times> string) option" where
  "read_matchers 0 x = None"
| "read_matchers (Suc fuel) x =
     (let name = takeWhile name_char x; y = dropWhile name_char x in
      if take 2 y \<noteq> [CHR ''='', CHR 0x22] then None
      else (case prom_read (drop 2 y) of
              None \<Rightarrow> None
            | Some (v, rest) \<Rightarrow>
                if take 1 rest = '','' then map_option (\<lambda>(ms, after). ((name, v) # ms, after)) (read_matchers fuel (drop 1 rest))
                else if take 1 rest = ''}'' then Some ([(name, v)], drop 1 rest)
                else None))"

definition read_selector :: "nat \<Rightarrow> string \<Rightarrow> ((string \<times> string) list \<times> string) option" where
  "read_selector fuel x = (if take 1 x = ''{'' then read_matchers fuel (drop 1 x) else None)"

lemma name_split:
  "list_all name_char n \<Longrightarrow> takeWhile name_char (n @ CHR ''='' # x) = n \<and> dropWhile name_char (n @ CHR ''='' # x) = CHR ''='' # x"
  by (induction n) (auto simp: name_char_def)

lemma read_matchers_join:
  assumes "ps \<noteq> []" and "\<forall>(n, v) \<in> set ps. list_all name_char n" and "length ps \<le> fuel"
  shows "read_matchers fuel (join '','' (map (\<lambda>(n, v). quoted_pair n (prom_escape v)) ps) @ CHR ''}'' # rest) = Some (ps, rest)"
  using assms
proof (induction ps arbitrary: fuel)
  case (Cons p ps)
  obtain n v where p: "p = (n, v)" by fastforce
  obtain f where f: "fuel = Suc f" using Cons.prems(3) by (cases fuel) auto
  have n: "list_all name_char n" using Cons.prems(2) by (simp add: p)
  show ?case
  proof (cases ps)
    case Nil
    then show ?thesis using name_split [OF n] by (simp add: p f quoted_pair_def prom_read_escape)
  next
    case (Cons q qs)
    have "read_matchers f (join '','' (map (\<lambda>(n, v). quoted_pair n (prom_escape v)) ps) @ CHR ''}'' # rest) = Some (ps, rest)"
      using Cons.IH [of f] Cons.prems f Cons by simp
    then show ?thesis using name_split [OF n] Cons by (simp add: p f quoted_pair_def prom_read_escape)
  qed
qed simp

definition matchers :: "vm_store \<Rightarrow> uuid \<Rightarrow> range_query \<Rightarrow> (string \<times> string) list" where
  "matchers vm org q = [(''__name__'', rq_metric q), (''organization_id'', vm_uuid_text vm org)] @ map (\<lambda>l. (lb_name l, lb_value l)) (rq_label_eq q)"

text \<open>The characters of a UUID's text need no escape.\<close>

definition plain_text :: "string \<Rightarrow> bool" where
  "plain_text x \<longleftrightarrow> list_all (\<lambda>c. c \<noteq> CHR 0x5C \<and> c \<noteq> CHR 0x22 \<and> c \<noteq> CHR 0x0A) x"

lemma escape_plain: "plain_text x \<Longrightarrow> prom_escape x = x"
  unfolding prom_escape_chars by (induction x) (auto simp: plain_text_def)

text \<open>The selector of a query with proper label names is scoped to the tenant: read
  back by the rules of the query language it is one selector with the metric, the
  tenant's \<open>organization_id\<close> and the given matchers, values with quotes, backslashes
  and line breaks included, and nothing is left over.\<close>

theorem selector_is_scoped:
  assumes "\<forall>l \<in> set (rq_label_eq q). list_all name_char (lb_name l)" and "plain_text (vm_uuid_text vm org)"
    and "length (rq_label_eq q) + 2 \<le> fuel"
  shows "read_selector fuel (promql_selector vm org q) = Some (matchers vm org q, [])"
proof -
  have "promql_selector vm org q = CHR ''{'' # join '','' (map (\<lambda>(n, v). quoted_pair n (prom_escape v)) (matchers vm org q)) @ [CHR ''}'']"
    using escape_plain [OF assms(2)] by (simp add: promql_selector_def matchers_def comp_def)
  moreover have "list_all name_char ''__name__''" "list_all name_char ''organization_id''" by code_simp+
  ultimately show ?thesis
    using assms read_matchers_join [of "matchers vm org q" fuel "[]"] by (auto simp: read_selector_def matchers_def)
qed

definition demo_vm :: vm_store where
  "demo_vm = \<lparr>vm_base_url = ''http://vm'', vm_uuid_text = show_nat, vm_round_ms = (\<lambda>_. 0), vm_parse_f64 = Inr\<rparr>"

theorem selector_is_scoped_witness:
  "read_selector 3 (promql_selector demo_vm 1 \<lparr>rq_metric = ''cpu'', rq_label_eq = [\<lparr>lb_name = ''path'', lb_value = [CHR 0x22, CHR ''}'']\<rparr>],
       rq_start_ms = 0, rq_end_ms = 1\<rparr>)
     = Some ([(''__name__'', ''cpu''), (''organization_id'', ''1''), (''path'', [CHR 0x22, CHR ''}''])], [])"
proof -
  let ?q = "\<lparr>rq_metric = ''cpu'', rq_label_eq = [\<lparr>lb_name = ''path'', lb_value = [CHR 0x22, CHR ''}'']\<rparr>], rq_start_ms = 0, rq_end_ms = 1\<rparr>"
  have "\<forall>l \<in> set (rq_label_eq ?q). list_all name_char (lb_name l)" "plain_text (vm_uuid_text demo_vm 1)" "length (rq_label_eq ?q) + 2 \<le> 3"
    "matchers demo_vm 1 ?q = [(''__name__'', ''cpu''), (''organization_id'', ''1''), (''path'', [CHR 0x22, CHR ''}''])]"
    by code_simp+
  with selector_is_scoped [of ?q demo_vm 1 3] show ?thesis by simp
qed

text \<open>The name of a matcher that closes the selector and opens another one.\<close>

definition forged_name :: "string \<Rightarrow> string" where
  "forged_name metric = ''x'' @ ''='' @ [CHR 0x22] @ ''1'' @ [CHR 0x22] @ ''} or {'' @ quoted_pair ''__name__'' (prom_escape metric) @ '',organization_id''"

text \<open>(C31) Label names are put into the texts as they come, and that breaks the isolation
  of the metrics server: with a forged matcher name, the selector built for one tenant
  is, character for character, that tenant's selector \<open>or\<close>-ed with the selector of any
  other tenant; with a forged metric name, the import text built for one tenant
  contains the line of any sample of any other tenant.\<close>

theorem label_names_escape_the_tenant:
  "plain_text (vm_uuid_text vm victim) \<Longrightarrow>
     promql_selector vm org (q\<lparr>rq_label_eq := [\<lparr>lb_name = forged_name (rq_metric q), lb_value = vm_uuid_text vm victim\<rparr>]\<rparr>)
       = promql_selector vm org (q\<lparr>rq_label_eq := [\<lparr>lb_name = ''x'', lb_value = ''1''\<rparr>]\<rparr>) @ '' or ''
         @ promql_selector vm victim (q\<lparr>rq_label_eq := []\<rparr>)
     \<and> to_prom_text vm org [\<lparr>sm_labels = [\<lparr>lb_name = ''__name__'', lb_value = to_prom_text vm victim forged @ metric\<rparr>], sm_timestamp_ms = ts, sm_value = val\<rparr>]
       = to_prom_text vm victim forged
         @ to_prom_text vm org [\<lparr>sm_labels = [\<lparr>lb_name = ''__name__'', lb_value = metric\<rparr>], sm_timestamp_ms = ts, sm_value = val\<rparr>]"
  by (simp add: promql_selector_def forged_name_def quoted_pair_def escape_plain prom_escape_chars [of "''1''"]
      to_prom_text_def prom_line_def sample_name_def opt_or_def)

theorem label_names_escape_the_tenant_witness:
  "promql_selector demo_vm 1 \<lparr>rq_metric = ''cpu'', rq_label_eq = [\<lparr>lb_name = forged_name ''cpu'', lb_value = show_nat 2\<rparr>], rq_start_ms = 0, rq_end_ms = 1\<rparr>
   = promql_selector demo_vm 1 \<lparr>rq_metric = ''cpu'', rq_label_eq = [\<lparr>lb_name = ''x'', lb_value = ''1''\<rparr>], rq_start_ms = 0, rq_end_ms = 1\<rparr>
     @ '' or '' @ promql_selector demo_vm 2 \<lparr>rq_metric = ''cpu'', rq_label_eq = [], rq_start_ms = 0, rq_end_ms = 1\<rparr>"
proof -
  have "plain_text (vm_uuid_text demo_vm 2)" by code_simp
  from label_names_escape_the_tenant [OF this, of 1 "\<lparr>rq_metric = ''cpu'', rq_label_eq = [], rq_start_ms = 0, rq_end_ms = 1\<rparr>"]
  show ?thesis by (simp add: demo_vm_def)
qed

section \<open>The resolution of a query\<close>

lemma wrap_small: "0 \<le> x \<Longrightarrow> x < 2 ^ 63 \<Longrightarrow> wrap_i64 x = x"
  by (simp add: wrap_i64_def)

lemma int_div_below:
  "w div k < n" if "w < n * k" "0 < k" for w k n :: int
proof (rule ccontr)
  assume "\<not> w div k < n"
  then have "n * k \<le> w div k * k" using that by simp
  also have "\<dots> \<le> w" using that by (simp add: minus_mod_eq_div_mult [symmetric])
  finally show False using that by simp
qed

text \<open>A query asks for a bounded number of points: the step is at least 15 seconds,
  and over a window that does not overflow 64 bits there are at most 384 steps,
  however long the window is.\<close>

theorem query_resolution_bounds:
  assumes "rq_start_ms q \<le> rq_end_ms q" and "rq_end_ms q - rq_start_ms q < 2 ^ 63"
  shows "15 \<le> step_secs q \<and> ((rq_end_ms q - rq_start_ms q) div 1000) div step_secs q \<le> 384"
proof -
  define w where "w = (rq_end_ms q - rq_start_ms q) div 1000"
  have w: "0 \<le> w" using assms(1) by (simp add: w_def pos_imp_zdiv_nonneg_iff)
  have step: "step_secs q = max 15 (w div 360)"
    using assms by (simp add: step_secs_def wrap_small trunc_div_def w_def pos_imp_zdiv_neg_iff Let_def)
  have "w < 385 * max 15 (w div 360)"
  proof (cases "w div 360 < 15")
    case True
    then have "w < 5400" by linarith
    then show ?thesis by simp
  next
    case False
    have "w = 360 * (w div 360) + w mod 360" "w mod 360 < 360" by simp_all
    with False show ?thesis by linarith
  qed
  then have "w div max 15 (w div 360) < 385"
    by (intro int_div_below) simp_all
  then show ?thesis unfolding w_def [symmetric] step by simp
qed

theorem query_resolution_bounds_witness:
  "15 \<le> step_secs \<lparr>rq_metric = ''m'', rq_label_eq = [], rq_start_ms = 0, rq_end_ms = 31536000000\<rparr>
   \<and> (31536000000 div 1000) div step_secs \<lparr>rq_metric = ''m'', rq_label_eq = [], rq_start_ms = 0, rq_end_ms = 31536000000\<rparr> \<le> 384"
  using query_resolution_bounds [of "\<lparr>rq_metric = ''m'', rq_label_eq = [], rq_start_ms = 0, rq_end_ms = 31536000000\<rparr>"] by simp

section \<open>Metrics of a cluster\<close>

text \<open>\<open>GET /v1/clusters/{id}/metrics\<close> of \<open>api/src/clusters.rs\<close>; \<open>round_ms\<close> turns the text of a
  float in seconds into milliseconds.\<close>

definition metrics_error_text :: "(uuid \<Rightarrow> string) \<Rightarrow> metrics_error \<Rightarrow> string" where
  "metrics_error_text txt e =
     (case e of
        TenantMismatch a b \<Rightarrow> ''tenant mismatch: actor=<'' @ txt a @ ''> body=<'' @ txt b @ ''>''
      | MetBackend m \<Rightarrow> ''backend: '' @ m)"

definition query_metrics ::
    "(string \<Rightarrow> int) \<Rightarrow> 'z obs_scheme metrics_ops \<Rightarrow> actor \<Rightarrow> uuid \<Rightarrow> string \<Rightarrow> string \<Rightarrow> string
      \<Rightarrow> ('z obs_scheme, api_error, sample list) op" where
  "query_metrics round_ms store a cid metric from_s to_s =
     bindE (map_err Problem (cluster_get (act_org a) cid)) (\<lambda>_.
     bindE (getS pg_uuid_text) (\<lambda>txt.
     map_err (\<lambda>e. Problem (Internal (''metrics query: '' @ metrics_error_text txt e)))
       (mo_query_range store (act_org a)
          \<lparr>rq_metric = metric, rq_label_eq = [], rq_start_ms = round_ms from_s, rq_end_ms = round_ms to_s\<rparr>)))"

text \<open>The cluster in the path only guards the query: two live clusters of the actor's
  organization give the same samples, those of every cluster of the organization, and a
  cluster of another tenant is \<open>NotFound\<close>.\<close>

lemma cluster_metrics_are_of_the_organization:
  assumes "\<not> db_faulty s"
  shows "fst (query_metrics round_ms mem_metrics a cid metric from_s to_s s) =
    (if \<exists>r \<in> set (clusters s). cluster_visible s (act_org a) r \<and> cl_id r = cid \<and> cl_deleted_at r = None
     then Inr (filter (\<lambda>x. sample_matches x
       \<lparr>rq_metric = metric, rq_label_eq = [], rq_start_ms = round_ms from_s, rq_end_ms = round_ms to_s\<rparr>) (mem_samples s (act_org a)))
     else Inl (Problem (NotFound (''cluster/'' @ pg_uuid_text s cid))))"
proof -
  let ?p = "\<lambda>r. cluster_visible s (act_org a) r \<and> cl_id r = cid \<and> cl_deleted_at r = None"
  show ?thesis
  proof (cases "find ?p (clusters s)")
    case None
    then have "\<not> (\<exists>r \<in> set (clusters s). ?p r)" by (simp only: find_None_iff_all) blast
    with None assms show ?thesis
      by (simp add: query_metrics_def cluster_get_def bindE_def map_err_def tx_def db_faulty_def)
  next
    case (Some r)
    then have "\<exists>r \<in> set (clusters s). ?p r" by (auto dest!: find_Some_iff2)
    with Some assms show ?thesis
      by (simp add: query_metrics_def cluster_get_def bindE_def map_err_def tx_def db_faulty_def getS_def mem_metrics_def mem_query_range_def
          mem_samples_def opt_or_def tick_def split: option.split)
  qed
qed

end
