(* ===== verification/Agent_Tunnel.thy ===== *)
theory Agent_Tunnel
  imports Observability
begin

text \<open>
  The control-plane end of the agent tunnel (\<open>api/src/agent.rs\<close>): the task that reads
  one stream, with its three local variables, and the decision where to listen. Messages
  arrive decoded, or as the error that ends the stream; the UUID and address parsers, the
  system clock and whether the response channel still has its receiver are arguments.
\<close>

section \<open>The listener\<close>

definition DEFAULT_AGENT_BIND_ADDR :: string where
  "DEFAULT_AGENT_BIND_ADDR = ''0.0.0.0:8082''"

datatype 'addr listener_decision = Disabled | InvalidAddr string | Bind 'addr

definition decide_listener :: "(string \<Rightarrow> string + 'addr) \<Rightarrow> string option \<Rightarrow> string option \<Rightarrow> 'addr listener_decision" where
  "decide_listener parse enabled addr_override =
     (if enabled = Some ''0'' then Disabled
      else let raw = opt_or addr_override DEFAULT_AGENT_BIND_ADDR in
        case parse raw of Inr addr \<Rightarrow> Bind addr | Inl e \<Rightarrow> InvalidAddr (raw @ '': '' @ e))"

text \<open>The address the server is spawned on, when it is spawned.\<close>

definition spawn_if_enabled :: "(string \<Rightarrow> string + 'addr) \<Rightarrow> (string \<Rightarrow> string option) \<Rightarrow> 'addr option" where
  "spawn_if_enabled parse var =
     (case decide_listener parse (var ''KUBINATE__AGENT_TUNNEL_ENABLED'') (var ''KUBINATE__AGENT_TUNNEL_ADDR'') of
        Disabled \<Rightarrow> None
      | InvalidAddr reason \<Rightarrow> None
      | Bind addr \<Rightarrow> Some addr)"

section \<open>One stream\<close>

record heartbeat =
  hb_cluster_id :: string
  hb_agent_version :: string
  hb_k3s_version :: string
  hb_sent_at_ms :: int

datatype agent_payload = PHeartbeat heartbeat | PMetrics string string | PAssertion string string

type_synonym agent_message = "string + agent_payload option"

record agent_env =
  ag_parse_uuid :: "string \<Rightarrow> uuid option"
  ag_since_epoch_ms :: "nat \<Rightarrow> int option"
  ag_receiver_open :: "nat \<Rightarrow> bool"

text \<open>The variables of the task; \<open>st_acks\<close> is what it has sent, and the number of acks
  built so far numbers the readings of the clock.\<close>

record agent_stream =
  st_cluster_id :: "string option"
  st_cluster_org_id :: "uuid option"
  st_agent_version :: "string option"
  st_acks :: "int list"

definition fresh_stream :: agent_stream where
  "fresh_stream = \<lparr>st_cluster_id = None, st_cluster_org_id = None, st_agent_version = None, st_acks = []\<rparr>"

definition wall_clock_ms :: "int option \<Rightarrow> int" where
  "wall_clock_ms since_epoch = min (opt_or since_epoch 0) (2 ^ 63 - 1)"

text \<open>\<open>Break\<close> leaves the loop, \<open>Continue\<close> reads the next message.\<close>

datatype flow = Continue | Break

definition on_heartbeat :: "agent_env \<Rightarrow> heartbeat \<Rightarrow> agent_stream \<Rightarrow> 'z cluster_db_scheme \<Rightarrow> flow \<times> agent_stream \<times> 'z cluster_db_scheme" where
  "on_heartbeat env hb st s =
     (let n = length (st_acks st);
          received_at_ms = wall_clock_ms (ag_since_epoch_ms env n);
          st1 = st\<lparr>st_cluster_id := Some (hb_cluster_id hb), st_agent_version := Some (hb_agent_version hb)\<rparr>;
          (st2, s2) = (case ag_parse_uuid env (hb_cluster_id hb) of
              None \<Rightarrow> (st1, s)
            | Some i \<Rightarrow>
                (case touch_agent_heartbeat i (hb_agent_version hb) s of
                   (Inr (Some org), t) \<Rightarrow> (st1\<lparr>st_cluster_org_id := Some org\<rparr>, t)
                 | (Inr None, t) \<Rightarrow> (st1, t)
                 | (Inl e, t) \<Rightarrow> (st1, t)))
      in if \<not> ag_receiver_open env n then (Break, st2, s2)
         else (Continue, st2\<lparr>st_acks := st_acks st2 @ [received_at_ms]\<rparr>, s2))"

definition on_metrics :: "agent_env \<Rightarrow> 's metrics_ops \<Rightarrow> string \<Rightarrow> string \<Rightarrow> agent_stream \<Rightarrow> 's \<Rightarrow> 's" where
  "on_metrics env store claimed bytes st s =
     (case ag_parse_uuid env claimed of
        None \<Rightarrow> s
      | Some org \<Rightarrow>
          (case st_cluster_org_id st of
             None \<Rightarrow> s
           | Some resolved \<Rightarrow> if resolved \<noteq> org then s else snd (mo_forward_write store org bytes s)))"

definition on_message ::
    "agent_env \<Rightarrow> 'z cluster_db_scheme metrics_ops \<Rightarrow> agent_message \<Rightarrow> agent_stream \<Rightarrow> 'z cluster_db_scheme
      \<Rightarrow> flow \<times> agent_stream \<times> 'z cluster_db_scheme" where
  "on_message env store msg st s =
     (case msg of
        Inl e \<Rightarrow> (Break, st, s)
      | Inr None \<Rightarrow> (Continue, st, s)
      | Inr (Some (PHeartbeat hb)) \<Rightarrow> on_heartbeat env hb st s
      | Inr (Some (PMetrics claimed bytes)) \<Rightarrow> (Continue, st, on_metrics env store claimed bytes st s)
      | Inr (Some (PAssertion _ _)) \<Rightarrow> (Continue, st, s))"

fun stream_loop ::
    "agent_env \<Rightarrow> 'z cluster_db_scheme metrics_ops \<Rightarrow> agent_message list \<Rightarrow> agent_stream \<Rightarrow> 'z cluster_db_scheme
      \<Rightarrow> agent_stream \<times> 'z cluster_db_scheme" where
  "stream_loop env store [] st s = (st, s)"
| "stream_loop env store (msg # rest) st s =
     (case on_message env store msg st s of
        (Break, st', t) \<Rightarrow> (st', t)
      | (Continue, st', t) \<Rightarrow> stream_loop env store rest st' t)"

text \<open>The acks the client receives, and the two fields of the event logged when the stream
  ends.\<close>

definition open_stream ::
    "agent_env \<Rightarrow> 'z cluster_db_scheme metrics_ops \<Rightarrow> agent_message list \<Rightarrow> 'z cluster_db_scheme
      \<Rightarrow> (int list \<times> string \<times> string) \<times> 'z cluster_db_scheme" where
  "open_stream env store inbound s =
     (let (st, t) = stream_loop env store inbound fresh_stream s
      in ((st_acks st, opt_or (st_cluster_id st) ''unknown'', opt_or (st_agent_version st) ''unknown''), t))"

section \<open>Writes are checked against a heartbeat\<close>

text \<open>The live clusters with their organizations; a heartbeat answers from it and keeps it.\<close>

definition live_orgs :: "'z cluster_db_scheme \<Rightarrow> (uuid \<times> uuid) list" where
  "live_orgs s = map (\<lambda>r. (cl_id r, cl_org r)) (filter (\<lambda>r. cl_deleted_at r = None) (clusters s))"

lemma live_orgs_update:
  assumes "\<And>r. cl_id (f r) = cl_id r \<and> cl_org (f r) = cl_org r \<and> cl_deleted_at (f r) = cl_deleted_at r"
  shows "map (\<lambda>r. (cl_id r, cl_org r)) (filter (\<lambda>r. cl_deleted_at r = None) (sql_update hit f rs))
    = map (\<lambda>r. (cl_id r, cl_org r)) (filter (\<lambda>r. cl_deleted_at r = None) rs)"
  using assms by (induction rs) (auto simp: sql_update_def)

lemma touch_keeps_live_orgs: "live_orgs (snd (touch_agent_heartbeat i v s)) = live_orgs s"
  by (simp add: touch_agent_heartbeat_def bindE_def tx_def ret_def fail_def Let_def live_orgs_def live_orgs_update
      split: prod.split sum.split option.split)

lemma touch_answer_is_live:
  assumes "touch_agent_heartbeat i v s = (Inr (Some org), t)"
  shows "(i, org) \<in> set (live_orgs s)"
proof -
  have "map_option cl_org (find (\<lambda>r. cl_id r = i \<and> cl_deleted_at r = None) (clusters s)) = Some org"
    using assms by (auto simp: touch_agent_heartbeat_def bindE_def tx_def ret_def fail_def Let_def split: if_splits option.splits)
  then show ?thesis by (force simp: live_orgs_def find_Some_iff)
qed

text \<open>An earlier heartbeat on the stream named a live cluster of the organization.\<close>

definition vouched :: "agent_env \<Rightarrow> (uuid \<times> uuid) list \<Rightarrow> agent_message list \<Rightarrow> uuid \<Rightarrow> bool" where
  "vouched env live seen org \<longleftrightarrow>
     list_ex (\<lambda>m. case m of
       Inr (Some (PHeartbeat hb)) \<Rightarrow> (case ag_parse_uuid env (hb_cluster_id hb) of None \<Rightarrow> False | Some i \<Rightarrow> (i, org) \<in> set live)
     | _ \<Rightarrow> False) seen"

text \<open>A request is admissible when the message that caused it is on the stream and claims
  an organization some earlier heartbeat vouched for.\<close>

definition admissible :: "(uuid \<Rightarrow> string \<Rightarrow> 'r) \<Rightarrow> agent_env \<Rightarrow> (uuid \<times> uuid) list \<Rightarrow> agent_message list \<Rightarrow> 'r \<Rightarrow> bool" where
  "admissible req env live msgs r \<longleftrightarrow>
     (\<exists>seen claimed b rest org. msgs = seen @ Inr (Some (PMetrics claimed b)) # rest \<and> b \<noteq> []
        \<and> ag_parse_uuid env claimed = Some org \<and> vouched env live seen org \<and> r = req org b)"

lemma admissibleI:
  assumes "ag_parse_uuid env claimed = Some org" and "b \<noteq> []" and "vouched env live seen org"
  shows "admissible req env live (seen @ Inr (Some (PMetrics claimed b)) # rest) (req org b)"
  using assms unfolding admissible_def by blast

text \<open>What the stream relies on in a metrics store: a forwarded body leaves one request,
  an empty one none, and nothing else of the state changes.\<close>

locale write_sink =
  fixes store :: "'z cluster_db_scheme metrics_ops"
    and log :: "'z cluster_db_scheme \<Rightarrow> 'r list"
    and req :: "uuid \<Rightarrow> string \<Rightarrow> 'r"
  assumes forward_log: "log (snd (mo_forward_write store org b s)) = log s @ (if b = [] then [] else [req org b])"
    and forward_clusters: "clusters (snd (mo_forward_write store org b s)) = clusters s"
    and touch_log: "log (snd (touch_agent_heartbeat i v s)) = log s"
begin

lemma heartbeat_step:
  assumes "on_heartbeat env hb st s = (f, st', t)"
  shows "log t = log s" and "live_orgs t = live_orgs s"
    and "st_cluster_org_id st' = st_cluster_org_id st
      \<or> (\<exists>i org. ag_parse_uuid env (hb_cluster_id hb) = Some i \<and> (i, org) \<in> set (live_orgs s) \<and> st_cluster_org_id st' = Some org)"
proof -
  have "log t = log s \<and> live_orgs t = live_orgs s \<and> (st_cluster_org_id st' = st_cluster_org_id st
      \<or> (\<exists>i org. ag_parse_uuid env (hb_cluster_id hb) = Some i \<and> (i, org) \<in> set (live_orgs s) \<and> st_cluster_org_id st' = Some org))"
  proof (cases "ag_parse_uuid env (hb_cluster_id hb)")
    case None
    with assms show ?thesis by (auto simp: on_heartbeat_def Let_def split: if_splits)
  next
    case (Some i)
    obtain r u where run: "touch_agent_heartbeat i (hb_agent_version hb) s = (r, u)" by fastforce
    with touch_log [of i "hb_agent_version hb" s] touch_keeps_live_orgs [of i "hb_agent_version hb" s]
    have "log u = log s" "live_orgs u = live_orgs s" by simp_all
    with assms Some run show ?thesis
      by (auto simp: on_heartbeat_def Let_def dest: touch_answer_is_live split: if_splits sum.splits option.splits)
  qed
  then show "log t = log s" "live_orgs t = live_orgs s" "st_cluster_org_id st' = st_cluster_org_id st
      \<or> (\<exists>i org. ag_parse_uuid env (hb_cluster_id hb) = Some i \<and> (i, org) \<in> set (live_orgs s) \<and> st_cluster_org_id st' = Some org)"
    by auto
qed

lemma metrics_step:
  "log (on_metrics env store claimed b st s) = log s @
     (case ag_parse_uuid env claimed of
        Some org \<Rightarrow> if st_cluster_org_id st = Some org \<and> b \<noteq> [] then [req org b] else []
      | None \<Rightarrow> [])"
  by (simp add: on_metrics_def forward_log split: option.split)

lemma metrics_live_orgs: "live_orgs (on_metrics env store claimed b st s) = live_orgs s"
  by (simp add: on_metrics_def forward_clusters live_orgs_def split: option.split)

lemma message_step:
  assumes "on_message env store m st s = (f, st', t)"
    and "\<forall>org. st_cluster_org_id st = Some org \<longrightarrow> vouched env (live_orgs s) seen org"
  shows "\<exists>new. log t = log s @ new \<and> (\<forall>r \<in> set new. \<forall>rest. admissible req env (live_orgs s) (seen @ m # rest) r)"
    and "live_orgs t = live_orgs s"
    and "\<forall>org. st_cluster_org_id st' = Some org \<longrightarrow> vouched env (live_orgs s) (seen @ [m]) org"
proof -
  have keep: "vouched env live seen org \<Longrightarrow> vouched env live (seen @ [m]) org" for live org
    by (simp add: vouched_def)
  have "(\<exists>new. log t = log s @ new \<and> (\<forall>r \<in> set new. \<forall>rest. admissible req env (live_orgs s) (seen @ m # rest) r))
     \<and> live_orgs t = live_orgs s \<and> (\<forall>org. st_cluster_org_id st' = Some org \<longrightarrow> vouched env (live_orgs s) (seen @ [m]) org)"
  proof (cases "\<exists>hb. m = Inr (Some (PHeartbeat hb))")
    case True
    then obtain hb where m: "m = Inr (Some (PHeartbeat hb))" by blast
    then have "on_heartbeat env hb st s = (f, st', t)" using assms(1) by (simp add: on_message_def)
    note step = heartbeat_step [OF this]
    from step(3) assms(2) keep have "\<forall>org. st_cluster_org_id st' = Some org \<longrightarrow> vouched env (live_orgs s) (seen @ [m]) org"
      by (auto simp: m vouched_def)
    with step(1,2) show ?thesis by simp
  next
    case heartbeat: False
    show ?thesis
    proof (cases "\<exists>claimed b. m = Inr (Some (PMetrics claimed b))")
      case True
      then obtain claimed b where m: "m = Inr (Some (PMetrics claimed b))" by blast
      with assms(1) have t: "t = on_metrics env store claimed b st s" and st': "st' = st" by (auto simp: on_message_def)
      have "\<forall>r \<in> set (case ag_parse_uuid env claimed of
          Some org \<Rightarrow> if st_cluster_org_id st = Some org \<and> b \<noteq> [] then [req org b] else []
        | None \<Rightarrow> []). \<forall>rest. admissible req env (live_orgs s) (seen @ m # rest) r"
        using assms(2) by (auto simp: m intro!: admissibleI split: option.splits)
      then show ?thesis using metrics_step [of env claimed b st s] assms(2) keep by (auto simp: t st' metrics_live_orgs)
    next
      case False
      with heartbeat assms keep show ?thesis
        by (auto simp: on_message_def split: sum.splits option.splits agent_payload.splits)
    qed
  qed
  then show "\<exists>new. log t = log s @ new \<and> (\<forall>r \<in> set new. \<forall>rest. admissible req env (live_orgs s) (seen @ m # rest) r)"
    and "live_orgs t = live_orgs s"
    and "\<forall>org. st_cluster_org_id st' = Some org \<longrightarrow> vouched env (live_orgs s) (seen @ [m]) org" by auto
qed

lemma loop_writes:
  assumes "stream_loop env store msgs st s = (st', t)"
    and "\<forall>org. st_cluster_org_id st = Some org \<longrightarrow> vouched env (live_orgs s) seen org"
  shows "\<exists>new. log t = log s @ new \<and> (\<forall>r \<in> set new. admissible req env (live_orgs s) (seen @ msgs) r)"
  using assms
proof (induction msgs arbitrary: st s seen)
  case Nil
  then show ?case by simp
next
  case (Cons m rest)
  obtain f st1 u where run: "on_message env store m st s = (f, st1, u)" by (metis prod_cases3)
  note step = message_step [OF run Cons.prems(2)]
  from step(1) obtain new where new: "log u = log s @ new"
      "\<forall>r \<in> set new. admissible req env (live_orgs s) (seen @ m # rest) r" by blast
  show ?case
  proof (cases f)
    case Break
    with Cons.prems(1) run new show ?thesis by auto
  next
    case Continue
    with Cons.prems(1) run have "stream_loop env store rest st1 u = (st', t)" by simp
    from Cons.IH [OF this, of "seen @ [m]"] step(2,3)
    obtain new' where "log t = log u @ new'" "\<forall>r \<in> set new'. admissible req env (live_orgs s) (seen @ m # rest) r" by auto
    with new show ?thesis by (intro exI [of _ "new @ new'"]) auto
  qed
qed

end

section \<open>The tunnel in front of VictoriaMetrics\<close>

lemma vm_log_tick [simp]: "vm_log (tick s) = vm_log s"
  by (simp add: tick_def)

lemma vm_log_trigger [simp]: "vm_log (audit_log_append_trigger c tb v g r s) = vm_log s"
  by (simp add: audit_log_append_trigger_def audit_log_append_explicit_def Let_def)

lemma vm_log_audit [simp]: "vm_log (audit_rows c tb v rows s) = vm_log s"
  by (induction rows arbitrary: s) (auto simp: audit_rows_Cons)

lemma vm_log_touch: "vm_log (snd (touch_agent_heartbeat i v s)) = vm_log s"
  by (simp add: touch_agent_heartbeat_def update_clusters_def bindE_def tx_def ret_def fail_def Let_def
      split: prod.split sum.split option.split)

lemma vm_send_state: "snd (vm_send rq s) = s\<lparr>vm_log := vm_log s @ [rq]\<rparr>"
  by (simp add: vm_send_def Let_def split: vm_outcome.split)

lemma vm_forward_state:
  "snd (vm_forward_write vm org b s) = (if b = [] then s else s\<lparr>vm_log := vm_log s @ [vm_write_request vm org b]\<rparr>)"
  using vm_send_state [of "vm_write_request vm org b" s]
  by (auto simp: vm_forward_write_def bindE_def ret_def fail_def split: prod.split sum.split)

interpretation tunnel: write_sink "vm_metrics vm" vm_log "vm_write_request vm" for vm
  by unfold_locales (simp_all add: vm_metrics_def vm_forward_state vm_log_touch)

text \<open>(C24) Every body the tunnel forwards to the metrics server comes from a message on the
  stream and is labelled with the organization that message claims, and an earlier
  heartbeat on the same stream named a live cluster of that organization; anything else
  is dropped. Faults of the database and of the metrics server, broken streams and
  clients that stop reading are covered.\<close>

theorem tunnel_writes_are_vouched:
  assumes "open_stream env (vm_metrics vm) inbound s = (out, t)"
  shows "\<exists>new. vm_log t = vm_log s @ new
    \<and> (\<forall>rq \<in> set new. \<exists>seen claimed body rest org.
         inbound = seen @ Inr (Some (PMetrics claimed body)) # rest \<and> ag_parse_uuid env claimed = Some org
         \<and> rq = vm_write_request vm org body \<and> vouched env (live_orgs s) seen org)"
proof -
  obtain st where "stream_loop env (vm_metrics vm) inbound fresh_stream s = (st, t)"
    using assms by (auto simp: open_stream_def split: prod.splits)
  from tunnel.loop_writes [OF this, of "[]"] show ?thesis
    by (fastforce simp: fresh_stream_def admissible_def)
qed

definition demo_agent_env :: agent_env where
  "demo_agent_env = \<lparr>ag_parse_uuid = parse_nat, ag_since_epoch_ms = (\<lambda>n. Some (1000 + int n)), ag_receiver_open = (\<lambda>_. True)\<rparr>"

definition demo_beat :: "string \<Rightarrow> agent_message" where
  "demo_beat c = Inr (Some (PHeartbeat \<lparr>hb_cluster_id = c, hb_agent_version = ''1.0'', hb_k3s_version = ''v1'', hb_sent_at_ms = 7\<rparr>))"

definition demo_write :: "string \<Rightarrow> string \<Rightarrow> agent_message" where
  "demo_write org body = Inr (Some (PMetrics org body))"

definition demo_tunnel :: obs where
  "demo_tunnel = demo_obs\<lparr>clusters := [demo_cluster_row 70 ''a'' None], vm_env := (\<lambda>_ _. VmDown ''refused'')\<rparr>"

theorem tunnel_writes_are_vouched_witness:
  "let inbound = [demo_write ''1'' ''early'', demo_beat ''70'', demo_write ''1'' ''m'', demo_write ''2'' ''n''] in
   vm_log (snd (open_stream demo_agent_env (vm_metrics demo_vm) inbound demo_tunnel)) = [vm_write_request demo_vm 1 ''m'']
   \<and> (\<exists>seen claimed body rest org. inbound = seen @ Inr (Some (PMetrics claimed body)) # rest
        \<and> vm_write_request demo_vm 1 ''m'' = vm_write_request demo_vm org body
        \<and> vouched demo_agent_env (live_orgs demo_tunnel) seen org)"
proof -
  let ?in = "[demo_write ''1'' ''early'', demo_beat ''70'', demo_write ''1'' ''m'', demo_write ''2'' ''n'']"
  obtain out t where run: "open_stream demo_agent_env (vm_metrics demo_vm) ?in demo_tunnel = (out, t)" by fastforce
  have log: "vm_log (snd (open_stream demo_agent_env (vm_metrics demo_vm) ?in demo_tunnel)) = [vm_write_request demo_vm 1 ''m'']"
    by code_simp
  have "vm_log demo_tunnel = []" by code_simp
  with tunnel_writes_are_vouched [OF run] log run show ?thesis by (auto simp: Let_def)
qed

section \<open>Answers\<close>

lemma heartbeat_flow:
  "on_heartbeat env hb st s = (f, st', t) \<Longrightarrow> ag_receiver_open env (length (st_acks st)) \<Longrightarrow>
   f = Continue \<and> st_acks st' = st_acks st @ [wall_clock_ms (ag_since_epoch_ms env (length (st_acks st)))]
   \<and> st_cluster_id st' = Some (hb_cluster_id hb) \<and> st_agent_version st' = Some (hb_agent_version hb)"
  by (auto simp: on_heartbeat_def Let_def split: option.splits sum.splits prod.splits if_splits)

definition heartbeats :: "agent_message list \<Rightarrow> heartbeat list" where
  "heartbeats = List.map_filter (\<lambda>m. case m of Inr (Some (PHeartbeat hb)) \<Rightarrow> Some hb | _ \<Rightarrow> None)"

lemma heartbeats_Cons:
  "heartbeats (m # ms) = (case m of Inr (Some (PHeartbeat hb)) \<Rightarrow> hb # heartbeats ms | _ \<Rightarrow> heartbeats ms)"
  by (simp add: heartbeats_def List.map_filter_simps split: sum.split option.split agent_payload.split)

lemma loop_acks:
  assumes "stream_loop env store inbound st s = (st', t)" and "\<forall>n. ag_receiver_open env n" and "list_all (\<lambda>m. \<not> isl m) inbound"
  shows "st_acks st' = st_acks st
      @ map (\<lambda>n. wall_clock_ms (ag_since_epoch_ms env n)) [length (st_acks st)..<length (st_acks st) + length (heartbeats inbound)]
    \<and> st_cluster_id st' = (if heartbeats inbound = [] then st_cluster_id st else Some (hb_cluster_id (last (heartbeats inbound))))
    \<and> st_agent_version st' = (if heartbeats inbound = [] then st_agent_version st else Some (hb_agent_version (last (heartbeats inbound))))"
  using assms
proof (induction inbound arbitrary: st s)
  case Nil
  then show ?case by (simp add: heartbeats_def List.map_filter_simps)
next
  case (Cons m rest)
  obtain f st1 u where run: "on_message env store m st s = (f, st1, u)" by (metis prod_cases3)
  show ?case
  proof (cases "\<exists>hb. m = Inr (Some (PHeartbeat hb))")
    case True
    then obtain hb where m: "m = Inr (Some (PHeartbeat hb))" by blast
    with run Cons.prems(2) heartbeat_flow [of env hb st s f st1 u] Cons.prems(1) have
      st1: "st_acks st1 = st_acks st @ [wall_clock_ms (ag_since_epoch_ms env (length (st_acks st)))]"
        "st_cluster_id st1 = Some (hb_cluster_id hb)" "st_agent_version st1 = Some (hb_agent_version hb)"
      and rest: "stream_loop env store rest st1 u = (st', t)"
      by (auto simp: on_message_def)
    from Cons.IH [OF rest] Cons.prems st1 show ?thesis by (auto simp: m heartbeats_Cons upt_conv_Cons Suc_le_eq simp del: upt_Suc)
  next
    case False
    with run Cons.prems have "f = Continue" "st1 = st" "heartbeats (m # rest) = heartbeats rest"
      by (auto simp: on_message_def heartbeats_Cons split: sum.splits option.splits agent_payload.splits)
    with Cons.IH [of st u] Cons.prems run show ?thesis by simp
  qed
qed

text \<open>While the client reads and the stream is healthy every heartbeat is acknowledged,
  in order, with the time of its arrival, whatever the cluster it names and whatever the
  database answers; the event logged at the end names the last heartbeat, and
  \<open>unknown\<close> when there was none.\<close>

theorem heartbeats_are_acknowledged:
  assumes "\<forall>n. ag_receiver_open env n" and "list_all (\<lambda>m. \<not> isl m) inbound"
  shows "fst (open_stream env store inbound s) =
    (map (\<lambda>n. wall_clock_ms (ag_since_epoch_ms env n)) [0..<length (heartbeats inbound)],
     if heartbeats inbound = [] then ''unknown'' else hb_cluster_id (last (heartbeats inbound)),
     if heartbeats inbound = [] then ''unknown'' else hb_agent_version (last (heartbeats inbound)))"
proof -
  obtain st t where run: "stream_loop env store inbound fresh_stream s = (st, t)" by fastforce
  from loop_acks [OF run assms] run show ?thesis by (simp add: open_stream_def fresh_stream_def opt_or_def)
qed

theorem heartbeats_are_acknowledged_witness:
  "fst (open_stream demo_agent_env (vm_metrics demo_vm) [demo_beat ''70'', Inr None, demo_beat ''x''] demo_tunnel)
     = ([1000, 1001], ''x'', ''1.0'')"
proof -
  let ?in = "[demo_beat ''70'', Inr None, demo_beat ''x'']"
  have "\<forall>n. ag_receiver_open demo_agent_env n" "list_all (\<lambda>m. \<not> isl m) ?in"
    by (simp_all add: demo_agent_env_def demo_beat_def)
  from heartbeats_are_acknowledged [OF this, of "vm_metrics demo_vm" demo_tunnel] show ?thesis
    by (simp add: heartbeats_Cons demo_beat_def demo_agent_env_def wall_clock_ms_def opt_or_def upt_conv_Cons heartbeats_def List.map_filter_simps)
qed

text \<open>The resolved organization outlives the heartbeat it came from: after a heartbeat
  for a live cluster, one for a cluster that does not resolve leaves the organization in
  place, so bodies for it are still forwarded while the stream reports the other cluster.\<close>

lemma resolved_organization_is_sticky:
  assumes "\<forall>n. ag_receiver_open env n" and "body \<noteq> []"
    and "ag_parse_uuid env (hb_cluster_id first) = Some i" and "touch_agent_heartbeat i (hb_agent_version first) s = (Inr (Some org), u)"
    and "ag_parse_uuid env (hb_cluster_id second) = None" and "ag_parse_uuid env claimed = Some org"
  shows "let ((acks, cluster, version), t) = open_stream env (vm_metrics vm)
      [Inr (Some (PHeartbeat first)), Inr (Some (PHeartbeat second)), Inr (Some (PMetrics claimed body))] s
    in cluster = hb_cluster_id second \<and> vm_log t = vm_log s @ [vm_write_request vm org body]"
  using assms vm_log_touch [of i "hb_agent_version first" s]
  by (simp add: open_stream_def on_message_def on_heartbeat_def on_metrics_def fresh_stream_def Let_def opt_or_def vm_metrics_def vm_forward_state)

end
