(* ===== verification/Vault_Http.thy ===== *)
theory Vault_Http
  imports Secrets_Store
begin

text \<open>
  The production transit client \<open>HttpVaultTransit\<close> (\<open>platform/src/secrets.rs\<close>) as an
  implementation of \<open>VaultTransit\<close>: its configuration, the requests it sends, and the
  round trip of the \<open>VaultStore\<close> on top of it. The Vault server is a function from the
  requests so far to its answer; URL joining, base64 and the JSON decoders are arguments.
\<close>

section \<open>Client\<close>

record vault_request =
  vr_url :: string
  vr_token :: string
  vr_fields :: "(string \<times> string) list"

record vault_http = secrets_db +
  vault_env :: "vault_request list \<Rightarrow> vault_request \<Rightarrow> http_outcome"
  vault_log :: "vault_request list"

record url_lib =
  url_parse :: "string \<Rightarrow> string + string"
  url_join :: "string \<Rightarrow> string \<Rightarrow> string + string"

record wire_lib =
  wl_reason :: "nat \<Rightarrow> string"
  wl_b64 :: "string \<Rightarrow> string"
  wl_unb64 :: "string \<Rightarrow> string option"
  wl_ciphertext :: "string \<Rightarrow> string option"
  wl_plaintext :: "string \<Rightarrow> string option"

record http_vault =
  hv_base_url :: string
  hv_token :: string

definition http_vault_new :: "url_lib \<Rightarrow> string \<Rightarrow> string \<Rightarrow> secret_error + http_vault" where
  "http_vault_new url base token =
     (case url_parse url base of
        Inl e \<Rightarrow> Inl (SecInvalidKek (''KUBINATE__VAULT_ADDR invalid url: '' @ e))
      | Inr parsed \<Rightarrow> Inr \<lparr>hv_base_url = parsed, hv_token = token\<rparr>)"

definition http_vault_from_env :: "url_lib \<Rightarrow> (string \<Rightarrow> string option) \<Rightarrow> secret_error + http_vault" where
  "http_vault_from_env url var =
     (case var ''KUBINATE__VAULT_ADDR'' of
        None \<Rightarrow> Inl (SecInvalidKek ''KUBINATE__VAULT_ADDR not set'')
      | Some addr \<Rightarrow>
          (case var ''KUBINATE__VAULT_TOKEN'' of
             None \<Rightarrow> Inl (SecInvalidKek ''KUBINATE__VAULT_TOKEN not set'')
           | Some token \<Rightarrow> http_vault_new url addr token))"

definition url_for :: "url_lib \<Rightarrow> http_vault \<Rightarrow> string \<Rightarrow> secret_error + string" where
  "url_for url hv segment =
     (case url_join url (hv_base_url hv) (''v1/transit/'' @ segment) of
        Inl e \<Rightarrow> Inl (SecInvalidKek (''vault url join: '' @ e))
      | Inr u \<Rightarrow> Inr u)"

definition vault_send :: "vault_request \<Rightarrow> ('z vault_http_scheme, secret_error, http_outcome) op" where
  "vault_send rq s = (Inr (vault_env s (vault_log s) rq), s\<lparr>vault_log := vault_log s @ [rq]\<rparr>)"

definition vault_post ::
    "url_lib \<Rightarrow> http_vault \<Rightarrow> string \<Rightarrow> (string \<times> string) list \<Rightarrow> ('z vault_http_scheme, secret_error, http_outcome) op" where
  "vault_post url hv segment body =
     bindE (of_sum id (url_for url hv segment)) (\<lambda>u.
     vault_send \<lparr>vr_url = u, vr_token = hv_token hv, vr_fields = body\<rparr>)"

definition http_transit :: "url_lib \<Rightarrow> wire_lib \<Rightarrow> http_vault \<Rightarrow> 'z vault_http_scheme vault_transit" where
  "http_transit url wl hv =
     \<lparr>vt_ensure_key = (\<lambda>k. bindE (vault_post url hv (''keys/'' @ k) []) (\<lambda>out. of_sum id (http_ensure_key (wl_reason wl) out))),
      vt_encrypt = (\<lambda>k p. bindE (vault_post url hv (''encrypt/'' @ k) [(''plaintext'', wl_b64 wl p)]) (\<lambda>out.
        of_sum id (http_encrypt (wl_reason wl) (wl_ciphertext wl) out))),
      vt_decrypt = (\<lambda>k ct. bindE (vault_post url hv (''decrypt/'' @ k) [(''ciphertext'', ct)]) (\<lambda>out.
        of_sum id (http_decrypt (wl_reason wl) (wl_plaintext wl) (wl_unb64 wl) out)))\<rparr>"

section \<open>What a call leaves behind\<close>

lemma vault_post_state:
  "vault_post url hv seg body s = (r, t) \<Longrightarrow> \<exists>l. t = s\<lparr>vault_log := l\<rparr>"
  by (auto simp: vault_post_def bindE_def of_sum_def vault_send_def ret_def fail_def split: sum.splits)
    (metis vault_http.surjective vault_http.update_convs(2))

lemma http_transit_state:
  assumes "vt_ensure_key (http_transit url wl hv) k s = (r1, t) \<or> vt_encrypt (http_transit url wl hv) k p s = (r2, t)
    \<or> vt_decrypt (http_transit url wl hv) k p s = (r2, t)"
  shows "\<exists>l. t = s\<lparr>vault_log := l\<rparr>"
proof -
  obtain seg body r where "vault_post url hv seg body s = (r, t)"
    using assms by (auto simp: http_transit_def bindE_def of_sum_def ret_def fail_def split: prod.splits sum.splits)
  then show ?thesis by (rule vault_post_state)
qed

section \<open>The round trip through a server\<close>

text \<open>
  What the client relies on: the URL of every segment can be built and tells the segments
  apart, base64 decodes what it encoded, and the server answers as documented. It creates
  a key, answers \<open>encrypt\<close> with a ciphertext, and answers \<open>decrypt\<close> of that ciphertext
  under the same key with the plaintext it was given, whatever was asked in between.
\<close>

definition url_ok :: "url_lib \<Rightarrow> http_vault \<Rightarrow> bool" where
  "url_ok url hv \<longleftrightarrow> (\<forall>seg. url_for url hv seg = Inr (hv_base_url hv @ ''/v1/transit/'' @ seg))"

definition transit_request :: "http_vault \<Rightarrow> string \<Rightarrow> (string \<times> string) list \<Rightarrow> vault_request" where
  "transit_request hv seg body = \<lparr>vr_url = hv_base_url hv @ ''/v1/transit/'' @ seg, vr_token = hv_token hv, vr_fields = body\<rparr>"

definition vault_answers :: "wire_lib \<Rightarrow> http_vault \<Rightarrow> 'z vault_http_scheme \<Rightarrow> bool" where
  "vault_answers wl hv s \<longleftrightarrow>
     (\<forall>log k. \<exists>st body. vault_env s log (transit_request hv (''keys/'' @ k) []) = HttpStatus st body \<and> is_success st)
     \<and> (\<forall>log k b. \<exists>st body ct.
          vault_env s log (transit_request hv (''encrypt/'' @ k) [(''plaintext'', b)]) = HttpStatus st body \<and> is_success st
          \<and> wl_ciphertext wl body = Some ct
          \<and> (\<forall>log'. \<exists>st' body'. vault_env s log' (transit_request hv (''decrypt/'' @ k) [(''ciphertext'', ct)]) = HttpStatus st' body'
               \<and> is_success st' \<and> wl_plaintext wl body' = Some b))"

lemma post_run:
  assumes "url_ok url hv"
  shows "vault_post url hv seg body s
    = (Inr (vault_env s (vault_log s) (transit_request hv seg body)), s\<lparr>vault_log := vault_log s @ [transit_request hv seg body]\<rparr>)"
  using assms by (simp add: vault_post_def url_ok_def bindE_def of_sum_def vault_send_def transit_request_def)

lemma ensure_run:
  assumes "url_ok url hv" and "vault_answers wl hv s"
  shows "\<exists>l. vt_ensure_key (http_transit url wl hv) k s = (Inr (), s\<lparr>vault_log := l\<rparr>)"
proof -
  obtain st body where "vault_env s (vault_log s) (transit_request hv (''keys/'' @ k) []) = HttpStatus st body" "is_success st"
    using assms(2) unfolding vault_answers_def by blast
  then show ?thesis
    by (auto simp: http_transit_def post_run [OF assms(1)] bindE_def of_sum_def http_ensure_key_def)
qed

lemma encrypt_run:
  fixes s :: "'z vault_http_scheme"
  assumes "url_ok url hv" and "vault_answers wl hv s" and "wl_unb64 wl (wl_b64 wl p) = Some p"
  shows "\<exists>ct l. vt_encrypt (http_transit url wl hv) k p s = (Inr ct, s\<lparr>vault_log := l\<rparr>)
    \<and> (\<forall>t :: 'z vault_http_scheme. vault_env t = vault_env s \<longrightarrow> fst (vt_decrypt (http_transit url wl hv) k ct t) = Inr p)"
proof -
  let ?rq = "transit_request hv (''encrypt/'' @ k) [(''plaintext'', wl_b64 wl p)]"
  obtain st body ct where enc: "vault_env s (vault_log s) ?rq = HttpStatus st body" "is_success st" "wl_ciphertext wl body = Some ct"
    and dec: "\<forall>log'. \<exists>st' body'. vault_env s log' (transit_request hv (''decrypt/'' @ k) [(''ciphertext'', ct)]) = HttpStatus st' body'
               \<and> is_success st' \<and> wl_plaintext wl body' = Some (wl_b64 wl p)"
    using assms(2) unfolding vault_answers_def by blast
  have "fst (vt_decrypt (http_transit url wl hv) k ct t) = Inr p" if env: "vault_env t = vault_env s" for t :: "'z vault_http_scheme"
  proof -
    obtain st' body' where "vault_env t (vault_log t) (transit_request hv (''decrypt/'' @ k) [(''ciphertext'', ct)]) = HttpStatus st' body'"
      "is_success st'" "wl_plaintext wl body' = Some (wl_b64 wl p)" using spec [OF dec, of "vault_log t"] env by auto
    with assms(3) show ?thesis
      by (simp add: http_transit_def post_run [OF assms(1)] bindE_def of_sum_def http_decrypt_def)
  qed
  moreover have "vt_encrypt (http_transit url wl hv) k p s = (Inr ct, s\<lparr>vault_log := vault_log s @ [?rq]\<rparr>)"
    using enc by (simp add: http_transit_def post_run [OF assms(1)] bindE_def of_sum_def http_encrypt_def)
  ultimately show ?thesis by blast
qed

lemma vault_put_get:
  fixes s :: "'z vault_http_scheme"
  assumes "secret_inv s" and "url_ok url hv" and "vault_answers wl hv s" and "wl_unb64 wl (wl_b64 wl p) = Some p"
    and "\<not> pg_fault s (pg_calls s)" and "\<not> pg_fault s (Suc (pg_calls s))"
  shows "\<exists>h t. vault_put (http_transit url wl hv) prefix org p s = (Inr h, t) \<and> sr_org h = org
    \<and> fst (vault_get (http_transit url wl hv) prefix h t) = Inr p
    \<and> (\<forall>other. other \<noteq> org \<longrightarrow> fst (vault_get (http_transit url wl hv) prefix (h\<lparr>sr_org := other\<rparr>) t) = Inl (SecNotFound (sr_id h)))"
proof -
  let ?k = "vault_key_name (pg_uuid_text s) prefix org" and ?id = "pg_uuid s (pg_uuid_ctr s)"
  obtain l where e: "vt_ensure_key (http_transit url wl hv) ?k s = (Inr (), s\<lparr>vault_log := l\<rparr>)"
    using ensure_run [OF assms(2,3)] by blast
  have "vault_answers wl hv (s\<lparr>vault_log := l\<rparr>)" using assms(3) by (simp add: vault_answers_def)
  from encrypt_run [OF assms(2) this assms(4), of ?k] obtain ct m where
    c: "vt_encrypt (http_transit url wl hv) ?k p (s\<lparr>vault_log := l\<rparr>) = (Inr ct, s\<lparr>vault_log := m\<rparr>)"
    and d: "\<And>t :: 'z vault_http_scheme. vault_env t = vault_env s \<Longrightarrow> fst (vt_decrypt (http_transit url wl hv) ?k ct t) = Inr p" by auto
  let ?row = "\<lparr>sec_id = ?id, sec_org = org, sec_ciphertext = ct, sec_wrapped_dek = [], sec_algorithm = VAULT_ALGORITHM_TAG,
    sec_created_at = now s\<rparr>"
  define t where "t = tick (s\<lparr>vault_log := m, pg_uuid_ctr := Suc (pg_uuid_ctr s), secrets := secrets s @ [?row]\<rparr>)"
  have fresh: "?id \<notin> sec_id ` set (secrets s)" by (rule fresh_secret_id [OF assms(1)])
  have put: "vault_put (http_transit url wl hv) prefix org p s = (Inr \<lparr>sr_id = ?id, sr_org = org\<rparr>, t)"
    using e c fresh assms(5)
    by (simp add: vault_put_def bindE_def getS_def new_id_def tx_def insert_secret_def ret_def t_def now_def)
  have byp: "\<not> pg_bypass s" using assms(1) by (simp add: secret_inv_def)
  have vis: "secret_visible t = secret_visible s" by (rule secret_visible_cong) (simp add: t_def)
  have look: "find (secret_visible t g) (secrets t) = (if g = \<lparr>sr_id = ?id, sr_org = org\<rparr> then Some ?row else find (secret_visible s g) (secrets s))" for g
    using live_after_insert [OF byp, of "\<lparr>sr_id = ?id, sr_org = org\<rparr>" "secrets s" ?row g] fresh unfolding vis by (simp add: t_def)
  have none: "find (secret_visible s \<lparr>sr_id = ?id, sr_org = other\<rparr>) (secrets s) = None" for other
    using fresh by (auto simp: find_None_iff_all secret_visible_def image_iff)
  have ok: "\<not> pg_fault t (pg_calls t)" "pg_uuid_text t = pg_uuid_text s" using assms(6) by (simp_all add: t_def tick_def)
  have "fst (vault_get (http_transit url wl hv) prefix \<lparr>sr_id = ?id, sr_org = org\<rparr> t) = Inr p"
    using d [of "tick t"] ok look by (simp add: vault_get_def bindE_def tx_def getS_def t_def tick_def)
  moreover have "fst (vault_get (http_transit url wl hv) prefix \<lparr>sr_id = ?id, sr_org = other\<rparr> t) = Inl (SecNotFound ?id)"
    if "other \<noteq> org" for other
    using that ok look none by (simp add: vault_get_def bindE_def tx_def fail_def)
  ultimately show ?thesis using put by auto
qed


definition demo_url :: url_lib where
  "demo_url = \<lparr>url_parse = Inr, url_join = (\<lambda>b p. Inr (b @ ''/'' @ p))\<rparr>"

definition demo_wire :: wire_lib where
  "demo_wire = \<lparr>wl_reason = (\<lambda>_. []), wl_b64 = rev, wl_unb64 = (\<lambda>x. Some (rev x)), wl_ciphertext = Some, wl_plaintext = Some\<rparr>"

definition demo_hv :: http_vault where
  "demo_hv = \<lparr>hv_base_url = ''https://vault'', hv_token = ''tok''\<rparr>"

text \<open>A server that answers every request with the only field of its body.\<close>

definition demo_vault_http :: vault_http where
  "demo_vault_http = secrets_db.extend
     \<lparr>pg_bypass = False, pg_clock = (\<lambda>_. 0), pg_fault = (\<lambda>_. False), pg_calls = 0, pg_uuid = id, pg_uuid_ctr = 0,
      pg_uuid_text = show_nat, pg_digest = id, pg_audit = [], secrets = [], pgp_enc = (\<lambda>_ d _. d), pgp_dec = (\<lambda>c _. Inr c),
      dek_gen = (\<lambda>_. []), rnd_ctr = 0, vault = \<lparr>vk_keys = [], vk_ciphertexts = [], vk_counter = 0\<rparr>\<rparr>
     (vault_http.fields (\<lambda>_ rq. HttpStatus 200 (case vr_fields rq of [] \<Rightarrow> [] | (_, v) # _ \<Rightarrow> v)) [])"

lemma demo_vault_ready:
  "url_ok demo_url demo_hv" "vault_answers demo_wire demo_hv demo_vault_http" "wl_unb64 demo_wire (wl_b64 demo_wire p) = Some p"
proof -
  show "url_ok demo_url demo_hv" by (simp add: url_ok_def url_for_def demo_url_def)
  have "vault_env demo_vault_http = (\<lambda>_ rq. HttpStatus 200 (case vr_fields rq of [] \<Rightarrow> [] | (_, v) # _ \<Rightarrow> v))"
    by (simp add: demo_vault_http_def secrets_db.defs vault_http.defs)
  then show "vault_answers demo_wire demo_hv demo_vault_http"
    by (auto simp: vault_answers_def transit_request_def demo_wire_def is_success_def)
  show "wl_unb64 demo_wire (wl_b64 demo_wire p) = Some p" by (simp add: demo_wire_def)
qed


end
