(* ===== verification/Vault_Migrate.thy ===== *)
theory Vault_Migrate
  imports Vault_Http
begin

text \<open>
  The migration tool (\<open>vault-migrate/src/main.rs\<close>): the per-row migration, the batch query,
  the loop over batches and the exit code. The loop is a \<open>partial_function\<close>, so that not
  ending is a value; the transit client is an argument. Log lines are left out, the counters
  they print are the result.
\<close>

section \<open>The tool\<close>

record migrate_cli =
  mc_key_prefix :: string
  mc_kek :: string
  mc_apply :: bool
  mc_batch_size :: int

record migrate_secret_row =
  ms_id :: uuid
  ms_organization_id :: uuid

datatype migrate_outcome = Applied | DryRun

text \<open>An \<open>anyhow\<close> error: the outermost context, or the error of the transit client.\<close>

datatype migrate_error = MigContext string | MigTransit secret_error

record migrate_counts =
  n_migrated :: nat
  n_skipped :: nat
  n_errors :: nat

text \<open>The connection carries no tenant, so the policy shows rows only to a role that bypasses it.\<close>

definition pgp_candidate :: "'z secrets_db_scheme \<Rightarrow> secret_row \<Rightarrow> bool" where
  "pgp_candidate s r \<longleftrightarrow> rls s None (sec_org r) \<and> sec_algorithm r = ''pgp_sym_v1''"

definition decrypt_row :: "string \<Rightarrow> uuid \<Rightarrow> ('z secrets_db_scheme, migrate_error, string) op" where
  "decrypt_row kek i =
     bindE (getS (\<lambda>s. MigContext (''pgp_sym_decrypt for secret '' @ pg_uuid_text s i))) (\<lambda>err.
     tx (\<lambda>_. err) (\<lambda>s.
       case find (\<lambda>r. sec_id r = i \<and> rls s None (sec_org r)) (secrets s) of
         None \<Rightarrow> (Inl err, s)
       | Some r \<Rightarrow> (case pgp_open s kek r of Inl _ \<Rightarrow> (Inl err, s) | Inr p \<Rightarrow> (Inr p, s))))"

definition retag_row :: "uuid \<Rightarrow> string \<Rightarrow> ('z secrets_db_scheme, migrate_error, unit) op" where
  "retag_row i ct =
     bindE (getS (\<lambda>s. MigContext (''update secrets row '' @ pg_uuid_text s i))) (\<lambda>err.
     tx (\<lambda>_. err) (\<lambda>s.
       (Inr (), s\<lparr>secrets := sql_update (\<lambda>r. sec_id r = i \<and> pgp_candidate s r)
          (\<lambda>r. r\<lparr>sec_ciphertext := ct, sec_wrapped_dek := [], sec_algorithm := VAULT_ALGORITHM_TAG\<rparr>) (secrets s)\<rparr>)))"

definition migrate_row ::
    "migrate_cli \<Rightarrow> 'z secrets_db_scheme vault_transit \<Rightarrow> migrate_secret_row
      \<Rightarrow> ('z secrets_db_scheme, migrate_error, migrate_outcome) op" where
  "migrate_row cli transit row =
     bindE (decrypt_row (mc_kek cli) (ms_id row)) (\<lambda>plaintext.
     if \<not> mc_apply cli then ret DryRun
     else
       bindE (getS (\<lambda>s. vault_key_name (pg_uuid_text s) (mc_key_prefix cli) (ms_organization_id row))) (\<lambda>key_name.
       bindE (map_err MigTransit (vt_ensure_key transit key_name)) (\<lambda>_.
       bindE (map_err MigTransit (vt_encrypt transit key_name plaintext)) (\<lambda>vault_ciphertext.
       bindE (retag_row (ms_id row) vault_ciphertext) (\<lambda>_.
       ret Applied)))))"

definition count_candidates :: "('z secrets_db_scheme, migrate_error, nat) op" where
  "count_candidates = tx (\<lambda>_. MigContext ''count pgcrypto rows'') (\<lambda>s. (Inr (sql_count (pgp_candidate s) (secrets s)), s))"

text \<open>\<open>ORDER BY id LIMIT n OFFSET k\<close>; a negative limit is an error of the query.\<close>

definition candidates :: "'z secrets_db_scheme \<Rightarrow> migrate_secret_row list" where
  "candidates s = map (\<lambda>r. \<lparr>ms_id = sec_id r, ms_organization_id = sec_org r\<rparr>)
     (sort_key sec_id (filter (pgp_candidate s) (secrets s)))"

definition fetch_batch :: "int \<Rightarrow> nat \<Rightarrow> ('z secrets_db_scheme, migrate_error, migrate_secret_row list) op" where
  "fetch_batch limit offset =
     tx (\<lambda>_. MigContext ''fetch batch'') (\<lambda>s.
       if limit < 0 then (Inl (MigContext ''fetch batch''), s)
       else (Inr (take (nat limit) (drop offset (candidates s))), s))"

fun migrate_rows ::
    "migrate_cli \<Rightarrow> 'z secrets_db_scheme vault_transit \<Rightarrow> migrate_secret_row list \<Rightarrow> migrate_counts \<Rightarrow> 'z secrets_db_scheme
      \<Rightarrow> migrate_counts \<times> 'z secrets_db_scheme" where
  "migrate_rows cli transit [] c s = (c, s)"
| "migrate_rows cli transit (row # rows) c s =
     (case migrate_row cli transit row s of
        (Inr Applied, t) \<Rightarrow> migrate_rows cli transit rows (c\<lparr>n_migrated := n_migrated c + 1\<rparr>) t
      | (Inr DryRun, t) \<Rightarrow> migrate_rows cli transit rows (c\<lparr>n_skipped := n_skipped c + 1\<rparr>) t
      | (Inl e, t) \<Rightarrow> migrate_rows cli transit rows (c\<lparr>n_errors := n_errors c + 1\<rparr>) t)"

partial_function (option) migrate_loop ::
    "migrate_cli \<Rightarrow> 'z secrets_db_scheme vault_transit \<Rightarrow> nat \<Rightarrow> migrate_counts \<Rightarrow> 'z secrets_db_scheme
      \<Rightarrow> ((migrate_error + migrate_counts) \<times> 'z secrets_db_scheme) option" where
  "migrate_loop cli transit offset c s =
     (case fetch_batch (mc_batch_size cli) offset s of
        (Inl e, t) \<Rightarrow> Some (Inl e, t)
      | (Inr rows, t) \<Rightarrow>
          if rows = [] then Some (Inr c, t)
          else
            (case migrate_rows cli transit rows c t of
               (c', u) \<Rightarrow> migrate_loop cli transit (offset + length rows) c' u))"

text \<open>The counters, after the connection and the transit client are there; no candidates end
  the run before the loop.\<close>

definition migrate_main ::
    "migrate_cli \<Rightarrow> 'z secrets_db_scheme vault_transit \<Rightarrow> 'z secrets_db_scheme
      \<Rightarrow> ((migrate_error + migrate_counts) \<times> 'z secrets_db_scheme) option" where
  "migrate_main cli transit s =
     (let zero = \<lparr>n_migrated = 0, n_skipped = 0, n_errors = 0\<rparr> in
      case count_candidates s of
        (Inl e, t) \<Rightarrow> Some (Inl e, t)
      | (Inr n, t) \<Rightarrow> if n = 0 then Some (Inr zero, t) else migrate_loop cli transit 0 zero t)"

text \<open>An error returned from \<open>main\<close> exits with 1 as well.\<close>

definition exit_code :: "migrate_error + migrate_counts \<Rightarrow> nat" where
  "exit_code r = (case r of Inl _ \<Rightarrow> 1 | Inr c \<Rightarrow> if n_errors c > 0 then 1 else 0)"

section \<open>What one row does to the table\<close>

definition same_db :: "'z secrets_db_scheme \<Rightarrow> 'z secrets_db_scheme \<Rightarrow> bool" where
  "same_db s t \<longleftrightarrow> secrets t = secrets s \<and> pg_bypass t = pg_bypass s \<and> pgp_dec t = pgp_dec s
     \<and> pg_uuid_text t = pg_uuid_text s \<and> pg_fault t = pg_fault s"

definition retagged :: "string \<Rightarrow> secret_row \<Rightarrow> secret_row" where
  "retagged ct r = r\<lparr>sec_ciphertext := ct, sec_wrapped_dek := [], sec_algorithm := VAULT_ALGORITHM_TAG\<rparr>"

lemma retagged_sel [simp]:
  "sec_id (retagged ct r) = sec_id r" "sec_org (retagged ct r) = sec_org r"
  "sec_algorithm (retagged ct r) = VAULT_ALGORITHM_TAG" "sec_ciphertext (retagged ct r) = ct"
  by (simp_all add: retagged_def)

lemma same_db_refl [simp]: "same_db s s"
  by (simp add: same_db_def)

lemma same_db_tick [simp]: "same_db s (tick s)"
  by (simp add: same_db_def)

lemma same_db_trans: "same_db s t \<Longrightarrow> same_db t u \<Longrightarrow> same_db s u"
  by (simp add: same_db_def)

lemma pgp_candidate_cong: "pg_bypass t = pg_bypass s \<Longrightarrow> pgp_candidate t = pgp_candidate s"
  by (intro ext) (simp add: pgp_candidate_def rls_def)

lemma decrypt_row_state: "decrypt_row kek i s = (r, t) \<Longrightarrow> t = tick s"
  by (auto simp: decrypt_row_def bindE_def getS_def tx_def split: if_splits option.splits sum.splits)

lemma retag_row_Inr:
  "retag_row i ct s = (Inr u, t) \<longleftrightarrow> \<not> db_faulty s
     \<and> t = tick (s\<lparr>secrets := sql_update (\<lambda>r. sec_id r = i \<and> pgp_candidate s r) (retagged ct) (secrets s)\<rparr>)"
  by (auto simp: retag_row_def bindE_def getS_def tx_def db_faulty_def retagged_def [abs_def])

lemma retag_row_Inl: "retag_row i ct s = (Inl e, t) \<Longrightarrow> t = tick s"
  by (auto simp: retag_row_def bindE_def getS_def tx_def split: if_splits)

lemma candidates_cong: "secrets t = secrets s \<Longrightarrow> pg_bypass t = pg_bypass s \<Longrightarrow> candidates t = candidates s"
  by (simp add: candidates_def pgp_candidate_cong [of t s])

lemma candidates_same: "same_db s t \<Longrightarrow> candidates t = candidates s"
  unfolding same_db_def by (intro candidates_cong) simp_all

lemma candidates_retag:
  assumes "secrets t = sql_update (\<lambda>r. sec_id r = i \<and> pgp_candidate s r) (retagged ct) (secrets s)" and "pg_bypass t = pg_bypass s"
  shows "candidates t = filter (\<lambda>m. ms_id m \<noteq> i) (candidates s)"
proof -
  have "filter (pgp_candidate s) (sql_update (\<lambda>r. sec_id r = i \<and> pgp_candidate s r) (retagged ct) rs)
      = filter (\<lambda>r. sec_id r \<noteq> i) (filter (pgp_candidate s) rs)" for rs
    by (induction rs) (auto simp: pgp_candidate_def VAULT_ALGORITHM_TAG_def)
  with assms show ?thesis
    by (simp add: candidates_def pgp_candidate_cong [OF assms(2)] filter_map comp_def filter_sort)
qed

lemma batch_progress:
  assumes "rows = take m (drop k xs)" and "rows \<noteq> []" and "length xs \<le> n"
  shows "n - (k + length rows) < n - k"
proof -
  have "0 < length rows" "k < length xs" using assms by auto
  with assms(3) show ?thesis by linarith
qed

text \<open>What the tool relies on in a transit client: it leaves the database alone.\<close>

locale passive_transit =
  fixes transit :: "'z secrets_db_scheme vault_transit"
  assumes ensure_passive: "vt_ensure_key transit k s = (r, t) \<Longrightarrow> same_db s t"
    and encrypt_passive: "vt_encrypt transit k p s = (r', t) \<Longrightarrow> same_db s t"
begin

lemma row_effect:
  assumes "migrate_row cli transit row s = (r, t)"
  shows "same_db s t
    \<or> mc_apply cli \<and> r = Inr Applied \<and> pg_bypass t = pg_bypass s
      \<and> (\<exists>ct. secrets t = sql_update (\<lambda>x. sec_id x = ms_id row \<and> pgp_candidate s x) (retagged ct) (secrets s))"
proof -
  obtain d s1 where d: "decrypt_row (mc_kek cli) (ms_id row) s = (d, s1)" by fastforce
  then have s1: "same_db s s1" using decrypt_row_state by fastforce
  show ?thesis
  proof (cases "mc_apply cli \<and> \<not> isl d")
    case False
    with assms d s1 show ?thesis by (auto simp: migrate_row_def bindE_def ret_def split: sum.splits if_splits)
  next
    case True
    then obtain p where p: "d = Inr p" by (cases d) auto
    let ?k = "vault_key_name (pg_uuid_text s1) (mc_key_prefix cli) (ms_organization_id row)"
    obtain e s2 where e: "vt_ensure_key transit ?k s1 = (e, s2)" by fastforce
    note s2 = same_db_trans [OF s1 ensure_passive [OF e]]
    show ?thesis
    proof (cases e)
      case (Inl x)
      with assms True d p e s2 show ?thesis by (auto simp: migrate_row_def bindE_def getS_def map_err_def)
    next
      case (Inr x)
      obtain f s3 where f: "vt_encrypt transit ?k p s2 = (f, s3)" by fastforce
      note s3 = same_db_trans [OF s2 encrypt_passive [OF f]]
      show ?thesis
      proof (cases f)
        case (Inl y)
        with assms True d p e Inr f s3 show ?thesis by (auto simp: migrate_row_def bindE_def getS_def map_err_def)
      next
        case ct: (Inr ct)
        obtain g s4 where g: "retag_row (ms_id row) ct s3 = (g, s4)" by fastforce
        from assms True d p e Inr f ct g have res: "t = s4" "r = (case g of Inl x \<Rightarrow> Inl x | Inr _ \<Rightarrow> Inr Applied)"
          by (auto simp: migrate_row_def bindE_def getS_def map_err_def ret_def split: sum.splits)
        show ?thesis
        proof (cases g)
          case (Inl x)
          with g res s3 show ?thesis by (auto dest!: retag_row_Inl intro: same_db_trans)
        next
          case (Inr x)
          with g res s3 True show ?thesis
            by (auto simp: retag_row_Inr same_db_def pgp_candidate_cong [of s3 s])
        qed
      qed
    qed
  qed
qed

lemma row_candidates:
  assumes "migrate_row cli transit row s = (r, t)"
  shows "candidates t = candidates s \<or> candidates t = filter (\<lambda>m. ms_id m \<noteq> ms_id row) (candidates s)"
  using row_effect [OF assms] by (auto intro: candidates_same candidates_retag)

lemma rows_candidates:
  "migrate_rows cli transit rows c s = (c', t) \<Longrightarrow>
   \<exists>gone \<subseteq> ms_id ` set rows. candidates t = filter (\<lambda>m. ms_id m \<notin> gone) (candidates s)"
proof (induction rows arbitrary: c s)
  case Nil
  then show ?case by (intro exI [of _ "{}"]) simp
next
  case (Cons row rows)
  obtain r u where run: "migrate_row cli transit row s = (r, u)" by fastforce
  then obtain c1 where "migrate_rows cli transit rows c1 u = (c', t)"
    using Cons.prems by (auto split: sum.splits migrate_outcome.splits)
  from Cons.IH [OF this] obtain gone where gone: "gone \<subseteq> ms_id ` set rows"
    "candidates t = filter (\<lambda>m. ms_id m \<notin> gone) (candidates u)" by blast
  from row_candidates [OF run] show ?case
  proof
    assume "candidates u = candidates s"
    with gone show ?thesis by (intro exI [of _ gone]) auto
  next
    assume "candidates u = filter (\<lambda>m. ms_id m \<noteq> ms_id row) (candidates s)"
    with gone show ?thesis by (intro exI [of _ "insert (ms_id row) gone"]) (auto intro: filter_cong)
  qed
qed

lemma fetch_state: "fetch_batch limit k s = (r, t) \<Longrightarrow> same_db s t"
  by (auto simp: fetch_batch_def tx_def split: if_splits)

lemma fetch_rows: "fetch_batch limit k s = (Inr rows, t) \<Longrightarrow> rows = take (nat limit) (drop k (candidates s))"
  by (auto simp: fetch_batch_def tx_def split: if_splits)

lemma loop_returns: "length (candidates s) \<le> n \<Longrightarrow> \<exists>y. migrate_loop cli transit k c s = Some y"
proof (induction "n - k" arbitrary: k c s rule: less_induct)
  case less
  obtain r u where fetch: "fetch_batch (mc_batch_size cli) k s = (r, u)" by fastforce
  show ?case
  proof (cases "\<exists>rows. r = Inr rows \<and> rows \<noteq> []")
    case False
    with fetch show ?thesis by (subst migrate_loop.simps) (auto split: sum.split)
  next
    case True
    then obtain rows where rows: "r = Inr rows" "rows \<noteq> []" by blast
    obtain c' v where run: "migrate_rows cli transit rows c u = (c', v)" by fastforce
    obtain gone where "candidates v = filter (\<lambda>m. ms_id m \<notin> gone) (candidates u)" using rows_candidates [OF run] by blast
    with candidates_same [OF fetch_state [OF fetch]] less.prems have "length (candidates v) \<le> n"
      by (metis length_filter_le le_trans)
    moreover have "n - (k + length rows) < n - k"
      using rows(2) fetch_rows [of "mc_batch_size cli" k s rows u] fetch rows(1) less.prems by (intro batch_progress) auto
    ultimately obtain y where "migrate_loop cli transit (k + length rows) c' v = Some y" using less.hyps by blast
    with fetch rows run show ?thesis by (subst migrate_loop.simps) auto
  qed
qed

text \<open>Past the first batch the first remaining candidate is never fetched.\<close>

lemma loop_skips_head:
  assumes "migrate_loop cli transit k c s = Some (r, t)" and "0 < k" and "candidates s = x # xs" and "distinct (map ms_id (x # xs))"
    and "length (candidates s) \<le> n"
  shows "x \<in> set (candidates t)"
  using assms
proof (induction "n - k" arbitrary: k c s xs rule: less_induct)
  case less
  obtain f u where fetch: "fetch_batch (mc_batch_size cli) k s = (f, u)" by fastforce
  note cand = candidates_same [OF fetch_state [OF fetch]]
  show ?case
  proof (cases "\<exists>rows. f = Inr rows \<and> rows \<noteq> []")
    case False
    with fetch less.prems(1) have "t = u" by (subst (asm) migrate_loop.simps) (auto split: sum.splits if_splits)
    with cand less.prems(3) show ?thesis by simp
  next
    case True
    then obtain rows where rows: "f = Inr rows" "rows \<noteq> []" by blast
    obtain c' v where run: "migrate_rows cli transit rows c u = (c', v)" by fastforce
    obtain j where k: "k = Suc j" using less.prems(2) by (cases k) auto
    have rows_eq: "rows = take (nat (mc_batch_size cli)) (drop j xs)"
      using fetch_rows [of "mc_batch_size cli" k s rows u] fetch rows(1) less.prems(3) by (simp add: k)
    then have "set rows \<subseteq> set xs" by (metis order_trans set_drop_subset set_take_subset)
    then have "ms_id x \<notin> ms_id ` set rows" using less.prems(4) by auto
    moreover obtain gone where "gone \<subseteq> ms_id ` set rows" "candidates v = filter (\<lambda>m. ms_id m \<notin> gone) (candidates u)"
      using rows_candidates [OF run] by blast
    ultimately have gone: "candidates v = x # filter (\<lambda>m. ms_id m \<notin> gone) xs" using cand less.prems(3) by auto
    have "migrate_loop cli transit (k + length rows) c' v = Some (r, t)"
      using less.prems(1) fetch rows run by (subst (asm) migrate_loop.simps) auto
    moreover have "length (candidates v) \<le> length (candidates s)" by (simp add: gone less.prems(3))
    then have "length (candidates v) \<le> n" using less.prems(5) by simp
    moreover have "n - (k + length rows) < n - k"
      using rows(2) fetch_rows [of "mc_batch_size cli" k s rows u] fetch rows(1) less.prems(5) by (intro batch_progress) auto
    moreover have "distinct (map ms_id (x # filter (\<lambda>m. ms_id m \<notin> gone) xs))"
      using less.prems(4) by (auto simp: distinct_map_filter)
    ultimately show ?thesis using less.hyps [of "k + length rows" c' v] gone less.prems(2) by auto
  qed
qed

end

lemma im_passive: "im_ensure_key k s = (r, t) \<Longrightarrow> same_db s t" "im_encrypt k p s = (r', t) \<Longrightarrow> same_db s t"
  by (auto simp: im_ensure_key_def im_encrypt_def same_db_def Let_def split: if_splits)

interpretation im: passive_transit in_memory_transit
  by unfold_locales (auto simp: in_memory_transit_def dest: im_passive)

interpretation http: passive_transit "http_transit url wl hv" for url wl hv
proof
  fix k :: string and s t :: "'a vault_http_scheme" and r :: "secret_error + unit"
  assume "vt_ensure_key (http_transit url wl hv) k s = (r, t)"
  then obtain l where "t = s\<lparr>vault_log := l\<rparr>" using http_transit_state by metis
  then show "same_db s t" by (simp add: same_db_def)
next
  fix k p :: string and s t :: "'a vault_http_scheme" and r :: "secret_error + string"
  assume "vt_encrypt (http_transit url wl hv) k p s = (r, t)"
  then obtain l where "t = s\<lparr>vault_log := l\<rparr>" using http_transit_state by metis
  then show "same_db s t" by (simp add: same_db_def)
qed

section \<open>A run in which nothing fails\<close>

definition healthy :: "migrate_cli \<Rightarrow> 'z secrets_db_scheme \<Rightarrow> bool" where
  "healthy cli s \<longleftrightarrow> (\<forall>n. \<not> pg_fault s n) \<and> distinct (map sec_id (secrets s))
     \<and> (\<forall>r \<in> set (secrets s). pgp_candidate s r \<longrightarrow> (\<exists>p. pgp_open s (mc_kek cli) r = Inr p))"

lemma healthy_same: "same_db s t \<Longrightarrow> healthy cli s \<Longrightarrow> healthy cli t"
  using pgp_open_cong [of t s] pgp_candidate_cong [of t s] by (simp add: healthy_def same_db_def)

lemma healthy_retag:
  assumes "healthy cli s" and "secrets t = sql_update (\<lambda>r. sec_id r = i \<and> pgp_candidate s r) (retagged ct) (secrets s)"
    and "pg_bypass t = pg_bypass s" and "pgp_dec t = pgp_dec s" and "pg_fault t = pg_fault s"
  shows "healthy cli t"
proof -
  have "map sec_id (secrets t) = map sec_id (secrets s)" unfolding assms(2) by (simp add: sql_update_def)
  moreover have "\<exists>p. pgp_open s (mc_kek cli) r = Inr p" if "r \<in> set (secrets t)" "pgp_candidate s r" for r
    using that assms(1) unfolding assms(2)
    by (auto simp: sql_update_def healthy_def pgp_candidate_def VAULT_ALGORITHM_TAG_def split: if_splits)
  ultimately show ?thesis
    using assms(1,3-5) pgp_open_cong [of t s] pgp_candidate_cong [of t s] by (simp add: healthy_def)
qed

lemma distinct_candidates: "distinct (map sec_id (secrets s)) \<Longrightarrow> distinct (map ms_id (candidates s))"
  by (simp add: candidates_def comp_def distinct_map_filter distinct_map inj_on_def)

lemma candidate_found:
  assumes "distinct (map sec_id (secrets s))" and "row \<in> set (candidates s)"
  shows "\<exists>r \<in> set (secrets s). find (\<lambda>r. sec_id r = ms_id row \<and> rls s None (sec_org r)) (secrets s) = Some r
    \<and> pgp_candidate s r \<and> sec_org r = ms_organization_id row"
proof -
  obtain r where r: "r \<in> set (secrets s)" "pgp_candidate s r" "row = \<lparr>ms_id = sec_id r, ms_organization_id = sec_org r\<rparr>"
    using assms(2) by (auto simp: candidates_def)
  let ?p = "\<lambda>x. sec_id x = ms_id row \<and> rls s None (sec_org x)"
  have "?p r" using r by (simp add: pgp_candidate_def)
  with r(1) obtain x where x: "find ?p (secrets s) = Some x" by (cases "find ?p (secrets s)") (auto simp: find_None_iff)
  then have "x \<in> set (secrets s)" "sec_id x = sec_id r" using r by (auto dest!: find_Some_iff2)
  then have "x = r" using assms(1) r(1) by (auto simp: distinct_map inj_on_def)
  with x r show ?thesis by auto
qed

definition outcome :: "migrate_cli \<Rightarrow> migrate_outcome" where
  "outcome cli = (if mc_apply cli then Applied else DryRun)"

definition rest_after :: "migrate_cli \<Rightarrow> uuid set \<Rightarrow> migrate_secret_row list \<Rightarrow> migrate_secret_row list" where
  "rest_after cli gone ms = (if mc_apply cli then filter (\<lambda>m. ms_id m \<notin> gone) ms else ms)"

lemma healthy_row:
  assumes "healthy cli s" and "row \<in> set (candidates s)"
  shows "\<exists>t. migrate_row cli in_memory_transit row s = (Inr (outcome cli), t) \<and> healthy cli t
    \<and> candidates t = rest_after cli {ms_id row} (candidates s) \<and> (\<not> mc_apply cli \<longrightarrow> secrets t = secrets s)"
proof -
  have ok: "distinct (map sec_id (secrets s))" "\<not> pg_fault s n" for n using assms(1) by (simp_all add: healthy_def)
  obtain r p where r: "find (\<lambda>r. sec_id r = ms_id row \<and> rls s None (sec_org r)) (secrets s) = Some r" "pgp_open s (mc_kek cli) r = Inr p"
    using candidate_found [OF ok(1) assms(2)] assms(1) by (auto simp: healthy_def)
  then have dec: "decrypt_row (mc_kek cli) (ms_id row) s = (Inr p, tick s)"
    using ok(2) by (simp add: decrypt_row_def bindE_def getS_def tx_def)
  show ?thesis
  proof (cases "mc_apply cli")
    case False
    with dec healthy_same [OF same_db_tick assms(1)] candidates_same [OF same_db_tick, of s] show ?thesis
      by (simp add: migrate_row_def bindE_def ret_def outcome_def rest_after_def)
  next
    case True
    let ?k = "vault_key_name (pg_uuid_text s) (mc_key_prefix cli) (ms_organization_id row)"
    let ?ct = "vault_ct (Suc (vk_counter (vault s)))"
    let ?u = "(tick s)\<lparr>vault := vault_step ?k p (vault s)\<rparr>"
    let ?t = "tick (?u\<lparr>secrets := sql_update (\<lambda>r. sec_id r = ms_id row \<and> pgp_candidate s r) (retagged ?ct) (secrets s)\<rparr>)"
    have "pgp_candidate ?u = pgp_candidate s" by (intro pgp_candidate_cong) simp
    then have "retag_row (ms_id row) ?ct ?u = (Inr (), ?t)"
      using ok(2) by (simp add: retag_row_Inr db_faulty_def)
    with dec True have "migrate_row cli in_memory_transit row s = (Inr Applied, ?t)"
      by (simp add: migrate_row_def bindE_def getS_def map_err_def ret_def in_memory_transit_def im_ensure_key_def im_encrypt_def
          Let_def vault_step_def vault_ct_def)
    moreover have "healthy cli ?t" using assms(1) by (rule healthy_retag) simp_all
    moreover have "candidates ?t = filter (\<lambda>m. ms_id m \<noteq> ms_id row) (candidates s)" by (rule candidates_retag) simp_all
    ultimately show ?thesis using True by (simp add: outcome_def rest_after_def)
  qed
qed

definition count_outcomes :: "migrate_cli \<Rightarrow> nat \<Rightarrow> migrate_counts \<Rightarrow> migrate_counts" where
  "count_outcomes cli n c =
     (if mc_apply cli then c\<lparr>n_migrated := n_migrated c + n\<rparr> else c\<lparr>n_skipped := n_skipped c + n\<rparr>)"

lemma healthy_rows:
  assumes "healthy cli s" and "set rows \<subseteq> set (candidates s)" and "distinct (map ms_id rows)"
  shows "\<exists>t. migrate_rows cli in_memory_transit rows c s = (count_outcomes cli (length rows) c, t) \<and> healthy cli t
    \<and> candidates t = rest_after cli (ms_id ` set rows) (candidates s) \<and> (\<not> mc_apply cli \<longrightarrow> secrets t = secrets s)"
  using assms
proof (induction rows arbitrary: c s)
  case Nil
  then show ?case by (simp add: count_outcomes_def rest_after_def)
next
  case (Cons row rows)
  obtain u where u: "migrate_row cli in_memory_transit row s = (Inr (outcome cli), u)" "healthy cli u"
    "candidates u = rest_after cli {ms_id row} (candidates s)" "\<not> mc_apply cli \<longrightarrow> secrets u = secrets s"
    using healthy_row [OF Cons.prems(1), of row] Cons.prems(2) by auto
  have "set rows \<subseteq> set (candidates u)"
    using Cons.prems(2,3) u(3) by (auto simp: rest_after_def) (metis imageI)
  from Cons.IH [OF u(2) this, of "count_outcomes cli 1 c"] Cons.prems(3) obtain t where
    "migrate_rows cli in_memory_transit rows (count_outcomes cli 1 c) u = (count_outcomes cli (length rows) (count_outcomes cli 1 c), t)"
    "healthy cli t" "candidates t = rest_after cli (ms_id ` set rows) (candidates u)" "\<not> mc_apply cli \<longrightarrow> secrets t = secrets u" by auto
  with u show ?case
    by (auto simp: outcome_def count_outcomes_def rest_after_def intro: filter_cong split: if_splits)
qed

lemma healthy_fetch:
  "healthy cli s \<Longrightarrow> 0 \<le> limit \<Longrightarrow> fetch_batch limit k s = (Inr (take (nat limit) (drop k (candidates s))), tick s)"
  by (simp add: fetch_batch_def tx_def healthy_def)

lemma length_candidates: "length (candidates s) = sql_count (pgp_candidate s) (secrets s)"
  by (simp add: candidates_def sql_count_def)

lemma healthy_count: "healthy cli s \<Longrightarrow> count_candidates s = (Inr (length (candidates s)), tick s)"
  by (simp add: count_candidates_def tx_def healthy_def length_candidates)

lemma loop_ends: "healthy cli s \<Longrightarrow> 0 \<le> mc_batch_size cli \<Longrightarrow> length (candidates s) \<le> k \<Longrightarrow>
    migrate_loop cli transit k c s = Some (Inr c, tick s)"
  by (subst migrate_loop.simps) (simp add: healthy_fetch)

lemma healthy_batch:
  assumes "healthy cli s" and "0 < mc_batch_size cli" and "k < length (candidates s)"
  defines "rows \<equiv> take (nat (mc_batch_size cli)) (drop k (candidates s))"
  obtains t where "migrate_loop cli in_memory_transit k c s = migrate_loop cli in_memory_transit (k + length rows) (count_outcomes cli (length rows) c) t"
    "healthy cli t" "candidates t = rest_after cli (ms_id ` set rows) (candidates s)" "\<not> mc_apply cli \<longrightarrow> secrets t = secrets s" "rows \<noteq> []"
proof -
  have d: "distinct (map ms_id (candidates s))" using assms(1) by (simp add: healthy_def distinct_candidates)
  have "set rows \<subseteq> set (candidates s)" "distinct (map ms_id rows)" "rows \<noteq> []"
    using assms(2,3) distinct_take [OF distinct_drop [OF d]] set_take_subset set_drop_subset
    by (fastforce simp: rows_def take_map drop_map)+
  moreover have tick: "candidates (tick s) = candidates s" "healthy cli (tick s)"
    using candidates_same [OF same_db_tick] healthy_same [OF same_db_tick assms(1)] by simp_all
  ultimately obtain t where t: "migrate_rows cli in_memory_transit rows c (tick s) = (count_outcomes cli (length rows) c, t)" "healthy cli t"
    "candidates t = rest_after cli (ms_id ` set rows) (candidates s)" "\<not> mc_apply cli \<longrightarrow> secrets t = secrets s"
    using healthy_rows [of cli "tick s" rows c] by auto
  have "migrate_loop cli in_memory_transit k c s = migrate_loop cli in_memory_transit (k + length rows) (count_outcomes cli (length rows) c) t"
    using t(1) \<open>rows \<noteq> []\<close> healthy_fetch [OF assms(1), of "mc_batch_size cli" k] assms(2)
    by (subst migrate_loop.simps) (simp add: rows_def)
  with t \<open>rows \<noteq> []\<close> that show ?thesis by blast
qed

lemma dry_loop:
  assumes "healthy cli s" and "0 < mc_batch_size cli" and "\<not> mc_apply cli"
  shows "\<exists>t. migrate_loop cli in_memory_transit k c s = Some (Inr (c\<lparr>n_skipped := n_skipped c + (length (candidates s) - k)\<rparr>), t)
    \<and> secrets t = secrets s"
  using assms
proof (induction "length (candidates s) - k" arbitrary: k c s rule: less_induct)
  case less
  show ?case
  proof (cases "k < length (candidates s)")
    case False
    with less.prems show ?thesis by (simp add: loop_ends)
  next
    case True
    define rows where "rows = take (nat (mc_batch_size cli)) (drop k (candidates s))"
    obtain t where t: "migrate_loop cli in_memory_transit k c s
          = migrate_loop cli in_memory_transit (k + length rows) (count_outcomes cli (length rows) c) t"
      "healthy cli t" "candidates t = candidates s" "secrets t = secrets s" "rows \<noteq> []"
      using healthy_batch [OF less.prems(1,2) True, of c] less.prems(3) unfolding rows_def rest_after_def by metis
    have len: "length rows \<le> length (candidates s) - k" by (simp add: rows_def)
    have "length (candidates t) - (k + length rows) < length (candidates s) - k"
      using t(3,5) True by (cases rows) auto
    moreover have "length rows + (length (candidates s) - (k + length rows)) = length (candidates s) - k" using len True by linarith
    ultimately show ?thesis
      using less.hyps [of t "k + length rows" "count_outcomes cli (length rows) c"] t less.prems(2,3)
      by (simp add: count_outcomes_def add.assoc)
  qed
qed

section \<open>The runs of the tool\<close>

text \<open>A dry run over a healthy table visits every candidate once, whatever the batch
  size: it ends, reports all of them as skipped and none as failed, writes nothing and
  exits with 0.\<close>

theorem dry_run_visits_every_row:
  assumes "healthy cli s" and "0 < mc_batch_size cli" and "\<not> mc_apply cli"
  shows "\<exists>t. migrate_main cli in_memory_transit s
      = Some (Inr \<lparr>n_migrated = 0, n_skipped = length (candidates s), n_errors = 0\<rparr>, t) \<and> secrets t = secrets s"
proof -
  have tick: "candidates (tick s) = candidates s" "healthy cli (tick s)"
    using candidates_same [OF same_db_tick] healthy_same [OF same_db_tick assms(1)] by simp_all
  show ?thesis
    using dry_loop [OF tick(2) assms(2,3), of 0 "\<lparr>n_migrated = 0, n_skipped = 0, n_errors = 0\<rparr>"] tick(1)
    by (auto simp: migrate_main_def healthy_count [OF assms(1)] Let_def)
qed

text \<open>With at least as many rows per batch as there are candidates, an applied run over
  a healthy table ends with every candidate migrated and exits with 0.\<close>

theorem one_batch_migrates_all:
  assumes "healthy cli s" and "0 < mc_batch_size cli" and "mc_apply cli" and "int (length (candidates s)) \<le> mc_batch_size cli"
  shows "\<exists>t. migrate_main cli in_memory_transit s
      = Some (Inr \<lparr>n_migrated = length (candidates s), n_skipped = 0, n_errors = 0\<rparr>, t) \<and> candidates t = []"
proof (cases "candidates s = []")
  case True
  then show ?thesis using candidates_same [OF same_db_tick, of s]
    by (simp add: migrate_main_def healthy_count [OF assms(1)] Let_def)
next
  case False
  let ?z = "\<lparr>n_migrated = 0, n_skipped = 0, n_errors = 0\<rparr>"
  have tick: "candidates (tick s) = candidates s" "healthy cli (tick s)"
    using candidates_same [OF same_db_tick] healthy_same [OF same_db_tick assms(1)] by simp_all
  have all: "take (nat (mc_batch_size cli)) (drop 0 (candidates (tick s))) = candidates s" using assms(4) tick(1) by simp
  have "0 < length (candidates (tick s))" using False tick(1) by simp
  from healthy_batch [OF tick(2) assms(2) this, of ?z, unfolded all]
  obtain t where t: "migrate_loop cli in_memory_transit 0 ?z (tick s)
        = migrate_loop cli in_memory_transit (0 + length (candidates s)) (count_outcomes cli (length (candidates s)) ?z) t"
      "healthy cli t" "candidates t = rest_after cli (ms_id ` set (candidates s)) (candidates (tick s))" .
  have none: "candidates t = []" using t(3) assms(3) tick(1) by (simp add: rest_after_def)
  with t(1,2) loop_ends [of cli t "length (candidates s)"] assms(2,3) False
  have "migrate_main cli in_memory_transit s = Some (Inr (count_outcomes cli (length (candidates s)) ?z), tick t)"
    by (simp add: migrate_main_def healthy_count [OF assms(1)] Let_def)
  with none assms(3) show ?thesis using candidates_same [OF same_db_tick, of t] by (simp add: count_outcomes_def)
qed

text \<open>(C39) With the production transit client, in either mode and for every batch size, the
  tool ends, whatever the database and the Vault server answer.\<close>

theorem migration_ends: "\<exists>r t. migrate_main cli (http_transit url wl hv) s = Some (r, t)"
proof -
  obtain f t where "count_candidates s = (f, t)" by fastforce
  then show ?thesis
    using http.loop_returns [OF order.refl] by (fastforce simp: migrate_main_def Let_def split: sum.split)
qed

lemma healthy_loop:
  assumes "healthy cli s" and "0 < mc_batch_size cli" and "length (candidates s) \<le> n"
  shows "\<exists>c' t. migrate_loop cli in_memory_transit k c s = Some (Inr c', t) \<and> n_errors c' = n_errors c"
  using assms
proof (induction "n - k" arbitrary: k c s rule: less_induct)
  case less
  show ?case
  proof (cases "k < length (candidates s)")
    case False
    with less.prems show ?thesis by (simp add: loop_ends)
  next
    case True
    define rows where "rows = take (nat (mc_batch_size cli)) (drop k (candidates s))"
    obtain t where t: "migrate_loop cli in_memory_transit k c s
          = migrate_loop cli in_memory_transit (k + length rows) (count_outcomes cli (length rows) c) t"
      "healthy cli t" "candidates t = rest_after cli (ms_id ` set rows) (candidates s)" "rows \<noteq> []"
      using healthy_batch [OF less.prems(1,2) True, of c] unfolding rows_def by metis
    have "length (candidates t) \<le> length (candidates s)" by (simp add: t(3) rest_after_def)
    then have "length (candidates t) \<le> n" using less.prems(3) by simp
    moreover have "n - (k + length rows) < n - k" using rows_def t(4) less.prems(3) by (rule batch_progress)
    ultimately show ?thesis
      using less.hyps [of "k + length rows" t "count_outcomes cli (length rows) c"] t(1,2) less.prems(2)
      by (simp add: count_outcomes_def split: if_splits)
  qed
qed

text \<open>(C18) The offset moves past rows that the previous batch has just taken out of the
  selection: with more candidates than rows per batch, an applied run over a healthy table
  ends, reports no error and exits with 0, and has left a row in the old encryption.\<close>

theorem batches_leave_rows_behind:
  assumes "healthy cli s" and "0 < mc_batch_size cli" and "mc_apply cli" and "mc_batch_size cli < int (length (candidates s))"
  shows "\<exists>c t. migrate_main cli in_memory_transit s = Some (Inr c, t) \<and> exit_code (Inr c) = 0
    \<and> (\<exists>r \<in> set (secrets t). sec_algorithm r = ''pgp_sym_v1'')"
proof -
  let ?z = "\<lparr>n_migrated = 0, n_skipped = 0, n_errors = 0\<rparr>" and ?b = "nat (mc_batch_size cli)"
  have tick: "candidates (tick s) = candidates s" "healthy cli (tick s)"
    using candidates_same [OF same_db_tick] healthy_same [OF same_db_tick assms(1)] by simp_all
  have b: "?b < length (candidates s)" "0 < ?b" using assms(2,4) by simp_all
  then have pos: "0 < length (candidates (tick s))" unfolding tick(1) by linarith
  from healthy_batch [OF tick(2) assms(2) pos, of ?z]
  obtain u where u: "migrate_loop cli in_memory_transit 0 ?z (tick s)
        = migrate_loop cli in_memory_transit (0 + length (take ?b (drop 0 (candidates (tick s)))))
            (count_outcomes cli (length (take ?b (drop 0 (candidates (tick s))))) ?z) u"
      "healthy cli u" "candidates u = rest_after cli (ms_id ` set (take ?b (drop 0 (candidates (tick s))))) (candidates (tick s))" .
  let ?c = "count_outcomes cli ?b ?z"
  have first: "migrate_loop cli in_memory_transit 0 ?z (tick s) = migrate_loop cli in_memory_transit ?b ?c u"
    using u(1) b(1) tick(1) by simp
  have ids: "distinct (map ms_id (candidates s))" "distinct (map ms_id (candidates u))"
    using assms(1) u(2) by (simp_all add: healthy_def distinct_candidates)
  have "candidates s ! ?b \<in> set (candidates u)"
    using ids(1) b(1) assms(3) tick(1) u(3)
    by (auto simp: rest_after_def distinct_conv_nth in_set_conv_nth)
  then obtain x xs where x: "candidates u = x # xs" by (cases "candidates u") auto
  obtain c t where run: "migrate_loop cli in_memory_transit ?b ?c u = Some (Inr c, t)" "n_errors c = 0"
    using healthy_loop [OF u(2) assms(2) order.refl, of ?b ?c] assms(3) by (auto simp: count_outcomes_def)
  from im.loop_skips_head [OF run(1) b(2) x _ order.refl] ids(2) x have "x \<in> set (candidates t)" by simp
  then have "\<exists>r \<in> set (secrets t). sec_algorithm r = ''pgp_sym_v1''" by (auto simp: candidates_def pgp_candidate_def)
  with run first pos tick(1) show ?thesis
    by (auto simp: migrate_main_def healthy_count [OF assms(1)] Let_def exit_code_def)
qed

section \<open>No secret is lost\<close>

text \<open>The plaintext a row gives back, through the store its algorithm tag selects.\<close>

definition readable :: "migrate_cli \<Rightarrow> 'z secrets_db_scheme \<Rightarrow> secret_row \<Rightarrow> string option" where
  "readable cli s r =
     (if sec_algorithm r = VAULT_ALGORITHM_TAG
      then map_of (vk_ciphertexts (vault s)) (vault_key_name (pg_uuid_text s) (mc_key_prefix cli) (sec_org r), sec_ciphertext r)
      else (case pgp_open s (mc_kek cli) r of Inr p \<Rightarrow> Some p | Inl _ \<Rightarrow> None))"

definition vault_rows_issued :: "'z secrets_db_scheme \<Rightarrow> bool" where
  "vault_rows_issued s \<longleftrightarrow> distinct (map sec_id (secrets s))
     \<and> (\<forall>r \<in> set (secrets s). sec_algorithm r = VAULT_ALGORITHM_TAG \<longrightarrow> issued (vault s) (sec_ciphertext r))"

definition kept :: "migrate_cli \<Rightarrow> 'z secrets_db_scheme \<Rightarrow> 'z secrets_db_scheme \<Rightarrow> bool" where
  "kept cli s t \<longleftrightarrow>
     list_all2 (\<lambda>r r'. sec_id r' = sec_id r \<and> sec_org r' = sec_org r \<and> readable cli t r' = readable cli s r) (secrets s) (secrets t)"

lemma kept_refl: "secrets t = secrets s \<Longrightarrow> (\<And>r. r \<in> set (secrets s) \<Longrightarrow> readable cli t r = readable cli s r) \<Longrightarrow> kept cli s t"
  by (auto simp: kept_def list.rel_refl_strong)

lemma kept_trans: "kept cli s t \<Longrightarrow> kept cli t u \<Longrightarrow> kept cli s u"
  unfolding kept_def by (erule (1) list_all2_trans [rotated]) simp

lemma kept_ids:
  assumes "kept cli s t"
  shows "map (\<lambda>r. (sec_id r, sec_org r)) (secrets t) = map (\<lambda>r. (sec_id r, sec_org r)) (secrets s)"
  using assms unfolding kept_def by (induction rule: list_all2_induct) simp_all

lemma readable_tick [simp]: "readable cli (tick s) r = readable cli s r"
  using pgp_open_cong [of "tick s" s] by (simp add: readable_def)

lemma readable_vault_step:
  assumes "vault_rows_issued s" and "r \<in> set (secrets s)" and "vault t = vault_step k p (vault s)" "pg_uuid_text t = pg_uuid_text s"
    "pgp_dec t = pgp_dec s"
  shows "readable cli t r = readable cli s r"
proof -
  have "sec_ciphertext r \<noteq> vault_ct (Suc (vk_counter (vault s)))" if "sec_algorithm r = VAULT_ALGORITHM_TAG"
    using assms(1,2) that issued_step by (fastforce simp: vault_rows_issued_def)
  then show ?thesis using assms(3-5) pgp_open_cong [of t s] by (auto simp: readable_def vault_step_def)
qed

lemma migrate_row_shape:
  assumes "migrate_row cli in_memory_transit row s = (r, t)"
  shows "t = tick s \<or> (\<exists>p x. find (\<lambda>r. sec_id r = ms_id row \<and> rls s None (sec_org r)) (secrets s) = Some x \<and> pgp_open s (mc_kek cli) x = Inr p
    \<and> (let u = (tick s)\<lparr>vault := vault_step (vault_key_name (pg_uuid_text s) (mc_key_prefix cli) (ms_organization_id row)) p (vault s)\<rparr> in
       t = tick u \<or> t = tick (u\<lparr>secrets := sql_update (\<lambda>r. sec_id r = ms_id row \<and> pgp_candidate s r)
         (retagged (vault_ct (Suc (vk_counter (vault s))))) (secrets s)\<rparr>)))"
proof -
  obtain d s1 where d: "decrypt_row (mc_kek cli) (ms_id row) s = (d, s1)" by fastforce
  then have s1: "s1 = tick s" by (rule decrypt_row_state)
  show ?thesis
  proof (cases "mc_apply cli \<and> \<not> isl d")
    case False
    with assms d s1 show ?thesis by (auto simp: migrate_row_def bindE_def ret_def split: sum.splits if_splits)
  next
    case True
    then obtain p where p: "d = Inr p" by (cases d) auto
    with d obtain x where x: "find (\<lambda>r. sec_id r = ms_id row \<and> rls s None (sec_org r)) (secrets s) = Some x" "pgp_open s (mc_kek cli) x = Inr p"
      by (auto simp: decrypt_row_def bindE_def getS_def tx_def split: if_splits option.splits sum.splits)
    define u where "u = (tick s)\<lparr>vault := vault_step (vault_key_name (pg_uuid_text s) (mc_key_prefix cli) (ms_organization_id row)) p (vault s)\<rparr>"
    have cand: "pgp_candidate u = pgp_candidate s" "secrets u = secrets s"
      by (auto simp: u_def intro!: pgp_candidate_cong)
    obtain g v where g: "retag_row (ms_id row) (vault_ct (Suc (vk_counter (vault s)))) u = (g, v)" by fastforce
    with assms True d s1 p have "t = v"
      by (auto simp: migrate_row_def bindE_def getS_def map_err_def ret_def in_memory_transit_def im_ensure_key_def im_encrypt_def
          Let_def vault_step_def vault_ct_def u_def split: sum.splits)
    moreover have "v = tick u \<or> v = tick (u\<lparr>secrets := sql_update (\<lambda>r. sec_id r = ms_id row \<and> pgp_candidate s r)
         (retagged (vault_ct (Suc (vk_counter (vault s))))) (secrets s)\<rparr>)"
      using g cand by (cases g) (auto simp: retag_row_Inr dest: retag_row_Inl)
    ultimately show ?thesis using x unfolding u_def Let_def by blast
  qed
qed

lemma row_keeps_secrets:
  assumes "migrate_row cli in_memory_transit row s = (r, t)" and good: "vault_rows_issued s"
    and org: "\<forall>x \<in> set (secrets s). sec_id x = ms_id row \<longrightarrow> sec_org x = ms_organization_id row"
  shows "vault_rows_issued t \<and> kept cli s t"
proof -
  from migrate_row_shape [OF assms(1)] consider "t = tick s"
    | p x u where "find (\<lambda>r. sec_id r = ms_id row \<and> rls s None (sec_org r)) (secrets s) = Some x" "pgp_open s (mc_kek cli) x = Inr p"
        "u = (tick s)\<lparr>vault := vault_step (vault_key_name (pg_uuid_text s) (mc_key_prefix cli) (ms_organization_id row)) p (vault s)\<rparr>"
        "t = tick u \<or> t = tick (u\<lparr>secrets := sql_update (\<lambda>r. sec_id r = ms_id row \<and> pgp_candidate s r)
         (retagged (vault_ct (Suc (vk_counter (vault s))))) (secrets s)\<rparr>)"
    unfolding Let_def by blast
  then show ?thesis
  proof cases
    case 1
    with good show ?thesis by (auto simp: vault_rows_issued_def intro: kept_refl)
  next
    case (2 p x u)
    let ?f = "retagged (vault_ct (Suc (vk_counter (vault s))))" and ?hit = "\<lambda>r. sec_id r = ms_id row \<and> pgp_candidate s r"
    let ?k = "vault_key_name (pg_uuid_text s) (mc_key_prefix cli) (ms_organization_id row)"
    have u: "vault t = vault_step ?k p (vault s)" "pg_uuid_text t = pg_uuid_text s" "pgp_dec t = pgp_dec s"
      using 2(3,4) by auto
    have t: "secrets t = secrets s \<or> secrets t = sql_update ?hit ?f (secrets s)" using 2(3,4) by auto
    have stay: "readable cli t r = readable cli s r" if "r \<in> set (secrets s)" for r
      by (rule readable_vault_step [OF good that u])
    have moved: "readable cli t (?f r) = readable cli s r" if "r \<in> set (secrets s)" "?hit r" for r
    proof -
      have "x \<in> set (secrets s)" "sec_id x = sec_id r" using 2(1) that by (auto dest!: find_Some_iff2)
      then have "x = r" using good that by (auto simp: vault_rows_issued_def distinct_map inj_on_def)
      moreover have "sec_org r = ms_organization_id row" using org that by blast
      ultimately show ?thesis using that 2(2) u by (simp add: readable_def vault_step_def pgp_candidate_def VAULT_ALGORITHM_TAG_def)
    qed
    have "kept cli s t" using t
    proof
      assume "secrets t = sql_update ?hit ?f (secrets s)"
      then show ?thesis using stay moved by (auto simp: kept_def sql_update_def list.rel_map list.rel_refl_strong)
    qed (auto intro: kept_refl stay)
    moreover have "issued (vault t) (sec_ciphertext r)" if "r \<in> set (secrets t)" "sec_algorithm r = VAULT_ALGORITHM_TAG" for r
      using t that good issued_step unfolding u(1) vault_rows_issued_def
      by (auto simp: sql_update_def split: if_splits) (auto simp: issued_def vault_step_def)
    moreover have "map sec_id (secrets t) = map sec_id (secrets s)"
      using t by (auto simp: sql_update_def)
    ultimately show ?thesis using good by (simp add: vault_rows_issued_def)
  qed
qed

definition owners_known :: "migrate_secret_row list \<Rightarrow> 'z secrets_db_scheme \<Rightarrow> bool" where
  "owners_known rows s \<longleftrightarrow> (\<forall>row \<in> set rows. \<forall>x \<in> set (secrets s). sec_id x = ms_id row \<longrightarrow> sec_org x = ms_organization_id row)"

lemma owners_kept:
  assumes "owners_known rows s" and "kept cli s t"
  shows "owners_known rows t"
proof -
  have eq: "set (map (\<lambda>r. (sec_id r, sec_org r)) (secrets t)) = set (map (\<lambda>r. (sec_id r, sec_org r)) (secrets s))"
    by (rule arg_cong [OF kept_ids [OF assms(2)]])
  have "\<exists>y \<in> set (secrets s). sec_id y = sec_id x \<and> sec_org y = sec_org x" if "x \<in> set (secrets t)" for x
  proof -
    have "(sec_id x, sec_org x) \<in> set (map (\<lambda>r. (sec_id r, sec_org r)) (secrets t))" using that by auto
    then show ?thesis unfolding eq by auto
  qed
  with assms(1) show ?thesis by (fastforce simp: owners_known_def)
qed

lemma rows_keep_secrets:
  assumes "migrate_rows cli in_memory_transit rows c s = (c', t)" and "vault_rows_issued s" and "owners_known rows s"
  shows "vault_rows_issued t \<and> kept cli s t"
  using assms
proof (induction rows arbitrary: c s)
  case Nil
  then show ?case by (auto intro: kept_refl)
next
  case (Cons row rows)
  obtain r u where run: "migrate_row cli in_memory_transit row s = (r, u)" by fastforce
  then obtain c1 where rest: "migrate_rows cli in_memory_transit rows c1 u = (c', t)"
    using Cons.prems(1) by (auto split: sum.splits migrate_outcome.splits)
  have u: "vault_rows_issued u" "kept cli s u"
    using row_keeps_secrets [OF run Cons.prems(2)] Cons.prems(3) by (auto simp: owners_known_def)
  have "owners_known rows s" using Cons.prems(3) by (simp add: owners_known_def)
  from owners_kept [OF this u(2)] have "owners_known rows u" .
  from Cons.IH [OF rest u(1) this] kept_trans [OF u(2)] show ?case by blast
qed

lemma fetched_owners_known:
  assumes "vault_rows_issued s" and "fetch_batch limit k s = (Inr rows, t)"
  shows "owners_known rows t"
proof -
  have "set rows \<subseteq> set (candidates s)"
    using im.fetch_rows [OF assms(2)] by (metis order_trans set_drop_subset set_take_subset)
  then show ?thesis
    using im.fetch_state [OF assms(2)] assms(1)
    by (auto simp: owners_known_def candidates_def same_db_def vault_rows_issued_def distinct_map inj_on_def dest!: subsetD)
qed

lemma fetch_tick: "fetch_batch limit k s = (r, t) \<Longrightarrow> t = tick s"
  by (auto simp: fetch_batch_def tx_def split: if_splits)

lemma tick_keeps: "vault_rows_issued s \<Longrightarrow> vault_rows_issued (tick s) \<and> kept cli s (tick s)"
  by (auto simp: vault_rows_issued_def intro: kept_refl)

lemma loop_keeps_secrets:
  fixes s :: "'z secrets_db_scheme"
  assumes "migrate_loop cli in_memory_transit k c s = Some y" and "vault_rows_issued s"
  shows "kept cli s (snd y)"
proof -
  define P where "P = (\<lambda>cli (transit :: 'z secrets_db_scheme vault_transit) (k :: nat) (c :: migrate_counts) s (y :: (migrate_error + migrate_counts) \<times> 'z secrets_db_scheme).
    transit = in_memory_transit \<longrightarrow> vault_rows_issued s \<longrightarrow> kept cli s (snd y))"
  have "P cli in_memory_transit k c s y"
  proof (rule migrate_loop.raw_induct [of P, OF _ assms(1)])
    fix loop cli transit k c s y
    assume 1: "\<And>cli transit k c s y. loop cli transit k c s = Some y \<Longrightarrow> P cli transit k c s y"
      "(case fetch_batch (mc_batch_size cli) k s of
         (Inl e, t) \<Rightarrow> Some (Inl e, t)
       | (Inr rows, t) \<Rightarrow>
           if rows = [] then Some (Inr c, t)
           else case migrate_rows cli transit rows c t of (c', u) \<Rightarrow> loop cli transit (k + length rows) c' u) = Some y"
    show "P cli transit k c s y"
      unfolding P_def
    proof (intro impI)
      assume tr: "transit = in_memory_transit" and good: "vault_rows_issued s"
      obtain f where fetch: "fetch_batch (mc_batch_size cli) k s = (f, tick s)" using fetch_tick by (metis surj_pair)
      note t = tick_keeps [OF good, of cli]
      show "kept cli s (snd y)"
      proof (cases "\<exists>rows. f = Inr rows \<and> rows \<noteq> []")
        case False
        with 1(2) fetch t show ?thesis by (auto split: sum.splits)
      next
        case True
        then obtain rows where rows: "f = Inr rows" "rows \<noteq> []" by blast
        obtain c' u where run: "migrate_rows cli transit rows c (tick s) = (c', u)" by fastforce
        from rows_keep_secrets [OF run [unfolded tr]] t fetched_owners_known [OF good] fetch rows(1)
        have u: "vault_rows_issued u" "kept cli (tick s) u" by auto
        have "loop cli transit (k + length rows) c' u = Some y" using 1(2) fetch rows run by simp
        from 1(1) [OF this] tr u(1) have "kept cli u (snd y)" by (simp add: P_def)
        with kept_trans [OF kept_trans [OF conjunct2 [OF t] u(2)]] show ?thesis by blast
      qed
    qed
  qed
  with assms show ?thesis by (simp add: P_def)
qed


section \<open>Concrete runs\<close>

definition demo_secret_row :: "uuid \<Rightarrow> string \<Rightarrow> secret_row" where
  "demo_secret_row i p = \<lparr>sec_id = i, sec_org = 7, sec_ciphertext = p, sec_wrapped_dek = ''dek'', sec_algorithm = ''pgp_sym_v1'', sec_created_at = 0\<rparr>"

definition demo_secrets :: secrets_db where
  "demo_secrets = \<lparr>pg_bypass = True, pg_clock = (\<lambda>_. 0), pg_fault = (\<lambda>_. False), pg_calls = 0, pg_uuid = id, pg_uuid_ctr = 9,
     pg_uuid_text = show_nat, pg_digest = id, pg_audit = [],
     secrets = [demo_secret_row 2 ''beta'', demo_secret_row 1 ''alpha''],
     pgp_enc = (\<lambda>_ d _. d), pgp_dec = (\<lambda>c _. Inr c), dek_gen = (\<lambda>_. ''dek''), rnd_ctr = 0,
     vault = \<lparr>vk_keys = [], vk_ciphertexts = [], vk_counter = 0\<rparr>\<rparr>"

definition demo_cli :: "bool \<Rightarrow> int \<Rightarrow> migrate_cli" where
  "demo_cli apply_mode batch = \<lparr>mc_key_prefix = ''kubinate'', mc_kek = ''kek'', mc_apply = apply_mode, mc_batch_size = batch\<rparr>"

lemma demo_secrets_ok: "healthy (demo_cli m b) demo_secrets" "length (candidates demo_secrets) = 2" "vault_rows_issued demo_secrets"
proof -
  show "length (candidates demo_secrets) = 2" by code_simp
  show "healthy (demo_cli m b) demo_secrets"
    by (simp add: healthy_def demo_secrets_def demo_secret_row_def demo_cli_def pgp_open_def)
  show "vault_rows_issued demo_secrets"
    by (simp add: vault_rows_issued_def demo_secrets_def demo_secret_row_def VAULT_ALGORITHM_TAG_def)
qed

theorem dry_run_visits_every_row_witness:
  "\<exists>t. migrate_main (demo_cli False 1) in_memory_transit demo_secrets
      = Some (Inr \<lparr>n_migrated = 0, n_skipped = 2, n_errors = 0\<rparr>, t) \<and> secrets t = secrets demo_secrets"
  using dry_run_visits_every_row [OF demo_secrets_ok(1), of False 1] demo_secrets_ok(2) by (simp add: demo_cli_def)

theorem one_batch_migrates_all_witness:
  "\<exists>t. migrate_main (demo_cli True 100) in_memory_transit demo_secrets
      = Some (Inr \<lparr>n_migrated = 2, n_skipped = 0, n_errors = 0\<rparr>, t) \<and> candidates t = []"
  using one_batch_migrates_all [OF demo_secrets_ok(1), of True 100] demo_secrets_ok(2) by (simp add: demo_cli_def)

theorem batches_leave_rows_behind_witness:
  "\<exists>c t. migrate_main (demo_cli True 1) in_memory_transit demo_secrets = Some (Inr c, t) \<and> exit_code (Inr c) = 0
    \<and> (\<exists>r \<in> set (secrets t). sec_algorithm r = ''pgp_sym_v1'')"
  using batches_leave_rows_behind [OF demo_secrets_ok(1), of True 1] demo_secrets_ok(2) by (simp add: demo_cli_def)


end
