(* ===== verification/Events.thy ===== *)
theory Events
  imports Integrations
begin

text \<open>
  The event hub between the workflow runner and the event stream endpoint
  (\<open>workflows/src/events.rs\<close>): one broadcast channel per cluster, made by the first
  subscriber and dropped by the first publisher that finds nobody listening. The channel
  belongs to another crate: its three operations are an argument, and what the hub relies
  on is the hypothesis \<open>broadcast_law\<close>.
\<close>

section \<open>The hub\<close>

record 'ch channel_ops =
  ch_new :: "nat \<Rightarrow> 'ch"
  ch_send :: "'ch \<Rightarrow> cluster_event \<Rightarrow> (nat \<times> 'ch) option"
  ch_subscribe :: "'ch \<Rightarrow> nat \<times> 'ch"

record 'ch event_hub =
  hub_inner :: "(uuid \<times> 'ch) list"
  hub_capacity :: nat

definition hub_new :: "'ch event_hub" where
  "hub_new = \<lparr>hub_inner = [], hub_capacity = 64\<rparr>"

definition hub_publish :: "'ch channel_ops \<Rightarrow> uuid \<Rightarrow> cluster_event \<Rightarrow> 'ch event_hub \<Rightarrow> nat \<times> 'ch event_hub" where
  "hub_publish ops cid event hub =
     (case map_of (hub_inner hub) cid of
        None \<Rightarrow> (0, hub)
      | Some sender \<Rightarrow>
          (case ch_send ops sender event of
             Some (n, sender') \<Rightarrow> (n, hub\<lparr>hub_inner := AList.update cid sender' (hub_inner hub)\<rparr>)
           | None \<Rightarrow> (0, hub\<lparr>hub_inner := AList.delete cid (hub_inner hub)\<rparr>)))"

definition hub_subscribe :: "'ch channel_ops \<Rightarrow> uuid \<Rightarrow> 'ch event_hub \<Rightarrow> nat \<times> 'ch event_hub" where
  "hub_subscribe ops cid hub =
     (let sender = (case map_of (hub_inner hub) cid of Some x \<Rightarrow> x | None \<Rightarrow> ch_new ops (hub_capacity hub));
          (rx, sender') = ch_subscribe ops sender
      in (rx, hub\<lparr>hub_inner := AList.update cid sender' (hub_inner hub)\<rparr>))"

section \<open>What a subscriber sees\<close>

text \<open>
  The channel, by its documentation: \<open>live\<close> are the receivers that exist and \<open>pending\<close> is
  what a receiver has not read yet. A new receiver starts empty; sending fails when there
  is no receiver, and otherwise reaches each of them, up to the capacity.
\<close>

definition broadcast_law :: "'ch channel_ops \<Rightarrow> ('ch \<Rightarrow> nat set) \<Rightarrow> ('ch \<Rightarrow> nat \<Rightarrow> cluster_event list) \<Rightarrow> nat \<Rightarrow> bool" where
  "broadcast_law ops live pending cap \<longleftrightarrow>
     live (ch_new ops cap) = {}
     \<and> (\<forall>ch rx ch'. ch_subscribe ops ch = (rx, ch') \<longrightarrow>
          rx \<notin> live ch \<and> live ch' = insert rx (live ch) \<and> pending ch' rx = [] \<and> (\<forall>r \<in> live ch. pending ch' r = pending ch r))
     \<and> (\<forall>ch e. live ch = {} \<longrightarrow> ch_send ops ch e = None)
     \<and> (\<forall>ch e. live ch \<noteq> {} \<longrightarrow> (\<exists>ch'. ch_send ops ch e = Some (card (live ch), ch') \<and> live ch' = live ch
          \<and> (\<forall>r \<in> live ch. length (pending ch r) < cap \<longrightarrow> pending ch' r = pending ch r @ [e])))"

definition deliver :: "'ch channel_ops \<Rightarrow> ext_event list \<Rightarrow> 'ch event_hub \<Rightarrow> 'ch event_hub" where
  "deliver ops log hub = fold (\<lambda>ev h. case ev of EvPublish cid e \<Rightarrow> snd (hub_publish ops cid e h) | _ \<Rightarrow> h) log hub"

definition published :: "uuid \<Rightarrow> ext_event list \<Rightarrow> cluster_event list" where
  "published cid log = List.map_filter (\<lambda>ev. case ev of EvPublish c e \<Rightarrow> if c = cid then Some e else None | _ \<Rightarrow> None) log"

lemma published_Cons:
  "published cid (ev # log) = (case ev of EvPublish c e \<Rightarrow> if c = cid then e # published cid log else published cid log | _ \<Rightarrow> published cid log)"
  by (simp add: published_def List.map_filter_simps split: ext_event.split)

lemma publish_other: "c \<noteq> cid \<Longrightarrow> map_of (hub_inner (snd (hub_publish ops c e hub))) cid = map_of (hub_inner hub) cid"
  by (simp add: hub_publish_def update_conv' delete_conv' split: option.split)

lemma publish_own:
  assumes "broadcast_law ops live pending cap" and "map_of (hub_inner hub) cid = Some ch" and "rx \<in> live ch" and "length (pending ch rx) < cap"
  shows "\<exists>ch'. map_of (hub_inner (snd (hub_publish ops cid e hub))) cid = Some ch' \<and> live ch' = live ch \<and> pending ch' rx = pending ch rx @ [e]
    \<and> fst (hub_publish ops cid e hub) = card (live ch)"
proof -
  have "live ch \<noteq> {}" using assms(3) by blast
  then obtain ch' where "ch_send ops ch e = Some (card (live ch), ch')" "live ch' = live ch" "pending ch' rx = pending ch rx @ [e]"
    using assms(1,3,4) unfolding broadcast_law_def by metis
  then show ?thesis using assms(2) by (simp add: hub_publish_def update_conv')
qed

lemma deliver_channel:
  assumes "broadcast_law ops live pending cap" and "map_of (hub_inner hub) cid = Some ch" and "rx \<in> live ch"
    and "length (pending ch rx) + length (published cid log) \<le> cap"
  shows "\<exists>ch'. map_of (hub_inner (deliver ops log hub)) cid = Some ch' \<and> rx \<in> live ch' \<and> pending ch' rx = pending ch rx @ published cid log"
  using assms(2-)
proof (induction log arbitrary: hub ch)
  case Nil
  then show ?case by (simp add: deliver_def published_def List.map_filter_simps)
next
  case (Cons ev log)
  show ?case
  proof (cases "\<exists>e. ev = EvPublish cid e")
    case True
    then obtain e where ev: "ev = EvPublish cid e" by blast
    with Cons.prems(3) have "length (pending ch rx) < cap" by (simp add: published_Cons)
    from publish_own [OF assms(1) Cons.prems(1,2) this, of e] obtain ch1 where ch1:
      "map_of (hub_inner (snd (hub_publish ops cid e hub))) cid = Some ch1" "live ch1 = live ch" "pending ch1 rx = pending ch rx @ [e]" by blast
    from Cons.IH [OF ch1(1)] ch1(2,3) Cons.prems(2,3) show ?thesis by (simp add: ev published_Cons deliver_def)
  next
    case False
    then have none: "published cid (ev # log) = published cid log" by (auto simp: published_Cons split: ext_event.split)
    define hub' where "hub' = (case ev of EvPublish c e \<Rightarrow> snd (hub_publish ops c e hub) | _ \<Rightarrow> hub)"
    have "map_of (hub_inner hub') cid = Some ch"
      using Cons.prems(1) False by (auto simp: hub'_def publish_other split: ext_event.split)
    from Cons.IH [OF this Cons.prems(2)] Cons.prems(3) none show ?thesis by (simp add: deliver_def hub'_def)
  qed
qed

text \<open>(C20) A subscriber sees its own cluster and nothing else: whatever the hub held before
  and whatever is published for any cluster afterwards, a receiver that subscribed to a
  cluster has pending exactly the events published for that cluster since, in order, as
  long as they fit the capacity.\<close>

theorem subscriber_sees_its_cluster:
  assumes "broadcast_law ops live pending (hub_capacity hub)" and "hub_subscribe ops cid hub = (rx, hub')"
    and "length (published cid log) \<le> hub_capacity hub"
  shows "\<exists>ch. map_of (hub_inner (deliver ops log hub')) cid = Some ch \<and> rx \<in> live ch \<and> pending ch rx = published cid log"
proof -
  let ?sender = "case map_of (hub_inner hub) cid of Some x \<Rightarrow> x | None \<Rightarrow> ch_new ops (hub_capacity hub)"
  obtain ch where sub: "ch_subscribe ops ?sender = (rx, ch)" and hub': "hub' = hub\<lparr>hub_inner := AList.update cid ch (hub_inner hub)\<rparr>"
    using assms(2) by (auto simp: hub_subscribe_def Let_def split: prod.splits)
  have "rx \<in> live ch" "pending ch rx = []" using assms(1) sub unfolding broadcast_law_def by blast+
  moreover have "map_of (hub_inner hub') cid = Some ch" by (simp add: hub' update_conv')
  ultimately show ?thesis using deliver_channel [OF assms(1), of hub' cid ch rx log] assms(3) by simp
qed

definition demo_channel :: "cluster_event list list channel_ops" where
  "demo_channel = \<lparr>ch_new = (\<lambda>_. []), ch_send = (\<lambda>ch e. if ch = [] then None else Some (length ch, map (\<lambda>q. q @ [e]) ch)),
     ch_subscribe = (\<lambda>ch. (length ch, ch @ [[]]))\<rparr>"

theorem subscriber_sees_its_cluster_witness:
  "\<exists>ch. map_of (hub_inner (deliver demo_channel
        [EvPublish 7 (StepEvent ''a''), EvPublish 8 (StepEvent ''x''), EvPublish 7 (TerminalEvent ''ready'' None)]
        (snd (hub_subscribe demo_channel 7 hub_new)))) 7 = Some ch
    \<and> 0 < length ch \<and> ch ! 0 = [StepEvent ''a'', TerminalEvent ''ready'' None]"
proof -
  let ?log = "[EvPublish 7 (StepEvent ''a''), EvPublish 8 (StepEvent ''x''), EvPublish 7 (TerminalEvent ''ready'' None)]"
  have law: "broadcast_law demo_channel (\<lambda>ch. {..<length ch}) (\<lambda>ch r. ch ! r) (hub_capacity hub_new)"
    by (auto simp: broadcast_law_def demo_channel_def nth_append)
  have sub: "hub_subscribe demo_channel 7 hub_new = (0, snd (hub_subscribe demo_channel 7 hub_new))"
    by (simp add: hub_subscribe_def hub_new_def demo_channel_def)
  have pub: "published 7 ?log = [StepEvent ''a'', TerminalEvent ''ready'' None]" by (simp add: published_Cons) (simp add: published_def List.map_filter_simps)
  from subscriber_sees_its_cluster [OF law sub, of ?log] pub show ?thesis by (simp add: hub_new_def)
qed

text \<open>A channel without receivers is dropped by the next publication for its cluster, and not
  before; that publication is lost.\<close>

lemma dead_channel_is_dropped:
  assumes "broadcast_law ops live pending cap" and "map_of (hub_inner hub) cid = Some ch" and "live ch = {}"
  shows "hub_publish ops cid e hub = (0, hub\<lparr>hub_inner := AList.delete cid (hub_inner hub)\<rparr>)"
  using assms by (simp add: hub_publish_def broadcast_law_def)

end
