(* ===== verification/Agent_Client.thy ===== *)
theory Agent_Client
  imports Agent_Tunnel "HOL-Library.Word"
begin

unbundle bit_operations_syntax

text \<open>
  The agent that runs inside a cluster (\<open>src/agent\<close>): its configuration from the
  environment and the certificate files, the loop that reconnects to the control plane
  with a randomised backoff, and one session with its two tasks. The PEM parser, the
  transport, the file system, the environment and the random numbers are arguments. An
  \<open>anyhow\<close> error is the list of its messages, the outermost context first. The last
  section runs a session of the agent against the control plane's end of the tunnel.
\<close>

section \<open>Certificates\<close>

type_synonym anyhow = "string list"

definition with_context :: "string \<Rightarrow> anyhow + 'a \<Rightarrow> anyhow + 'a" where
  "with_context msg r = (case r of Inl e \<Rightarrow> Inl (msg # e) | Inr a \<Rightarrow> Inr a)"

definition andThen :: "'e + 'a \<Rightarrow> ('a \<Rightarrow> 'e + 'b) \<Rightarrow> 'e + 'b" where
  "andThen r f = (case r of Inl e \<Rightarrow> Inl e | Inr a \<Rightarrow> f a)"

lemma andThen_Inr: "andThen r f = Inr b \<longleftrightarrow> (\<exists>a. r = Inr a \<and> f a = Inr b)"
  by (simp add: andThen_def split: sum.split)

lemma with_context_Inr [simp]: "with_context msg r = Inr a \<longleftrightarrow> r = Inr a"
  by (simp add: with_context_def split: sum.split)

text \<open>The iterator over the certificate blocks of a file yields a parse error as an item;
  a key file has an error, no key, or a key.\<close>

record pem_lib =
  pl_certs :: "string \<Rightarrow> (string + string) list"
  pl_private_key :: "string \<Rightarrow> string + string option"

record mtls_config =
  ca_cert_pem :: string
  client_cert_pem :: string
  client_key_pem :: string

definition validate_cert_pem :: "pem_lib \<Rightarrow> string \<Rightarrow> anyhow + unit" where
  "validate_cert_pem lib pem =
     (if length (pl_certs lib pem) > 0 then Inr () else Inl [''no certificate blocks found''])"

definition validate_key_pem :: "pem_lib \<Rightarrow> string \<Rightarrow> anyhow + unit" where
  "validate_key_pem lib pem =
     (case pl_private_key lib pem of
        Inl e \<Rightarrow> Inl [''failed to parse private key'', e]
      | Inr None \<Rightarrow> Inl [''no private key block found'']
      | Inr (Some k) \<Rightarrow> Inr ())"

definition mtls_load :: "pem_lib \<Rightarrow> (string \<Rightarrow> anyhow + string) \<Rightarrow> string \<Rightarrow> string \<Rightarrow> string \<Rightarrow> anyhow + mtls_config" where
  "mtls_load lib read cert_path key_path ca_path =
     andThen (with_context (''read client cert '' @ cert_path) (read cert_path)) (\<lambda>cert.
     andThen (with_context (''read client key '' @ key_path) (read key_path)) (\<lambda>key.
     andThen (with_context (''read CA cert '' @ ca_path) (read ca_path)) (\<lambda>ca.
     andThen (with_context ''client cert PEM invalid'' (validate_cert_pem lib cert)) (\<lambda>_.
     andThen (with_context ''client key PEM invalid'' (validate_key_pem lib key)) (\<lambda>_.
     andThen (with_context ''CA cert PEM invalid'' (validate_cert_pem lib ca)) (\<lambda>_.
     Inr \<lparr>ca_cert_pem = ca, client_cert_pem = cert, client_key_pem = key\<rparr>))))))"

section \<open>Configuration\<close>

record agent_config =
  ac_control_plane_url :: string
  ac_cluster_id :: string
  ac_mtls :: "mtls_config option"
  ac_heartbeat_interval :: int

text \<open>The interval is in milliseconds.\<close>

definition agent_config_new :: "string \<Rightarrow> string \<Rightarrow> mtls_config option \<Rightarrow> agent_config" where
  "agent_config_new url cluster mtls =
     \<lparr>ac_control_plane_url = url, ac_cluster_id = cluster, ac_mtls = mtls, ac_heartbeat_interval = 30000\<rparr>"

definition required_env :: "(string \<Rightarrow> string option) \<Rightarrow> string \<Rightarrow> anyhow + string" where
  "required_env env var =
     (case env var of Some v \<Rightarrow> Inr v | None \<Rightarrow> Inl [''required env var '' @ var @ '' is not set''])"

text \<open>What \<open>main\<close> enters the loop with, or the error it ends with.\<close>

definition agent_main ::
    "pem_lib \<Rightarrow> (string \<Rightarrow> anyhow + string) \<Rightarrow> anyhow + unit \<Rightarrow> (string \<Rightarrow> string option) \<Rightarrow> anyhow + agent_config" where
  "agent_main lib read telemetry env =
     andThen telemetry (\<lambda>_.
     andThen (required_env env ''KUBINATE__CONTROL_PLANE_URL'') (\<lambda>control_plane_url.
     andThen (required_env env ''KUBINATE__CLUSTER_ID'') (\<lambda>cluster_id.
     andThen
       (case (env ''KUBINATE__CERT_PATH'', env ''KUBINATE__KEY_PATH'', env ''KUBINATE__CA_PATH'') of
          (Some cert, Some key, Some ca) \<Rightarrow>
            andThen (mtls_load lib read cert key ca) (\<lambda>m. Inr (Some m))
        | _ \<Rightarrow> Inr None) (\<lambda>mtls.
     Inr (agent_config_new control_plane_url cluster_id mtls)))))"

section \<open>Reconnecting\<close>

definition saturating_mul :: "64 word \<Rightarrow> 64 word \<Rightarrow> 64 word" where
  "saturating_mul a b = (if uint a * uint b < 2 ^ 64 then a * b else - 1)"

definition saturating_add1 :: "32 word \<Rightarrow> 32 word" where
  "saturating_add1 a = (if a = - 1 then a else a + 1)"

definition backoff_ceiling :: "32 word \<Rightarrow> 64 word" where
  "backoff_ceiling attempt = min (saturating_mul 500 (push_bit (unat (min attempt 7)) 1)) 60000"

text \<open>Multiplication of doubles. A random double is a multiple \<open>k\<close> of \<open>2\<^sup>-\<^sup>5\<^sup>3\<close>; its product with
  a whole number is rounded to 53 significant bits, halfway cases to even. \<open>round_f64\<close>
  does so on the numerator over \<open>2\<^sup>5\<^sup>3\<close>.\<close>

function bit_len :: "int \<Rightarrow> nat" where
  "bit_len m = (if m \<le> 0 then 0 else Suc (bit_len (m div 2)))"
  by auto
termination by (relation "measure nat") auto

declare bit_len.simps [simp del]

definition round_f64 :: "int \<Rightarrow> int" where
  "round_f64 m =
     (let e = bit_len m - 53; q = m div 2 ^ e; r = m mod 2 ^ e
      in (if 2 * r < 2 ^ e \<or> 2 * r = 2 ^ e \<and> even q then q else q + 1) * 2 ^ e)"

text \<open>The delay in milliseconds, for the random double \<open>k / 2\<^sup>5\<^sup>3\<close>.\<close>

definition backoff_delay :: "int \<Rightarrow> 32 word \<Rightarrow> 64 word" where
  "backoff_delay k attempt = word_of_int (round_f64 (k * uint (backoff_ceiling attempt)) div 2 ^ 53)"

text \<open>How an iteration of the outer loop can end: the session was closed, it failed, or
  the process has exited. The result is the sleep after each iteration.\<close>

datatype session_end = SessionClosed | SessionFailed anyhow | SessionExited

fun run_connect_loop :: "(session_end \<times> int) list \<Rightarrow> 32 word \<Rightarrow> 64 word option list" where
  "run_connect_loop [] attempt = []"
| "run_connect_loop ((SessionClosed, k) # rest) attempt = None # run_connect_loop rest 0"
| "run_connect_loop ((SessionFailed e, k) # rest) attempt =
     Some (backoff_delay k attempt) # run_connect_loop rest (saturating_add1 attempt)"
| "run_connect_loop ((SessionExited, k) # rest) attempt = []"

text \<open>The transport: the URL parser, TLS settings on an endpoint, the connection attempt.\<close>

record ('ep, 'ch) transport =
  tr_endpoint :: "string \<Rightarrow> anyhow + 'ep"
  tr_tls :: "mtls_config \<Rightarrow> 'ep \<Rightarrow> anyhow + 'ep"
  tr_connect :: "'ep \<Rightarrow> anyhow + 'ch"

definition build_channel :: "('ep, 'ch) transport \<Rightarrow> agent_config \<Rightarrow> anyhow + 'ch" where
  "build_channel tr config =
     andThen (with_context ''invalid control-plane URL'' (tr_endpoint tr (ac_control_plane_url config))) (\<lambda>endpoint.
     andThen
       (case ac_mtls config of
          Some m \<Rightarrow> with_context ''apply TLS config'' (tr_tls tr m endpoint)
        | None \<Rightarrow> Inr endpoint) (\<lambda>endpoint.
     with_context ''connect to control plane'' (tr_connect tr endpoint)))"

section \<open>One session\<close>

text \<open>What can happen while a session runs: the ticker fires, with a reading of the clock,
  and its message is taken by the channel; the next item of the response stream arrives,
  or its end; the transport drops the receiving end of the channel; the sleep of a
  graceful restart is over. The reader handles one item at a time, so while it sleeps
  only the heartbeat task moves.\<close>

datatype server_payload = HeartbeatAck int | Command "int option"

datatype session_event =
    Ticked "int option"
  | Arrived "string + server_payload option"
  | StreamEnd
  | ReceiverDropped
  | SleepOver

datatype reader = Reading | Draining nat | Returned "anyhow + unit" | Exit nat

record agent_session =
  as_reader :: reader
  as_heartbeats :: bool
  as_receiver :: bool
  as_sent :: "heartbeat list"

definition CARGO_PKG_VERSION :: string where
  "CARGO_PKG_VERSION = ''0.1.0''"

definition agent_clock_ms :: "int option \<Rightarrow> int" where
  "agent_clock_ms since_epoch = min (opt_or since_epoch 0) i64_max"

definition make_heartbeat :: "agent_config \<Rightarrow> int option \<Rightarrow> heartbeat" where
  "make_heartbeat config since_epoch =
     \<lparr>hb_cluster_id = ac_cluster_id config, hb_agent_version = CARGO_PKG_VERSION, hb_k3s_version = [],
      hb_sent_at_ms = agent_clock_ms since_epoch\<rparr>"

definition heartbeat_tick :: "agent_config \<Rightarrow> int option \<Rightarrow> agent_session \<Rightarrow> agent_session" where
  "heartbeat_tick config since_epoch st =
     (if \<not> as_heartbeats st then st
      else if \<not> as_receiver st then st\<lparr>as_heartbeats := False\<rparr>
      else st\<lparr>as_sent := as_sent st @ [make_heartbeat config since_epoch]\<rparr>)"

text \<open>A restart command makes the reader sleep for its grace period, in seconds.\<close>

definition handle_command :: "int option \<Rightarrow> reader" where
  "handle_command kind =
     (case kind of Some grace_seconds \<Rightarrow> Draining (nat (max grace_seconds 0)) | None \<Rightarrow> Reading)"

definition session_step :: "agent_config \<Rightarrow> session_event \<Rightarrow> agent_session \<Rightarrow> agent_session" where
  "session_step config ev st =
     (case as_reader st of
        Exit code \<Rightarrow> st
      | _ \<Rightarrow>
        (case ev of
           Ticked c \<Rightarrow> heartbeat_tick config c st
         | ReceiverDropped \<Rightarrow> st\<lparr>as_receiver := False\<rparr>
         | SleepOver \<Rightarrow> (case as_reader st of Draining g \<Rightarrow> st\<lparr>as_reader := Exit 0\<rparr> | _ \<Rightarrow> st)
         | StreamEnd \<Rightarrow>
             (if as_reader st = Reading then st\<lparr>as_reader := Returned (Inr ()), as_heartbeats := False\<rparr> else st)
         | Arrived msg \<Rightarrow>
             (if as_reader st \<noteq> Reading then st
              else case msg of
                Inl e \<Rightarrow> st\<lparr>as_reader := Returned (Inl [''inbound stream error'', e])\<rparr>
              | Inr None \<Rightarrow> st
              | Inr (Some (HeartbeatAck received_at_ms)) \<Rightarrow> st
              | Inr (Some (Command kind)) \<Rightarrow> st\<lparr>as_reader := handle_command kind\<rparr>)))"

definition fresh_session :: agent_session where
  "fresh_session = \<lparr>as_reader = Reading, as_heartbeats = True, as_receiver = True, as_sent = []\<rparr>"

definition run_session :: "agent_config \<Rightarrow> anyhow + unit \<Rightarrow> session_event list \<Rightarrow> anyhow + agent_session" where
  "run_session config rpc evs =
     andThen (with_context ''open_stream RPC failed'' rpc) (\<lambda>_. Inr (fold (session_step config) evs fresh_session))"

text \<open>How an iteration ends, when it does: \<open>None\<close> while the session is still open.\<close>

definition session_result :: "anyhow + agent_session \<Rightarrow> session_end option" where
  "session_result r =
     (case r of
        Inl e \<Rightarrow> Some (SessionFailed e)
      | Inr st \<Rightarrow>
          (case as_reader st of
             Returned (Inr _) \<Rightarrow> Some SessionClosed | Returned (Inl e) \<Rightarrow> Some (SessionFailed e)
           | Exit code \<Rightarrow> Some SessionExited | _ \<Rightarrow> None))"

definition build_and_run ::
    "('ep, 'ch) transport \<Rightarrow> agent_config \<Rightarrow> ('ch \<Rightarrow> anyhow + unit) \<Rightarrow> session_event list \<Rightarrow> anyhow + agent_session" where
  "build_and_run tr config rpc evs =
     andThen (build_channel tr config) (\<lambda>channel. run_session config (rpc channel) evs)"

section \<open>The backoff\<close>

lemma bit_len_le: "m < 2 ^ n \<Longrightarrow> bit_len m \<le> n"
proof (induction n arbitrary: m)
  case 0
  then show ?case by (simp add: bit_len.simps)
next
  case (Suc n)
  then have "m div 2 < 2 ^ n" by simp
  with Suc.IH show ?case by (subst bit_len.simps) simp
qed

text \<open>Rounding does not pass a bound that is itself a double.\<close>

lemma round_f64_le:
  assumes "0 \<le> m" and "m \<le> c * 2 ^ 53" and "m < 2 ^ 106"
  shows "round_f64 m \<le> c * 2 ^ 53" and "0 \<le> round_f64 m"
proof -
  define e where "e = bit_len m - 53"
  define q where "q = m div 2 ^ e"
  define r where "r = m mod 2 ^ e"
  have "e \<le> 53" using bit_len_le [OF assms(3)] by (simp add: e_def)
  then have c: "c * 2 ^ 53 = (c * 2 ^ (53 - e)) * 2 ^ e" by (simp add: mult.assoc flip: power_add)
  have m: "m = q * 2 ^ e + r" unfolding q_def r_def by (rule div_mult_mod_eq [symmetric])
  have r: "0 \<le> r" by (simp add: r_def)
  have q: "0 \<le> q" using assms(1) by (simp add: q_def pos_imp_zdiv_nonneg_iff)
  have rnd: "round_f64 m = (if 2 * r < 2 ^ e \<or> 2 * r = 2 ^ e \<and> even q then q else q + 1) * 2 ^ e"
    by (simp add: round_f64_def Let_def e_def q_def r_def)
  show "0 \<le> round_f64 m" using q by (simp add: rnd)
  have "q * 2 ^ e \<le> c * 2 ^ 53" using assms(2) m r by linarith
  moreover have "(q + 1) * 2 ^ e \<le> c * 2 ^ 53" if "\<not> 2 * r < 2 ^ e"
  proof -
    have "0 < r" using that r by (cases "r = 0") auto
    then have "q * 2 ^ e < (c * 2 ^ (53 - e)) * 2 ^ e" using assms(2) m unfolding c by linarith
    then have "q < c * 2 ^ (53 - e)" by (simp add: mult_less_cancel_right)
    then have "(q + 1) * 2 ^ e \<le> (c * 2 ^ (53 - e)) * 2 ^ e" by (intro mult_right_mono) auto
    then show ?thesis unfolding c .
  qed
  ultimately show "round_f64 m \<le> c * 2 ^ 53" unfolding rnd by (cases "2 * r < 2 ^ e") auto
qed

text \<open>The exponent is cut at 7 and the product saturates; the ceiling is the documented one
  for every attempt all the same.\<close>

lemma backoff_ceiling_small:
  "n \<le> 7 \<Longrightarrow> uint (min (saturating_mul 500 (push_bit n 1)) 60000) = min 60000 (500 * 2 ^ n)"
proof -
  assume "n \<le> 7"
  then consider "n = 0" | "n = 1" | "n = 2" | "n = 3" | "n = 4" | "n = 5" | "n = 6" | "n = 7" by linarith
  then show ?thesis by cases (simp_all add: saturating_mul_def min_def)
qed

lemma ceiling_cut: "min 60000 (500 * 2 ^ min n 7) = min 60000 (500 * 2 ^ n :: int)"
proof (cases "n \<le> 7")
  case False
  then have "(2 :: int) ^ 7 \<le> 2 ^ n" by (intro power_increasing) auto
  with False show ?thesis by (simp add: min_def)
qed (simp add: min_def)

lemma backoff_ceiling_eq: "uint (backoff_ceiling attempt) = min 60000 (500 * 2 ^ unat attempt)"
proof -
  have cut: "unat (min attempt 7) = min (unat attempt) 7" by (simp add: min_def word_le_nat_alt)
  show ?thesis unfolding backoff_ceiling_def cut by (simp only: backoff_ceiling_small [OF min.cobounded2] ceiling_cut)
qed

lemma backoff_delay_le:
  assumes "0 \<le> k" and "k < 2 ^ 53"
  shows "uint (backoff_delay k attempt) \<le> min 60000 (500 * 2 ^ unat attempt)"
proof -
  let ?c = "uint (backoff_ceiling attempt)"
  have c: "0 \<le> ?c" "?c \<le> 60000" by (simp_all add: backoff_ceiling_eq)
  have m: "0 \<le> k * ?c" "k * ?c \<le> ?c * 2 ^ 53" using assms c(1) mult_right_mono [of k "2 ^ 53" ?c] by (simp_all add: mult.commute)
  moreover have "?c * 2 ^ 53 \<le> 60000 * 2 ^ 53" using c(2) by (intro mult_right_mono) auto
  then have "k * ?c < 2 ^ 106" using m(2) by simp
  ultimately have "round_f64 (k * ?c) \<le> ?c * 2 ^ 53" "0 \<le> round_f64 (k * ?c)" by (rule round_f64_le)+
  then have d: "0 \<le> round_f64 (k * ?c) div 2 ^ 53" "round_f64 (k * ?c) div 2 ^ 53 \<le> ?c"
    by (simp_all add: pos_imp_zdiv_nonneg_iff zdiv_mono1 [of _ "?c * 2 ^ 53" "2 ^ 53", simplified])
  then have "uint (backoff_delay k attempt) = round_f64 (k * ?c) div 2 ^ 53"
    using c(2) by (simp add: backoff_delay_def uint_word_of_int_eq take_bit_int_eq_self)
  with d(2) show ?thesis by (simp add: backoff_ceiling_eq)
qed

text \<open>The failures in a row that end a list of iterations.\<close>

definition streak :: "(session_end \<times> int) list \<Rightarrow> nat" where
  "streak its = length (takeWhile (\<lambda>(r, _). r \<noteq> SessionClosed) (rev its))"

lemma streak_simps [simp]:
  "streak [] = 0" "streak (its @ [(SessionClosed, k)]) = 0" "streak (its @ [(SessionFailed e, k)]) = Suc (streak its)"
  by (simp_all add: streak_def)

text \<open>The counter follows the streak; above 7 its value no longer matters.\<close>

lemma saturating_add1_min: "min 7 (unat (saturating_add1 a)) = min 7 (Suc (unat a))"
proof (cases "a = - 1")
  case True
  have "unat (7 :: 32 word) \<le> unat a" unfolding True by (rule iffD1 [OF word_le_nat_alt]) (rule word_order.extremum)
  then show ?thesis by (simp add: saturating_add1_def True)
next
  case False
  then have "unat (a + 1) = Suc (unat a)" by (metis add.commute add_cancel_right_left unatSuc eq_neg_iff_add_eq_0)
  with False show ?thesis by (simp add: saturating_add1_def)
qed

text \<open>The sleep an iteration may be followed by, after \<open>n\<close> failures in a row before it.\<close>

fun paced :: "session_end \<Rightarrow> nat \<Rightarrow> 64 word option \<Rightarrow> bool" where
  "paced (SessionFailed e) n (Some d) \<longleftrightarrow> uint d \<le> min 60000 (500 * 2 ^ n)"
| "paced r n wait \<longleftrightarrow> r = SessionClosed \<and> wait = None"

lemma loop_waits:
  assumes "min 7 (unat attempt) = min 7 (streak before)"
    and "list_all (\<lambda>(r, k). r \<noteq> SessionExited \<and> 0 \<le> k \<and> k < 2 ^ 53) its" and "i < length its"
  shows "paced (fst (its ! i)) (streak (before @ take i its)) (run_connect_loop its attempt ! i)"
  using assms
proof (induction its arbitrary: before attempt i)
  case Nil
  then show ?case by simp
next
  case (Cons it its)
  obtain r k where it: "it = (r, k)" by fastforce
  have k: "r \<noteq> SessionExited" "0 \<le> k" "k < 2 ^ 53" using Cons.prems(2) by (auto simp: it)
  have rest: "list_all (\<lambda>(r, k). r \<noteq> SessionExited \<and> 0 \<le> k \<and> k < 2 ^ 53) its" using Cons.prems(2) by simp
  show ?case
  proof (cases r)
    case SessionClosed
    with Cons.IH [of 0 "before @ [it]" "i - 1"] Cons.prems(3) rest show ?thesis by (cases i) (simp_all add: it)
  next
    case (SessionFailed e)
    have "min 60000 (500 * 2 ^ unat attempt) = min 60000 (500 * 2 ^ streak before :: int)"
      using Cons.prems(1) by (metis ceiling_cut min.commute)
    moreover have "min 7 (unat (saturating_add1 attempt)) = min 7 (Suc (streak before))"
      using Cons.prems(1) saturating_add1_min [of attempt] by arith
    ultimately show ?thesis
      using Cons.IH [of "saturating_add1 attempt" "before @ [it]" "i - 1"] Cons.prems(3) rest SessionFailed
        backoff_delay_le [OF k(2,3), of attempt]
      by (cases i) (simp_all add: it)
  qed (use k(1) in simp)
qed

text \<open>(C28) Reconnecting is paced: after an iteration that failed the agent sleeps for a time
  within the documented bound, which doubles from half a second with every failure in a row
  and stops at a minute, also when the counter has saturated; after a session the server
  closed it does not sleep, and the count starts again.\<close>

theorem reconnect_is_paced:
  assumes "list_all (\<lambda>(r, k). r \<noteq> SessionExited \<and> 0 \<le> k \<and> k < 2 ^ 53) its" and "i < length its"
  shows "paced (fst (its ! i)) (streak (take i its)) (run_connect_loop its 0 ! i)"
  using loop_waits [of 0 "[]", OF _ assms] by simp

theorem reconnect_is_paced_witness:
  "let its = [(SessionFailed [''down''], 0), (SessionFailed [''down''], 2 ^ 53 - 1), (SessionClosed, 0), (SessionFailed [''down''], 2 ^ 52)] in
   run_connect_loop its 0 = [Some 0, Some 999, None, Some 250] \<and> paced (fst (its ! 1)) 1 (Some 999) \<and> paced (fst (its ! 3)) 0 (Some 250)"
proof -
  let ?its = "[(SessionFailed [''down''], 0), (SessionFailed [''down''], 2 ^ 53 - 1), (SessionClosed, 0), (SessionFailed [''down''], 2 ^ 52)]"
  have "run_connect_loop ?its 0 = [Some 0, Some 999, None, Some 250]" by code_simp
  moreover have "streak (take 1 ?its) = 1" "streak (take 3 ?its) = 0" by code_simp+
  ultimately show ?thesis using reconnect_is_paced [of ?its 1] reconnect_is_paced [of ?its 3] by simp
qed

section \<open>Start-up\<close>

text \<open>The agent speaks TLS exactly when all three paths are set: one that is missing is not
  an error, and the files named by the other two are not read.\<close>

lemma agent_main_mtls:
  assumes "agent_main lib read telemetry env = Inr config"
  shows "ac_mtls config \<noteq> None \<longleftrightarrow>
      env ''KUBINATE__CERT_PATH'' \<noteq> None \<and> env ''KUBINATE__KEY_PATH'' \<noteq> None \<and> env ''KUBINATE__CA_PATH'' \<noteq> None"
    and "env ''KUBINATE__CLUSTER_ID'' = Some (ac_cluster_id config)"
    and "env ''KUBINATE__CONTROL_PLANE_URL'' = Some (ac_control_plane_url config)"
  using assms by (auto simp: agent_main_def andThen_Inr required_env_def agent_config_new_def split: option.splits)

text \<open>Without TLS settings the endpoint is used as it was parsed.\<close>

lemma build_channel_plain:
  "ac_mtls config = None \<Longrightarrow> tr_endpoint tr (ac_control_plane_url config) = Inr ep \<Longrightarrow>
   build_channel tr config = with_context ''connect to control plane'' (tr_connect tr ep)"
  by (simp add: build_channel_def andThen_def with_context_def)

text \<open>An agent given only part of its TLS settings starts, and connects without TLS.\<close>

theorem partial_mtls_connects_plain:
  assumes "env ''KUBINATE__CONTROL_PLANE_URL'' = Some url" and "env ''KUBINATE__CLUSTER_ID'' = Some c"
    and "env ''KUBINATE__CERT_PATH'' = None \<or> env ''KUBINATE__KEY_PATH'' = None \<or> env ''KUBINATE__CA_PATH'' = None"
    and "tr_endpoint tr url = Inr ep"
  shows "\<exists>config. agent_main lib read (Inr ()) env = Inr config
    \<and> build_channel tr config = with_context ''connect to control plane'' (tr_connect tr ep)"
proof -
  have "agent_main lib read (Inr ()) env = Inr (agent_config_new url c None)"
    using assms(1-3) by (auto simp: agent_main_def andThen_def required_env_def split: option.splits)
  moreover have "build_channel tr (agent_config_new url c None) = with_context ''connect to control plane'' (tr_connect tr ep)"
    using assms(4) by (intro build_channel_plain) (simp_all add: agent_config_new_def)
  ultimately show ?thesis by blast
qed

definition demo_agent_vars :: "string \<Rightarrow> string option" where
  "demo_agent_vars = map_of [(''KUBINATE__CONTROL_PLANE_URL'', ''https://cp:8082''), (''KUBINATE__CLUSTER_ID'', ''70''),
     (''KUBINATE__CERT_PATH'', ''/c.pem''), (''KUBINATE__KEY_PATH'', ''/k.pem'')]"

definition demo_transport :: "(string, string) transport" where
  "demo_transport = \<lparr>tr_endpoint = Inr, tr_tls = (\<lambda>m ep. Inr (''tls+'' @ ep)), tr_connect = Inr\<rparr>"

definition demo_pem :: pem_lib where
  "demo_pem = \<lparr>pl_certs = (\<lambda>pem. if pem = [] then [] else [Inr pem]), pl_private_key = (\<lambda>pem. Inr (if pem = [] then None else Some pem))\<rparr>"

theorem partial_mtls_connects_plain_witness:
  "\<exists>config. agent_main demo_pem (\<lambda>_. Inl [''No such file'']) (Inr ()) demo_agent_vars = Inr config
     \<and> build_channel demo_transport config = Inr ''https://cp:8082''"
  using partial_mtls_connects_plain [of demo_agent_vars "''https://cp:8082''" "''70''" demo_transport "''https://cp:8082''" demo_pem "\<lambda>_. Inl [''No such file'']"]
  by (simp add: demo_agent_vars_def demo_transport_def with_context_def)

section \<open>What a session sends\<close>

text \<open>The ticker is stopped on a clean close. When the session fails it is left running,
  until its first tick after the receiver is gone.\<close>

definition session_inv :: "agent_config \<Rightarrow> agent_session \<Rightarrow> bool" where
  "session_inv config st \<longleftrightarrow>
     (\<forall>hb \<in> set (as_sent st). hb_cluster_id hb = ac_cluster_id config \<and> hb_agent_version hb = CARGO_PKG_VERSION \<and> hb_sent_at_ms hb \<le> i64_max)
     \<and> (as_reader st = Returned (Inr ()) \<longrightarrow> \<not> as_heartbeats st)"

lemma session_inv_step: "session_inv config st \<Longrightarrow> session_inv config (session_step config ev st)"
  by (auto simp: session_inv_def session_step_def heartbeat_tick_def make_heartbeat_def agent_clock_ms_def handle_command_def
      split: reader.splits session_event.splits sum.splits option.splits server_payload.splits)

lemma session_inv_run: "session_inv config st \<Longrightarrow> session_inv config (fold (session_step config) evs st)"
  by (induction evs arbitrary: st) (simp_all add: session_inv_step)

lemma session_sends_its_cluster:
  assumes "run_session config rpc evs = Inr st"
  shows "session_inv config st"
  using assms session_inv_run [of config fresh_session evs]
  by (auto simp: run_session_def andThen_Inr session_inv_def fresh_session_def)

lemma no_ticker_no_message: "\<not> as_heartbeats st \<Longrightarrow> as_sent (fold (session_step config) evs st) = as_sent st"
proof (induction evs arbitrary: st)
  case (Cons ev evs)
  then have "\<not> as_heartbeats (session_step config ev st)" "as_sent (session_step config ev st) = as_sent st"
    by (auto simp: session_step_def heartbeat_tick_def split: reader.splits session_event.splits sum.splits option.splits server_payload.splits)
  with Cons.IH show ?case by simp
qed simp

lemma no_receiver_no_message: "\<not> as_receiver st \<Longrightarrow> as_sent (fold (session_step config) evs st) = as_sent st"
proof (induction evs arbitrary: st)
  case (Cons ev evs)
  then have "\<not> as_receiver (session_step config ev st)" "as_sent (session_step config ev st) = as_sent st"
    by (auto simp: session_step_def heartbeat_tick_def split: reader.splits session_event.splits sum.splits option.splits server_payload.splits)
  with Cons.IH show ?case by simp
qed simp

lemma sent_grows: "\<exists>more. as_sent (fold (session_step config) evs st) = as_sent st @ more"
proof (induction evs arbitrary: st)
  case (Cons ev evs)
  have "\<exists>more. as_sent (session_step config ev st) = as_sent st @ more"
    by (auto simp: session_step_def heartbeat_tick_def split: reader.splits session_event.splits sum.splits option.splits server_payload.splits)
  then obtain more where "as_sent (session_step config ev st) = as_sent st @ more" ..
  moreover from Cons.IH obtain more' where
    "as_sent (fold (session_step config) evs (session_step config ev st)) = as_sent (session_step config ev st) @ more'" by blast
  ultimately show ?case by simp
qed simp

lemma first_tick_sends: "run_session config rpc (Ticked c # evs) = Inr ses \<Longrightarrow> as_sent ses \<noteq> []"
  using sent_grows [of config evs "session_step config (Ticked c) fresh_session"]
  by (auto simp: run_session_def andThen_Inr session_step_def heartbeat_tick_def fresh_session_def)

text \<open>A session ends in one of two orders: the ticker of a session the server closed sends
  nothing more; that of a failed one may go on, but only while something still reads the
  channel.\<close>

lemma ended_session_is_silent:
  assumes "run_session config rpc evs = Inr ses" and "as_reader ses = Returned (Inr ()) \<or> \<not> as_receiver ses"
  shows "as_sent (fold (session_step config) evs' ses) = as_sent ses"
  using assms(2) session_sends_its_cluster [OF assms(1)] no_ticker_no_message [of ses config evs'] no_receiver_no_message [of ses config evs']
  by (auto simp: session_inv_def)

section \<open>The agent against the control plane\<close>

definition up :: "heartbeat list \<Rightarrow> agent_message list" where
  "up hbs = map (\<lambda>hb. Inr (Some (PHeartbeat hb))) hbs"

lemma up_simps [simp]: "up [] = []" "up (hb # hbs) = Inr (Some (PHeartbeat hb)) # up hbs" "heartbeats (up hbs) = hbs"
  by (simp_all add: up_def heartbeats_def List.map_filter_def comp_def)

abbreviation live_row :: "uuid \<Rightarrow> 'z cluster_db_scheme \<Rightarrow> cluster_row option" where
  "live_row i s \<equiv> find (\<lambda>r. cl_id r = i \<and> cl_deleted_at r = None) (clusters s)"

lemma heartbeat_stamps:
  assumes "on_heartbeat env hb st s = (f, st', t)" and "reliable s"
    and "ag_parse_uuid env (hb_cluster_id hb) = Some i" and "live_row i s = Some r"
  shows "live_row i t = Some (r\<lparr>cl_agent_last_seen_at := Some (now s), cl_agent_version := hb_agent_version hb, cl_updated_at := now s,
                     cl_version := cl_version r + 1\<rparr>)"
    and "filter (\<lambda>r. cl_id r \<noteq> i) (clusters t) = filter (\<lambda>r. cl_id r \<noteq> i) (clusters s)"
    and "reliable t" and "pg_clock t = pg_clock s" and "pg_calls t = Suc (pg_calls s)" and "f = (if ag_receiver_open env (length (st_acks st)) then Continue else Break)"
proof -
  let ?p = "\<lambda>r. cl_id r = i \<and> cl_deleted_at r = None"
  let ?f = "\<lambda>r. r\<lparr>cl_agent_last_seen_at := Some (now s), cl_agent_version := hb_agent_version hb, cl_updated_at := now s,
                     cl_version := cl_version r + 1\<rparr>"
  have t: "t = snd (touch_agent_heartbeat i (hb_agent_version hb) s)"
    using assms(1,3) by (auto simp: on_heartbeat_def Let_def split: sum.splits option.splits prod.splits if_splits)
  have cl: "clusters t = sql_update ?p ?f (clusters s)" "reliable t" "pg_clock t = pg_clock s" "pg_calls t = Suc (pg_calls s)"
    using reliable_not_faulty [OF assms(2)] assms(2) unfolding t
    by (simp_all add: touch_agent_heartbeat_def update_clusters_def bindE_def tx_def db_faulty_def reliable_def Let_def ret_def fail_def split: option.split)
  have "live_row i t = map_option (\<lambda>r. if ?p r then ?f r else r) (live_row i s)" unfolding cl(1) by (rule find_sql_update) simp
  moreover have "?p r" using assms(4) by (auto simp: find_Some_iff)
  ultimately show "live_row i t = Some (?f r)" using assms(4) by simp
  show "filter (\<lambda>r. cl_id r \<noteq> i) (clusters t) = filter (\<lambda>r. cl_id r \<noteq> i) (clusters s)"
    unfolding cl(1) by (rule filter_sql_update_other) auto
  show "f = (if ag_receiver_open env (length (st_acks st)) then Continue else Break)"
    using assms(1) by (auto simp: on_heartbeat_def Let_def split: sum.splits option.splits prod.splits if_splits)
  show "reliable t" "pg_clock t = pg_clock s" "pg_calls t = Suc (pg_calls s)" by (rule cl(2-4))+
qed

lemma stream_of_heartbeats:
  assumes "stream_loop env (vm_metrics vm) (up hbs) st s = (st', t)" and "reliable s" and "\<forall>n. ag_receiver_open env n"
    and "\<forall>hb \<in> set hbs. hb_cluster_id hb = c \<and> hb_agent_version hb = v"
    and "ag_parse_uuid env c = Some i" and "live_row i s = Some r"
  shows "vm_log t = vm_log s \<and> filter (\<lambda>r. cl_id r \<noteq> i) (clusters t) = filter (\<lambda>r. cl_id r \<noteq> i) (clusters s)
    \<and> (hbs \<noteq> [] \<longrightarrow> (\<exists>r'. live_row i t = Some r' \<and> cl_org r' = cl_org r \<and> cl_agent_version r' = v
          \<and> cl_agent_last_seen_at r' = Some (pg_clock s (pg_calls s + length hbs - 1))))"
  using assms
proof (induction hbs arbitrary: st s r)
  case Nil
  then show ?case by simp
next
  case (Cons hb hbs)
  obtain f st1 u where run: "on_heartbeat env hb st s = (f, st1, u)" by (metis prod_cases3)
  have hb: "ag_parse_uuid env (hb_cluster_id hb) = Some i" "hb_agent_version hb = v" using Cons.prems(4,5) by simp_all
  note step = heartbeat_stamps [OF run Cons.prems(2) hb(1) Cons.prems(6)]
  have rest: "stream_loop env (vm_metrics vm) (up hbs) st1 u = (st', t)"
    using Cons.prems(1,3) run step(6) by (simp add: on_message_def)
  have later: "\<forall>hb \<in> set hbs. hb_cluster_id hb = c \<and> hb_agent_version hb = v" using Cons.prems(4) by simp
  note IH = Cons.IH [OF rest step(3) Cons.prems(3) later Cons.prems(5) step(1)]
  have log: "vm_log u = vm_log s" by (rule tunnel.heartbeat_step(1) [OF run])
  show ?case
  proof (cases "hbs = []")
    case True
    with rest have "t = u" by simp
    with step(1,2) log hb(2) show ?thesis by (simp add: True now_def)
  next
    case False
    then have "pg_calls s + length (hb # hbs) - 1 = pg_calls u + length hbs - 1" using step(5) by (cases hbs) simp_all
    then show ?thesis using IH step(2,4) log False by (simp del: One_nat_def)
  qed
qed

text \<open>(C25) A session of the agent, seen from the control plane: when the cluster the agent is
  configured for is live, the first tick is enough for the control plane to record the
  agent's version and the time of the last heartbeat on that cluster, and on no other;
  every heartbeat is acknowledged; and no metrics are written, because the agent sends
  none. This holds for every later course of the session, errors included.\<close>

theorem agent_session_is_recorded:
  assumes "run_session config rpc (Ticked now_ms # evs) = Inr ses" and "\<forall>n. ag_receiver_open env n" and "reliable s"
    and "ag_parse_uuid env (ac_cluster_id config) = Some i" and "live_row i s = Some r"
    and "open_stream env (vm_metrics vm) (up (as_sent ses)) s = ((acks, c, v), t)"
  shows "length acks = length (as_sent ses) \<and> c = ac_cluster_id config \<and> v = CARGO_PKG_VERSION
    \<and> (\<exists>r'. live_row i t = Some r' \<and> cl_org r' = cl_org r \<and> cl_agent_version r' = CARGO_PKG_VERSION
          \<and> cl_agent_last_seen_at r' = Some (pg_clock s (pg_calls s + length (as_sent ses) - 1)))
    \<and> filter (\<lambda>r. cl_id r \<noteq> i) (clusters t) = filter (\<lambda>r. cl_id r \<noteq> i) (clusters s) \<and> vm_log t = vm_log s"
proof -
  have sent: "\<forall>hb \<in> set (as_sent ses). hb_cluster_id hb = ac_cluster_id config \<and> hb_agent_version hb = CARGO_PKG_VERSION"
    using session_sends_its_cluster [OF assms(1)] by (auto simp: session_inv_def)
  have some: "as_sent ses \<noteq> []" by (rule first_tick_sends [OF assms(1)])
  have "list_all (\<lambda>m. \<not> isl m) (up (as_sent ses))" by (simp add: up_def list_all_iff)
  from heartbeats_are_acknowledged [OF assms(2) this, of "vm_metrics vm" s] assms(6) sent some
  have "length acks = length (as_sent ses) \<and> c = ac_cluster_id config \<and> v = CARGO_PKG_VERSION" by auto
  moreover obtain st where "stream_loop env (vm_metrics vm) (up (as_sent ses)) fresh_stream s = (st, t)"
    using assms(6) by (auto simp: open_stream_def split: prod.splits)
  ultimately show ?thesis using stream_of_heartbeats [OF _ assms(3,2) sent assms(4,5)] some by blast
qed

definition demo_agent_config :: agent_config where
  "demo_agent_config = agent_config_new ''https://cp:8082'' ''70'' None"

definition demo_events :: "session_event list" where
  "demo_events = [Ticked (Some 5), Arrived (Inr (Some (HeartbeatAck 6))), Ticked (Some 30005), Arrived (Inl ''reset''), Ticked (Some 60005), ReceiverDropped, Ticked (Some 90005)]"

theorem agent_session_is_recorded_witness:
  "let ses = projr (run_session demo_agent_config (Inr ()) demo_events);
       t = snd (open_stream demo_agent_env (vm_metrics demo_vm) (up (as_sent ses)) demo_tunnel)
   in session_result (Inr ses) = Some (SessionFailed [''inbound stream error'', ''reset'']) \<and> map hb_sent_at_ms (as_sent ses) = [5, 30005, 60005]
      \<and> map_option cl_agent_version (live_row 70 t) = Some ''0.1.0'' \<and> vm_log t = []"
proof -
  let ?ses = "projr (run_session demo_agent_config (Inr ()) demo_events)"
  let ?run = "open_stream demo_agent_env (vm_metrics demo_vm) (up (as_sent ?ses)) demo_tunnel"
  have ses: "run_session demo_agent_config (Inr ()) (Ticked (Some 5) # tl demo_events) = Inr ?ses"
    by (simp add: run_session_def andThen_def with_context_def demo_events_def)
  have env: "\<forall>n. ag_receiver_open demo_agent_env n" by (simp add: demo_agent_env_def)
  have rel: "reliable demo_tunnel" 
    by (simp add: reliable_def demo_tunnel_def demo_obs_def demo_api_def demo_world_def demo_addons_def demo_clusters_def demo_db_def
        identity_db.defs api.defs obs.defs addon_db.defs cluster_db.defs world.defs)
  have parse: "ag_parse_uuid demo_agent_env (ac_cluster_id demo_agent_config) = Some 70" by code_simp
  have row: "live_row 70 demo_tunnel = Some (demo_cluster_row 70 ''a'' None)" by code_simp
  obtain acks c v t where out: "?run = ((acks, c, v), t)" by (metis prod_cases3 surj_pair)
  have "map hb_sent_at_ms (as_sent ?ses) = [5, 30005, 60005]"
    "session_result (Inr ?ses) = Some (SessionFailed [''inbound stream error'', ''reset''])" by code_simp+
  moreover have "vm_log demo_tunnel = []" by code_simp
  ultimately show ?thesis
    using agent_session_is_recorded [OF ses env rel parse row out] out
    by (auto simp: Let_def CARGO_PKG_VERSION_def)
qed
end
