(* ===== verification/Startup.thy ===== *)
theory Startup
  imports Api_Login Billing Agent_Tunnel Vault_Http
begin

text \<open>
  The start of the API process (\<open>api/src/main.rs\<close>, \<open>platform/src/config.rs\<close>, \<open>db.rs\<close>, \<open>metrics.rs\<close>): from
  the environment to the state the handlers share, in the order of \<open>main\<close>, with every
  early return, and the table of routes. What the process asks of the outside while it
  starts (connections, migrations, the listening socket) is a list of events; the answer
  to an event may depend on all events before it.
\<close>

section \<open>Configuration\<close>

record app_config =
  cfg_listen_addr :: string
  cfg_database_url :: string
  cfg_redis_url :: string
  cfg_otlp_endpoint :: "string option"
  cfg_environment :: string

text \<open>A source of the configuration crate: a file, optional here, or prefixed variables. The
  crate merges them in order, later ones first, and deserialises.\<close>

datatype config_source = ConfigFile string | ConfigVars string string

definition app_config_load :: "(string \<Rightarrow> string option) \<Rightarrow> (config_source list \<Rightarrow> string + app_config) \<Rightarrow> string + app_config" where
  "app_config_load var build =
     (let env = opt_or (var ''KUBINATE__ENV'') ''dev''
      in build [ConfigFile ''config/default'', ConfigFile (''config/'' @ env), ConfigVars ''KUBINATE'' ''__''])"

section \<open>The environment of the process\<close>

datatype 'addr boot_event = OpenPool string nat | Migrate string | ClosePool string | BindListener 'addr

text \<open>An \<open>anyhow\<close> error: a message, an error of the secret store, or a context around one.\<close>

datatype boot_error = BootMsg string | BootSecret secret_error | BootCtx string boot_error

record ('u, 'addr) boot_env =
  bo_var :: "string \<Rightarrow> string option"
  bo_telemetry :: "string + unit"
  bo_metrics :: "string + unit"
  bo_config :: "config_source list \<Rightarrow> string + app_config"
  bo_perform :: "'addr boot_event list \<Rightarrow> 'addr boot_event \<Rightarrow> string + unit"
  bo_b64 :: "string \<Rightarrow> string + nat list"
  bo_url :: url_lib
  bo_origin :: "string \<Rightarrow> string + 'u"
  bo_ceremonies :: "'u webauthn_config \<Rightarrow> string + unit"
  bo_url_error :: "string \<Rightarrow> string option"
  bo_uuid_text :: "uuid \<Rightarrow> string"
  bo_round_ms :: "string \<Rightarrow> int"
  bo_parse_f64 :: "string \<Rightarrow> string + string"
  bo_addr :: "string \<Rightarrow> string + 'addr"
  bo_addr_text :: "'addr \<Rightarrow> string"
  bo_user_data :: string

text \<open>The process-wide handle of the metrics exporter (\<open>platform/src/metrics.rs\<close>): it is
  installed once, and rendered as text, empty before it is installed.\<close>

definition metrics_init :: "'h option \<Rightarrow> string + 'h \<Rightarrow> (string + unit) \<times> 'h option" where
  "metrics_init handle install =
     (case handle of
        Some h \<Rightarrow> (Inr (), Some h)
      | None \<Rightarrow>
          (case install of
             Inl e \<Rightarrow> (Inl (''install prometheus recorder: '' @ e), None)
           | Inr h \<Rightarrow> (Inr (), Some h)))"

definition metrics_render :: "('h \<Rightarrow> string) \<Rightarrow> 'h option \<Rightarrow> string" where
  "metrics_render render handle = (case handle of Some h \<Rightarrow> render h | None \<Rightarrow> [])"

definition metrics_endpoint :: "('h \<Rightarrow> string) \<Rightarrow> 'h option \<Rightarrow> (string \<times> string) list \<times> string" where
  "metrics_endpoint render handle = ([(''content-type'', ''text/plain; version=0.0.4'')], metrics_render render handle)"

lemma metrics_init_once:
  assumes "metrics_init handle (Inr h) = (r, handle')"
  shows "metrics_init handle' install = (Inr (), handle') \<and> metrics_render render handle' = render (opt_or handle h)"
  using assms by (auto simp: metrics_init_def metrics_render_def opt_or_def split: option.splits)

type_synonym ('addr, 'a) boot = "('addr boot_event list, boot_error, 'a) op"

definition perform :: "('u, 'addr) boot_env \<Rightarrow> 'addr boot_event \<Rightarrow> ('addr, unit) boot" where
  "perform env ev tr = (map_sum BootMsg id (bo_perform env tr ev), tr @ [ev])"

definition in_context :: "string \<Rightarrow> ('addr, 'a) boot \<Rightarrow> ('addr, 'a) boot" where
  "in_context msg = map_err (BootCtx msg)"

text \<open>\<open>db::pool\<close> and \<open>db::migrate\<close>, named by the URL.\<close>

definition pool :: "('u, 'addr) boot_env \<Rightarrow> string \<Rightarrow> nat \<Rightarrow> ('addr, unit) boot" where
  "pool env dsn max_connections = perform env (OpenPool dsn max_connections)"

definition migrate :: "('u, 'addr) boot_env \<Rightarrow> string \<Rightarrow> ('addr, unit) boot" where
  "migrate env dsn = perform env (Migrate dsn)"

definition require_env :: "('u, 'addr) boot_env \<Rightarrow> string \<Rightarrow> ('addr, string) boot" where
  "require_env env name =
     (case bo_var env name of
        Some v \<Rightarrow> ret v
      | None \<Rightarrow> fail (BootCtx (''missing required env var '' @ name) (BootMsg ''environment variable not found'')))"

section \<open>The choice of backends\<close>

datatype secret_backend = PgcryptoBackend string | VaultBackend http_vault string

definition quoted :: "string \<Rightarrow> string" where
  "quoted s = [CHR 0x27] @ s @ [CHR 0x27]"

definition choose_secret_store :: "('u, 'addr) boot_env \<Rightarrow> boot_error + secret_backend" where
  "choose_secret_store env =
     (let backend = opt_or (bo_var env ''KUBINATE__SECRETS_BACKEND'') ''pgcrypto'' in
      if backend = ''pgcrypto'' then
        map_sum (\<lambda>e. BootCtx ''secret store init (pgcrypto)'' (BootSecret e)) PgcryptoBackend
          (pgcrypto_from_env (bo_b64 env) (bo_var env ''KUBINATE__KEK''))
      else if backend = ''vault'' then
        map_sum (\<lambda>e. BootCtx (''secret store init (vault)'' @ em_dash @ ''KUBINATE__VAULT_ADDR + KUBINATE__VAULT_TOKEN required'') (BootSecret e))
          (\<lambda>hv. VaultBackend hv (opt_or (bo_var env ''KUBINATE__VAULT_KEY_PREFIX'') ''kubinate''))
          (http_vault_from_env (bo_url env) (bo_var env))
      else Inl (BootMsg (''KUBINATE__SECRETS_BACKEND must be '' @ quoted ''pgcrypto'' @ '' or '' @ quoted ''vault'' @ ''; got '' @ quoted backend)))"

datatype metrics_backend = MemoryMetrics | VictoriaMetrics vm_store

definition choose_metrics_store :: "('u, 'addr) boot_env \<Rightarrow> boot_error + metrics_backend" where
  "choose_metrics_store env =
     (let backend = opt_or (bo_var env ''KUBINATE__METRICS_BACKEND'') ''memory'' in
      if backend = ''memory'' then Inr MemoryMetrics
      else if backend = ''victoria_metrics'' then
        (case bo_var env ''KUBINATE__VICTORIA_METRICS_URL'' of
           None \<Rightarrow> Inl (BootCtx ''KUBINATE__VICTORIA_METRICS_URL required when KUBINATE__METRICS_BACKEND=victoria_metrics''
                          (BootMsg ''environment variable not found''))
         | Some u \<Rightarrow> map_sum (\<lambda>e. BootCtx ''victoria metrics store init'' (BootMsg e)) VictoriaMetrics
             (vm_new (bo_url_error env) (bo_uuid_text env) (bo_round_ms env) (bo_parse_f64 env) u))
      else Inl (BootMsg (''KUBINATE__METRICS_BACKEND must be '' @ quoted ''memory'' @ '' or '' @ quoted ''victoria_metrics'' @ ''; got '' @ quoted backend)))"

definition choose_ceremonies :: "('u, 'addr) boot_env \<Rightarrow> 'u webauthn_config option" where
  "choose_ceremonies env =
     (case webauthn_config_from_env_optional (bo_origin env) (bo_var env) of
        Inr (Some cfg) \<Rightarrow> (case bo_ceremonies env cfg of Inr _ \<Rightarrow> Some cfg | Inl e \<Rightarrow> None)
      | Inr None \<Rightarrow> None
      | Inl e \<Rightarrow> None)"

definition cluster_settings_from_env :: "('u, 'addr) boot_env \<Rightarrow> cluster_settings" where
  "cluster_settings_from_env env =
     \<lparr>cset_ssh_key = opt_or (bo_var env ''KUBINATE__HETZNER_SSH_KEY'') ''kubinate-operator'',
      cset_user_data = bo_user_data env,
      cset_k3s_version = opt_or (bo_var env ''KUBINATE__K3S_VERSION'') ''v1.30.2+k3s1''\<rparr>"

section \<open>The start\<close>

text \<open>What \<open>main\<close> puts into the state the handlers share.\<close>

record 'u app_parts =
  bt_secret_store :: secret_backend
  bt_metrics_store :: metrics_backend
  bt_ceremonies :: "'u webauthn_config option"
  bt_settings :: cluster_settings
  bt_ssh_identity :: "string option"
  bt_github :: http_github
  bt_redirect_uri :: string
  bt_billing :: billing_service
  bt_webhook_secret :: string

text \<open>The migrations run on a pool of their own, closed before the runtime pool is opened.\<close>

definition run_migrations :: "('u, 'addr) boot_env \<Rightarrow> app_config \<Rightarrow> ('addr, unit) boot" where
  "run_migrations env config =
     (let migration_url = opt_or (bo_var env ''KUBINATE__DATABASE_MIGRATION_URL'') (cfg_database_url config) in
      bindE (in_context ''migration pool'' (pool env migration_url 4)) (\<lambda>_.
      bindE (in_context ''migrations'' (migrate env migration_url)) (\<lambda>_.
      liftS (\<lambda>tr. tr @ [ClosePool migration_url]))))"

definition boot_parts :: "('u, 'addr) boot_env \<Rightarrow> ('addr, 'u app_parts) boot" where
  "boot_parts env =
     bindE (of_sum id (choose_secret_store env)) (\<lambda>secret_store.
     bindE (of_sum id (choose_metrics_store env)) (\<lambda>metrics_store.
     bindE (require_env env ''KUBINATE__GITHUB_CLIENT_ID'') (\<lambda>client_id.
     bindE (require_env env ''KUBINATE__GITHUB_REDIRECT_URI'') (\<lambda>redirect_uri.
     bindE (require_env env ''KUBINATE__GITHUB_CLIENT_SECRET'') (\<lambda>client_secret.
     bindE (require_env env ''KUBINATE__STRIPE_SECRET_KEY'') (\<lambda>stripe_secret.
     bindE (require_env env ''KUBINATE__STRIPE_WEBHOOK_SECRET'') (\<lambda>webhook_secret.
     ret
       \<lparr>bt_secret_store = secret_store, bt_metrics_store = metrics_store, bt_ceremonies = choose_ceremonies env,
        bt_settings = cluster_settings_from_env env, bt_ssh_identity = bo_var env ''KUBINATE__SSH_KEY_PATH'',
        bt_github = \<lparr>hg_client_id = client_id, hg_client_secret = client_secret\<rparr>, bt_redirect_uri = redirect_uri,
        bt_billing = \<lparr>bs_stripe = http_stripe_new stripe_secret,
          bs_success_url = opt_or (bo_var env ''KUBINATE__BILLING_SUCCESS_URL'') ''https://app.kubinate.com/app/settings/billing?status=success'',
          bs_cancel_url = opt_or (bo_var env ''KUBINATE__BILLING_CANCEL_URL'') ''https://app.kubinate.com/app/settings/billing?status=cancelled''\<rparr>,
        bt_webhook_secret = webhook_secret\<rparr>)))))))"

definition boot_listen :: "('u, 'addr) boot_env \<Rightarrow> app_config \<Rightarrow> ('addr, 'addr) boot" where
  "boot_listen env config =
     bindE (in_context ''listen addr parse'' (of_sum BootMsg (bo_addr env (cfg_listen_addr config)))) (\<lambda>addr.
     bindE (in_context (''bind '' @ bo_addr_text env addr) (perform env (BindListener addr))) (\<lambda>_. ret addr))"

text \<open>The value of a start is the shared state with the address that is served and the one
  of the agent listener, when it is spawned.\<close>

definition boot :: "('u, 'addr) boot_env \<Rightarrow> ('addr, 'u app_parts \<times> 'addr \<times> 'addr option) boot" where
  "boot env =
     bindE (in_context ''telemetry init'' (of_sum BootMsg (bo_telemetry env))) (\<lambda>_.
     bindE (in_context ''metrics init'' (of_sum BootMsg (fst (metrics_init (None :: unit option) (bo_metrics env))))) (\<lambda>_.
     bindE (in_context ''config load'' (of_sum BootMsg (app_config_load (bo_var env) (bo_config env)))) (\<lambda>config.
     bindE (run_migrations env config) (\<lambda>_.
     bindE (in_context ''database pool'' (pool env (cfg_database_url config) 20)) (\<lambda>_.
     bindE (boot_parts env) (\<lambda>parts.
     bindE (boot_listen env config) (\<lambda>addr.
     ret (parts, addr, spawn_if_enabled (bo_addr env) (bo_var env)))))))))"

section \<open>The order of the start\<close>

text \<open>The events of a list succeed, asked in this order after \<open>tr\<close>; closing a pool cannot fail.\<close>

fun succeeded :: "('u, 'addr) boot_env \<Rightarrow> 'addr boot_event list \<Rightarrow> 'addr boot_event list \<Rightarrow> bool" where
  "succeeded env tr [] \<longleftrightarrow> True"
| "succeeded env tr (ev # evs) \<longleftrightarrow>
     (case ev of ClosePool _ \<Rightarrow> True | _ \<Rightarrow> bo_perform env tr ev = Inr ()) \<and> succeeded env (tr @ [ev]) evs"

lemma succeeded_append: "succeeded env tr (xs @ ys) \<longleftrightarrow> succeeded env tr xs \<and> succeeded env (tr @ xs) ys"
  by (induction xs arbitrary: tr) auto

text \<open>An operation follows a plan when it performs an initial part of it, of which at most
  the last event fails, and all of it when it returns a value.\<close>

definition follows_at :: "('u, 'addr) boot_env \<Rightarrow> 'addr boot_event list \<Rightarrow> ('addr, 'a) boot \<Rightarrow> 'addr boot_event list \<Rightarrow> bool" where
  "follows_at env plan m tr \<longleftrightarrow>
     (\<exists>good bad rest. plan = good @ bad @ rest \<and> snd (m tr) = tr @ good @ bad \<and> succeeded env tr good \<and> length bad \<le> 1
        \<and> (\<forall>a. fst (m tr) = Inr a \<longrightarrow> bad = [] \<and> rest = []))"

definition follows :: "('u, 'addr) boot_env \<Rightarrow> 'addr boot_event list \<Rightarrow> ('addr, 'a) boot \<Rightarrow> bool" where
  "follows env plan m \<longleftrightarrow> (\<forall>tr. follows_at env plan m tr)"

lemma follows_atI:
  "plan = good @ bad @ rest \<Longrightarrow> snd (m tr) = tr @ good @ bad \<Longrightarrow> succeeded env tr good \<Longrightarrow> length bad \<le> 1
   \<Longrightarrow> (\<And>a. fst (m tr) = Inr a \<Longrightarrow> bad = [] \<and> rest = []) \<Longrightarrow> follows_at env plan m tr"
  unfolding follows_at_def by blast

named_theorems follows_intros

lemma follows_quiet: "(\<And>tr. snd (m tr) = tr) \<Longrightarrow> follows env [] m"
  by (simp add: follows_def follows_at_def)

lemma follows_ret [follows_intros]: "follows env [] (ret a)"
  by (rule follows_quiet) (simp add: ret_def)

lemma follows_of_sum [follows_intros]: "follows env [] (of_sum g r)"
  by (rule follows_quiet) (simp add: of_sum_def ret_def fail_def split: sum.split)

lemma follows_require [follows_intros]: "follows env [] (require_env env name)"
  by (rule follows_quiet) (simp add: require_env_def ret_def fail_def split: option.split)

lemma follows_perform [follows_intros]: "\<forall>d. ev \<noteq> ClosePool d \<Longrightarrow> follows env [ev] (perform env ev)"
  unfolding follows_def
proof
  fix tr
  assume ev: "\<forall>d. ev \<noteq> ClosePool d"
  show "follows_at env [ev] (perform env ev) tr"
  proof (cases "bo_perform env tr ev")
    case (Inl e)
    then show ?thesis by (intro follows_atI [of _ "[]" "[ev]" "[]"]) (simp_all add: perform_def)
  next
    case (Inr u)
    with ev show ?thesis by (intro follows_atI [of _ "[ev]" "[]" "[]"]) (auto simp: perform_def split: boot_event.splits)
  qed
qed

lemma in_context_run:
  "snd (in_context msg m tr) = snd (m tr)" "fst (in_context msg m tr) = Inr a \<longleftrightarrow> fst (m tr) = Inr a"
  by (cases "m tr"; cases "fst (m tr)"; simp add: in_context_def map_err_def)+

lemma follows_in_context [follows_intros]: "follows env plan m \<Longrightarrow> follows env plan (in_context msg m)"
  by (simp add: follows_def follows_at_def in_context_run)

lemma follows_close [follows_intros]: "follows env [ClosePool d] (liftS (\<lambda>tr. tr @ [ClosePool d]))"
  unfolding follows_def by (intro allI follows_atI [of _ "[ClosePool d]" "[]" "[]"]) (simp_all add: liftS_def)

lemma follows_bind:
  assumes "follows env p m" and "\<And>tr a. fst (m tr) = Inr a \<Longrightarrow> follows env q (f a)"
  shows "follows env (p @ q) (bindE m f)"
  unfolding follows_def
proof
  fix tr
  obtain good bad rest where m: "p = good @ bad @ rest" "snd (m tr) = tr @ good @ bad" "succeeded env tr good" "length bad \<le> 1"
      "\<forall>a. fst (m tr) = Inr a \<longrightarrow> bad = [] \<and> rest = []"
    using assms(1) unfolding follows_def follows_at_def by blast
  show "follows_at env (p @ q) (bindE m f) tr"
  proof (cases "fst (m tr)")
    case (Inl e)
    then have "bindE m f tr = (Inl e, tr @ good @ bad)" using m(2) by (cases "m tr") (simp add: bindE_def)
    with m show ?thesis by (intro follows_atI [of _ good bad "rest @ q"]) simp_all
  next
    case (Inr a)
    with m have p: "p = good" by simp
    with Inr m have run: "bindE m f tr = f a (tr @ p)" by (cases "m tr") (simp add: bindE_def)
    obtain good' bad' rest' where q: "q = good' @ bad' @ rest'" "snd (f a (tr @ p)) = (tr @ p) @ good' @ bad'"
        "succeeded env (tr @ p) good'" "length bad' \<le> 1" "\<forall>b. fst (f a (tr @ p)) = Inr b \<longrightarrow> bad' = [] \<and> rest' = []"
      using assms(2) [OF Inr] unfolding follows_def follows_at_def by blast
    show ?thesis
      by (rule follows_atI [of _ "p @ good'" bad' rest']) (use q m(3) p run in \<open>simp_all add: succeeded_append\<close>)
  qed
qed

lemma follows_quiet_bind:
  "follows env [] m \<Longrightarrow> (\<And>tr a. fst (m tr) = Inr a \<Longrightarrow> follows env q (f a)) \<Longrightarrow> follows env q (bindE m f)"
  using follows_bind [of env "[]" m q f] by simp

lemma of_sum_run: "fst (of_sum g r tr) = Inr a \<longleftrightarrow> r = Inr a"
  by (simp add: of_sum_def ret_def fail_def split: sum.split)

lemma follows_migrations:
  "follows env (let m = opt_or (bo_var env ''KUBINATE__DATABASE_MIGRATION_URL'') (cfg_database_url config) in [OpenPool m 4, Migrate m, ClosePool m])
     (run_migrations env config)"
  unfolding run_migrations_def Let_def pool_def migrate_def
  by (rule follows_bind [of _ "[x]" _ "[y, z]" for x y z, unfolded append_Cons append_Nil], intro follows_intros, simp)
    (rule follows_bind [of _ "[y]" _ "[z]" for y z, unfolded append_Cons append_Nil], intro follows_intros, simp, intro follows_intros)

lemma follows_parts: "follows env [] (boot_parts env)"
  unfolding boot_parts_def by (intro follows_quiet_bind follows_intros)

lemma follows_listen:
  "follows env (case bo_addr env (cfg_listen_addr config) of Inl e \<Rightarrow> [] | Inr addr \<Rightarrow> [BindListener addr]) (boot_listen env config)"
  unfolding boot_listen_def
proof (rule follows_quiet_bind)
  fix tr a
  assume "fst (in_context ''listen addr parse'' (of_sum BootMsg (bo_addr env (cfg_listen_addr config))) tr) = Inr a"
  then have "bo_addr env (cfg_listen_addr config) = Inr a" by (simp add: in_context_run of_sum_run)
  moreover have "follows env ([BindListener a] @ []) (bindE (in_context (''bind '' @ bo_addr_text env a) (perform env (BindListener a))) (\<lambda>_. ret a))"
    by (intro follows_bind follows_intros) simp
  ultimately show "follows env (case bo_addr env (cfg_listen_addr config) of Inl e \<Rightarrow> [] | Inr addr \<Rightarrow> [BindListener addr])
      (bindE (in_context (''bind '' @ bo_addr_text env a) (perform env (BindListener a))) (\<lambda>_. ret a))" by simp
qed (intro follows_intros)

text \<open>What a start asks for, in order: the migrations on their own pool, then the pool the
  handlers use, then the socket.\<close>

definition boot_plan :: "('u, 'addr) boot_env \<Rightarrow> 'addr boot_event list" where
  "boot_plan env =
     (case app_config_load (bo_var env) (bo_config env) of
        Inl e \<Rightarrow> []
      | Inr config \<Rightarrow>
          (let m = opt_or (bo_var env ''KUBINATE__DATABASE_MIGRATION_URL'') (cfg_database_url config) in [OpenPool m 4, Migrate m, ClosePool m])
          @ [OpenPool (cfg_database_url config) 20]
          @ (case bo_addr env (cfg_listen_addr config) of Inl e \<Rightarrow> [] | Inr addr \<Rightarrow> [BindListener addr]))"

lemma boot_follows: "follows env (boot_plan env) (boot env)"
  unfolding boot_def
proof (rule follows_quiet_bind, intro follows_intros, rule follows_quiet_bind, intro follows_intros, rule follows_quiet_bind, intro follows_intros)
  fix tr config
  assume "fst (in_context ''config load'' (of_sum BootMsg (app_config_load (bo_var env) (bo_config env))) tr) = Inr config"
  then have plan: "boot_plan env =
          (let m = opt_or (bo_var env ''KUBINATE__DATABASE_MIGRATION_URL'') (cfg_database_url config) in [OpenPool m 4, Migrate m, ClosePool m])
          @ [OpenPool (cfg_database_url config) 20]
          @ [] @ (case bo_addr env (cfg_listen_addr config) of Inl e \<Rightarrow> [] | Inr addr \<Rightarrow> [BindListener addr]) @ []"
    by (simp add: in_context_run of_sum_run boot_plan_def)
  show "follows env (boot_plan env) (bindE (run_migrations env config) (\<lambda>_.
     bindE (in_context ''database pool'' (pool env (cfg_database_url config) 20)) (\<lambda>_.
     bindE (boot_parts env) (\<lambda>parts.
     bindE (boot_listen env config) (\<lambda>addr.
     ret (parts, addr, spawn_if_enabled (bo_addr env) (bo_var env)))))))"
    unfolding plan pool_def by (intro follows_bind follows_migrations follows_parts follows_listen follows_intros) simp
qed

text \<open>(C26) The order of a start holds whatever fails on the way: the events are an initial part of
  the plan and at most the last of them failed, so the handlers' pool is opened only after
  the migrations ran and their pool was closed, and the socket is bound last. When the
  server starts, all of the plan has been carried out.\<close>

theorem boot_keeps_its_order:
  "\<exists>done bad rest. boot_plan env = done @ bad @ rest \<and> snd (boot env []) = done @ bad \<and> succeeded env [] done \<and> length bad \<le> 1
     \<and> (\<forall>app. fst (boot env []) = Inr app \<longrightarrow> succeeded env [] (boot_plan env) \<and> snd (boot env []) = boot_plan env)"
proof -
  obtain good bad rest where "boot_plan env = good @ bad @ rest" "snd (boot env []) = good @ bad" "succeeded env [] good" "length bad \<le> 1"
    "\<forall>a. fst (boot env []) = Inr a \<longrightarrow> bad = [] \<and> rest = []"
    using boot_follows [of env] unfolding follows_def follows_at_def by (metis append_Nil)
  then show ?thesis by (intro exI conjI) auto
qed

definition demo_boot :: "(string, string) boot_env" where
  "demo_boot =
     \<lparr>bo_var = map_of [(''KUBINATE__DATABASE_MIGRATION_URL'', ''pg://owner''), (''KUBINATE__KEK'', ''k''), (''KUBINATE__GITHUB_CLIENT_ID'', ''id''),
        (''KUBINATE__GITHUB_REDIRECT_URI'', ''https://cb''), (''KUBINATE__GITHUB_CLIENT_SECRET'', ''gs''), (''KUBINATE__STRIPE_SECRET_KEY'', ''sk''),
        (''KUBINATE__STRIPE_WEBHOOK_SECRET'', ''whsec'')],
      bo_telemetry = Inr (), bo_metrics = Inr (),
      bo_config = (\<lambda>_. Inr \<lparr>cfg_listen_addr = ''0.0.0.0:8080'', cfg_database_url = ''pg://app'', cfg_redis_url = [], cfg_otlp_endpoint = None,
        cfg_environment = ''dev''\<rparr>),
      bo_perform = (\<lambda>_ _. Inr ()), bo_b64 = (\<lambda>_. Inr (replicate 32 0)), bo_url = demo_url, bo_origin = Inr, bo_ceremonies = (\<lambda>_. Inr ()),
      bo_url_error = (\<lambda>_. None), bo_uuid_text = show_nat, bo_round_ms = (\<lambda>_. 0), bo_parse_f64 = Inr, bo_addr = Inr, bo_addr_text = id,
      bo_user_data = []\<rparr>"

theorem boot_keeps_its_order_witness:
  "(\<exists>app. fst (boot demo_boot []) = Inr app)
   \<and> snd (boot demo_boot []) = [OpenPool ''pg://owner'' 4, Migrate ''pg://owner'', ClosePool ''pg://owner'', OpenPool ''pg://app'' 20, BindListener ''0.0.0.0:8080'']
   \<and> (let broken = demo_boot\<lparr>bo_perform := (\<lambda>_ ev. case ev of Migrate _ \<Rightarrow> Inl ''syntax error'' | _ \<Rightarrow> Inr ())\<rparr>
      in boot broken [] = (Inl (BootCtx ''migrations'' (BootMsg ''syntax error'')), [OpenPool ''pg://owner'' 4, Migrate ''pg://owner'']))"
proof -
  have "case fst (boot demo_boot []) of Inr _ \<Rightarrow> True | Inl _ \<Rightarrow> False" by code_simp
  then obtain app where app: "fst (boot demo_boot []) = Inr app" by (auto split: sum.splits)
  moreover have "boot_plan demo_boot = [OpenPool ''pg://owner'' 4, Migrate ''pg://owner'', ClosePool ''pg://owner'', OpenPool ''pg://app'' 20,
      BindListener ''0.0.0.0:8080'']" by code_simp
  moreover have "boot (demo_boot\<lparr>bo_perform := (\<lambda>_ ev. case ev of Migrate _ \<Rightarrow> Inl ''syntax error'' | _ \<Rightarrow> Inr ())\<rparr>) []
      = (Inl (BootCtx ''migrations'' (BootMsg ''syntax error'')), [OpenPool ''pg://owner'' 4, Migrate ''pg://owner''])"
    by (simp add: boot_def bindE_def in_context_def map_err_def of_sum_def ret_def demo_boot_def app_config_load_def run_migrations_def
        pool_def migrate_def perform_def Let_def opt_or_def metrics_init_def)
  moreover have "snd (boot demo_boot []) = boot_plan demo_boot" using boot_keeps_its_order [of demo_boot] app by blast
  ultimately show ?thesis unfolding Let_def by (metis (no_types, lifting))
qed

section \<open>What a started server relies on\<close>

text \<open>The stores behind the two backends.\<close>

definition secret_store_of ::
    "('z vault_http_scheme \<Rightarrow> uuid list) \<Rightarrow> url_lib \<Rightarrow> wire_lib \<Rightarrow> secret_backend \<Rightarrow> 'z vault_http_scheme secret_ops" where
  "secret_store_of refs url wl b =
     (case b of
        PgcryptoBackend kek \<Rightarrow> pgcrypto_store refs kek
      | VaultBackend hv prefix \<Rightarrow> vault_store refs (http_transit url wl hv) prefix)"

lemma boot_parts_secrets:
  assumes "boot env [] = (Inr (parts, addr, agent), tr)"
  shows "choose_secret_store env = Inr (bt_secret_store parts)"
    and "choose_metrics_store env = Inr (bt_metrics_store parts)"
    and "bo_var env ''KUBINATE__STRIPE_WEBHOOK_SECRET'' = Some (bt_webhook_secret parts)"
    and "bo_var env ''KUBINATE__GITHUB_CLIENT_SECRET'' = Some (hg_client_secret (bt_github parts))"
    and "bo_var env ''KUBINATE__STRIPE_SECRET_KEY'' = Some (hst_secret_key (bs_stripe (bt_billing parts)))"
proof -
  obtain t1 t2 where "boot_parts env t1 = (Inr parts, t2)"
    using assms by (auto simp: boot_def bindE_eq_Inr ret_def)
  then show "choose_secret_store env = Inr (bt_secret_store parts)" "choose_metrics_store env = Inr (bt_metrics_store parts)"
    "bo_var env ''KUBINATE__STRIPE_WEBHOOK_SECRET'' = Some (bt_webhook_secret parts)"
    "bo_var env ''KUBINATE__GITHUB_CLIENT_SECRET'' = Some (hg_client_secret (bt_github parts))"
    "bo_var env ''KUBINATE__STRIPE_SECRET_KEY'' = Some (hst_secret_key (bs_stripe (bt_billing parts)))"
    by (auto simp: boot_parts_def bindE_eq_Inr of_sum_eq_Inr ret_def require_env_def fail_def http_stripe_new_def split: option.splits)
qed

lemma map_sum_Inr: "map_sum f g r = Inr b \<longleftrightarrow> (\<exists>a. r = Inr a \<and> b = g a)"
  by (cases r) auto

lemma pgcrypto_put_faults: "pgcrypto_put kek org p s = (Inr h, t) \<Longrightarrow> pg_fault t = pg_fault s"
  by (auto simp: pgcrypto_put_def insert_secret_def bindE_def new_id_def tx_def ret_def fail_def Let_def split: prod.splits sum.splits if_splits)


definition demo_boot_vault :: "(string, string) boot_env" where
  "demo_boot_vault = demo_boot\<lparr>bo_var := (bo_var demo_boot)(''KUBINATE__SECRETS_BACKEND'' \<mapsto> ''vault'', ''KUBINATE__VAULT_ADDR'' \<mapsto> ''https://vault'',
     ''KUBINATE__VAULT_TOKEN'' \<mapsto> ''tok'')\<rparr>"


text \<open>Switching the backend of a populated database is refused per secret: a Vault server
  started later answers a handle of the \<open>pgcrypto\<close> one with \<open>Decrypt\<close>, without asking
  Vault.\<close>

lemma backend_switch_is_loud:
  assumes "ss_put (secret_store_of refs url wl (PgcryptoBackend kek)) org p s = (Inr h, t)" and "secret_inv s" and "reliable s"
  shows "ss_get (secret_store_of refs url wl (VaultBackend hv pre)) h t = (Inl SecDecrypt, tick t)"
proof -
  have put: "pgcrypto_put kek org p s = (Inr h, t)" using assms(1) by (simp add: secret_store_of_def pgcrypto_store_def)
  then obtain row where row: "secrets t = secrets s @ [row]" "sec_id row = sr_id h" "sec_org row = org" "sec_algorithm row = ''pgp_sym_v1''" "sr_org h = org"
      "sr_id h = pg_uuid s (pg_uuid_ctr s)" "pg_bypass t = pg_bypass s" "pg_fault t = pg_fault s"
    by (auto simp: pgcrypto_put_def insert_secret_def bindE_def new_id_def tx_def ret_def fail_def Let_def split: prod.splits sum.splits if_splits)
  have "sr_id h \<notin> sec_id ` set (secrets s)" using fresh_secret_id [OF assms(2)] row(6) by simp
  then have "find (secret_visible t h) (secrets s) = None" by (auto simp: find_None_iff secret_visible_def image_iff)
  then have "find (secret_visible t h) (secrets t) = Some row"
    using row(1,2,3,5) by (simp add: find_append secret_visible_def rls_def app_current_tenant_id_def)
  then show ?thesis
    using assms(3) row(4,8) by (simp add: secret_store_of_def vault_store_def vault_get_def bindE_def tx_def reliable_def fail_def VAULT_ALGORITHM_TAG_def)
qed

section \<open>The routes\<close>

text \<open>A router is its list of paths, each with its method handlers; a segment of a path in
  braces is a parameter. Nesting puts a prefix in front, and the inner root is the prefix
  itself.\<close>

datatype route_method = Get | Post | Patch | Delete

type_synonym router = "(string \<times> (route_method \<times> string) list) list"

definition nest :: "string \<Rightarrow> router \<Rightarrow> router" where
  "nest prefix rs = map (\<lambda>(path, hs). (if path = ''/'' then prefix else prefix @ path, hs)) rs"

definition auth_routes :: router where
  "auth_routes = [(''/github/start'', [(Get, ''start'')]), (''/github/callback'', [(Get, ''callback'')]), (''/logout'', [(Post, ''logout'')])]"

definition auth_passkey_routes :: router where
  "auth_passkey_routes =
     [(''/register/start'', [(Post, ''register_start'')]), (''/register/finish'', [(Post, ''register_finish'')]),
      (''/assert/start'', [(Post, ''assert_start'')]), (''/assert/finish'', [(Post, ''assert_finish'')]),
      (''/list'', [(Get, ''list'')]), (''/{id}'', [(Delete, ''revoke'')])]"

definition recovery_routes :: router where
  "recovery_routes = [(''/regenerate'', [(Post, ''recovery_regenerate'')]), (''/redeem'', [(Post, ''recovery_redeem'')])]"

definition clusters_routes :: router where
  "clusters_routes =
     [(''/'', [(Post, ''create''), (Get, ''list'')]), (''/{id}'', [(Get, ''read''), (Delete, ''destroy'')]),
      (''/{id}/kubeconfig'', [(Get, ''download_kubeconfig'')]), (''/{id}/addons'', [(Post, ''install_addon''), (Get, ''list_addons'')]),
      (''/{id}/addons/{addon_id}'', [(Delete, ''uninstall_addon'')]), (''/{id}/workers'', [(Post, ''scale_workers'')]),
      (''/{id}/events'', [(Get, ''stream_events'')]), (''/{id}/metrics'', [(Get, ''query_metrics'')])]"

definition integrations_routes :: router where
  "integrations_routes = [(''/'', [(Post, ''create''), (Get, ''list'')]), (''/{id}'', [(Delete, ''remove'')])]"

definition org_routes :: router where
  "org_routes =
     [(''/'', [(Get, ''get_org''), (Patch, ''update_org'')]), (''/members'', [(Get, ''list_members'')]),
      (''/members/{user_id}'', [(Patch, ''update_role''), (Delete, ''remove_member'')]),
      (''/invites'', [(Post, ''create_invite''), (Get, ''list_invites'')]), (''/invites/{id}'', [(Delete, ''revoke_invite'')])]"

definition org_state_route :: router where
  "org_state_route = [(''/billing'', [(Get, ''state'')])]"

definition audit_log_routes :: router where
  "audit_log_routes = [(''/audit-log'', [(Get, ''list_audit_log'')])]"

definition invite_accept_route :: router where
  "invite_accept_route = [(''/accept'', [(Post, ''accept_invite'')])]"

definition billing_routes :: router where
  "billing_routes = [(''/checkout'', [(Post, ''start_checkout'')]), (''/webhook'', [(Post, ''webhook'')])]"

definition api_keys_routes :: router where
  "api_keys_routes = [(''/'', [(Get, ''list_api_keys''), (Post, ''create_api_key'')]), (''/{id}'', [(Delete, ''revoke_api_key'')])]"

definition observability_routes :: router where
  "observability_routes = [(''/write'', [(Post, ''write'')]), (''/query'', [(Post, ''query'')])]"

definition app_router :: router where
  "app_router =
     [(''/healthz'', [(Get, ''healthz'')]), (''/readyz'', [(Get, ''readyz'')]), (''/version'', [(Get, ''version'')]),
      (''/metrics'', [(Get, ''metrics_endpoint'')]), (''/v1/me'', [(Get, ''me''), (Patch, ''update_me'')])]
     @ nest ''/v1/auth'' auth_routes
     @ nest ''/v1/auth/passkey'' auth_passkey_routes
     @ nest ''/v1/auth/recovery-codes'' recovery_routes
     @ nest ''/v1/clusters'' clusters_routes
     @ [(''/v1/catalog/clusters'', [(Get, ''catalog'')])]
     @ nest ''/v1/integrations/hetzner'' integrations_routes
     @ nest ''/v1/organizations/{org_id}'' org_routes
     @ nest ''/v1/organizations/{org_id}'' org_state_route
     @ nest ''/v1/organizations/{org_id}'' audit_log_routes
     @ nest ''/v1/invites'' invite_accept_route
     @ nest ''/v1/billing'' billing_routes
     @ nest ''/v1/api-keys'' api_keys_routes
     @ nest ''/v1/observability'' observability_routes"

text \<open>A request path matches segment by segment; a parameter takes any segment.\<close>

fun path_segments :: "string \<Rightarrow> string list" where
  "path_segments [] = [[]]"
| "path_segments (c # cs) =
     (if c = CHR ''/'' then [] # path_segments cs
      else case path_segments cs of [] \<Rightarrow> [[c]] | seg # segs \<Rightarrow> (c # seg) # segs)"

definition is_param :: "string \<Rightarrow> bool" where
  "is_param seg \<longleftrightarrow> seg \<noteq> [] \<and> hd seg = CHR ''{'' \<and> last seg = CHR ''}''"

fun matches :: "string list \<Rightarrow> string list \<Rightarrow> bool" where
  "matches [] [] \<longleftrightarrow> True"
| "matches (p # ps) (x # xs) \<longleftrightarrow> (is_param p \<or> p = x) \<and> matches ps xs"
| "matches _ _ \<longleftrightarrow> False"

fun clash :: "string list \<Rightarrow> string list \<Rightarrow> bool" where
  "clash [] [] \<longleftrightarrow> True"
| "clash (p # ps) (q # qs) \<longleftrightarrow> (is_param p \<or> is_param q \<or> p = q) \<and> clash ps qs"
| "clash _ _ \<longleftrightarrow> False"

lemma matches_clash: "matches ps xs \<Longrightarrow> matches qs xs \<Longrightarrow> clash ps qs"
proof (induction ps xs arbitrary: qs rule: matches.induct)
  case 1
  then show ?case by (cases qs) auto
next
  case (2 p ps x xs)
  then show ?case by (cases qs) auto
qed auto

definition endpoints :: "router \<Rightarrow> (route_method \<times> string list \<times> string) list" where
  "endpoints rs = concat (map (\<lambda>(path, hs). map (\<lambda>(m, h). (m, path_segments path, h)) hs) rs)"

fun apart :: "(route_method \<times> string list \<times> string) list \<Rightarrow> bool" where
  "apart [] \<longleftrightarrow> True"
| "apart ((m, ps, h) # es) \<longleftrightarrow> list_all (\<lambda>(m', qs, _). m' = m \<longrightarrow> \<not> clash ps qs) es \<and> apart es"

lemma apart_unique:
  "apart es \<Longrightarrow> length (filter (\<lambda>(m', ps, h). m' = m \<and> matches ps xs) es) \<le> 1"
proof (induction es)
  case (Cons e es)
  obtain m' ps h where e: "e = (m', ps, h)" by (metis prod_cases3)
  have "filter (\<lambda>(m', ps, h). m' = m \<and> matches ps xs) es = []" if "m' = m" "matches ps xs"
    using that Cons.prems matches_clash [OF that(2)] by (auto simp: e list_all_iff filter_empty_conv)
  with Cons show ?case by (auto simp: e)
qed simp

text \<open>The route table is unambiguous: for every method and every request path at most one
  handler of the whole API matches, so no handler is reached in place of another and the
  order in which the routers are nested does not matter.\<close>

theorem routes_are_unambiguous:
  "length (filter (\<lambda>(m', ps, h). m' = m \<and> matches ps (path_segments path)) (endpoints app_router)) \<le> 1"
proof -
  have "apart (endpoints app_router)" by code_simp
  then show ?thesis by (rule apart_unique)
qed
end
