(* ===== verification/E2e.thy ===== *)
theory E2e
  imports Runner
begin

text \<open>
  The end-to-end drivers (\<open>e2e/src/main.rs\<close>, \<open>e2e/src/bin/helm.rs\<close>): a full cycle of
  provisioning and destroying against a provider account, and the installation of one
  addon against a running cluster. They use the runner and the services as the API does.
  The JSON decoders, the clock and whether the permissions of a file can be changed are
  arguments; a process that is started without a time limit is never answered by
  \<open>TimedOut\<close>.
\<close>

section \<open>Arguments\<close>

datatype e2e_error =
    E2e string | E2eCtx string e2e_error | E2eRun run_error | E2ePlatform platform_error | E2eSecret secret_error | E2eDb sqlx_error
  | E2eActivity activity_error

definition in_ctx :: "string \<Rightarrow> ('s, e2e_error, 'a) op \<Rightarrow> ('s, e2e_error, 'a) op" where
  "in_ctx msg = map_err (E2eCtx msg)"

record harness_args =
  ha_database_url :: string
  ha_hetzner_token :: string
  ha_hetzner_ssh_key :: string
  ha_ssh_key_path :: string
  ha_region :: string
  ha_server_type :: string
  ha_k3s_version :: string

definition env_required :: "(string \<Rightarrow> string option) \<Rightarrow> string \<Rightarrow> ('s, e2e_error, string) op" where
  "env_required var name =
     of_option (E2eCtx (''env var '' @ name @ '' must be set'') (E2e ''environment variable not found'')) (var name)"

definition harness_args_from_env :: "(string \<Rightarrow> string option) \<Rightarrow> ('s, e2e_error, harness_args) op" where
  "harness_args_from_env var =
     bindE (env_required var ''DATABASE_URL'') (\<lambda>database_url.
     bindE (env_required var ''KUBINATE__TEST_HETZNER_TOKEN'') (\<lambda>token.
     bindE (env_required var ''KUBINATE__HETZNER_SSH_KEY'') (\<lambda>ssh_key.
     bindE (env_required var ''KUBINATE__SSH_KEY_PATH'') (\<lambda>key_path.
     ret \<lparr>ha_database_url = database_url, ha_hetzner_token = token, ha_hetzner_ssh_key = ssh_key, ha_ssh_key_path = key_path,
          ha_region = opt_or (var ''KUBINATE__E2E_REGION'') ''nbg1'', ha_server_type = opt_or (var ''KUBINATE__E2E_SERVER_TYPE'') ''cpx21'',
          ha_k3s_version = opt_or (var ''KUBINATE__E2E_K3S_VERSION'') ''v1.30.2+k3s1''\<rparr>))))"

section \<open>Seeding\<close>

text \<open>What the harness takes from outside: the environment, the outcome of connecting and of
  the migrations, base64, the node document, the namespace of worker keys, the decoders of
  \<open>items\<close> and \<open>servers\<close> (an array or nothing), the permission change, and by how much each
  reading of the clock exceeds the time slept.\<close>

record harness_env =
  he_var :: "string \<Rightarrow> string option"
  he_connect :: "string + unit"
  he_migrate :: "string + unit"
  he_b64 :: "string \<Rightarrow> string + nat list"
  he_user_data :: string
  he_uuid_v5 :: "string \<Rightarrow> uuid"
  he_items :: "string \<Rightarrow> string + nat option"
  he_servers :: "string \<Rightarrow> string + nat option"
  he_chmod :: "string \<Rightarrow> string + unit"
  he_lag :: "nat \<Rightarrow> nat"

text \<open>The statement runs on the pool, outside a tenant scope.\<close>

definition insert_organization :: "uuid \<Rightarrow> string \<Rightarrow> ('z world_scheme, e2e_error, unit) op" where
  "insert_organization org short =
     tx E2eDb (\<lambda>s.
       if \<not> rls s None org then (Inl (E2eDb SqlxRls), s)
       else if (\<exists>r \<in> set (organizations s). o_id r = org \<or> o_slug r = short) then (Inl (E2eDb SqlxUnique), s)
       else (Inr (), s\<lparr>organizations := organizations s @
              [\<lparr>o_id = org, o_slug = short, o_display_name = short, o_plan = Free, o_stripe_customer_id = None, o_created_at = now s,
                o_updated_at = now s, o_version = 1\<rparr>]\<rparr>))"

definition short_text :: "'z world_scheme \<Rightarrow> uuid \<Rightarrow> string" where
  "short_text s i = take 8 (filter (\<lambda>c. c \<noteq> CHR ''-'') (pg_uuid_text s i))"

record 's seeded =
  su_organization_id :: uuid
  su_cluster_id :: uuid
  su_cluster_name :: string
  su_runner :: "'s local_runner"
  su_hetzner :: "'s hetzner_provider"

definition seed :: "harness_env \<Rightarrow> harness_args \<Rightarrow> ('z world_scheme, e2e_error, 'z world_scheme seeded) op" where
  "seed env args =
     bindE (of_sum E2eSecret (pgcrypto_from_env (he_b64 env) (he_var env ''KUBINATE__KEK''))) (\<lambda>kek.
     bindE new_id (\<lambda>org.
     bindE (getS (\<lambda>s. ''e2e-'' @ short_text s org)) (\<lambda>short.
     bindE (insert_organization org short) (\<lambda>_.
     bindE (getS (\<lambda>s. \<lparr>actor_user_id = None, request_id = Some (''e2e-'' @ pg_uuid_text s org), ip = None, user_agent = Some ''e2e/harness''\<rparr>)) (\<lambda>audit.
     bindE (map_err E2ePlatform (hcs_create (pgcrypto_store secret_refs kek) org ''e2e-token'' (ha_hetzner_token args) audit)) (\<lambda>credential.
     bindE new_id (\<lambda>nid.
     bindE (getS (\<lambda>s. ''e2e-'' @ short_text s nid)) (\<lambda>name.
     bindE (map_err E2ePlatform (cluster_create org
       \<lparr>nc_name = name, nc_region = ha_region args, nc_server_type = ha_server_type args, nc_control_plane_count = 1, nc_worker_count = 1,
        nc_credential_id = hc_id credential\<rparr> audit)) (\<lambda>cluster.
     ret \<lparr>su_organization_id = org, su_cluster_id = c_id cluster, su_cluster_name = name,
          su_runner = \<lparr>lr_secrets = pgcrypto_store secret_refs kek, lr_ssh = openssh_ssh (openssh_new (Some (ha_ssh_key_path args))),
            lr_helm = helm_cli_executor (helm_new None), lr_kubectl = kubectl_cli_executor (kubectl_new None), lr_uuid_v5 = he_uuid_v5 env\<rparr>,
          su_hetzner = hetzner_client (pgcrypto_store secret_refs kek) (hc_secret_ref credential)\<rparr>)))))))))"

section \<open>Provisioning and checking\<close>

definition POLL_INTERVAL :: nat where
  "POLL_INTERVAL = 15"

text \<open>The loop has slept \<open>n\<close> intervals, so the clock shows at least that time.\<close>

function wait_until_ready :: "harness_env \<Rightarrow> 'z world_scheme seeded \<Rightarrow> nat \<Rightarrow> ('z world_scheme, e2e_error, unit) op" where
  "wait_until_ready env ctx n s =
     (case cluster_get (su_organization_id ctx) (su_cluster_id ctx) s of
        (Inl e, t) \<Rightarrow> (Inl (E2ePlatform e), t)
      | (Inr cluster, t) \<Rightarrow>
          (case c_status cluster of
             Ready \<Rightarrow> (Inr (), t)
           | Failed \<Rightarrow> (Inl (E2e (''cluster reached failed status (reason: '' @ (case c_status_reason cluster of None \<Rightarrow> ''None'' | Some x \<Rightarrow> ''Some('' @ [CHR 0x22] @ x @ [CHR 0x22] @ '')'') @ '')'')), t)
           | Destroyed \<Rightarrow> (Inl (E2e ''cluster reached destroyed before ready''), t)
           | _ \<Rightarrow>
               if n * POLL_INTERVAL + he_lag env n > 30 * 60 then (Inl (E2e ''provisioning did not reach ready in 30 minutes''), t)
               else wait_until_ready env ctx (Suc n) (emit (EvSleep POLL_INTERVAL) t)))"
  by pat_completeness auto
termination by (relation "measure (\<lambda>(_, _, n, _). 121 - n)") (auto simp: POLL_INTERVAL_def)

declare wait_until_ready.simps [simp del]

definition kubectl_get_nodes :: "string \<Rightarrow> proc_call" where
  "kubectl_get_nodes path = \<lparr>pc_bin = ''kubectl'', pc_env = [], pc_args = [''--kubeconfig'', path, ''get'', ''nodes'', ''-o'', ''json'']\<rparr>"

definition assert_kubectl_works :: "harness_env \<Rightarrow> string \<Rightarrow> ('z world_scheme, e2e_error, unit) op" where
  "assert_kubectl_works env kubeconfig =
     bindE new_id (\<lambda>fid.
     bindE (getS (\<lambda>s. temp_dir s @ ''/kubinate-e2e-'' @ pg_uuid_text s fid @ ''.yaml'')) (\<lambda>path.
     bindE (in_ctx ''create kubeconfig tempfile'' (map_err E2e (write_file path kubeconfig))) (\<lambda>_.
     bindE (of_sum E2e (he_chmod env path)) (\<lambda>_.
     bindE (run_process (kubectl_get_nodes path)) (\<lambda>result.
     case result of
       SpawnError e \<Rightarrow> fail (E2eCtx ''spawn kubectl'' (E2e e))
     | TimedOut \<Rightarrow> fail (E2eCtx ''spawn kubectl'' (E2e ''timed out''))
     | Exited code out err \<Rightarrow>
         bindE (remove_file path) (\<lambda>_.
         if code \<noteq> Some 0 then fail (E2e (''kubectl get nodes failed: status='' @
           (case code of None \<Rightarrow> ''None'' | Some c \<Rightarrow> ''Some('' @ show_int c @ '')'') @ '' stderr='' @ err))
         else bindE (in_ctx ''parse kubectl json'' (of_sum E2e (he_items env out))) (\<lambda>items.
           if opt_or items 0 \<ge> 2 then ret ()
           else fail (E2e (''expected at least 2 nodes (1 cp + 1 worker), got '' @ show_nat (opt_or items 0))))))))))"

definition run_provision_and_validate ::
    "harness_env \<Rightarrow> harness_args \<Rightarrow> 'z world_scheme seeded \<Rightarrow> ('z world_scheme, e2e_error, unit) op" where
  "run_provision_and_validate env args ctx =
     bindE (in_ctx ''provision run'' (map_err E2eRun (run_provision (su_runner ctx) (su_organization_id ctx) (su_hetzner ctx)
       \<lparr>pi_cluster_id = su_cluster_id ctx, pi_cluster_name = su_cluster_name ctx, pi_location = ha_region args,
        pi_server_type = ha_server_type args, pi_worker_count = 1, pi_ssh_key = ha_hetzner_ssh_key args, pi_user_data = he_user_data env,
        pi_k3s_version = ha_k3s_version args\<rparr>))) (\<lambda>_.
     bindE (wait_until_ready env ctx 0) (\<lambda>_.
     bindE (in_ctx ''fetch kubeconfig'' (map_err E2ePlatform
       (fetch_kubeconfig (lr_secrets (su_runner ctx)) (su_organization_id ctx) (su_cluster_id ctx)))) (\<lambda>kubeconfig.
     assert_kubectl_works env kubeconfig)))"

section \<open>The residue check and the verdict\<close>

text \<open>A byte that is not unreserved becomes a percent sign with two upper-case digits.\<close>

definition unreserved :: "char \<Rightarrow> bool" where
  "unreserved c \<longleftrightarrow> (let b = of_char c :: nat in 65 \<le> b \<and> b \<le> 90 \<or> 97 \<le> b \<and> b \<le> 122 \<or> 48 \<le> b \<and> b \<le> 57)
     \<or> c \<in> set ''-_.~''"

definition hex_upper :: "nat \<Rightarrow> char" where
  "hex_upper d = char_of (if d < 10 then 48 + d else 55 + d)"

definition urlencode :: "string \<Rightarrow> string" where
  "urlencode input = concat (map (\<lambda>c. if unreserved c then [c]
     else [CHR ''%'', hex_upper (of_char c div 16), hex_upper (of_char c mod 16)]) input)"

definition residue_selector :: "'z world_scheme \<Rightarrow> uuid \<Rightarrow> string" where
  "residue_selector s cid = ''kubinate.idempotency_key='' @ pg_uuid_text s cid"

definition residue_request :: "string \<Rightarrow> 'z world_scheme \<Rightarrow> uuid \<Rightarrow> http_request" where
  "residue_request token s cid =
     \<lparr>rq_method = GET, rq_url = ''https://api.hetzner.cloud/v1/servers?label_selector='' @ urlencode (residue_selector s cid),
      rq_bearer = token, rq_body = None\<rparr>"

definition assert_no_residual_servers :: "harness_env \<Rightarrow> string \<Rightarrow> uuid \<Rightarrow> ('z world_scheme, e2e_error, unit) op" where
  "assert_no_residual_servers env token cid =
     bindE (getS (\<lambda>s. residue_request token s cid)) (\<lambda>rq.
     bindE (map_err (\<lambda>e. E2eCtx ''hetzner servers list'' (E2e (case e of HetznerTransport x \<Rightarrow> x | _ \<Rightarrow> []))) (send_request rq)) (\<lambda>r.
     if \<not> is_success (hr_status r) then fail (E2e (''hetzner servers list returned '' @ show_nat (hr_status r)))
     else bindE (of_sum E2e (he_servers env (hr_text r))) (\<lambda>servers s.
       if opt_or servers 0 = 0 then (Inr (), s)
       else (Inl (E2e (''post-destroy: '' @ show_nat (opt_or servers 0) @ '' server(s) still tagged with cluster_id '' @ pg_uuid_text s cid)), s))))"

text \<open>Once seeded, the cluster is destroyed whatever provisioning answered, and then the
  provider is asked; the first error in the order of this text is the verdict.\<close>

definition tear_down :: "harness_env \<Rightarrow> harness_args \<Rightarrow> 'z world_scheme seeded \<Rightarrow> e2e_error + unit \<Rightarrow> ('z world_scheme, e2e_error, unit) op" where
  "tear_down env args ctx outcome s =
     (let (destroy_outcome, s1) = run_destroy (su_runner ctx) (su_organization_id ctx) (su_hetzner ctx) (su_cluster_id ctx) s
      in case assert_no_residual_servers env (ha_hetzner_token args) (su_cluster_id ctx) s1 of
           (Inl e, t) \<Rightarrow> (Inl e, t)
         | (Inr _, t) \<Rightarrow> (case outcome of Inl e \<Rightarrow> Inl e | Inr _ \<Rightarrow> map_sum E2eRun id destroy_outcome, t))"

definition run_harness :: "harness_env \<Rightarrow> harness_args \<Rightarrow> ('z world_scheme, e2e_error, unit) op" where
  "run_harness env args =
     bindE (in_ctx ''connect database'' (of_sum E2e (he_connect env))) (\<lambda>_.
     bindE (in_ctx ''run migrations'' (of_sum E2e (he_migrate env))) (\<lambda>_.
     bindE (seed env args) (\<lambda>ctx s.
     let (outcome, s1) = run_provision_and_validate env args ctx s in tear_down env args ctx outcome s1)))"

text \<open>The match of \<open>main\<close>: \<open>None\<close> is a run the hour ended. It is dropped where it stood, so its
  teardown does not happen.\<close>

definition harness_verdict :: "(e2e_error + unit) option \<Rightarrow> e2e_error + unit" where
  "harness_verdict result = (case result of Some r \<Rightarrow> r | None \<Rightarrow> Inl (E2e ''e2e timed out''))"

section \<open>Properties of the cycle\<close>

text \<open>The seed row of the organization is refused for the application role: the harness needs
  a role that bypasses row-level security, unlike the service it exercises.\<close>

lemma seed_needs_bypass:
  assumes "seed env args s = (Inr ctx, t)" and "pg_uuid s (pg_uuid_ctr s) \<noteq> nil_uuid"
  shows "pg_bypass s"
proof -
  have "\<exists>short v. insert_organization (pg_uuid s (pg_uuid_ctr s)) short (s\<lparr>pg_uuid_ctr := Suc (pg_uuid_ctr s)\<rparr>) = (Inr (), v)"
    using assms(1) by (auto simp: seed_def bindE_eq_Inr new_id_def getS_def of_sum_eq_Inr)
  then show ?thesis
    using assms(2) by (auto simp: insert_organization_def tx_eq_Inr rls_def app_current_tenant_id_def split: if_splits)
qed

text \<open>Once the cluster is seeded the destroy run and the residue check take place whatever
  went wrong before.\<close>

lemma harness_after_seed:
  assumes "he_connect env = Inr ()" and "he_migrate env = Inr ()" and "seed env args s = (Inr ctx, s1)"
  shows "run_harness env args s = (let (outcome, s2) = run_provision_and_validate env args ctx s1 in tear_down env args ctx outcome s2)"
  using assms by (simp add: run_harness_def bindE_def in_ctx_def map_err_def of_sum_def ret_def)

lemma harness_always_destroys:
  assumes "he_connect env = Inr ()" and "he_migrate env = Inr ()" and "seed env args s = (Inr ctx, s1)"
  shows "snd (run_harness env args s) = snd (assert_no_residual_servers env (ha_hetzner_token args) (su_cluster_id ctx)
    (snd (run_destroy (su_runner ctx) (su_organization_id ctx) (su_hetzner ctx) (su_cluster_id ctx)
      (snd (run_provision_and_validate env args ctx s1)))))"
  by (simp add: harness_after_seed [OF assms] tear_down_def Let_def split: prod.split sum.split)

text \<open>The harness passes exactly when every part of the cycle succeeds.\<close>

lemma harness_passes_iff:
  "run_harness env args s = (Inr (), t) \<longleftrightarrow>
     he_connect env = Inr () \<and> he_migrate env = Inr () \<and>
     (\<exists>ctx s1 s2 s3. seed env args s = (Inr ctx, s1) \<and> run_provision_and_validate env args ctx s1 = (Inr (), s2)
      \<and> run_destroy (su_runner ctx) (su_organization_id ctx) (su_hetzner ctx) (su_cluster_id ctx) s2 = (Inr (), s3)
      \<and> assert_no_residual_servers env (ha_hetzner_token args) (su_cluster_id ctx) s3 = (Inr (), t))"
proof
  assume run: "run_harness env args s = (Inr (), t)"
  then have ok: "he_connect env = Inr ()" "he_migrate env = Inr ()"
    by (auto simp: run_harness_def bindE_eq_Inr in_ctx_def map_err_eq_Inr of_sum_eq_Inr)
  moreover obtain ctx s1 where seed: "seed env args s = (Inr ctx, s1)"
    using run by (auto simp: run_harness_def bindE_eq_Inr in_ctx_def map_err_eq_Inr of_sum_eq_Inr)
  ultimately show "he_connect env = Inr () \<and> he_migrate env = Inr () \<and>
     (\<exists>ctx s1 s2 s3. seed env args s = (Inr ctx, s1) \<and> run_provision_and_validate env args ctx s1 = (Inr (), s2)
      \<and> run_destroy (su_runner ctx) (su_organization_id ctx) (su_hetzner ctx) (su_cluster_id ctx) s2 = (Inr (), s3)
      \<and> assert_no_residual_servers env (ha_hetzner_token args) (su_cluster_id ctx) s3 = (Inr (), t))"
    using run unfolding harness_after_seed [OF ok seed]
    by (auto simp: tear_down_def Let_def map_sum_def split: prod.splits sum.splits)
next
  assume "he_connect env = Inr () \<and> he_migrate env = Inr () \<and>
     (\<exists>ctx s1 s2 s3. seed env args s = (Inr ctx, s1) \<and> run_provision_and_validate env args ctx s1 = (Inr (), s2)
      \<and> run_destroy (su_runner ctx) (su_organization_id ctx) (su_hetzner ctx) (su_cluster_id ctx) s2 = (Inr (), s3)
      \<and> assert_no_residual_servers env (ha_hetzner_token args) (su_cluster_id ctx) s3 = (Inr (), t))"
  then show "run_harness env args s = (Inr (), t)"
    by (elim conjE exE) (simp add: harness_after_seed tear_down_def)
qed

text \<open>Reading a percent-encoded text back.\<close>

definition hex_read :: "char \<Rightarrow> nat" where
  "hex_read c = (let b = of_char c in if b < 58 then b - 48 else b - 55)"

fun percent_decode :: "string \<Rightarrow> string" where
  "percent_decode [] = []"
| "percent_decode (c # rest) =
     (if c \<noteq> CHR ''%'' then c # percent_decode rest
      else case rest of a # b # tail \<Rightarrow> char_of (16 * hex_read a + hex_read b) # percent_decode tail | _ \<Rightarrow> c # rest)"

lemma hex_read_upper: "d < 16 \<Longrightarrow> hex_read (hex_upper d) = d"
  by (auto simp: hex_read_def hex_upper_def Let_def)

lemma urlencode_reads_back: "percent_decode (urlencode x) = x"
proof (induction x)
  case (Cons c x)
  have enc: "urlencode (c # x) = (if unreserved c then [c] else [CHR ''%'', hex_upper (of_char c div 16), hex_upper (of_char c mod 16)]) @ urlencode x"
    by (simp add: urlencode_def)
  have "16 * (of_char c div 16) + of_char c mod 16 = (of_char c :: nat)" by simp
  moreover have "of_char c div 16 < (16 :: nat)" using nat_of_char_less_256 [of c] by (intro less_mult_imp_div_less) simp
  moreover have "c \<noteq> CHR ''%''" if "unreserved c" using that by (auto simp: unreserved_def)
  ultimately show ?case using Cons by (simp add: enc hex_read_upper)
qed (simp add: urlencode_def)

text \<open>A label selector of the provider, an equation, and the labels a create request carries.\<close>

definition selects :: "string \<Rightarrow> (string \<times> string) list \<Rightarrow> bool" where
  "selects sel labels \<longleftrightarrow> list_ex (\<lambda>(k, v). k @ ''='' @ v = sel) labels"

definition server_labels :: "'z world_scheme \<Rightarrow> create_server_params \<Rightarrow> (string \<times> string) list" where
  "server_labels s p = [(''kubinate.idempotency_key'', pg_uuid_text s (sp_idempotency_key p))]"

lemma create_sends_labels:
  "\<exists>body. cb_labels body = server_labels s p \<and> client_create_server store h p s = bindE (post_json store h ''/servers'' body) (\<lambda>j. ret (sj_id j)) s"
  by (rule exI [of _ "\<lparr>cb_name = sp_name p, cb_server_type = sp_server_type p, cb_location = sp_location p, cb_image = ''debian-12'',
      cb_ssh_keys = [sp_ssh_key p], cb_user_data = sp_user_data p, cb_start_after_create = True, cb_labels = server_labels s p\<rparr>"])
    (simp add: client_create_server_def server_labels_def Let_def)

text \<open>The residue check asks for the key of the control plane. Workers carry keys of their own,
  so a worker that is left running is not among the servers it counts.\<close>

theorem residue_check_misses_workers:
  assumes "inj (pg_uuid_text s)"
    and "\<forall>i. lr_uuid_v5 lr (''kubinate.worker:'' @ pg_uuid_text s cid @ '':'' @ show_nat i) \<noteq> cid"
  shows "selects (residue_selector s cid) (server_labels s (control_plane_params cid name ty loc key ud))
    \<and> \<not> selects (residue_selector s cid) (server_labels s (worker_params (world_runtime lr s) cid name i ty loc key ud))"
  using assms by (auto simp: selects_def residue_selector_def server_labels_def control_plane_params_def worker_params_def world_runtime_def dest: injD)

theorem residue_check_misses_workers_witness:
  "selects (residue_selector demo_world 70) (server_labels demo_world (control_plane_params 70 ''a'' ''cpx11'' ''nbg1'' ''k'' ''''))
   \<and> \<not> selects (residue_selector demo_world 70) (server_labels demo_world (worker_params (world_runtime demo_runner demo_world) 70 ''a'' 0 ''cpx11'' ''nbg1'' ''k'' ''''))"
proof -
  have "pg_uuid_text demo_world = show_nat"
    by (simp add: demo_world_def demo_addons_def demo_clusters_def demo_db_def addon_db.defs cluster_db.defs identity_db.defs world.defs)
  then have "inj (pg_uuid_text demo_world)" by (simp add: inj_def show_nat_inj)
  then show ?thesis by (rule residue_check_misses_workers) (simp add: demo_runner_def)
qed

text \<open>When kubectl cannot be started, the kubeconfig of the cluster stays in the temporary
  directory.\<close>

lemma kubeconfig_left_behind:
  assumes "path = temp_dir s @ ''/kubinate-e2e-'' @ pg_uuid_text s (pg_uuid s (pg_uuid_ctr s)) @ ''.yaml''"
    and "fs_write s (ext_trace s) path = None" and "he_chmod env path = Inr ()"
    and "proc_env s (ext_trace s) (kubectl_get_nodes path) = SpawnError e"
    and "assert_kubectl_works env kubeconfig s = (r, t)"
  shows "r = Inl (E2eCtx ''spawn kubectl'' (E2e e)) \<and> (path, kubeconfig) \<in> set (tmp_files t)"
  using assms by (auto simp: assert_kubectl_works_def bindE_def new_id_def getS_def in_ctx_def map_err_def write_file_def of_sum_def ret_def
      fail_def run_process_def Let_def emit_def)

text \<open>The loop that waits sleeps at most 121 times, whatever the database answers.\<close>

lemma wait_sleeps_bounded:
  "wait_until_ready env ctx n s = (r, t) \<Longrightarrow> n \<le> 121 \<Longrightarrow>
   \<exists>k. n + k \<le> 121 \<and> ext_trace t = ext_trace s @ replicate k (EvSleep POLL_INTERVAL)"
proof (induction "121 - n" arbitrary: n s r t rule: less_induct)
  case less
  obtain q u where get: "cluster_get (su_organization_id ctx) (su_cluster_id ctx) s = (q, u)" by fastforce
  have trace: "ext_trace u = ext_trace s"
    using get by (auto simp: cluster_get_def bindE_def tx_def split: if_splits option.splits)
  consider "ext_trace t = ext_trace s" | "n * POLL_INTERVAL + he_lag env n \<le> 30 * 60"
      "wait_until_ready env ctx (Suc n) (emit (EvSleep POLL_INTERVAL) u) = (r, t)"
    using less.prems(1) trace by (subst (asm) wait_until_ready.simps) (auto simp: get split: sum.splits cluster_status.splits if_splits)
  then show ?case
  proof cases
    case 1
    with less.prems(2) show ?thesis by (intro exI [of _ 0]) simp
  next
    case 2
    then have n: "n \<le> 120" by (simp add: POLL_INTERVAL_def)
    then have "121 - Suc n < 121 - n" by simp
    from less.hyps [OF this 2(2)] n obtain k where
      "Suc n + k \<le> 121" "ext_trace t = ext_trace u @ EvSleep POLL_INTERVAL # replicate k (EvSleep POLL_INTERVAL)" by auto
    with trace show ?thesis by (intro exI [of _ "Suc k"]) simp
  qed
qed

section \<open>The addon driver\<close>

record helm_args =
  hx_kubeconfig :: string
  hx_addon :: string
  hx_version :: string

text \<open>The loop over the arguments: an option takes the next argument whatever it is, or
  nothing at the end. \<open>None\<close> is the help text, after which the process exits with 0.\<close>

fun scan_args :: "string list \<Rightarrow> string option \<Rightarrow> string option \<Rightarrow> string option
    \<Rightarrow> e2e_error + (string option \<times> string option \<times> string option) option" where
  "scan_args [] k a v = Inr (Some (k, a, v))"
| "scan_args (x # rest) k a v =
     (if x = ''--kubeconfig'' then (case rest of [] \<Rightarrow> Inr (Some (None, a, v)) | y # ys \<Rightarrow> scan_args ys (Some y) a v)
      else if x = ''--addon'' then (case rest of [] \<Rightarrow> Inr (Some (k, None, v)) | y # ys \<Rightarrow> scan_args ys k (Some y) v)
      else if x = ''--version'' then (case rest of [] \<Rightarrow> Inr (Some (k, a, None)) | y # ys \<Rightarrow> scan_args ys k a (Some y))
      else if x = ''-h'' \<or> x = ''--help'' then Inr None
      else Inl (E2e (''unknown argument: '' @ x)))"

definition parse_args :: "string option \<Rightarrow> string list \<Rightarrow> e2e_error + helm_args option" where
  "parse_args kubeconfig_var args =
     (case scan_args args None None None of
        Inl e \<Rightarrow> Inl e
      | Inr None \<Rightarrow> Inr None
      | Inr (Some (k, a, v)) \<Rightarrow>
          (case (case k of Some p \<Rightarrow> Some p | None \<Rightarrow> kubeconfig_var) of
             None \<Rightarrow> Inl (E2e ''--kubeconfig is required (or set KUBECONFIG)'')
           | Some kubeconfig \<Rightarrow>
               (case a of
                  None \<Rightarrow> Inl (E2e ''--addon is required'')
                | Some addon \<Rightarrow>
                    (case v of
                       None \<Rightarrow> Inl (E2e ''--version is required'')
                     | Some version \<Rightarrow> Inr (Some \<lparr>hx_kubeconfig = kubeconfig, hx_addon = addon, hx_version = version\<rparr>)))))"

definition kubectl_pods :: "string \<Rightarrow> string \<Rightarrow> proc_call" where
  "kubectl_pods kubeconfig ns =
     \<lparr>pc_bin = ''kubectl'', pc_env = [(''KUBECONFIG'', kubeconfig)], pc_args = [''get'', ''pods'', ''-n'', ns, ''--no-headers'', ''--ignore-not-found'']\<rparr>"

fun str_lines :: "string \<Rightarrow> string list" where
  "str_lines [] = []"
| "str_lines (c # cs) =
     (if c = CHR 0x0A then [] # str_lines cs
      else case str_lines cs of [] \<Rightarrow> [[c]] | l # ls \<Rightarrow> (c # l) # ls)"

definition kubectl_pod_count :: "string \<Rightarrow> string \<Rightarrow> ('z world_scheme, e2e_error, nat) op" where
  "kubectl_pod_count kubeconfig ns =
     bindE (run_process (kubectl_pods kubeconfig ns)) (\<lambda>result.
     case result of
       TimedOut \<Rightarrow> fail (E2eCtx ''kubectl get pods timed out'' (E2e ''deadline has elapsed''))
     | SpawnError e \<Rightarrow> fail (E2eCtx ''kubectl get pods spawn'' (E2e e))
     | Exited code out err \<Rightarrow>
         if code \<noteq> Some 0 then fail (E2e (''kubectl get pods failed: '' @ err))
         else ret (length (filter (\<lambda>l. trim l \<noteq> []) (str_lines out))))"

text \<open>The first loop: wait until a pod exists. The clock has advanced by two seconds per
  sleep and by \<open>lag\<close> besides.\<close>

function wait_for_pod :: "(nat \<Rightarrow> nat) \<Rightarrow> nat \<Rightarrow> string \<Rightarrow> string \<Rightarrow> nat \<Rightarrow> ('z world_scheme, e2e_error, nat) op" where
  "wait_for_pod lag timeout kubeconfig ns n s =
     (if n * 2 + lag n \<ge> timeout then (Inl (E2e (''timed out waiting for any pod to appear in namespace '' @ ns)), s)
      else case kubectl_pod_count kubeconfig ns s of
        (Inl e, t) \<Rightarrow> (Inl e, t)
      | (Inr count, t) \<Rightarrow> if count > 0 then (Inr n, t) else wait_for_pod lag timeout kubeconfig ns (Suc n) (emit (EvSleep 2) t))"
  by pat_completeness auto
termination by (relation "measure (\<lambda>(_, timeout, _, _, n, _). timeout - n)") auto

declare wait_for_pod.simps [simp del]

definition kubectl_wait :: "string \<Rightarrow> string \<Rightarrow> nat \<Rightarrow> proc_call" where
  "kubectl_wait kubeconfig ns secs =
     \<lparr>pc_bin = ''kubectl'', pc_env = [(''KUBECONFIG'', kubeconfig)],
      pc_args = [''wait'', ''--for=condition=Ready'', ''pod'', ''--all'', ''-n'', ns, ''--timeout='' @ show_nat secs @ ''s'']\<rparr>"

definition wait_for_pods_ready :: "(nat \<Rightarrow> nat) \<Rightarrow> nat \<Rightarrow> string \<Rightarrow> string \<Rightarrow> ('z world_scheme, e2e_error, unit) op" where
  "wait_for_pods_ready lag timeout kubeconfig ns =
     bindE (wait_for_pod lag timeout kubeconfig ns 0) (\<lambda>n.
     let remaining = timeout - (n * 2 + lag (Suc n)); secs = max remaining 1 in
     bindE (run_process (kubectl_wait kubeconfig ns secs)) (\<lambda>result.
     case result of
       TimedOut \<Rightarrow> fail (E2eCtx ''kubectl wait outer timeout'' (E2e ''deadline has elapsed''))
     | SpawnError e \<Rightarrow> fail (E2eCtx ''kubectl wait spawn'' (E2e e))
     | Exited code out err \<Rightarrow>
         if code = Some 0 then ret ()
         else fail (E2e (''kubectl wait failed (exit '' @ show_int (exit_code code) @ ''): '' @ err))))"

definition POD_READY_TIMEOUT :: nat where
  "POD_READY_TIMEOUT = 7 * 60"

text \<open>\<open>main\<close> after its arguments are parsed; \<open>exists\<close> is whether the kubeconfig is a path.\<close>

definition helm_driver :: "(nat \<Rightarrow> nat) \<Rightarrow> (string \<Rightarrow> bool) \<Rightarrow> helm_args \<Rightarrow> ('z world_scheme, e2e_error, unit) op" where
  "helm_driver lag exists args =
     (if \<not> exists (hx_kubeconfig args) then fail (E2e (''kubeconfig path does not exist: '' @ hx_kubeconfig args))
      else bindE (in_ctx (''addon '' @ hx_addon args @ '' is not in the catalog'') (of_sum E2ePlatform (catalog_lookup (hx_addon args)))) (\<lambda>spec.
      bindE (in_ctx (''install_addon failed for '' @ slug spec) (map_err E2eActivity
        (install_addon \<lparr>id_helm = helm_cli_executor (helm_new None), id_progress = noop_progress\<rparr>
          \<lparr>ii_params = \<lparr>ip_release = release_name spec, ip_chart = chart_name spec, ip_repo = chart_repo spec, ip_version = hx_version args,
              ip_namespace = namespace spec, ip_values_yaml = default_values_yaml spec\<rparr>, ii_kubeconfig_path = hx_kubeconfig args\<rparr>))) (\<lambda>_.
      in_ctx (''pods in '' @ namespace spec @ '' did not reach Ready'')
        (wait_for_pods_ready lag POD_READY_TIMEOUT (hx_kubeconfig args) (namespace spec)))))"

text \<open>The options may come in any order, and the last of a kind counts.\<close>

datatype helm_flag = KubeconfigFlag | AddonFlag | VersionFlag

definition flag_text :: "helm_flag \<Rightarrow> string" where
  "flag_text f = (case f of KubeconfigFlag \<Rightarrow> ''--kubeconfig'' | AddonFlag \<Rightarrow> ''--addon'' | VersionFlag \<Rightarrow> ''--version'')"

definition last_of :: "helm_flag \<Rightarrow> (helm_flag \<times> string) list \<Rightarrow> string option \<Rightarrow> string option" where
  "last_of f ps d = (case map_of (rev ps) f of Some x \<Rightarrow> Some x | None \<Rightarrow> d)"

lemma scan_flags:
  "scan_args (concat (map (\<lambda>(f, x). [flag_text f, x]) ps)) k a v
   = Inr (Some (last_of KubeconfigFlag ps k, last_of AddonFlag ps a, last_of VersionFlag ps v))"
proof (induction ps arbitrary: k a v)
  case Nil
  then show ?case by (simp add: last_of_def)
next
  case (Cons p ps)
  obtain f x where "p = (f, x)" by fastforce
  with Cons show ?case by (cases f) (simp_all add: flag_text_def last_of_def map_add_def map_of_append split: option.split)
qed

text \<open>The driver succeeds only after a \<open>kubectl wait\<close> on the addon's namespace that ended
  with exit code 0, and it is the last thing it does.\<close>

lemma helm_driver_success:
  assumes "helm_driver lag exists args s = (Inr (), t)"
  shows "\<exists>spec secs out err. catalog_lookup (hx_addon args) = Inr spec
    \<and> ext_trace t \<noteq> [] \<and> last (ext_trace t) = EvProc (kubectl_wait (hx_kubeconfig args) (namespace spec) secs) (Exited (Some 0) out err)"
proof -
  obtain spec u where spec: "catalog_lookup (hx_addon args) = Inr spec"
    and wait: "wait_for_pods_ready lag POD_READY_TIMEOUT (hx_kubeconfig args) (namespace spec) u = (Inr (), t)"
    using assms by (auto simp: helm_driver_def bindE_eq_Inr in_ctx_def map_err_eq_Inr of_sum_eq_Inr fail_def split: if_splits)
  from wait obtain n v where n: "wait_for_pod lag POD_READY_TIMEOUT (hx_kubeconfig args) (namespace spec) 0 u = (Inr n, v)"
    by (auto simp: wait_for_pods_ready_def bindE_eq_Inr)
  let ?call = "kubectl_wait (hx_kubeconfig args) (namespace spec) (max (POD_READY_TIMEOUT - (n * 2 + lag (Suc n))) 1)"
  have "\<exists>out err. t = emit (EvProc ?call (Exited (Some 0) out err)) v"
    using wait n by (cases "proc_env v (ext_trace v) ?call")
      (auto simp: wait_for_pods_ready_def bindE_def run_process_def Let_def ret_def fail_def split: if_splits)
  with spec show ?thesis by (intro exI [of _ spec]) auto
qed
end
