(* ===== verification/Spec2Isabelle.thy ===== *)
theory Spec2Isabelle
  imports Assurance Liveness Runs Api_Create Billing Api_Login Api_Team Agent_Tunnel Vault_Migrate Events
    Agent_Client Startup E2e
begin

text \<open>
  A verification library for the Kubinate control plane: the Rust workspace under
  \<open>src/crates\<close> and the agent under \<open>src/agent\<close>, with the parts of the Postgres schema
  (\<open>src/migrations\<close>) the behaviour depends on. Kubinate is a multi-tenant service that provisions k3s clusters at Hetzner.
  Requests come in through the API crate, are tied to an actor and an organization, and
  reach services and repositories over one database; long-running work is done by a
  workflow runner that drives the provider, \<open>ssh\<close>, \<open>helm\<close> and \<open>kubectl\<close>; agents in the
  clusters send metrics back through a tunnel.

  \<^bold>\<open>How code becomes definitions.\<close> An \<open>async fn\<close> that returns a \<open>Result\<close> is a function from
  the state to a result and a state, \<open>('s, 'e, 'a) op\<close> of \<open>Kub_Prelude\<close>; \<open>?\<close> is \<open>bindE\<close>,
  \<open>map_err\<close> and \<open>let _ =\<close> have combinators of the same names or meaning, a loop that stops
  at the first error is \<open>forE\<close> or \<open>collectE\<close>. A table is a list of rows. A transaction is
  \<open>tx\<close>: the round trip may fail, and an error inside rolls the block back. The state is a
  chain of extensible records, each theory adding the tables and the surroundings it
  introduces: \<open>pg\<close>, \<open>secrets_db\<close>, \<open>identity_db\<close>, \<open>cluster_db\<close>, \<open>addon_db\<close>, \<open>world\<close>, \<open>api\<close>, and
  from there \<open>mfa\<close> and \<open>login\<close>, \<open>billing\<close>, \<open>obs\<close>; \<open>vault_http\<close> extends \<open>secrets_db\<close>.
  What lies outside the repository is data of that state or an argument: the role of the
  connection pool, the clock, which round trip fails, the UUID generator and its text form,
  digests, the answers of HTTP services and child processes as functions of everything
  asked before, and the parsers and codecs of other crates. So a theorem without a
  hypothesis on them holds for every such surrounding, faults included; \<open>reliable\<close> or
  \<open>\<not> db_faulty\<close> names the absence of database faults where a theorem needs it. Row-level
  security is part of the model: \<open>rls\<close> decides which rows a statement sees, under the
  tenant of its transaction or, for a statement on the bare pool, under none.

  \<^bold>\<open>Theories, in the order of the code.\<close>
  \<^item> \<open>Kub_Prelude\<close>: identifiers, the operation monad with its rules (\<open>keeps_intros\<close>,
    \<open>frame_simps\<close>), string helpers, lemmas on tables.
  \<^item> \<open>Pg_Model\<close>: \<open>platform/src/error.rs\<close>, \<open>tenant.rs\<close>, \<open>audit.rs\<close>; transactions, row-level
    security, the hash-chained audit log of the migrations.
  \<^item> \<open>Secrets_Store\<close>, \<open>Vault_Http\<close>: \<open>platform/src/secrets.rs\<close>. The interface \<open>SecretStore\<close> is the
    locale \<open>secret_store\<close>, interpreted on \<open>PgcryptoStore\<close> and on \<open>VaultStore\<close>; the second theory
    has the transit client that talks to a Vault server.
  \<^item> \<open>Identity\<close>, \<open>Sessions_Mfa\<close>: the identity crate. Credentials, memberships, invites
    (\<open>repository.rs\<close>, \<open>service.rs\<close>); sessions, passkeys, recovery codes, OAuth states, external
    identities and WebAuthn ceremonies (\<open>session.rs\<close>, \<open>recovery_codes.rs\<close>, \<open>oidc.rs\<close>,
    \<open>webauthn.rs\<close>), with the triggers that maintain \<open>requires_mfa\<close> and \<open>mfa_enrolled\<close>.
  \<^item> \<open>Cluster\<close>, \<open>Addons\<close>: the cluster and addons crates, repositories and services.
  \<^item> \<open>Integrations\<close>: the Hetzner client and the \<open>ssh\<close>, \<open>helm\<close> and \<open>kubectl\<close> executors.
  \<^item> \<open>Workflows\<close>, \<open>Runner\<close>, \<open>Events\<close>: activities, workflow functions, the local runner and the
    event hub of the workflows crate.
  \<^item> \<open>Api_Auth\<close>, \<open>Api_Common\<close>, \<open>Api_Clusters\<close>, \<open>Api_Mfa\<close>, \<open>Api_Login\<close>, \<open>Api_Team\<close>: actors, problem
    responses, API keys, rate limiter; cluster, credential and addon handlers; passkey and
    recovery handlers; login, logout and profile; members, invites, organization settings
    and the audit log page.
  \<^item> \<open>Billing\<close>: the Stripe client, the billing crate and its handlers. \<open>Observability\<close>,
    \<open>Agent_Tunnel\<close>: the metric stores, their handlers, and the agent stream.
    \<open>Vault_Migrate\<close>: the tool that re-encrypts secrets.
  \<^item> \<open>Agent_Client\<close>: the agent of \<open>src/agent\<close>, its configuration and certificates
    (\<open>main.rs\<close>, \<open>cert.rs\<close>), the heartbeats and metric batches of one session and the reconnect
    loop with its backoff (\<open>connect.rs\<close>).
  \<^item> \<open>Startup\<close>: \<open>api/src/main.rs\<close> (the order of start-up, the choice of the secret, metric and
    workflow backends, the route table) over \<open>platform/src/config.rs\<close>, \<open>db.rs\<close> and \<open>metrics.rs\<close>.
  \<^item> \<open>E2e\<close>: the two drivers of the e2e crate that run against a provider account.
  \<^item> \<open>Runs\<close>, \<open>Liveness\<close>, \<open>Api_Create\<close>, \<open>Assurance\<close> and this theory hold properties that span
    components.

  \<^bold>\<open>What is shown.\<close>
  \<^item> Tenants. No operation of the identity and cluster components on one organization
    changes what another can see (\<open>identity_noninterference\<close>, \<open>cluster_noninterference\<close>); the
    metric store answers a tenant with its own samples; a body from the agent tunnel is
    labelled with an organization an earlier heartbeat vouched for; where label names break
    out of a selector is proved as well.
  \<^item> Secrets. Both stores refine one abstract map, also over the production client; the
    migration ends, never loses a plaintext, and skips rows when they need a second batch.
  \<^item> Access. Who passes the owner gate, what promotes a session, what a login issues, that
    an owner's request after a login needs a factor in between, that recovery codes and
    invites work once, that an organization keeps an owner, the bound of the rate limiter;
    and that a session can mint its own recovery codes.
  \<^item> Audit. The log the writes leave stays verifiable, and a change to a logged column is
    detected; a walk over the pages reads all of it once.
  \<^item> Provisioning. Destroying leaves no server of the record running, a successful run
    records what it created, a failed one leaks, scale-in drains first, waiting is bounded,
    and a run completes when its surroundings cooperate; creating through the API is
    idempotent per key; a subscriber of the event hub sees its cluster.
  \<^item> Money. A webhook acts only on a signed and recent delivery; a paid checkout is lost
    under the application role.
  \<^item> Agents. A session that the client runs against the handler of the control plane is
    recorded there; reconnects are paced; incomplete TLS settings fall back to a plain
    connection.
  \<^item> Start-up. Migrations come before the pool and the pool before the listener, the store
    that start-up selects gives back what it was given, no two routes answer one request.
    The residue check of the end-to-end driver does not see the workers of a run.
  \<^item> Texts. Shell escaping, selectors, cookies and signatures are read back by readers
    written down here.

  \<^bold>\<open>Locales.\<close> An interface that one component relies on is a locale, its client lemmas are
  proved in it, and it is interpreted on the definitions of this model: \<open>secret_store\<close>,
  \<open>audit_blind\<close> (what audit entries leave alone), \<open>tenant_metrics\<close>, \<open>write_sink\<close> (the store
  behind the tunnel), \<open>passive_transit\<close> (in memory and over HTTP), \<open>ceremony_store\<close>, and those
  of the runner.

  \<^bold>\<open>Bounds.\<close> Polling for cloud-init counts down from 60 attempts and an SSH command from
  its configured retries, as the code does; both are structural. The loop of the migration
  and the walk over the audit pages have no counter in the code: the first is a
  \<open>partial_function\<close> shown to return, the second a \<open>function\<close> with a measure. The reader of
  selectors in \<open>Observability\<close> takes fuel, one unit per matcher, and its theorem asks for as
  much as there are matchers. Machine integers are kept at their width where the code can
  wrap: the timestamp drift of a signature, the query window, the worker count, the delay
  of a reconnect with the rounding of the \<open>f64\<close> product. The waiting loops of the end-to-end
  driver stop at a deadline of a clock that advances at least by the time slept; that is
  their measure.

  \<^bold>\<open>Simplifications.\<close> Instants are integers, in microseconds where the database keeps them
  and in milliseconds or seconds where the code does. A task handed to \<open>tokio::spawn\<close> by a
  handler runs to its end where it is spawned, and transactions do not interleave. Floats
  of metric samples are their decimal texts. Log lines and gauges are left out.

  \<^bold>\<open>Not modelled.\<close> \<open>agent-proto\<close> is generated code. The log subscriber of
  \<open>platform/src/telemetry.rs\<close> and the newtypes of \<open>ids.rs\<close> make no decision of their own. Of
  \<open>main.rs\<close> the accept loop, the middleware stack and the shutdown signal are left to the
  server library. Of the end-to-end drivers the point at which the time limit drops a run
  is not fixed. The web front end under \<open>src/frontend\<close>, the charts and the infrastructure
  files are not Rust.
\<close>

section \<open>From a login to an owner's request\<close>

text \<open>
  The three handlers that decide over an owner's request are in three modules: the login
  callback issues the session, the MFA handlers promote it, the extractor of the owner
  routes reads it. \<open>factor_run\<close> is any sequence of calls of the MFA handlers, by any users.
\<close>

definition factor_run ::
    "('z mfa_scheme, 'ch, 'resp, 'st, 'pk, 'res) mfa_app \<Rightarrow> (session_user \<times> headers \<times> 'resp factor_call) list \<Rightarrow> 'z mfa_scheme \<Rightarrow> 'z mfa_scheme" where
  "factor_run st calls s = fold (\<lambda>(user, h, c). factor_exec st user h c) calls s"

lemma factor_run_simps [simp]:
  "factor_run st [] s = s" "factor_run st ((user, h, c) # calls) s = factor_run st calls (factor_exec st user h c s)"
  by (simp_all add: factor_run_def)

lemma satisfied_after_factor:
  assumes "ma_ceremonies st = Some (lib, pg_ceremony_store)"
    and "\<forall>x \<in> set (sessions s). s_id x = sid \<longrightarrow> \<not> s_mfa_satisfied x"
    and "x \<in> set (sessions (factor_run st calls s))" and "s_id x = sid" and "s_mfa_satisfied x"
  shows "\<exists>before user h c after. calls = before @ (user, h, c) # after \<and> su_session user = sid
    \<and> factor_spent st lib user c (factor_run st before s) (factor_run st (before @ [(user, h, c)]) s)"
  using assms(2-)
proof (induction calls arbitrary: s)
  case Nil
  then show ?case by simp
next
  case (Cons call calls)
  obtain user h c where call: "call = (user, h, c)" by (cases call) auto
  let ?t = "factor_exec st user h c s"
  from factor_step [OF assms(1) refl, of user h c s] show ?case
  proof
    assume "sessions ?t = sessions s"
    with Cons.IH [of ?t] Cons.prems call obtain before user' h' c' after where
      "calls = before @ (user', h', c') # after" "su_session user' = sid"
      "factor_spent st lib user' c' (factor_run st before ?t) (factor_run st (before @ [(user', h', c')]) ?t)" by auto
    then show ?thesis by (intro exI [of _ "call # before"] exI) (auto simp: call)
  next
    assume step: "factor_spent st lib user c s ?t
      \<and> sessions ?t = sql_update (\<lambda>x. s_id x = su_session user \<and> s_revoked_at x = None) (\<lambda>x. x\<lparr>s_mfa_satisfied := True\<rparr>) (sessions s)"
    show ?thesis
    proof (cases "su_session user = sid")
      case True
      with step show ?thesis by (intro exI [of _ "[]"] exI) (auto simp: call)
    next
      case False
      with step Cons.prems(1) have "\<forall>x \<in> set (sessions ?t). s_id x = sid \<longrightarrow> \<not> s_mfa_satisfied x"
        by (auto simp: set_sql_update)
      with Cons.IH [of ?t] Cons.prems call obtain before user' h' c' after where
        "calls = before @ (user', h', c') # after" "su_session user' = sid"
        "factor_spent st lib user' c' (factor_run st before ?t) (factor_run st (before @ [(user', h', c')]) ?t)" by auto
      then show ?thesis by (intro exI [of _ "call # before"] exI) (auto simp: call)
    qed
  qed
qed

lemma owner_session_satisfied:
  assumes "extract_owner_actor st h s = (Inr o', t)" and "\<not> app_allow_header_actor st" and "act_session (own_inner o') \<noteq> nil_uuid"
  shows "\<exists>x \<in> set (sessions s). s_id x = act_session (own_inner o') \<and> s_mfa_satisfied x"
proof -
  obtain a u v where a: "extract_actor st h s = (Inr a, u)" and g: "mfa_gate a u = (Inr (), v)" and o': "own_inner o' = a"
    using assms(1) by (auto simp: extract_owner_actor_def bindE_eq_Inr ret_def)
  from mfa_gate_ok [OF g] extract_actor_cases [OF a assms(2)] assms(3) show ?thesis unfolding o' by fastforce
qed

lemma callback_holds_back:
  assumes "auth_callback la h code tok s = (Inr resp, t)" and "reliable s"
    and "x \<in> set (sessions t)" and "s_id x \<notin> s_id ` set (sessions s)"
    and "find (\<lambda>y. u_id y = s_user x) (users s) = Some y" and "u_requires_mfa y" and "u_mfa_enrolled y"
  shows "\<forall>z \<in> set (sessions t). s_id z = s_id x \<longrightarrow> \<not> s_mfa_satisfied z"
proof -
  obtain s2 s3 profile ses where s2: "sessions s2 = sessions s" "users s2 = users s" "reliable s2"
    and rev: "revoke_cookie_session la h s2 = (Inr () :: api_error + unit, s3)"
    and sin: "sign_in (idp_of_profile profile) (header_str h ''user-agent'') s3 = (Inr ses, t)"
    by (rule callback_steps [OF assms(1,2)]) blast
  have s3: "users s3 = users s" "s_id ` set (sessions s3) = s_id ` set (sessions s)" using revoke_cookie_run [OF rev s2(3)] s2 by auto
  obtain row where row: "sessions t = sessions s3 @ [row]" "s_id row \<notin> s_id ` set (sessions s3)"
    "s_mfa_satisfied row \<longleftrightarrow> \<not> (\<exists>y. find (\<lambda>y. u_id y = s_user row) (users s) = Some y \<and> u_requires_mfa y \<and> u_mfa_enrolled y)"
    using sign_in_ok(1) [OF sin] s3(1) by auto
  have x: "x = row" using assms(3,4) row(1) s3(2) by force
  moreover have "z = row" if "z \<in> set (sessions t)" "s_id z = s_id row" for z
    using that row(1,2) by (metis UnE empty_iff imageI insert_iff list.set(1,2) set_append)
  ultimately show ?thesis using assms(5-7) row(3) by metis
qed


text \<open>The bound of \<open>u32\<close>, compared as an integer when it is evaluated.\<close>

lemma count_live_code [code]:
  "count_live u = tx Database (\<lambda>s.
     (Inr (let n = sql_count (\<lambda>r. rc_user r = u \<and> rc_used_at r = None) (recovery_codes s)
           in if int n \<le> 4294967295 then n else 4294967295), s))"
  by (simp add: count_live_def Let_def)

definition demo_held_back :: login where
  "demo_held_back = demo_login\<lparr>users := map (\<lambda>u. u\<lparr>u_mfa_enrolled := True\<rparr>) (users demo_login),
     recovery_codes := [\<lparr>rc_id = 90, rc_user = 11, rc_code_hash = ''C'', rc_created_at = 0, rc_used_at = None\<rparr>]\<rparr>"

definition demo_factor_app :: "(login, unit, string, string, string, nat) mfa_app" where
  "demo_factor_app =
     \<lparr>app_runner = app_runner demo_login_app, app_secret_store = app_secret_store demo_login_app,
      app_settings = app_settings demo_login_app, app_allow_header_actor = False, app_parse_uuid = parse_nat,
      ma_ceremonies = Some (demo_lib, pg_ceremony_store), ma_de_passkey = Inr, ma_resp_id = (\<lambda>r. r),
      ma_b64url_encode = (\<lambda>x. x), ma_b64url_decode = Some\<rparr>"


end
